(* ===== verification/GoInt.thy ===== *)
theory GoInt
  imports Prelude
begin

text \<open>
  Go's 64-bit integers, \<open>time.Duration\<close> (nanoseconds in an \<open>int64\<close>) and \<open>time.Time\<close>.

  An \<open>int64\<close> is an \<open>int\<close> with the wrap-around of two's complement written out by \<open>i64\<close>.
  A \<open>time.Time\<close> is the nanosecond count since the Unix epoch (its wall-clock reading; the
  monotonic reading is not modelled). \<open>Sub\<close> saturates, as the library documents, and \<open>Unix\<close>
  rounds towards minus infinity, since a \<open>Time\<close> keeps its nanoseconds in \<open>[0, 10^9)\<close>.
\<close>

section \<open>Two's complement\<close>

definition i64 :: "int \<Rightarrow> int" where
  "i64 x = (x + 2 ^ 63) mod 2 ^ 64 - 2 ^ 63"

definition in_i64 :: "int \<Rightarrow> bool" where
  "in_i64 x \<longleftrightarrow> - (2 ^ 63) \<le> x \<and> x < 2 ^ 63"

lemma in_i64_i64 [simp]: "in_i64 (i64 x)"
proof -
  have "0 \<le> (x + 2 ^ 63) mod 2 ^ 64" "(x + 2 ^ 63) mod 2 ^ 64 < 2 ^ 64"
    by (rule pos_mod_sign, simp, rule pos_mod_bound, simp)
  then show ?thesis unfolding i64_def in_i64_def by simp
qed

lemma i64_id: "in_i64 x \<Longrightarrow> i64 x = x"
  by (simp add: i64_def in_i64_def)

lemma i64_idem [simp]: "i64 (i64 x) = i64 x"
  by (simp add: i64_id)

text \<open>A left shift of an \<open>int64\<close> drops the high bits and may change the sign.\<close>

definition shl64 :: "int \<Rightarrow> nat \<Rightarrow> int" where
  "shl64 x k = i64 (x * 2 ^ k)"

text \<open>Integer division truncates towards zero in Go.\<close>

definition go_div :: "int \<Rightarrow> int \<Rightarrow> int" where
  "go_div a b = sgn a * sgn b * (\<bar>a\<bar> div \<bar>b\<bar>)"

lemma go_div_nonneg: "0 \<le> a \<Longrightarrow> 0 < b \<Longrightarrow> go_div a b = a div b"
  by (cases "a = 0") (auto simp: go_div_def sgn_if)

section \<open>Durations and times\<close>

type_synonym duration = int
type_synonym time = int

definition Second :: duration where "Second = 10 ^ 9"
definition Minute :: duration where "Minute = 60 * Second"
definition Hour :: duration where "Hour = 60 * Minute"

text \<open>The zero \<open>time.Time\<close> is 1 January of year 1, \<open>62135596800\<close> seconds before the epoch.\<close>

definition zero_time :: time where "zero_time = - 62135596800 * Second"

definition time_add :: "time \<Rightarrow> duration \<Rightarrow> time" where
  "time_add t d = t + d"

definition time_sub :: "time \<Rightarrow> time \<Rightarrow> duration" where
  "time_sub t u = max (- (2 ^ 63)) (min (2 ^ 63 - 1) (t - u))"

definition time_unix :: "time \<Rightarrow> int" where
  "time_unix t = t div Second"

definition unix_time :: "int \<Rightarrow> time" where
  "unix_time s = s * Second"

lemma Second_pos [simp]: "0 < Second"
  by (simp add: Second_def)

lemma Second_nonzero [simp]: "Second \<noteq> 0"
  by (simp add: Second_def)

lemma time_unix_unix_time [simp]: "time_unix (unix_time s) = s"
  by (simp add: time_unix_def unix_time_def)

lemma unix_time_inj [simp]: "unix_time a = unix_time b \<longleftrightarrow> a = b"
  by (simp add: unix_time_def)

lemma time_unix_mono: "t \<le> u \<Longrightarrow> time_unix t \<le> time_unix u"
  by (simp add: time_unix_def zdiv_mono1)

text \<open>Storing a time in seconds loses less than a second, always towards the past.\<close>

lemma unix_time_time_unix:
  "unix_time (time_unix t) \<le> t" "t < unix_time (time_unix t) + Second"
proof -
  have "t = t div Second * Second + t mod Second" by simp
  moreover have "0 \<le> t mod Second" "t mod Second < Second" by simp_all
  ultimately show "unix_time (time_unix t) \<le> t" "t < unix_time (time_unix t) + Second"
    unfolding unix_time_def time_unix_def by linarith+
qed

lemma time_sub_self [simp]: "time_sub t t = 0"
  by (simp add: time_sub_def)

lemma time_sub_less:
  "0 < d \<Longrightarrow> d < 2 ^ 63 \<Longrightarrow> time_sub t u < d \<longleftrightarrow> t < u + d"
  by (auto simp: time_sub_def)

end
