(* ===== verification/GoStrings.thy ===== *)
theory GoStrings
  imports GoInt
begin

text \<open>
  What the code uses of Go's \<open>strings\<close> and \<open>strconv\<close>. A Go string is a byte sequence and a
  \<open>char\<close> of HOL is a byte, so \<open>string\<close> is Go's string. \<open>unicode.IsSpace\<close> is the list of the
  UTF-8 encodings of the runes it accepts; \<open>strings.ToLower\<close> maps ASCII strings by itself and
  hands any other string to a parameter standing for the Unicode case tables.
\<close>

section \<open>Prefixes, suffixes, substrings\<close>

definition has_prefix :: "string \<Rightarrow> string \<Rightarrow> bool" where
  "has_prefix s p \<longleftrightarrow> take (length p) s = p"

definition has_suffix :: "string \<Rightarrow> string \<Rightarrow> bool" where
  "has_suffix s p \<longleftrightarrow> has_prefix (rev s) (rev p)"

fun str_contains :: "string \<Rightarrow> string \<Rightarrow> bool" where
  "str_contains [] sub = (sub = [])"
| "str_contains (c # s) sub = (has_prefix (c # s) sub \<or> str_contains s sub)"

definition trim_prefix :: "string \<Rightarrow> string \<Rightarrow> string" where
  "trim_prefix s p = (if has_prefix s p then drop (length p) s else s)"

definition trim_suffix :: "string \<Rightarrow> string \<Rightarrow> string" where
  "trim_suffix s p = (if has_suffix s p then take (length s - length p) s else s)"

lemma has_prefix_iff: "has_prefix s p \<longleftrightarrow> (\<exists>t. s = p @ t)"
proof
  assume "has_prefix s p"
  then have "s = p @ drop (length p) s"
    unfolding has_prefix_def by (metis append_take_drop_id)
  then show "\<exists>t. s = p @ t" ..
qed (auto simp: has_prefix_def)

lemma has_prefix_append [simp]: "has_prefix (p @ s) p"
  by (auto simp: has_prefix_iff)

lemma str_contains_append: "str_contains (xs @ sub @ ys) sub"
proof (induction xs)
  case Nil
  show ?case
  proof (cases "sub @ ys")
    case Nil
    then show ?thesis by simp
  next
    case (Cons c s)
    then show ?thesis using has_prefix_append [of sub ys] by simp
  qed
qed simp

section \<open>White space\<close>

text \<open>The UTF-8 encodings of the runes for which \<open>unicode.IsSpace\<close> holds: the six ASCII ones,
  U+0085, U+00A0, U+1680, U+2000 to U+200A, U+2028, U+2029, U+202F, U+205F and U+3000.\<close>

definition space_runes :: "string list" where
  "space_runes =
     [[CHR 0x20], [CHR 0x09], [CHR 0x0A], [CHR 0x0B], [CHR 0x0C], [CHR 0x0D],
      [CHR 0xC2, CHR 0x85], [CHR 0xC2, CHR 0xA0],
      [CHR 0xE1, CHR 0x9A, CHR 0x80],
      [CHR 0xE2, CHR 0x80, CHR 0x80], [CHR 0xE2, CHR 0x80, CHR 0x81],
      [CHR 0xE2, CHR 0x80, CHR 0x82], [CHR 0xE2, CHR 0x80, CHR 0x83],
      [CHR 0xE2, CHR 0x80, CHR 0x84], [CHR 0xE2, CHR 0x80, CHR 0x85],
      [CHR 0xE2, CHR 0x80, CHR 0x86], [CHR 0xE2, CHR 0x80, CHR 0x87],
      [CHR 0xE2, CHR 0x80, CHR 0x88], [CHR 0xE2, CHR 0x80, CHR 0x89],
      [CHR 0xE2, CHR 0x80, CHR 0x8A],
      [CHR 0xE2, CHR 0x80, CHR 0xA8], [CHR 0xE2, CHR 0x80, CHR 0xA9],
      [CHR 0xE2, CHR 0x80, CHR 0xAF],
      [CHR 0xE2, CHR 0x81, CHR 0x9F],
      [CHR 0xE3, CHR 0x80, CHR 0x80]]"

lemma empty_notin_space_runes [simp]: "[] \<notin> set space_runes"
  by (simp add: space_runes_def)

lemma empty_notin_rev_runes [simp]: "[] \<notin> rev ` set space_runes"
  by (simp add: space_runes_def)

text \<open>The space rune a string starts with, if any.\<close>

definition lead_space :: "string list \<Rightarrow> string \<Rightarrow> string option" where
  "lead_space ps s = find (has_prefix s) ps"

lemma lead_space_shorter:
  assumes "lead_space ps s = Some p" and "[] \<notin> set ps"
  shows "length s - length p < length s"
proof -
  from assms have "has_prefix s p" "p \<noteq> []"
    unfolding lead_space_def by (auto dest: find_SomeD)
  then show ?thesis by (cases p) (auto simp: has_prefix_iff)
qed

text \<open>Drop every leading encoding of the list (which holds no empty string).\<close>

function strip_lead :: "string list \<Rightarrow> string \<Rightarrow> string" where
  "strip_lead ps s =
     (if [] \<in> set ps then s
      else case lead_space ps s of None \<Rightarrow> s | Some p \<Rightarrow> strip_lead ps (drop (length p) s))"
  by pat_completeness auto
termination
  by (relation "measure (\<lambda>(ps, s). length s)") (auto dest: lead_space_shorter)

declare strip_lead.simps [simp del]

text \<open>A string ends in a space rune iff its reversal starts with the rune's reversed encoding
  (a continuation byte belongs to the nearest lead byte before it).\<close>

definition TrimSpace :: "string \<Rightarrow> string" where
  "TrimSpace s = rev (strip_lead (map rev space_runes) (rev (strip_lead space_runes s)))"

text \<open>\<open>strings.Fields\<close>: the maximal runs without space runes.\<close>

function fields_from :: "string \<Rightarrow> string \<Rightarrow> string list" where
  "fields_from acc s =
     (case s of
        [] \<Rightarrow> (if acc = [] then [] else [rev acc])
      | c # t \<Rightarrow>
          (case lead_space space_runes s of
             Some p \<Rightarrow> (if acc = [] then [] else [rev acc]) @ fields_from [] (drop (length p) s)
           | None \<Rightarrow> fields_from (c # acc) t))"
  by pat_completeness auto
termination
  by (relation "measure (\<lambda>(acc, s). length s)")
    (auto dest: lead_space_shorter [OF _ empty_notin_space_runes])

declare fields_from.simps [simp del]

definition Fields :: "string \<Rightarrow> string list" where
  "Fields s = fields_from [] s"

fun join_with :: "string \<Rightarrow> string list \<Rightarrow> string" where
  "join_with sep [] = []"
| "join_with sep [x] = x"
| "join_with sep (x # y # zs) = x @ sep @ join_with sep (y # zs)"

lemma strip_lead_no_lead: "[] \<notin> set ps \<Longrightarrow> lead_space ps (strip_lead ps s) = None"
proof (induction ps s rule: strip_lead.induct)
  case (1 ps s)
  then show ?case by (simp add: strip_lead.simps [of ps s] split: option.splits)
qed

lemma strip_lead_fix: "lead_space ps s = None \<Longrightarrow> strip_lead ps s = s"
  by (simp add: strip_lead.simps)

lemma strip_lead_suffix: "\<exists>t. s = t @ strip_lead ps s"
proof (induction ps s rule: strip_lead.induct)
  case (1 ps s)
  show ?case
  proof (cases "[] \<in> set ps \<or> lead_space ps s = None")
    case True
    then have "strip_lead ps s = s" by (auto simp: strip_lead.simps [of ps s])
    then show ?thesis by simp
  next
    case False
    then obtain p where p: "[] \<notin> set ps" "lead_space ps s = Some p" by auto
    with 1 obtain t where "drop (length p) s = t @ strip_lead ps (drop (length p) s)" by blast
    then have "s = take (length p) s @ t @ strip_lead ps (drop (length p) s)"
      by (metis append_take_drop_id)
    then have "s = (take (length p) s @ t) @ strip_lead ps s"
      using p by (simp add: strip_lead.simps [of ps s])
    then show ?thesis by blast
  qed
qed

text \<open>A prefix of a string without a leading space rune has none either.\<close>

lemma lead_space_append_None: "lead_space ps (s @ t) = None \<Longrightarrow> lead_space ps s = None"
  by (auto simp: lead_space_def find_None_iff_all has_prefix_iff)

lemma TrimSpace_no_lead: "lead_space space_runes (TrimSpace s) = None"
proof -
  let ?u = "strip_lead space_runes s"
  obtain t where t: "rev ?u = t @ strip_lead (map rev space_runes) (rev ?u)"
    using strip_lead_suffix by blast
  then have "?u = rev (strip_lead (map rev space_runes) (rev ?u)) @ rev t"
    by (metis rev_append rev_rev_ident)
  then have "?u = TrimSpace s @ rev t" by (simp add: TrimSpace_def)
  moreover have "lead_space space_runes ?u = None" by (rule strip_lead_no_lead) simp
  ultimately show ?thesis by (metis lead_space_append_None)
qed

lemma TrimSpace_no_trail: "lead_space (map rev space_runes) (rev (TrimSpace s)) = None"
  unfolding TrimSpace_def rev_rev_ident by (rule strip_lead_no_lead) simp

lemma TrimSpace_idem [simp]: "TrimSpace (TrimSpace s) = TrimSpace s"
  by (subst TrimSpace_def) (simp add: strip_lead_fix TrimSpace_no_lead TrimSpace_no_trail)

lemma TrimSpace_Nil [simp]: "TrimSpace [] = []"
  by (simp add: TrimSpace_def strip_lead.simps lead_space_def space_runes_def has_prefix_def)

section \<open>Case mapping\<close>

definition ascii_lower :: "char \<Rightarrow> char" where
  "ascii_lower c = (let n = of_char c :: nat in if 65 \<le> n \<and> n \<le> 90 then char_of (n + 32) else c)"

definition is_ascii :: "string \<Rightarrow> bool" where
  "is_ascii s \<longleftrightarrow> list_all (\<lambda>c. (of_char c :: nat) < 128) s"

text \<open>\<open>strings.ToLower\<close>; \<open>um\<close> is the mapping of the Unicode tables on other strings.\<close>

definition ToLower :: "(string \<Rightarrow> string) \<Rightarrow> string \<Rightarrow> string" where
  "ToLower um s = (if is_ascii s then map ascii_lower s else um s)"

lemma ascii_lower_idem [simp]: "ascii_lower (ascii_lower c) = ascii_lower c"
  by (simp add: ascii_lower_def Let_def of_char_of)

section \<open>Decimal numbers\<close>

definition digit_char :: "nat \<Rightarrow> char" where
  "digit_char d = char_of (48 + d)"

definition digit_val :: "char \<Rightarrow> nat option" where
  "digit_val c = (let n = of_char c :: nat in if 48 \<le> n \<and> n \<le> 57 then Some (n - 48) else None)"

fun nat_str :: "nat \<Rightarrow> string" where
  "nat_str n = (if n < 10 then [digit_char n] else nat_str (n div 10) @ [digit_char (n mod 10)])"

declare nat_str.simps [simp del]

text \<open>\<open>strconv.FormatInt(x, 10)\<close> and \<open>strconv.Itoa\<close>.\<close>

definition FormatInt :: "int \<Rightarrow> string" where
  "FormatInt x = (if x < 0 then CHR ''-'' # nat_str (nat (- x)) else nat_str (nat x))"

fun parse_digits :: "nat \<Rightarrow> string \<Rightarrow> nat option" where
  "parse_digits acc [] = Some acc"
| "parse_digits acc (c # s) =
     (case digit_val c of None \<Rightarrow> None | Some d \<Rightarrow> parse_digits (10 * acc + d) s)"

text \<open>\<open>strconv.ParseInt(s, 10, 64)\<close> and \<open>strconv.Atoi\<close>: an optional sign, at least one digit,
  no underscores in base 10, and the value in range. \<open>None\<close> is any error.\<close>

definition ParseInt :: "string \<Rightarrow> int option" where
  "ParseInt s =
     (let (neg, ds) = (case s of
          [] \<Rightarrow> (False, [])
        | c # t \<Rightarrow> if c = CHR ''-'' then (True, t) else if c = CHR ''+'' then (False, t) else (False, s))
      in if ds = [] then None
         else case parse_digits 0 ds of
             None \<Rightarrow> None
           | Some n \<Rightarrow>
               if \<not> neg \<and> 2 ^ 63 \<le> int n \<or> neg \<and> 2 ^ 63 < int n then None
               else Some (if neg then - int n else int n))"

lemma digit_val_digit_char [simp]: "d < 10 \<Longrightarrow> digit_val (digit_char d) = Some d"
  by (simp add: digit_val_def digit_char_def Let_def of_char_of)

lemma parse_digits_append:
  "parse_digits a (s @ t) = (case parse_digits a s of None \<Rightarrow> None | Some b \<Rightarrow> parse_digits b t)"
  by (induction s arbitrary: a) (auto split: option.splits)

lemma parse_digits_nat_str: "parse_digits 0 (nat_str n) = Some n"
proof (induction n rule: nat_str.induct)
  case (1 n)
  show ?case
  proof (cases "n < 10")
    case True
    then show ?thesis by (simp add: nat_str.simps [of n])
  next
    case False
    with 1 show ?thesis by (simp add: nat_str.simps [of n] parse_digits_append)
  qed
qed

lemma nat_str_digits: "c \<in> set (nat_str n) \<Longrightarrow> digit_val c \<noteq> None"
proof (induction n arbitrary: c rule: nat_str.induct)
  case (1 n)
  then show ?case
    by (cases "n < 10") (auto simp: nat_str.simps [of n])
qed

lemma nat_str_nonempty [simp]: "nat_str n \<noteq> []"
  by (subst nat_str.simps) simp

lemma digit_val_sign [simp]: "digit_val (CHR ''-'') = None" "digit_val (CHR ''+'') = None"
  "digit_val (CHR '':'') = None"
  by (simp_all add: digit_val_def)

lemma nat_str_no_sep:
  "CHR ''-'' \<notin> set (nat_str n)" "CHR ''+'' \<notin> set (nat_str n)" "CHR '':'' \<notin> set (nat_str n)"
  using nat_str_digits [of _ n] by fastforce+

lemma FormatInt_no_colon: "CHR '':'' \<notin> set (FormatInt x)"
  by (simp add: FormatInt_def nat_str_no_sep)

text \<open>Printing and parsing an \<open>int64\<close> gives it back.\<close>

lemma ParseInt_nat_str: "int n < 2 ^ 63 \<Longrightarrow> ParseInt (nat_str n) = Some (int n)"
proof -
  assume n: "int n < 2 ^ 63"
  obtain c t where ct: "nat_str n = c # t" by (cases "nat_str n") auto
  then have "c \<noteq> CHR ''-''" "c \<noteq> CHR ''+''" using nat_str_no_sep [of n] by auto
  moreover have "parse_digits 0 (c # t) = Some n" using parse_digits_nat_str [of n] ct by simp
  ultimately show ?thesis using n ct by (simp add: ParseInt_def)
qed

lemma ParseInt_FormatInt: "in_i64 x \<Longrightarrow> ParseInt (FormatInt x) = Some x"
proof (cases "x < 0")
  case True
  moreover assume "in_i64 x"
  ultimately show ?thesis
    by (simp add: FormatInt_def ParseInt_def parse_digits_nat_str in_i64_def)
next
  case False
  moreover assume "in_i64 x"
  ultimately show ?thesis
    using ParseInt_nat_str [of "nat x"] by (simp add: FormatInt_def in_i64_def)
qed

end
