(* ===== verification/GoErrors.thy ===== *)
theory GoErrors
  imports GoStrings
begin

text \<open>
  Go error values. An error is a tree: a dynamic type (\<open>ekind\<close>), the text \<open>Error()\<close> returns, and
  the errors it wraps (\<open>fmt.Errorf\<close> with one or several \<open>%w\<close>). \<open>errors.Is\<close> and \<open>errors.As\<close> walk
  the tree in pre-order. The kinds are the sentinels of \<open>core\<close>, of \<open>context\<close> and of
  \<open>database/sql\<close>, and the error types of \<open>net\<close>, \<open>crypto/tls\<close> and \<open>crypto/x509\<close> the code asks for.
\<close>

datatype sentinel =
    SNotFound | SConflict | SValidation | SUnauthorized
  | SCanceled | SDeadlineExceeded | SNoRows

datatype ekind =
    KPlain
  | KSentinel sentinel
  | KNet bool                      \<comment> \<open>implements \<open>net.Error\<close>; its \<open>Timeout()\<close>\<close>
  | KDNS bool                      \<comment> \<open>\<open>*net.DNSError\<close>; its \<open>Timeout()\<close>\<close>
  | KCertVerification              \<comment> \<open>\<open>*tls.CertificateVerificationError\<close>\<close>
  | KUnknownAuthority              \<comment> \<open>\<open>x509.UnknownAuthorityError\<close>\<close>
  | KHostname                      \<comment> \<open>\<open>x509.HostnameError\<close>\<close>
  | KCertInvalid                   \<comment> \<open>\<open>x509.CertificateInvalidError\<close>\<close>
  | KRecordHeader                  \<comment> \<open>\<open>tls.RecordHeaderError\<close>\<close>

datatype gerr = GErr (err_kind: ekind) (err_text: string) (err_wraps: "gerr list")

section \<open>Sentinels\<close>

text \<open>\<open>internal/core/errors.go\<close>.\<close>

definition ErrNotFound :: gerr where "ErrNotFound = GErr (KSentinel SNotFound) ''not found'' []"
definition ErrConflict :: gerr where "ErrConflict = GErr (KSentinel SConflict) ''conflict'' []"
definition ErrValidation :: gerr where
  "ErrValidation = GErr (KSentinel SValidation) ''validation failed'' []"
definition ErrUnauthorized :: gerr where
  "ErrUnauthorized = GErr (KSentinel SUnauthorized) ''unauthorized'' []"

text \<open>Of the standard library.\<close>

definition Canceled :: gerr where
  "Canceled = GErr (KSentinel SCanceled) ''context canceled'' []"
definition DeadlineExceeded :: gerr where
  "DeadlineExceeded = GErr (KSentinel SDeadlineExceeded) ''context deadline exceeded'' []"
definition ErrNoRows :: gerr where
  "ErrNoRows = GErr (KSentinel SNoRows) ''sql: no rows in result set'' []"

text \<open>\<open>errors.New\<close>, and \<open>fmt.Errorf\<close> whose formatted text is \<open>t\<close> and whose \<open>%w\<close> operands are \<open>ws\<close>.\<close>

definition errors_New :: "string \<Rightarrow> gerr" where "errors_New t = GErr KPlain t []"
definition Errorf :: "string \<Rightarrow> gerr list \<Rightarrow> gerr" where "Errorf t ws = GErr KPlain t ws"

section \<open>\<open>errors.Is\<close> and \<open>errors.As\<close>\<close>

fun err_is :: "sentinel \<Rightarrow> gerr \<Rightarrow> bool" where
  "err_is s (GErr k t ws) = (k = KSentinel s \<or> list_ex (err_is s) ws)"

text \<open>The first error of the tree, in pre-order, that satisfies a test on its dynamic type.\<close>

fun err_as :: "(ekind \<Rightarrow> 'a option) \<Rightarrow> gerr \<Rightarrow> 'a option"
  and err_as_list :: "(ekind \<Rightarrow> 'a option) \<Rightarrow> gerr list \<Rightarrow> 'a option" where
  "err_as f (GErr k t ws) = (case f k of Some a \<Rightarrow> Some a | None \<Rightarrow> err_as_list f ws)"
| "err_as_list f [] = None"
| "err_as_list f (e # es) = (case err_as f e of Some a \<Rightarrow> Some a | None \<Rightarrow> err_as_list f es)"

text \<open>What implements \<open>net.Error\<close>, with its \<open>Timeout()\<close>: the net errors, DNS errors and
  \<open>context.DeadlineExceeded\<close>.\<close>

fun net_error :: "ekind \<Rightarrow> bool option" where
  "net_error (KNet t) = Some t"
| "net_error (KDNS t) = Some t"
| "net_error (KSentinel SDeadlineExceeded) = Some True"
| "net_error _ = None"

definition is_kind :: "(ekind \<Rightarrow> bool) \<Rightarrow> gerr \<Rightarrow> bool" where
  "is_kind P e \<longleftrightarrow> err_as (\<lambda>k. if P k then Some () else None) e \<noteq> None"

lemma err_is_Errorf [simp]: "err_is s (Errorf t ws) = list_ex (err_is s) ws"
  by (simp add: Errorf_def)

lemma err_is_New [simp]: "\<not> err_is s (errors_New t)"
  by (simp add: errors_New_def)

lemma err_is_sentinels [simp]:
  "err_is s ErrNotFound = (s = SNotFound)" "err_is s ErrConflict = (s = SConflict)"
  "err_is s ErrValidation = (s = SValidation)" "err_is s ErrUnauthorized = (s = SUnauthorized)"
  "err_is s Canceled = (s = SCanceled)" "err_is s DeadlineExceeded = (s = SDeadlineExceeded)"
  "err_is s ErrNoRows = (s = SNoRows)"
  by (auto simp: ErrNotFound_def ErrConflict_def ErrValidation_def ErrUnauthorized_def
      Canceled_def DeadlineExceeded_def ErrNoRows_def)

section \<open>Contexts\<close>

text \<open>A \<open>context.Context\<close> as an operation sees it when it starts: \<open>ctx.Err()\<close>, which is \<open>None\<close>
  while the context is live and \<open>Canceled\<close> or \<open>DeadlineExceeded\<close> afterwards.\<close>

type_synonym ctx = "gerr option"

section \<open>Panics\<close>

text \<open>A call returns a value or panics with a text (what \<open>fmt.Sprintf("%v", r)\<close> prints of it).\<close>

datatype 'a outcome = Ret 'a | Panic string

end
