(* ===== verification/CoreTypes.thy ===== *)
theory CoreTypes
  imports GoErrors
begin

text \<open>
  The data model of \<open>internal/core/types.go\<close> and the message types of \<open>internal/core/ports.go\<close>.
  A pointer that may be nil is an option. \<open>EntryStatus\<close> and \<open>ExtractState\<close> are Go strings with
  named values; any other string is the last constructor.
\<close>

type_synonym ID = int

definition DefaultUserID :: ID where "DefaultUserID = 1"

record Category =
  c_ID :: ID
  c_UserID :: ID
  c_Title :: string

record Feed =
  f_ID :: ID
  f_UserID :: ID
  f_CategoryID :: "ID option"
  f_FeedURL :: string
  f_SiteURL :: string
  f_Title :: string
  f_UserTitle :: string
  f_Description :: string
  f_ETag :: string
  f_LastModified :: string
  f_Disabled :: bool
  f_FetchFullContent :: bool
  f_CheckedAt :: "time option"
  f_NextCheckAt :: time
  f_ErrorCount :: int
  f_LastError :: string
  f_TTL :: duration
  f_CreatedAt :: time
  f_UpdatedAt :: time

text \<open>The zero value of \<open>core.Feed\<close>, which a Go composite literal starts from.\<close>

definition zero_feed :: Feed where
  "zero_feed = \<lparr>f_ID = 0, f_UserID = 0, f_CategoryID = None, f_FeedURL = [], f_SiteURL = [],
     f_Title = [], f_UserTitle = [], f_Description = [], f_ETag = [], f_LastModified = [],
     f_Disabled = False, f_FetchFullContent = False, f_CheckedAt = None,
     f_NextCheckAt = zero_time, f_ErrorCount = 0, f_LastError = [], f_TTL = 0,
     f_CreatedAt = zero_time, f_UpdatedAt = zero_time\<rparr>"

datatype EntryStatus = StatusUnread | StatusRead | StatusOther string

fun EntryStatus_Valid :: "EntryStatus \<Rightarrow> bool" where
  "EntryStatus_Valid s = (s = StatusUnread \<or> s = StatusRead)"

datatype ExtractState =
  ExtractNone | ExtractPending | ExtractDone | ExtractFailed | ExtractOther string

record Entry =
  e_ID :: ID
  e_UserID :: ID
  e_FeedID :: ID
  e_GUID :: string
  e_URL :: string
  e_Title :: string
  e_Author :: string
  e_Content :: string
  e_Summary :: string
  e_PublishedAt :: time
  e_Status :: EntryStatus
  e_Starred :: bool
  e_ReadAt :: "time option"
  e_CreatedAt :: time
  e_Hash :: string
  e_CommentsURL :: string
  e_ExtractState :: ExtractState
  e_ExtractAttempts :: int
  e_ExtractError :: string

definition zero_entry :: Entry where
  "zero_entry = \<lparr>e_ID = 0, e_UserID = 0, e_FeedID = 0, e_GUID = [], e_URL = [], e_Title = [],
     e_Author = [], e_Content = [], e_Summary = [], e_PublishedAt = zero_time,
     e_Status = StatusOther [], e_Starred = False, e_ReadAt = None, e_CreatedAt = zero_time,
     e_Hash = [], e_CommentsURL = [], e_ExtractState = ExtractOther [], e_ExtractAttempts = 0,
     e_ExtractError = []\<rparr>"

record FeedEntryStats =
  st_Total :: int
  st_Unread :: int

datatype Order = OrderPublishedDesc | OrderReadAtDesc

record Cursor =
  cur_Key :: int
  cur_ID :: ID

record EntryFilter =
  fl_FeedID :: "ID option"
  fl_Status :: "EntryStatus option"
  fl_Starred :: "bool option"
  fl_CategoryID :: "ID option"
  fl_Uncategorised :: bool
  fl_Limit :: int
  fl_Cursor :: "Cursor option"
  fl_Order :: Order

definition zero_filter :: EntryFilter where
  "zero_filter = \<lparr>fl_FeedID = None, fl_Status = None, fl_Starred = None, fl_CategoryID = None,
     fl_Uncategorised = False, fl_Limit = 0, fl_Cursor = None, fl_Order = OrderPublishedDesc\<rparr>"

text \<open>\<open>func (f *Feed) DisplayTitle() string\<close>.\<close>

definition DisplayTitle :: "Feed \<Rightarrow> string" where
  "DisplayTitle f = (let t = TrimSpace (f_UserTitle f) in if t \<noteq> [] then t else f_Title f)"

section \<open>Messages of the ports\<close>

record FetchRequest =
  rq_URL :: string
  rq_ETag :: string
  rq_LastModified :: string

record FetchResponse =
  rs_Status :: int
  rs_NotModified :: bool
  rs_Body :: string
  rs_ContentType :: string
  rs_ETag :: string
  rs_LastModified :: string
  rs_RetryAfter :: duration
  rs_FinalURL :: string
  rs_PermanentRedirect :: bool

record ParsedEntry =
  pe_GUID :: string
  pe_URL :: string
  pe_Title :: string
  pe_Author :: string
  pe_Content :: string
  pe_Summary :: string
  pe_CommentsURL :: string
  pe_PublishedAt :: time
  pe_Hash :: string

record ParsedFeed =
  pf_Title :: string
  pf_SiteURL :: string
  pf_Description :: string
  pf_TTL :: duration
  pf_Entries :: "ParsedEntry list"

end
