(* ===== verification/FeedUrl.thy ===== *)
theory FeedUrl
  imports CoreTypes
begin

text \<open>
  The pure helpers of \<open>internal/core/feed.go\<close> and \<open>scrape.go\<close>: URLs of feeds, titles, category ids,
  content types. \<open>url.Parse\<close>, \<open>URL.String\<close> and the Unicode tables behind \<open>strings.ToLower\<close> and
  \<open>strconv.Quote\<close> are the argument \<open>lib\<close>; \<open>URL\<close> has the fields of \<open>net/url\<close>, and \<open>Hostname\<close> and \<open>Port\<close>, which only look at
  \<open>Host\<close>, are written out.
\<close>

record URL =
  u_Scheme :: string
  u_Opaque :: string
  u_User :: "string option"
  u_Host :: string
  u_Path :: string
  u_RawPath :: string
  u_OmitHost :: bool
  u_ForceQuery :: bool
  u_RawQuery :: string
  u_Fragment :: string
  u_RawFragment :: string

record url_lib =
  ul_Parse :: "string \<Rightarrow> URL option"      \<comment> \<open>\<open>None\<close>: an error\<close>
  ul_String :: "URL \<Rightarrow> string"
  ul_lower :: "string \<Rightarrow> string"          \<comment> \<open>\<open>strings.ToLower\<close> of a string with non-ASCII bytes\<close>
  ul_quote :: "string \<Rightarrow> string"          \<comment> \<open>\<open>strconv.Quote\<close> of a string with non-ASCII bytes\<close>

section \<open>\<open>Hostname\<close> and \<open>Port\<close> of \<open>net/url\<close>\<close>

definition validOptionalPort :: "string \<Rightarrow> bool" where
  "validOptionalPort p \<longleftrightarrow> p = [] \<or> hd p = CHR '':'' \<and> (\<forall>c \<in> set (tl p). digit_val c \<noteq> None)"

text \<open>The host up to the last colon and the text from it on.\<close>

definition cut_last_colon :: "string \<Rightarrow> (string \<times> string) option" where
  "cut_last_colon s =
     (if CHR '':'' \<in> set s
      then let t = takeWhile (\<lambda>c. c \<noteq> CHR '':'') (rev s); n = length s - Suc (length t)
           in Some (take n s, drop n s)
      else None)"

definition splitHostPort :: "string \<Rightarrow> string \<times> string" where
  "splitHostPort hostPort =
     (let (host, port) = (case cut_last_colon hostPort of
            Some (h, p) \<Rightarrow> if validOptionalPort p then (h, tl p) else (hostPort, [])
          | None \<Rightarrow> (hostPort, []))
      in (if has_prefix host ''['' \<and> has_suffix host '']'' then tl (butlast host) else host, port))"

definition Hostname :: "URL \<Rightarrow> string" where "Hostname u = fst (splitHostPort (u_Host u))"
definition Port :: "URL \<Rightarrow> string" where "Port u = snd (splitHostPort (u_Host u))"

section \<open>URLs of feeds\<close>

definition normalizeFeedURL :: "url_lib \<Rightarrow> string \<Rightarrow> string" where
  "normalizeFeedURL lib raw =
     (let raw = TrimSpace raw in
      case ul_Parse lib raw of
        None \<Rightarrow> raw
      | Some u \<Rightarrow>
          let u = u\<lparr>u_Scheme := ToLower (ul_lower lib) (u_Scheme u),
                    u_Host := ToLower (ul_lower lib) (u_Host u)\<rparr>;
              u = (if u_Scheme u = ''http'' \<and> Port u = ''80''
                     \<or> u_Scheme u = ''https'' \<and> Port u = ''443''
                   then u\<lparr>u_Host := Hostname u\<rparr> else u)
          in ul_String lib (u\<lparr>u_Fragment := []\<rparr>))"

definition httpURL :: "url_lib \<Rightarrow> string \<Rightarrow> string" where
  "httpURL lib raw =
     (if raw = [] then []
      else case ul_Parse lib raw of
        None \<Rightarrow> []
      | Some u \<Rightarrow>
          if u_Scheme u \<noteq> ''http'' \<and> u_Scheme u \<noteq> ''https'' \<or> u_Host u = [] then [] else raw)"

definition orURL :: "string \<Rightarrow> string \<Rightarrow> string" where
  "orURL final fallback = (if final \<noteq> [] then final else fallback)"

definition canonicalURL :: "string \<Rightarrow> FetchResponse \<Rightarrow> string" where
  "canonicalURL current resp =
     (if rs_PermanentRedirect resp \<and> rs_FinalURL resp \<noteq> [] then rs_FinalURL resp else current)"

section \<open>Titles, ids, content types\<close>

definition orKeep :: "string \<Rightarrow> string \<Rightarrow> string" where
  "orKeep newv old = (if TrimSpace newv \<noteq> [] then newv else old)"

definition feedTitle :: "string \<Rightarrow> string \<Rightarrow> string" where
  "feedTitle title feedURL = (let t = TrimSpace title in if t \<noteq> [] then t else feedURL)"

definition sameID :: "ID option \<Rightarrow> ID option \<Rightarrow> bool" where
  "sameID a b = (if a = None \<or> b = None then a = None \<and> b = None else the a = the b)"

definition isHTML :: "url_lib \<Rightarrow> string \<Rightarrow> bool" where
  "isHTML lib contentType =
     (let ct = ToLower (ul_lower lib) contentType
      in str_contains ct ''text/html'' \<or> str_contains ct ''application/xhtml'')"

text \<open>\<open>strconv.Quote\<close> on the ASCII bytes.\<close>

definition hex_digit :: "nat \<Rightarrow> char" where
  "hex_digit n = ''0123456789abcdef'' ! n"

definition quote_char :: "char \<Rightarrow> string" where
  "quote_char c = (let n = (of_char c :: nat) in
     if c = CHR 0x22 then [CHR 0x5C, CHR 0x22] else if c = CHR 0x5C then [CHR 0x5C, CHR 0x5C]
     else if n = 7 then [CHR 0x5C, CHR ''a''] else if n = 8 then [CHR 0x5C, CHR ''b'']
     else if n = 12 then [CHR 0x5C, CHR ''f''] else if n = 10 then [CHR 0x5C, CHR ''n'']
     else if n = 13 then [CHR 0x5C, CHR ''r''] else if n = 9 then [CHR 0x5C, CHR ''t'']
     else if n = 11 then [CHR 0x5C, CHR ''v'']
     else if n < 32 \<or> n = 127 then [CHR 0x5C, CHR ''x'', hex_digit (n div 16), hex_digit (n mod 16)]
     else [c])"

definition Quote :: "url_lib \<Rightarrow> string \<Rightarrow> string" where
  "Quote lib s = (if \<forall>c \<in> set s. (of_char c :: nat) < 128
     then CHR 0x22 # concat (map quote_char s) @ [CHR 0x22] else ul_quote lib s)"

lemma sameID_eq [simp]: "sameID a b \<longleftrightarrow> a = b"
  by (cases a; cases b) (simp_all add: sameID_def)

lemma feedTitle_nonempty: "u \<noteq> [] \<Longrightarrow> feedTitle t u \<noteq> []"
  by (simp add: feedTitle_def Let_def)

lemma httpURL_cases: "httpURL lib raw = raw \<or> httpURL lib raw = []"
  by (simp add: httpURL_def split: option.split)

text \<open>Dropping a default port from an IPv6 literal drops its brackets, too: the address that is stored is
  another host with a port.\<close>

lemma normalize_drops_brackets:
  assumes "ul_Parse lib (TrimSpace raw) = Some (u\<lparr>u_Scheme := ''http'', u_Host := ''[2001:db8::1]:80''\<rparr>)"
  shows "normalizeFeedURL lib raw = ul_String lib (u\<lparr>u_Scheme := ''http'', u_Host := ''2001:db8::1'', u_Fragment := []\<rparr>)"
proof -
  have h: "ToLower (ul_lower lib) ''http'' = ''http''" "ToLower (ul_lower lib) ''[2001:db8::1]:80'' = ''[2001:db8::1]:80''"
    by (simp_all add: ToLower_def; code_simp)+
  have p: "Port (v\<lparr>u_Host := ''[2001:db8::1]:80''\<rparr>) = ''80''" "Hostname (v\<lparr>u_Host := ''[2001:db8::1]:80''\<rparr>) = ''2001:db8::1''" for v
    by (simp_all add: Port_def Hostname_def) (code_simp)+
  show ?thesis using assms p by (simp add: normalizeFeedURL_def Let_def h)
qed

end
