(* ===== verification/Metrics.thy ===== *)
theory Metrics
  imports CoreTypes
begin

text \<open>
  \<open>internal/core/metrics.go\<close>: the closed label enums of the metrics port, the classification of
  HTTP statuses and fetch errors, and the events a service emits into the port. A recording of the
  port is the list of events, oldest first.
\<close>

datatype PollResult =
    PollSuccess | PollNotModified | PollFetchError | PollHTTPError | PollParseError
  | PollStoreError | PollPanic

datatype ScrapeResult =
    ScrapeSuccess | ScrapeFetchError | ScrapeHTTPError | ScrapeExtractError | ScrapeRetried
  | ScrapeFailed

datatype ErrorComponent = CompFeedPoll | CompArticleScrape | CompDB | CompHTTPServer | CompImageProxy

datatype ErrorReason =
    ReasonTimeout | ReasonDNS | ReasonTLS | ReasonHTTP4xx | ReasonHTTP5xx | ReasonRateLimited
  | ReasonParse | ReasonInternal

definition AllPollResults :: "PollResult list" where
  "AllPollResults = [PollSuccess, PollNotModified, PollFetchError, PollHTTPError, PollParseError,
     PollStoreError, PollPanic]"

definition AllScrapeResults :: "ScrapeResult list" where
  "AllScrapeResults = [ScrapeSuccess, ScrapeFetchError, ScrapeHTTPError, ScrapeExtractError,
     ScrapeRetried, ScrapeFailed]"

text \<open>The calls of the \<open>Metrics\<close> interface.\<close>

datatype metric =
    FeedPollDone PollResult
  | ObserveFeedPoll duration
  | ScrapeDone ScrapeResult
  | ObserveArticleScrape duration
  | ErrorObserved ErrorComponent ErrorReason
  | AddPollInflight int
  | AddScrapeInflight int
  | PollerTicked time
  | ScraperTicked time

section \<open>Classification\<close>

definition classifyHTTPStatus :: "int \<Rightarrow> ErrorReason" where
  "classifyHTTPStatus status =
     (if status = 429 then ReasonRateLimited
      else if 500 \<le> status then ReasonHTTP5xx
      else if 400 \<le> status then ReasonHTTP4xx
      else ReasonInternal)"

definition ctxShutdownCanceled :: "ctx \<Rightarrow> gerr \<Rightarrow> bool" where
  "ctxShutdownCanceled ctx err \<longleftrightarrow> ctx \<noteq> None \<and> err_is SCanceled err"

definition ClassifyFetchError :: "gerr \<Rightarrow> ErrorReason" where
  "ClassifyFetchError err =
     (if err_is SDeadlineExceeded err then ReasonTimeout
      else if err_as net_error err = Some True then ReasonTimeout
      else if is_kind (\<lambda>k. \<exists>t. k = KDNS t) err then ReasonDNS
      else if is_kind (\<lambda>k. k = KCertVerification) err \<or> is_kind (\<lambda>k. k = KUnknownAuthority) err
           \<or> is_kind (\<lambda>k. k = KHostname) err \<or> is_kind (\<lambda>k. k = KCertInvalid) err
           \<or> is_kind (\<lambda>k. k = KRecordHeader) err then ReasonTLS
      else ReasonInternal)"

lemma set_AllPollResults: "set AllPollResults = UNIV" "distinct AllPollResults"
  by (auto simp: AllPollResults_def) (case_tac x; simp)

lemma set_AllScrapeResults: "set AllScrapeResults = UNIV" "distinct AllScrapeResults"
  by (auto simp: AllScrapeResults_def) (case_tac x; simp)

text \<open>Which statuses carry a \<open>Retry-After\<close> in the poll and scrape ladders.\<close>

lemma classifyHTTPStatus_retryable:
  "classifyHTTPStatus s \<in> {ReasonRateLimited, ReasonHTTP5xx} \<longleftrightarrow> s = 429 \<or> 500 \<le> s"
  by (auto simp: classifyHTTPStatus_def)

text \<open>Wrapping does not change what \<open>errors.As\<close> finds, as long as the wrapping error and the
  errors wrapped before the cause are of no kind asked for.\<close>

lemma err_as_Errorf: "f KPlain = None \<Longrightarrow> err_as f (Errorf t ws) = err_as_list f ws"
  by (simp add: Errorf_def)

lemma err_as_Errorf_validation:
  "f KPlain = None \<Longrightarrow> f (KSentinel SValidation) = None \<Longrightarrow>
   err_as f (Errorf t [ErrValidation, e]) = err_as f e"
  by (simp add: Errorf_def ErrValidation_def split: option.split)

lemma is_kind_Errorf_validation:
  "\<not> P KPlain \<Longrightarrow> \<not> P (KSentinel SValidation) \<Longrightarrow>
   is_kind P (Errorf t [ErrValidation, e]) = is_kind P e"
  by (simp add: is_kind_def err_as_Errorf_validation)

text \<open>The resolve path wraps a fetch error as \<open>"%w: fetch failed: %w"\<close>; its classification is
  that of the fetch error itself, whatever the text.\<close>

lemma classify_through_validation_wrap:
  "ClassifyFetchError (Errorf t [ErrValidation, e]) = ClassifyFetchError e"
  by (simp add: ClassifyFetchError_def err_as_Errorf_validation is_kind_Errorf_validation)

lemma classify_timeout_first:
  "ClassifyFetchError (GErr (KDNS True) t ws) = ReasonTimeout"
  by (simp add: ClassifyFetchError_def)

end
