(* ===== verification/Float64.thy ===== *)
theory Float64
  imports Complex_Main GoInt
begin

text \<open>
  IEEE 754 binary64 arithmetic as Go's \<open>float64\<close> uses it: a finite value is the rational it
  denotes, an operation is the exact result rounded to nearest, ties to even (53 bits of
  precision, subnormals below \<open>2^-1022\<close>, overflow to infinity at \<open>2^1024\<close>). The sign of a zero is
  not kept: nothing here divides by a zero that an operation produced.
\<close>

datatype f64 = Fin rat | PInf | NInf | NaN

section \<open>Rounding\<close>

definition round_even :: "rat \<Rightarrow> int" where
  "round_even x =
     (let f = \<lfloor>x\<rfloor>; d = x - of_int f in
      if d < 1 / 2 then f else if 1 / 2 < d then f + 1 else if even f then f else f + 1)"

text \<open>\<open>\<lfloor>log 2 a\<rfloor>\<close> for a positive rational, by the lengths of its numerator and denominator.\<close>

fun bit_length :: "nat \<Rightarrow> nat" where
  "bit_length n = (if n = 0 then 0 else Suc (bit_length (n div 2)))"

declare bit_length.simps [simp del]

definition ilog2 :: "rat \<Rightarrow> int" where
  "ilog2 a =
     (let (p, q) = quotient_of a;
          k = int (bit_length (nat p)) - int (bit_length (nat q))
      in if 2 powi k \<le> a then k else k - 1)"

definition ulp_exp :: "rat \<Rightarrow> int" where
  "ulp_exp a = max (- 1074) (ilog2 a - 52)"

text \<open>The rounded magnitude of a non-negative rational, before the overflow test.\<close>

definition round_mag :: "rat \<Rightarrow> rat" where
  "round_mag a = (if a = 0 then 0 else of_int (round_even (a / 2 powi ulp_exp a)) * 2 powi ulp_exp a)"

definition round64 :: "rat \<Rightarrow> f64" where
  "round64 x =
     (let m = round_mag \<bar>x\<bar> in
      if 2 ^ 1024 \<le> m then (if x < 0 then NInf else PInf) else Fin (if x < 0 then - m else m))"

section \<open>Operations\<close>

definition f64_of_int :: "int \<Rightarrow> f64" where
  "f64_of_int n = round64 (of_int n)"

fun f64_mul :: "f64 \<Rightarrow> f64 \<Rightarrow> f64" where
  "f64_mul NaN _ = NaN"
| "f64_mul _ NaN = NaN"
| "f64_mul (Fin a) (Fin b) = round64 (a * b)"
| "f64_mul (Fin a) PInf = (if a = 0 then NaN else if 0 < a then PInf else NInf)"
| "f64_mul (Fin a) NInf = (if a = 0 then NaN else if 0 < a then NInf else PInf)"
| "f64_mul PInf (Fin b) = (if b = 0 then NaN else if 0 < b then PInf else NInf)"
| "f64_mul NInf (Fin b) = (if b = 0 then NaN else if 0 < b then NInf else PInf)"
| "f64_mul PInf PInf = PInf"
| "f64_mul PInf NInf = NInf"
| "f64_mul NInf PInf = NInf"
| "f64_mul NInf NInf = PInf"

fun f64_div :: "f64 \<Rightarrow> f64 \<Rightarrow> f64" where
  "f64_div NaN _ = NaN"
| "f64_div _ NaN = NaN"
| "f64_div (Fin a) (Fin b) =
     (if b = 0 then (if a = 0 then NaN else if 0 < a then PInf else NInf) else round64 (a / b))"
| "f64_div (Fin a) _ = Fin 0"
| "f64_div PInf (Fin b) = (if 0 \<le> b then PInf else NInf)"
| "f64_div NInf (Fin b) = (if 0 \<le> b then NInf else PInf)"
| "f64_div _ _ = NaN"

text \<open>Comparison \<open>x <= 0\<close>, false on NaN.\<close>

fun f64_le0 :: "f64 \<Rightarrow> bool" where
  "f64_le0 (Fin a) = (a \<le> 0)"
| "f64_le0 NInf = True"
| "f64_le0 _ = False"

text \<open>The conversion to \<open>int64\<close> discards the fraction. When the value does not fit, the Go
  specification leaves the result to the implementation: the parameter \<open>oob\<close>.\<close>

definition trunc_rat :: "rat \<Rightarrow> int" where
  "trunc_rat x = (if 0 \<le> x then \<lfloor>x\<rfloor> else - \<lfloor>- x\<rfloor>)"

fun f64_to_i64 :: "(f64 \<Rightarrow> int) \<Rightarrow> f64 \<Rightarrow> int" where
  "f64_to_i64 oob (Fin a) = (if in_i64 (trunc_rat a) then trunc_rat a else oob (Fin a))"
| "f64_to_i64 oob x = oob x"

section \<open>Rounding is monotone\<close>

lemma round_even_bounds: "of_int \<lfloor>x\<rfloor> \<le> (of_int (round_even x) :: rat)" "round_even x \<le> \<lfloor>x\<rfloor> + 1"
  by (auto simp: round_even_def Let_def)

lemma round_even_mono: "x \<le> y \<Longrightarrow> round_even x \<le> round_even y"
proof -
  assume le: "x \<le> y"
  then have fl: "\<lfloor>x\<rfloor> \<le> \<lfloor>y\<rfloor>" by (rule floor_mono)
  show ?thesis
  proof (cases "\<lfloor>x\<rfloor> = \<lfloor>y\<rfloor>")
    case True
    with le show ?thesis by (auto simp: round_even_def Let_def)
  next
    case False
    with fl have "\<lfloor>x\<rfloor> + 1 \<le> \<lfloor>y\<rfloor>" by simp
    moreover have "\<lfloor>y\<rfloor> \<le> round_even y" by (auto simp: round_even_def Let_def)
    ultimately show ?thesis using round_even_bounds(2) [of x] by linarith
  qed
qed

lemma round_even_of_int [simp]: "round_even (of_int n) = n"
  by (simp add: round_even_def)

lemma round_even_le_int: "x \<le> of_int n \<Longrightarrow> round_even x \<le> n"
  using round_even_mono [of x "of_int n"] by simp

lemma round_even_ge_int: "of_int n \<le> x \<Longrightarrow> n \<le> round_even x"
  using round_even_mono [of "of_int n" x] by simp

lemma bit_length_bounds: "0 < n \<Longrightarrow> 2 ^ bit_length n \<le> 2 * n \<and> n < 2 ^ bit_length n"
proof (induction n rule: bit_length.induct)
  case (1 n)
  show ?case
  proof (cases "n div 2 = 0")
    case True
    with 1 have "n = 1" by simp
    then show ?thesis by (simp add: bit_length.simps)
  next
    case False
    with 1 have "2 ^ bit_length (n div 2) \<le> 2 * (n div 2) \<and> n div 2 < 2 ^ bit_length (n div 2)"
      by simp
    moreover have "(2::nat) ^ bit_length n = 2 * 2 ^ bit_length (n div 2)"
      using "1.prems" by (simp add: bit_length.simps [of n])
    ultimately show ?thesis by linarith
  qed
qed

lemma powi_add_1: "(2::rat) powi (k + 1) = 2 * 2 powi k"
  by (simp add: power_int_add)

lemma ilog2_bounds:
  assumes "0 < a"
  shows "2 powi ilog2 a \<le> a" "a < 2 powi (ilog2 a + 1)"
proof -
  obtain p q where pq: "quotient_of a = (p, q)" by (cases "quotient_of a")
  then have q: "0 < q" and a: "a = of_int p / of_int q"
    by (auto simp: quotient_of_denom_pos quotient_of_div)
  with assms have p: "0 < p" by (simp add: zero_less_divide_iff)
  define P Q where "P = bit_length (nat p)" and "Q = bit_length (nat q)"
  define k where "k = int P - int Q"
  have "2 ^ P \<le> 2 * nat p \<and> nat p < 2 ^ P" "2 ^ Q \<le> 2 * nat q \<and> nat q < 2 ^ Q"
    using bit_length_bounds [of "nat p"] bit_length_bounds [of "nat q"] p q by (auto simp: P_def Q_def)
  then have "int (2 ^ P) \<le> 2 * p" "p < int (2 ^ P)" "int (2 ^ Q) \<le> 2 * q" "q < int (2 ^ Q)"
    using p q by linarith+
  then have P: "2 ^ P \<le> 2 * p" "p < 2 ^ P" and Q: "2 ^ Q \<le> 2 * q" "q < 2 ^ Q" by simp_all
  have Pr: "(2::rat) ^ P \<le> 2 * of_int p" "(of_int p :: rat) < 2 ^ P"
    using of_int_le_iff [where ?'a = rat, of "2 ^ P" "2 * p"] P
      of_int_less_iff [where ?'a = rat, of p "2 ^ P"] by simp_all
  have Qr: "(2::rat) ^ Q \<le> 2 * of_int q" "(of_int q :: rat) < 2 ^ Q"
    using of_int_le_iff [where ?'a = rat, of "2 ^ Q" "2 * q"] Q
      of_int_less_iff [where ?'a = rat, of q "2 ^ Q"] by simp_all
  have kd: "(2::rat) powi k = 2 ^ P / 2 ^ Q"
    by (simp add: k_def power_int_diff)
  have "a < 2 powi (k + 1)"
  proof -
    have "of_int p * 2 ^ Q < 2 ^ P * (2 * of_int q :: rat)"
      using Pr(2) Qr(1) q p by (intro mult_less_le_imp_less) auto
    then have "of_int p / of_int q < 2 * (2 ^ P / 2 ^ Q :: rat)" using q by (simp add: field_simps)
    then show ?thesis by (simp only: powi_add_1 kd a)
  qed
  moreover have "2 powi (k - 1) \<le> a"
  proof -
    have "2 ^ P * of_int q \<le> 2 * of_int p * (2 ^ Q :: rat)"
      using Pr(1) Qr(2) q p by (intro mult_mono) auto
    then show ?thesis using q by (simp add: power_int_diff kd a field_simps)
  qed
  moreover have "ilog2 a = (if 2 powi k \<le> a then k else k - 1)"
    by (simp add: ilog2_def pq k_def P_def Q_def)
  ultimately show "2 powi ilog2 a \<le> a" "a < 2 powi (ilog2 a + 1)" by (auto split: if_splits)
qed

lemma powi_mono: "i \<le> j \<Longrightarrow> (2::rat) powi i \<le> 2 powi j"
  by (rule power_int_increasing) auto

lemma powi_less_imp_less: "(2::rat) powi i < 2 powi j \<Longrightarrow> i < j"
  using powi_mono [of j i] by (cases "i < j") auto

lemma powi_pos [simp]: "0 < (2::rat) powi k"
  by simp

lemma powi_add': "(2::rat) powi (i + j) = 2 powi i * 2 powi j"
  by (simp add: power_int_add)

lemma powi_nat: "(2::rat) powi int n = 2 ^ n"
  by simp

lemma ilog2_mono: "0 < a \<Longrightarrow> a \<le> b \<Longrightarrow> ilog2 a \<le> ilog2 b"
  using ilog2_bounds(1) [of a] ilog2_bounds(2) [of b] powi_less_imp_less [of "ilog2 a" "ilog2 b + 1"]
  by simp

lemma ulp_exp_mono: "0 < a \<Longrightarrow> a \<le> b \<Longrightarrow> ulp_exp a \<le> ulp_exp b"
  using ilog2_mono [of a b] by (simp add: ulp_exp_def)

lemma round_mag_upper:
  assumes "0 < a"
  shows "round_mag a \<le> 2 powi (ulp_exp a + 53)"
proof -
  have "ilog2 a + 1 \<le> ulp_exp a + 53" by (simp add: ulp_exp_def)
  then have "a < 2 powi (ulp_exp a + 53)"
    using ilog2_bounds(2) [OF assms] powi_mono [of "ilog2 a + 1" "ulp_exp a + 53"] by linarith
  then have "a / 2 powi ulp_exp a \<le> of_int (2 ^ 53)"
    using powi_nat [of 53] by (simp add: powi_add' divide_le_eq mult.commute)
  then have "round_even (a / 2 powi ulp_exp a) \<le> 2 ^ 53" by (rule round_even_le_int)
  then have "(of_int (round_even (a / 2 powi ulp_exp a)) :: rat) \<le> of_int (2 ^ 53)"
    unfolding of_int_le_iff .
  then have "of_int (round_even (a / 2 powi ulp_exp a)) * 2 powi ulp_exp a \<le> of_int (2 ^ 53) * (2::rat) powi ulp_exp a"
    by (rule mult_right_mono) simp
  then show ?thesis using assms powi_nat [of 53] by (simp add: round_mag_def powi_add' mult.commute)
qed

lemma round_mag_lower:
  assumes "0 < a" and "- 1074 < ulp_exp a"
  shows "2 powi (ulp_exp a + 52) \<le> round_mag a"
proof -
  have "ilog2 a = ulp_exp a + 52" using assms(2) by (auto simp: ulp_exp_def split: if_splits)
  then have "2 powi (ulp_exp a + 52) \<le> a" using ilog2_bounds(1) [OF assms(1)] by simp
  then have "of_int (2 ^ 52) \<le> a / 2 powi ulp_exp a"
    using powi_nat [of 52] by (simp add: powi_add' le_divide_eq mult.commute)
  then have "2 ^ 52 \<le> round_even (a / 2 powi ulp_exp a)" by (rule round_even_ge_int)
  then have "of_int (2 ^ 52) \<le> (of_int (round_even (a / 2 powi ulp_exp a)) :: rat)"
    unfolding of_int_le_iff .
  then have "of_int (2 ^ 52) * (2::rat) powi ulp_exp a \<le> of_int (round_even (a / 2 powi ulp_exp a)) * 2 powi ulp_exp a"
    by (rule mult_right_mono) simp
  then show ?thesis using assms powi_nat [of 52] by (simp add: round_mag_def powi_add' mult.commute)
qed

lemma round_mag_nonneg: "0 \<le> a \<Longrightarrow> 0 \<le> round_mag a"
  using round_even_ge_int [of 0 "a / 2 powi ulp_exp a"] by (simp add: round_mag_def)

lemma round_mag_mono:
  assumes "0 \<le> a" "a \<le> b"
  shows "round_mag a \<le> round_mag b"
proof (cases "a = 0")
  case True
  then show ?thesis using assms round_mag_nonneg [of b] by (simp add: round_mag_def)
next
  case False
  with assms have a: "0 < a" and b: "0 < b" by auto
  show ?thesis
  proof (cases "ulp_exp a = ulp_exp b")
    case True
    have "a / 2 powi ulp_exp b \<le> b / 2 powi ulp_exp b"
      using assms(2) by (intro divide_right_mono) auto
    then have "(of_int (round_even (a / 2 powi ulp_exp b)) :: rat) \<le> of_int (round_even (b / 2 powi ulp_exp b))"
      using round_even_mono by simp
    then have "of_int (round_even (a / 2 powi ulp_exp b)) * 2 powi ulp_exp b
        \<le> of_int (round_even (b / 2 powi ulp_exp b)) * (2::rat) powi ulp_exp b"
      by (rule mult_right_mono) simp
    with a b True show ?thesis by (simp add: round_mag_def)
  next
    case False
    with ulp_exp_mono [OF a assms(2)] have lt: "ulp_exp a < ulp_exp b" by simp
    moreover have "- 1074 \<le> ulp_exp a" by (simp add: ulp_exp_def)
    ultimately have "2 powi (ulp_exp b + 52) \<le> round_mag b" using b by (intro round_mag_lower) auto
    moreover have "(2::rat) powi (ulp_exp a + 53) \<le> 2 powi (ulp_exp b + 52)"
      using lt by (intro powi_mono) simp
    ultimately show ?thesis using round_mag_upper [OF a] by linarith
  qed
qed

text \<open>Powers of two are representable.\<close>

lemma ilog2_powi [simp]: "ilog2 (2 powi k) = k"
proof -
  have "2 powi ilog2 (2 powi k) \<le> (2::rat) powi k" "(2::rat) powi k < 2 powi (ilog2 (2 powi k) + 1)"
    using ilog2_bounds [of "2 powi k"] by auto
  then have "k < ilog2 (2 powi k) + 1" "\<not> k < ilog2 (2 powi k)"
    using powi_less_imp_less power_int_strict_increasing [of k "ilog2 (2 powi k)" "2::rat"] by fastforce+
  then show ?thesis by simp
qed

lemma round_mag_powi: "- 1022 \<le> k \<Longrightarrow> round_mag (2 powi k) = 2 powi k"
proof -
  assume "- 1022 \<le> k"
  then have e: "ulp_exp (2 powi k) = k - 52" by (simp add: ulp_exp_def)
  have k: "of_int (2 ^ 52) * (2::rat) powi (k - 52) = 2 powi k"
    using powi_add' [of 52 "k - 52"] powi_nat [of 52] by simp
  then have d: "(2::rat) powi k / 2 powi (k - 52) = of_int (2 ^ 52)"
    by (simp add: divide_eq_eq)
  have "round_mag (2 powi k) = of_int (round_even (2 powi k / 2 powi (k - 52))) * 2 powi (k - 52)"
    by (simp add: round_mag_def e)
  also have "\<dots> = 2 powi k" by (simp only: d round_even_of_int k)
  finally show ?thesis .
qed

section \<open>Order on the non-negative values\<close>

fun f64_nonneg :: "f64 \<Rightarrow> bool" where
  "f64_nonneg (Fin a) = (0 \<le> a)"
| "f64_nonneg PInf = True"
| "f64_nonneg _ = False"

text \<open>\<open>x \<le> y\<close> for non-negative values.\<close>

fun f64_le :: "f64 \<Rightarrow> f64 \<Rightarrow> bool" where
  "f64_le (Fin a) (Fin b) = (a \<le> b)"
| "f64_le (Fin a) PInf = True"
| "f64_le PInf PInf = True"
| "f64_le _ _ = False"

lemma round64_nonneg: "0 \<le> x \<Longrightarrow> f64_nonneg (round64 x)"
  using round_mag_nonneg [of x] by (simp add: round64_def Let_def)

lemma round64_mono: "0 \<le> x \<Longrightarrow> x \<le> y \<Longrightarrow> f64_le (round64 x) (round64 y)"
  using round_mag_mono [of x y] by (auto simp: round64_def Let_def)

lemma round64_powi: "- 1022 \<le> k \<Longrightarrow> k < 1024 \<Longrightarrow> round64 (2 powi k) = Fin (2 powi k)"
proof -
  assume k: "- 1022 \<le> k" "k < 1024"
  then have "(2::rat) powi k < 2 powi 1024" by (intro power_int_strict_increasing) auto
  then have "\<not> 2 ^ 1024 \<le> (2::rat) powi k" by simp
  moreover have "\<bar>(2::rat) powi k\<bar> = 2 powi k" "\<not> (2::rat) powi k < 0"
    by (simp_all add: not_less)
  ultimately show ?thesis using k by (simp only: round64_def Let_def round_mag_powi if_False)
qed

lemma f64_nonneg_cases: "f64_nonneg a \<Longrightarrow> (\<exists>x. a = Fin x \<and> 0 \<le> x) \<or> a = PInf"
  by (cases a) auto

lemma f64_mul_nonneg: "f64_nonneg a \<Longrightarrow> 0 < c \<Longrightarrow> f64_nonneg (f64_mul a (Fin c))"
  by (drule f64_nonneg_cases) (auto intro!: round64_nonneg mult_nonneg_nonneg)

lemma f64_mul_mono:
  assumes "0 \<le> x" "f64_le (Fin x) b" "0 < c"
  shows "f64_le (f64_mul (Fin x) (Fin c)) (f64_mul b (Fin c))"
proof (cases b)
  case (Fin y)
  with assms have "x * c \<le> y * c" "0 \<le> x * c" by (auto intro: mult_right_mono)
  with Fin show ?thesis by (simp add: round64_mono)
next
  case PInf
  have "f64_nonneg (round64 (x * c))" using assms by (intro round64_nonneg) simp
  with PInf assms show ?thesis by (auto dest: f64_nonneg_cases)
qed (use assms in auto)

text \<open>Dividing a positive value by a larger positive one gives a smaller quotient.\<close>

lemma f64_div_antimono:
  assumes "0 < w" "0 < x" "f64_le (Fin x) b"
  shows "f64_nonneg (f64_div (Fin w) b)" "f64_le (f64_div (Fin w) b) (f64_div (Fin w) (Fin x))"
proof -
  have "f64_nonneg (f64_div (Fin w) b) \<and> f64_le (f64_div (Fin w) b) (f64_div (Fin w) (Fin x))"
  proof (cases b)
    case (Fin y)
    with assms have "x \<le> y" by simp
    with assms have "0 \<le> w / y" "w / y \<le> w / x"
      by (auto intro!: divide_left_mono mult_pos_pos)
    with Fin assms show ?thesis by (simp add: round64_mono round64_nonneg)
  next
    case PInf
    have "f64_nonneg (round64 (w / x))" using assms by (intro round64_nonneg) simp
    with PInf assms show ?thesis by (auto dest: f64_nonneg_cases)
  qed (use assms in auto)
  then show "f64_nonneg (f64_div (Fin w) b)" "f64_le (f64_div (Fin w) b) (f64_div (Fin w) (Fin x))"
    by auto
qed

text \<open>The conversion is monotone where the larger value fits.\<close>

lemma f64_to_i64_mono:
  assumes "0 \<le> x" "x \<le> y" "y \<le> 2 ^ 62"
  shows "f64_to_i64 oob (Fin x) \<le> f64_to_i64 oob (Fin y)"
proof -
  have "\<lfloor>x\<rfloor> \<le> \<lfloor>y\<rfloor>" "0 \<le> \<lfloor>x\<rfloor>" using assms by (auto intro: floor_mono)
  moreover have "\<lfloor>y\<rfloor> \<le> 2 ^ 62"
    using floor_mono [OF assms(3)] by simp
  ultimately show ?thesis using assms by (auto simp: trunc_rat_def in_i64_def)
qed

end
