(* ===== verification/Schedule.thy ===== *)
theory Schedule
  imports Float64 CoreTypes
begin

text \<open>
  \<open>internal/core/schedule.go\<close>, \<open>internal/core/reschedule.go\<close> and \<open>ExtractBackoff\<close> of
  \<open>internal/core/scrape.go\<close>: the delays after a successful poll, after a failed poll and after a
  failed extraction. Durations are \<open>int64\<close> nanoseconds: additions, shifts and doublings wrap. The
  jitter argument is the function the caller passes (nil is \<open>None\<close>).
\<close>

type_synonym jitter = "(duration \<Rightarrow> duration) option"

definition Week :: duration where "Week = 7 * 24 * Hour"
definition maxTTLInfluence :: duration where "maxTTLInfluence = 30 * 24 * Hour"

record ScheduleConfig =
  sc_MinInterval :: duration
  sc_MaxInterval :: duration
  sc_Factor :: f64

record RescheduleConfig =
  rc_Interval :: duration
  rc_MaxBackoff :: duration

record ScrapeConfig =
  sg_MaxAttempts :: int
  sg_BaseBackoff :: duration
  sg_MaxBackoff :: duration

text \<open>\<open>d += jitter(d)\<close> when the jitter is not nil.\<close>

definition add_jitter :: "jitter \<Rightarrow> duration \<Rightarrow> duration" where
  "add_jitter j d = (case j of None \<Rightarrow> d | Some f \<Rightarrow> i64 (d + f d))"

section \<open>After a successful poll\<close>

definition AdaptiveInterval ::
  "(f64 \<Rightarrow> int) \<Rightarrow> int \<Rightarrow> ScheduleConfig \<Rightarrow> duration \<Rightarrow> jitter \<Rightarrow> duration" where
  "AdaptiveInterval oob weeklyCount cfg feedTTL j =
     (let iv = (if weeklyCount \<le> 0 then sc_MaxInterval cfg
                else f64_to_i64 oob
                  (f64_div (f64_of_int Week) (f64_mul (f64_of_int weeklyCount) (sc_Factor cfg))));
          iv = min (max iv (sc_MinInterval cfg)) (sc_MaxInterval cfg);
          iv = add_jitter j iv
      in if 0 < feedTTL then max iv (min feedTTL maxTTLInfluence) else iv)"

section \<open>After a failed poll\<close>

definition reschedule_delay :: "RescheduleConfig \<Rightarrow> int \<Rightarrow> duration \<Rightarrow> jitter \<Rightarrow> duration" where
  "reschedule_delay cfg errorCount retryAfter j =
     (let delay = rc_Interval cfg;
          delay =
            (if 0 < errorCount then
               let shift = (if 16 < errorCount then 16 else errorCount);
                   d = shl64 (rc_Interval cfg) (nat shift);
                   d = (if rc_MaxBackoff cfg < d \<or> d \<le> 0 then rc_MaxBackoff cfg else d)
               in add_jitter j d
             else delay)
      in if delay < retryAfter then min retryAfter (rc_MaxBackoff cfg) else delay)"

definition PollReschedule ::
  "time \<Rightarrow> RescheduleConfig \<Rightarrow> int \<Rightarrow> duration \<Rightarrow> jitter \<Rightarrow> time" where
  "PollReschedule now cfg errorCount retryAfter j =
     time_add now (reschedule_delay cfg errorCount retryAfter j)"

section \<open>After a failed extraction\<close>

text \<open>The loop \<open>for i := 1; i < attempt && d < cfg.MaxBackoff; i++ { d *= 2 }\<close>, by the number of
  iterations the counter still allows.\<close>

fun backoff_loop :: "nat \<Rightarrow> duration \<Rightarrow> duration \<Rightarrow> duration" where
  "backoff_loop 0 mx d = d"
| "backoff_loop (Suc n) mx d = (if d < mx then backoff_loop n mx (i64 (d * 2)) else d)"

definition ExtractBackoff :: "ScrapeConfig \<Rightarrow> int \<Rightarrow> jitter \<Rightarrow> duration" where
  "ExtractBackoff cfg attempt j =
     (let d = backoff_loop (nat (attempt - 1)) (sg_MaxBackoff cfg) (sg_BaseBackoff cfg);
          d = (if sg_MaxBackoff cfg < d \<or> d \<le> 0 then sg_MaxBackoff cfg else d)
      in add_jitter j d)"

section \<open>The jitter of the daemon\<close>

text \<open>\<open>serve.go\<close> draws \<open>rand.Int63n(d / 4)\<close>, a number in \<open>[0, d / 4)\<close>; \<open>r\<close> stands for the random
  source, and a \<open>jitter_ok\<close> jitter adds at least nothing and at most a quarter.\<close>

definition serve_jitter :: "(int \<Rightarrow> int) \<Rightarrow> duration \<Rightarrow> duration" where
  "serve_jitter r d = (let n = go_div d 4 in if n \<le> 0 then 0 else r n)"

definition jitter_ok :: "jitter \<Rightarrow> bool" where
  "jitter_ok j \<longleftrightarrow> (\<forall>f. j = Some f \<longrightarrow> (\<forall>d \<ge> 0. 0 \<le> f d \<and> 4 * f d \<le> d))"

lemma serve_jitter_ok:
  assumes "\<And>n. 0 < n \<Longrightarrow> 0 \<le> r n \<and> r n < n"
  shows "jitter_ok (Some (serve_jitter r))"
proof -
  have "0 \<le> serve_jitter r d \<and> 4 * serve_jitter r d \<le> d" if d: "0 \<le> d" for d
  proof (cases "d div 4 \<le> 0")
    case True
    then show ?thesis using d by (simp add: serve_jitter_def go_div_nonneg)
  next
    case False
    then have "0 \<le> r (d div 4)" "r (d div 4) < d div 4" using assms [of "d div 4"] by simp_all
    then show ?thesis using d False by (simp add: serve_jitter_def go_div_nonneg)
  qed
  then show ?thesis by (simp add: jitter_ok_def)
qed

lemma jitter_ok_None [simp]: "jitter_ok None"
  by (simp add: jitter_ok_def)

lemma add_jitter_None [simp]: "add_jitter None d = d"
  by (simp add: add_jitter_def)

text \<open>Below \<open>2^62\<close> a jittered delay does not wrap.\<close>

lemma add_jitter_bounds:
  assumes "jitter_ok j" "0 \<le> d" "d \<le> 2 ^ 62"
  shows "d \<le> add_jitter j d" "4 * add_jitter j d \<le> 5 * d"
proof -
  have "d \<le> add_jitter j d \<and> 4 * add_jitter j d \<le> 5 * d"
  proof (cases j)
    case None
    then show ?thesis using assms by simp
  next
    case (Some f)
    with assms have "0 \<le> f d" "4 * f d \<le> d" by (auto simp: jitter_ok_def)
    with assms have "in_i64 (d + f d)" by (simp add: in_i64_def)
    with Some \<open>0 \<le> f d\<close> \<open>4 * f d \<le> d\<close> show ?thesis by (simp add: add_jitter_def i64_id)
  qed
  then show "d \<le> add_jitter j d" "4 * add_jitter j d \<le> 5 * d" by auto
qed

section \<open>Bounds of the adaptive interval\<close>

definition sched_ok :: "ScheduleConfig \<Rightarrow> bool" where
  "sched_ok cfg \<longleftrightarrow> 0 < sc_MinInterval cfg \<and> sc_MinInterval cfg \<le> sc_MaxInterval cfg
     \<and> sc_MaxInterval cfg \<le> 2 ^ 62"

lemma maxTTLInfluence_eq: "maxTTLInfluence = 2592000000000000"
  by (simp add: maxTTLInfluence_def Hour_def Minute_def Second_def)

lemma Week_eq: "Week = 604800000000000"
  by (simp add: Week_def Hour_def Minute_def Second_def)

text \<open>Whatever the entry count, the factor (NaN and infinities included) and the result of an
  out-of-range conversion, the next poll is at least \<open>MinInterval\<close> away, at least the capped
  publisher TTL, and at most a quarter over \<open>MaxInterval\<close> or the 30-day TTL cap: a
  malformed publisher hint cannot silence a feed.\<close>

lemma adaptive_interval_bounds:
  assumes "sched_ok cfg" and "jitter_ok j"
  shows "sc_MinInterval cfg \<le> AdaptiveInterval oob n cfg ttl j
     \<and> (0 < ttl \<longrightarrow> min ttl maxTTLInfluence \<le> AdaptiveInterval oob n cfg ttl j)
     \<and> (4 * AdaptiveInterval oob n cfg ttl j \<le> 5 * sc_MaxInterval cfg
        \<or> 0 < ttl \<and> AdaptiveInterval oob n cfg ttl j \<le> maxTTLInfluence)"
proof -
  define c where "c = min (max (if n \<le> 0 then sc_MaxInterval cfg else f64_to_i64 oob
      (f64_div (f64_of_int Week) (f64_mul (f64_of_int n) (sc_Factor cfg))))
      (sc_MinInterval cfg)) (sc_MaxInterval cfg)"
  have c: "sc_MinInterval cfg \<le> c" "c \<le> sc_MaxInterval cfg" "0 \<le> c" "c \<le> 2 ^ 62"
    using assms(1) by (auto simp: c_def sched_ok_def)
  note b = add_jitter_bounds [OF assms(2) c(3,4)]
  have A: "AdaptiveInterval oob n cfg ttl j =
      (if 0 < ttl then max (add_jitter j c) (min ttl maxTTLInfluence) else add_jitter j c)"
    by (simp add: AdaptiveInterval_def Let_def c_def)
  show ?thesis unfolding A using b c by (auto simp: max_def)
qed

section \<open>Busier feeds are polled at least as often\<close>

lemma f64_of_int_Week: "f64_of_int Week = Fin 604800000000000"
proof -
  have "ilog2 604800000000000 = 49"
    by (simp add: ilog2_def bit_length.simps power_int_def)
  then have "ulp_exp 604800000000000 = - 3" by (simp add: ulp_exp_def)
  then have "round_mag 604800000000000 = of_int (round_even (of_int 4838400000000000)) * 2 powi (- 3)"
    by (simp add: round_mag_def power_int_def power_one_over)
  also have "\<dots> = 604800000000000"
    by (simp only: round_even_of_int) (simp add: power_int_def power_one_over)
  finally show ?thesis by (simp add: f64_of_int_def round64_def Week_eq)
qed

text \<open>With a factor of at least \<open>2^-12\<close> no quotient leaves the \<open>int64\<close> range.\<close>

lemma product_lower:
  assumes "1 \<le> n" and "2 powi (- 12) \<le> c"
  obtains x where "f64_of_int n = Fin x" "1 \<le> x" "f64_le (Fin (2 powi (- 12))) (f64_mul (Fin x) (Fin c))"
  | "f64_of_int n = PInf"
proof (cases "f64_of_int n")
  case (Fin x)
  have "f64_le (round64 (2 powi 0)) (round64 (of_int n))"
    using assms(1) by (intro round64_mono) simp_all
  then have x: "1 \<le> x" using Fin round64_powi [of 0] by (simp add: f64_of_int_def)
  then have "(2::rat) powi (- 12) \<le> x * c"
    using assms(2) mult_mono [of 1 x "2 powi (- 12)" c] by simp
  then have "f64_le (round64 (2 powi (- 12))) (round64 (x * c))" by (intro round64_mono) simp_all
  then have "f64_le (Fin (2 powi (- 12))) (f64_mul (Fin x) (Fin c))"
    using round64_powi [of "- 12"] by simp
  with Fin x that(1) show ?thesis by blast
next
  case PInf
  then show ?thesis by (rule that(2))
next
  case NInf
  then show ?thesis
    using round64_nonneg [of "of_int n"] assms(1) by (simp add: f64_of_int_def)
next
  case NaN
  then show ?thesis
    using round64_nonneg [of "of_int n"] assms(1) by (simp add: f64_of_int_def)
qed

text \<open>The quotient before clamping.\<close>

definition adaptive_raw :: "(f64 \<Rightarrow> int) \<Rightarrow> f64 \<Rightarrow> int \<Rightarrow> duration" where
  "adaptive_raw oob fac n = f64_to_i64 oob (f64_div (f64_of_int Week) (f64_mul (f64_of_int n) fac))"

lemma quotient_fits:
  assumes "2 powi (- 12) \<le> p"
  shows "f64_le (f64_div (Fin 604800000000000) (Fin p)) (Fin (2 ^ 62))"
proof -
  have p: "0 < p" using assms powi_pos [of "- 12"] by linarith
  have "604800000000000 / p \<le> 604800000000000 / 2 powi (- 12)"
    using assms p by (intro divide_left_mono) (auto intro: mult_pos_pos)
  also have "\<dots> \<le> 2 powi 62" by (simp add: power_int_def power_one_over)
  finally have "f64_le (round64 (604800000000000 / p)) (round64 (2 powi 62))"
    using p by (intro round64_mono) auto
  then show ?thesis using p round64_powi [of 62] by simp
qed

lemma adaptive_raw_antimono:
  assumes "2 powi (- 12) \<le> c" "1 \<le> m" "m \<le> n"
  shows "adaptive_raw oob (Fin c) n \<le> adaptive_raw oob (Fin c) m"
proof -
  have c: "0 < c" using assms(1) powi_pos [of "- 12"] by linarith
  have mn: "f64_le (f64_of_int m) (f64_of_int n)"
    unfolding f64_of_int_def using assms by (intro round64_mono) simp_all
  from assms(2,1) show ?thesis
  proof (cases rule: product_lower)
    case (1 x)
    define P where "P k = f64_mul (f64_of_int k) (Fin c)" for k
    have le: "f64_le (P m) (P n)" using f64_mul_mono [of x "f64_of_int n" c] 1 mn c by (simp add: P_def)
    show ?thesis
    proof (cases "P m")
      case (Fin p)
      then have p: "2 powi (- 12) \<le> p" using 1 by (simp add: P_def)
      then have p0: "0 < p" using powi_pos [of "- 12"] by linarith
      let ?W = "604800000000000 :: rat"
      have q: "f64_nonneg (f64_div (Fin ?W) (P n))" "f64_le (f64_div (Fin ?W) (P n)) (f64_div (Fin ?W) (Fin p))"
        using f64_div_antimono [of ?W p "P n"] p0 le Fin by auto
      obtain y where y: "f64_div (Fin ?W) (Fin p) = Fin y" "y \<le> 2 ^ 62"
        using quotient_fits [OF p] by (cases "f64_div (Fin ?W) (Fin p)") (auto simp del: f64_div.simps)
      obtain z where z: "f64_div (Fin ?W) (P n) = Fin z" "0 \<le> z" "z \<le> y"
        using q y(1) by (cases "f64_div (Fin ?W) (P n)") (auto simp del: f64_div.simps)
      have "f64_to_i64 oob (Fin z) \<le> f64_to_i64 oob (Fin y)" using z y by (intro f64_to_i64_mono) auto
      then show ?thesis
        using y(1) z(1) Fin unfolding adaptive_raw_def P_def f64_of_int_Week by simp
    next
      case PInf
      then have "P n = PInf" using le by (cases "P n") auto
      with PInf show ?thesis unfolding adaptive_raw_def P_def by simp
    qed (use 1 in \<open>auto simp: P_def simp del: f64_mul.simps\<close>)
  next
    case 2
    then have "f64_of_int n = PInf" using mn by (cases "f64_of_int n") auto
    with 2 show ?thesis by (simp add: adaptive_raw_def)
  qed
qed

text \<open>Before jitter, a feed with more entries in the last week is never polled less often, for
  every factor from \<open>2^-12\<close> up, rounding of \<open>float64\<close> included.\<close>

lemma adaptive_interval_antimono:
  assumes "sc_Factor cfg = Fin c" and "2 powi (- 12) \<le> c"
    and "sc_MinInterval cfg \<le> sc_MaxInterval cfg" and "m \<le> n"
  shows "AdaptiveInterval oob n cfg ttl None \<le> AdaptiveInterval oob m cfg ttl None"
proof -
  have raw: "AdaptiveInterval oob k cfg ttl None =
      (let iv = min (max (if k \<le> 0 then sc_MaxInterval cfg else adaptive_raw oob (Fin c) k)
          (sc_MinInterval cfg)) (sc_MaxInterval cfg)
       in if 0 < ttl then max iv (min ttl maxTTLInfluence) else iv)" for k
    by (simp add: AdaptiveInterval_def adaptive_raw_def assms(1) Let_def)
  define iv where "iv k = min (max (if k \<le> 0 then sc_MaxInterval cfg else adaptive_raw oob (Fin c) k)
      (sc_MinInterval cfg)) (sc_MaxInterval cfg)" for k
  have "iv n \<le> iv m"
  proof (cases "m \<le> 0")
    case True
    then have "iv m = sc_MaxInterval cfg" using assms(3) by (simp add: iv_def)
    then show ?thesis by (simp add: iv_def)
  next
    case False
    then have "adaptive_raw oob (Fin c) n \<le> adaptive_raw oob (Fin c) m"
      using assms(2,4) by (intro adaptive_raw_antimono) auto
    with False assms(4) show ?thesis by (auto simp: iv_def)
  qed
  then show ?thesis unfolding raw iv_def [symmetric] Let_def by auto
qed

section \<open>Backoff after failures\<close>

text \<open>While the interval is below \<open>2^47\<close> ns (39 hours) the shift by at most 16 does not wrap, and
  the delay is the doubled interval, capped.\<close>

lemma shl64_exact: "0 < x \<Longrightarrow> x < 2 ^ 47 \<Longrightarrow> k \<le> 16 \<Longrightarrow> shl64 x k = x * 2 ^ k"
proof -
  assume x: "0 < x" "x < 2 ^ 47" and k: "k \<le> 16"
  have "(2::int) ^ k \<le> 2 ^ 16" using k by (intro power_increasing) auto
  then have "x * 2 ^ k \<le> x * 2 ^ 16" using x by (intro mult_left_mono) auto
  also have "\<dots> < 2 ^ 47 * 2 ^ 16" using x by (intro mult_strict_right_mono) auto
  finally have "x * 2 ^ k < 2 ^ 63" by simp
  moreover have "0 < x * 2 ^ k" using x by simp
  ultimately have "in_i64 (x * 2 ^ k)" by (simp add: in_i64_def)
  then show ?thesis by (simp add: shl64_def i64_id)
qed

definition resched_ok :: "RescheduleConfig \<Rightarrow> bool" where
  "resched_ok cfg \<longleftrightarrow> 0 < rc_Interval cfg \<and> 0 < rc_MaxBackoff cfg \<and> rc_MaxBackoff cfg \<le> 2 ^ 62"

text \<open>Without jitter, the delay after \<open>n\<close> failures is the interval doubled \<open>min n 16\<close> times and
  capped at \<open>MaxBackoff\<close>; a longer \<open>Retry-After\<close> replaces it, itself capped.\<close>

lemma reschedule_exact:
  assumes "resched_ok cfg" and "rc_Interval cfg < 2 ^ 47" and "0 < n"
  shows "PollReschedule now cfg n ra None =
    now + (let d = min (rc_Interval cfg * 2 ^ nat (min n 16)) (rc_MaxBackoff cfg)
           in if d < ra then min ra (rc_MaxBackoff cfg) else d)"
proof -
  define k where "k = nat (min n 16)"
  have k: "k \<le> 16" "nat (if 16 < n then 16 else n) = k" using assms(3) by (auto simp: k_def)
  have pos: "0 < rc_Interval cfg * 2 ^ k" using assms(1) by (simp add: resched_ok_def)
  have "shl64 (rc_Interval cfg) k = rc_Interval cfg * 2 ^ k"
    using assms k by (intro shl64_exact) (auto simp: resched_ok_def)
  then have "(let d = shl64 (rc_Interval cfg) (nat (if 16 < n then 16 else n))
      in if rc_MaxBackoff cfg < d \<or> d \<le> 0 then rc_MaxBackoff cfg else d)
    = min (rc_Interval cfg * 2 ^ k) (rc_MaxBackoff cfg)"
    using pos k by (simp add: Let_def)
  then show ?thesis
    using assms(3) unfolding PollReschedule_def time_add_def reschedule_delay_def k_def [symmetric]
    by (simp only: Let_def if_True add_jitter_None)
qed

text \<open>A failed feed is never due at once and never parked for longer than the cap: for every
  interval (also where the shift wraps), error count, \<open>Retry-After\<close> and admissible jitter the next
  check lies in the future, at most a quarter over \<open>MaxBackoff\<close>.\<close>

lemma reschedule_bounds:
  assumes "resched_ok cfg" and "jitter_ok j" and "0 < n"
  shows "now < PollReschedule now cfg n ra j
     \<and> 4 * (PollReschedule now cfg n ra j - now) \<le> 5 * rc_MaxBackoff cfg"
proof -
  define d where "d = (let s = shl64 (rc_Interval cfg) (nat (if 16 < n then 16 else n))
      in if rc_MaxBackoff cfg < s \<or> s \<le> 0 then rc_MaxBackoff cfg else s)"
  have d: "0 < d" "d \<le> rc_MaxBackoff cfg" "d \<le> 2 ^ 62"
    using assms(1) by (auto simp: d_def resched_ok_def Let_def split: if_splits)
  have b: "d \<le> add_jitter j d" "4 * add_jitter j d \<le> 5 * d"
    using add_jitter_bounds [OF assms(2), of d] d by auto
  have "reschedule_delay cfg n ra j =
      (let e = add_jitter j d in if e < ra then min ra (rc_MaxBackoff cfg) else e)"
    using assms(3) by (simp add: reschedule_delay_def d_def Let_def)
  then show ?thesis
    using b d assms(1) by (auto simp: PollReschedule_def time_add_def Let_def resched_ok_def min_def)
qed

text \<open>The comment on the shift cap says it avoids overflow before the cap clamps. It does not for
  intervals above 39 hours: with \<open>2^48 + 1\<close> ns (78 hours) the shift wraps to 65536 ns, which is
  positive and below the cap, so a feed with 16 failures is due again after 66 microseconds.\<close>

lemma reschedule_overflow:
  "PollReschedule now \<lparr>rc_Interval = 2 ^ 48 + 1, rc_MaxBackoff = 86400000000000\<rparr> 16 0 None
     = now + 65536"
  by (simp add: PollReschedule_def time_add_def reschedule_delay_def Let_def shl64_def i64_def)

lemma backoff_loop_closed:
  "0 < d \<Longrightarrow> mx \<le> 2 ^ 62 \<Longrightarrow>
   (let r = backoff_loop n mx d in (r = d * 2 ^ n \<or> mx \<le> r \<and> r \<le> d * 2 ^ n) \<and> 0 < r)"
proof (induction n arbitrary: d)
  case 0
  then show ?case by simp
next
  case (Suc n)
  show ?case
  proof (cases "d < mx")
    case True
    then have "i64 (d * 2) = d * 2" using Suc.prems by (intro i64_id) (simp add: in_i64_def)
    then show ?thesis using Suc.IH [of "d * 2"] Suc.prems True by (simp add: Let_def mult.assoc)
  next
    case False
    have "(1::int) \<le> 2 ^ Suc n" by (rule one_le_power) simp
    then have "d * 1 \<le> d * 2 ^ Suc n" using Suc.prems by (intro mult_left_mono) auto
    then show ?thesis using False Suc.prems by (simp add: Let_def)
  qed
qed

text \<open>The loop of \<open>ExtractBackoff\<close> computes the capped exponential \<open>min (base * 2^(attempt-1)) cap\<close>
  for every attempt, without overflow, for caps up to \<open>2^62\<close> ns (146 years).\<close>

lemma extract_backoff_exact:
  assumes "0 < sg_BaseBackoff cfg" and "0 < sg_MaxBackoff cfg" and "sg_MaxBackoff cfg \<le> 2 ^ 62"
  shows "ExtractBackoff cfg attempt None
     = min (sg_BaseBackoff cfg * 2 ^ nat (attempt - 1)) (sg_MaxBackoff cfg)"
  using backoff_loop_closed [OF assms(1,3), of "nat (attempt - 1)"] assms(2)
  by (auto simp: ExtractBackoff_def Let_def min_def)

lemma extract_backoff_bounds:
  assumes "0 < sg_BaseBackoff cfg" "0 < sg_MaxBackoff cfg" "sg_MaxBackoff cfg \<le> 2 ^ 62" "jitter_ok j"
  shows "0 < ExtractBackoff cfg n j" "4 * ExtractBackoff cfg n j \<le> 5 * sg_MaxBackoff cfg"
proof -
  let ?d = "ExtractBackoff cfg n None"
  have d: "0 < ?d" "?d \<le> sg_MaxBackoff cfg"
    using backoff_loop_closed [OF assms(1,3), of "nat (n - 1)"] assms(2)
    by (auto simp: ExtractBackoff_def Let_def)
  have "ExtractBackoff cfg n j = add_jitter j ?d" by (simp add: ExtractBackoff_def Let_def)
  then show "0 < ExtractBackoff cfg n j" "4 * ExtractBackoff cfg n j \<le> 5 * sg_MaxBackoff cfg"
    using add_jitter_bounds [OF assms(4), of ?d] d assms(3) by auto
qed

end
