(* ===== verification/Service.thy ===== *)
theory Service
  imports FeedUrl Metrics Schedule
begin

text \<open>
  What the services of \<open>internal/core\<close> run in: the interfaces of \<open>ports.go\<close> they consume and the state a
  call works on.

  A service call is a function of the world to an outcome (a value or a panic) and the world after
  it. The world has the state of the store, the feed the call works on (a \<open>*Feed\<close> that the call
  changes in place), the metrics events so far, and the number of questions put to the environment
  so far. The environment answers the \<open>n\<close>-th question: the clock's reading, the state of the
  context, the reply of the fetcher. So clock, context and network may change between any two
  lines, in any way. Parser, sanitizer and extractor work on untrusted bytes and may panic, like the
  fetcher; the store and the jitter do not.
\<close>

section \<open>Interfaces\<close>

text \<open>The methods of \<open>core.Store\<close> that the services call, over a state \<open>'s\<close>.\<close>

record 's store_ops =
  so_CreateFeed :: "ctx \<Rightarrow> Feed \<Rightarrow> 's \<Rightarrow> (gerr + ID) \<times> 's"
  so_GetFeed :: "ctx \<Rightarrow> ID \<Rightarrow> ID \<Rightarrow> 's \<Rightarrow> (gerr + Feed) \<times> 's"
  so_ListFeeds :: "ctx \<Rightarrow> ID \<Rightarrow> 's \<Rightarrow> (gerr + Feed list) \<times> 's"
  so_UpdateFeed :: "ctx \<Rightarrow> Feed \<Rightarrow> 's \<Rightarrow> (gerr + unit) \<times> 's"
  so_DeleteFeed :: "ctx \<Rightarrow> ID \<Rightarrow> ID \<Rightarrow> 's \<Rightarrow> (gerr + unit) \<times> 's"
  so_SetFeedCategory :: "ctx \<Rightarrow> ID \<Rightarrow> ID \<Rightarrow> ID option \<Rightarrow> 's \<Rightarrow> (gerr + unit) \<times> 's"
  so_SetFeedFullContent :: "ctx \<Rightarrow> ID \<Rightarrow> ID \<Rightarrow> bool \<Rightarrow> time \<Rightarrow> 's \<Rightarrow> (gerr + unit) \<times> 's"
  so_SetFeedUserTitle :: "ctx \<Rightarrow> ID \<Rightarrow> ID \<Rightarrow> string \<Rightarrow> 's \<Rightarrow> (gerr + unit) \<times> 's"
  so_SetFeedURL :: "ctx \<Rightarrow> ID \<Rightarrow> ID \<Rightarrow> string \<Rightarrow> time \<Rightarrow> 's \<Rightarrow> (gerr + unit) \<times> 's"
  so_WeeklyEntryCount :: "ctx \<Rightarrow> ID \<Rightarrow> time \<Rightarrow> 's \<Rightarrow> (gerr + int) \<times> 's"
  so_UpsertEntries :: "ctx \<Rightarrow> ID \<Rightarrow> Entry list \<Rightarrow> 's \<Rightarrow> (gerr + Entry list) \<times> 's"
  so_EntryDedup :: "ctx \<Rightarrow> ID \<Rightarrow> string list \<Rightarrow> 's
    \<Rightarrow> (gerr + (string \<Rightarrow> string option) \<times> (string \<Rightarrow> bool)) \<times> 's"
  so_GetCategory :: "ctx \<Rightarrow> ID \<Rightarrow> ID \<Rightarrow> 's \<Rightarrow> (gerr + Category) \<times> 's"
  so_SetEntryContent :: "ctx \<Rightarrow> ID \<Rightarrow> string \<Rightarrow> 's \<Rightarrow> (gerr + unit) \<times> 's"
  so_UpdateExtractState :: "ctx \<Rightarrow> ID \<Rightarrow> ExtractState \<Rightarrow> int \<Rightarrow> time option \<Rightarrow> string \<Rightarrow> 's
    \<Rightarrow> (gerr + unit) \<times> 's"

text \<open>Clock, context, fetcher, parser, sanitizer, extractor. \<open>Parse\<close> returns a \<open>*ParsedFeed\<close>, which may
  be nil beside a nil error.\<close>

record env =
  en_clock :: "nat \<Rightarrow> time"
  en_ctx :: "nat \<Rightarrow> ctx"
  en_fetch :: "nat \<Rightarrow> FetchRequest \<Rightarrow> (gerr + FetchResponse) outcome"
  en_parse :: "string \<Rightarrow> string \<Rightarrow> string \<Rightarrow> (gerr + ParsedFeed option) outcome"
  en_discover :: "string \<Rightarrow> string \<Rightarrow> (gerr + string list) outcome"
  en_sanitize :: "string \<Rightarrow> string \<Rightarrow> string outcome"
  en_extract :: "string \<Rightarrow> string \<Rightarrow> string \<Rightarrow> (gerr + string) outcome"
  en_lib :: url_lib

section \<open>The world of a call\<close>

record 's world =
  w_store :: 's
  w_feed :: Feed
  w_trace :: "metric list"
  w_step :: nat

type_synonym ('s, 'a) svc = "'s world \<Rightarrow> 'a outcome \<times> 's world"

definition retS :: "'a \<Rightarrow> ('s, 'a) svc" where "retS a w = (Ret a, w)"
definition panicS :: "string \<Rightarrow> ('s, 'a) svc" where "panicS p w = (Panic p, w)"

definition bindS :: "('s, 'a) svc \<Rightarrow> ('a \<Rightarrow> ('s, 'b) svc) \<Rightarrow> ('s, 'b) svc" where
  "bindS m k w = (case m w of (Ret a, w') \<Rightarrow> k a w' | (Panic p, w') \<Rightarrow> (Panic p, w'))"

text \<open>\<open>defer func() { if r := recover(); r != nil { ... } }()\<close>.\<close>

definition recoverS :: "('s, 'a) svc \<Rightarrow> (string \<Rightarrow> ('s, 'a) svc) \<Rightarrow> ('s, 'a) svc" where
  "recoverS m h w = (case m w of (Ret a, w') \<Rightarrow> (Ret a, w') | (Panic p, w') \<Rightarrow> h p w')"

text \<open>A call with two results, \<open>a, err := m\<close>.\<close>

definition tryS :: "('s, gerr + 'a) svc \<Rightarrow> (gerr \<Rightarrow> ('s, 'b) svc) \<Rightarrow> ('a \<Rightarrow> ('s, 'b) svc) \<Rightarrow> ('s, 'b) svc" where
  "tryS m h k = bindS m (\<lambda>r. case r of Inl e \<Rightarrow> h e | Inr a \<Rightarrow> k a)"

text \<open>Questions to the environment.\<close>

definition askS :: "(nat \<Rightarrow> 'a) \<Rightarrow> ('s, 'a) svc" where
  "askS q w = (Ret (q (w_step w)), w\<lparr>w_step := Suc (w_step w)\<rparr>)"

definition clk_Now :: "env \<Rightarrow> ('s, time) svc" where "clk_Now E = askS (en_clock E)"
definition ctx_Err :: "env \<Rightarrow> ('s, ctx) svc" where "ctx_Err E = askS (en_ctx E)"

definition outcomeS :: "'a outcome \<Rightarrow> ('s, 'a) svc" where
  "outcomeS o' = (case o' of Ret a \<Rightarrow> retS a | Panic p \<Rightarrow> panicS p)"

definition fetchS :: "env \<Rightarrow> FetchRequest \<Rightarrow> ('s, gerr + FetchResponse) svc" where
  "fetchS E req = bindS (askS (\<lambda>n. en_fetch E n req)) outcomeS"

text \<open>A store call with a given context, and with the call's own context as it is at that moment.\<close>

definition storeS :: "('s \<Rightarrow> 'a \<times> 's) \<Rightarrow> ('s, 'a) svc" where
  "storeS m w = (case m (w_store w) of (r, s) \<Rightarrow> (Ret r, w\<lparr>w_store := s\<rparr>))"

definition storeC :: "env \<Rightarrow> (ctx \<Rightarrow> 's \<Rightarrow> 'a \<times> 's) \<Rightarrow> ('s, 'a) svc" where
  "storeC E m = bindS (ctx_Err E) (\<lambda>cx. storeS (m cx))"

definition feedS :: "('s, Feed) svc" where "feedS w = (Ret (w_feed w), w)"
definition setFeedS :: "(Feed \<Rightarrow> Feed) \<Rightarrow> ('s, unit) svc" where
  "setFeedS f w = (Ret (), w\<lparr>w_feed := f (w_feed w)\<rparr>)"

definition emitS :: "metric list \<Rightarrow> ('s, unit) svc" where
  "emitS ms w = (Ret (), w\<lparr>w_trace := w_trace w @ ms\<rparr>)"

fun mapS :: "('a \<Rightarrow> ('s, 'b) svc) \<Rightarrow> 'a list \<Rightarrow> ('s, 'b list) svc" where
  "mapS f [] = retS []"
| "mapS f (x # xs) = bindS (f x) (\<lambda>y. bindS (mapS f xs) (\<lambda>ys. retS (y # ys)))"

definition err_of :: "gerr + unit \<Rightarrow> gerr option" where
  "err_of r = (case r of Inl e \<Rightarrow> Some e | Inr _ \<Rightarrow> None)"

end
