(* ===== verification/FeedService.thy ===== *)
theory FeedService
  imports Service
begin

text \<open>
  \<open>internal/core/feed.go\<close>: subscribing, polling, rescheduling, editing. One definition per method, over
  any store (\<open>ops\<close>), environment \<open>E\<close> and configuration. The feed of the call is the world's
  \<open>w_feed\<close>. Errors the methods return are \<open>gerr option\<close>; logging is not modelled.
\<close>

record FeedServiceConfig =
  fc_Schedule :: ScheduleConfig
  fc_Reschedule :: RescheduleConfig
  fc_Jitter :: jitter

text \<open>\<open>NewFeedService\<close> normalises the configuration. \<open>Factor <= 0\<close> is false for a NaN.\<close>

definition normalize_cfg :: "FeedServiceConfig \<Rightarrow> FeedServiceConfig" where
  "normalize_cfg cfg =
     (let s = fc_Schedule cfg; r = fc_Reschedule cfg;
          s = (if sc_MinInterval s \<le> 0 then s\<lparr>sc_MinInterval := 5 * Minute\<rparr> else s);
          s = (if sc_MaxInterval s \<le> sc_MinInterval s then s\<lparr>sc_MaxInterval := 24 * Hour\<rparr> else s);
          s = (if f64_le (sc_Factor s) (Fin 0) then s\<lparr>sc_Factor := Fin 1\<rparr> else s);
          r = (if rc_Interval r \<le> 0 then r\<lparr>rc_Interval := sc_MinInterval s\<rparr> else r);
          r = (if rc_MaxBackoff r \<le> 0 then r\<lparr>rc_MaxBackoff := sc_MaxInterval s\<rparr> else r)
      in cfg\<lparr>fc_Schedule := s, fc_Reschedule := r\<rparr>)"

section \<open>Recording the outcome of a poll\<close>

definition recordErrorEmit ::
  "'s store_ops \<Rightarrow> env \<Rightarrow> FeedServiceConfig \<Rightarrow> time \<Rightarrow> string \<Rightarrow> duration \<Rightarrow> PollResult \<Rightarrow> ErrorReason
    \<Rightarrow> bool \<Rightarrow> ('s, gerr option) svc" where
  "recordErrorEmit ops E cfg now msg retryAfter result reason emit =
     bindS (setFeedS (\<lambda>f. let n = f_ErrorCount f + 1 in
        f\<lparr>f_ErrorCount := n, f_LastError := msg, f_CheckedAt := Some now, f_UpdatedAt := now,
          f_NextCheckAt := PollReschedule now (fc_Reschedule cfg) n retryAfter (fc_Jitter cfg)\<rparr>)) (\<lambda>_.
     bindS (ctx_Err E) (\<lambda>cerr.
     bindS feedS (\<lambda>f.
     bindS (if cerr \<noteq> None then storeS (so_UpdateFeed ops None f)
            else storeC E (\<lambda>cx. so_UpdateFeed ops cx f)) (\<lambda>werr.
     bindS (if emit then emitS [FeedPollDone result, ErrorObserved CompFeedPoll reason] else retS ()) (\<lambda>_.
     retS (err_of werr))))))"

definition recordError ::
  "'s store_ops \<Rightarrow> env \<Rightarrow> FeedServiceConfig \<Rightarrow> time \<Rightarrow> string \<Rightarrow> duration \<Rightarrow> PollResult \<Rightarrow> ErrorReason
    \<Rightarrow> ('s, gerr option) svc" where
  "recordError ops E cfg now msg retryAfter result reason =
     recordErrorEmit ops E cfg now msg retryAfter result reason True"

definition recordPanic :: "'s store_ops \<Rightarrow> env \<Rightarrow> FeedServiceConfig \<Rightarrow> string \<Rightarrow> ('s, gerr option) svc" where
  "recordPanic ops E cfg p =
     bindS (clk_Now E) (\<lambda>now. recordError ops E cfg now (''panic: '' @ p) 0 PollPanic ReasonInternal)"

definition minCheck :: "FeedServiceConfig \<Rightarrow> time \<Rightarrow> time" where
  "minCheck cfg now = time_add now (add_jitter (fc_Jitter cfg) (sc_MinInterval (fc_Schedule cfg)))"

definition nextCheck :: "'s store_ops \<Rightarrow> env \<Rightarrow> (f64 \<Rightarrow> int) \<Rightarrow> FeedServiceConfig \<Rightarrow> time \<Rightarrow> ('s, time) svc" where
  "nextCheck ops E oob cfg now =
     bindS feedS (\<lambda>f.
     if time_sub now (f_CreatedAt f) < Week then retS (minCheck cfg now)
     else tryS (storeC E (\<lambda>cx. so_WeeklyEntryCount ops cx (f_ID f) now))
       (\<lambda>e. retS (minCheck cfg now))
       (\<lambda>wc. retS (time_add now (AdaptiveInterval oob wc (fc_Schedule cfg) (f_TTL f) (fc_Jitter cfg)))))"

section \<open>Ingest\<close>

definition ingest_entry ::
  "env \<Rightarrow> Feed \<Rightarrow> time \<Rightarrow> string \<Rightarrow> ParsedEntry \<Rightarrow> ('s, Entry) svc" where
  "ingest_entry E f now baseURL pe =
     (let published = (if pe_PublishedAt pe = zero_time then now else pe_PublishedAt pe) in
     bindS (outcomeS (en_sanitize E (pe_Content pe) baseURL)) (\<lambda>content.
     bindS (outcomeS (en_sanitize E (pe_Summary pe) baseURL)) (\<lambda>summary.
     retS (zero_entry\<lparr>e_UserID := f_UserID f, e_FeedID := f_ID f, e_GUID := pe_GUID pe, e_URL := pe_URL pe,
       e_Title := pe_Title pe, e_Author := pe_Author pe, e_Content := content, e_Summary := summary,
       e_PublishedAt := published, e_Status := StatusUnread, e_CreatedAt := now, e_Hash := pe_Hash pe,
       e_CommentsURL := httpURL (en_lib E) (pe_CommentsURL pe)\<rparr>))))"

text \<open>What the pre-filter lets through.\<close>

definition needs_ingest :: "(string \<Rightarrow> string option) \<Rightarrow> (string \<Rightarrow> bool) \<Rightarrow> ParsedEntry \<Rightarrow> bool" where
  "needs_ingest existing tombs pe \<longleftrightarrow>
     \<not> tombs (pe_GUID pe) \<and> existing (pe_GUID pe) \<noteq> Some (pe_Hash pe)"

definition ingest :: "'s store_ops \<Rightarrow> env \<Rightarrow> ParsedFeed \<Rightarrow> string \<Rightarrow> ('s, gerr option) svc" where
  "ingest ops E pf baseURL =
     bindS feedS (\<lambda>f.
     bindS (clk_Now E) (\<lambda>now.
     tryS (storeC E (\<lambda>cx. so_EntryDedup ops cx (f_ID f) (map pe_GUID (pf_Entries pf))))
       (\<lambda>e. retS (Some e))
       (\<lambda>(existing, tombs).
          bindS (mapS (ingest_entry E f now baseURL) (filter (needs_ingest existing tombs) (pf_Entries pf))) (\<lambda>entries.
          tryS (storeC E (\<lambda>cx. so_UpsertEntries ops cx (f_ID f) entries))
            (\<lambda>e. retS (Some e)) (\<lambda>_. retS None)))))"

section \<open>A successful poll\<close>

text \<open>The poll-owned fields of the feed after a successful fetch.\<close>

definition apply_parsed :: "ParsedFeed option \<Rightarrow> Feed \<Rightarrow> Feed" where
  "apply_parsed pf f = (case pf of None \<Rightarrow> f | Some p \<Rightarrow>
     f\<lparr>f_Title := orKeep (pf_Title p) (f_Title f), f_SiteURL := orKeep (pf_SiteURL p) (f_SiteURL f),
       f_Description := orKeep (pf_Description p) (f_Description f), f_TTL := pf_TTL p\<rparr>)"

definition apply_success :: "FetchResponse \<Rightarrow> time \<Rightarrow> Feed \<Rightarrow> Feed" where
  "apply_success resp now f =
     f\<lparr>f_Title := feedTitle (f_Title f) (f_FeedURL f),
       f_ETag := (if rs_ETag resp \<noteq> [] then rs_ETag resp else f_ETag f),
       f_LastModified := (if rs_LastModified resp \<noteq> [] then rs_LastModified resp else f_LastModified f),
       f_ErrorCount := 0, f_LastError := [], f_CheckedAt := Some now, f_UpdatedAt := now\<rparr>"

definition recordSuccess ::
  "'s store_ops \<Rightarrow> env \<Rightarrow> (f64 \<Rightarrow> int) \<Rightarrow> FeedServiceConfig \<Rightarrow> time \<Rightarrow> FetchResponse \<Rightarrow> ParsedFeed option
    \<Rightarrow> ('s, gerr option) svc" where
  "recordSuccess ops E oob cfg now resp pf =
     bindS feedS (\<lambda>f.
     bindS (case pf of None \<Rightarrow> retS None | Some p \<Rightarrow> ingest ops E p (orURL (rs_FinalURL resp) (f_FeedURL f))) (\<lambda>ierr.
     case ierr of
       Some e \<Rightarrow> recordError ops E cfg now (''ingest: '' @ err_text e) 0 PollStoreError ReasonInternal
     | None \<Rightarrow>
         bindS (setFeedS (apply_success resp now \<circ> apply_parsed pf)) (\<lambda>_.
         bindS (nextCheck ops E oob cfg now) (\<lambda>next.
         bindS (setFeedS (\<lambda>f. f\<lparr>f_NextCheckAt := next\<rparr>)) (\<lambda>_.
         bindS feedS (\<lambda>f.
         tryS (storeC E (\<lambda>cx. so_UpdateFeed ops cx f))
           (\<lambda>e. bindS (emitS [FeedPollDone PollStoreError, ErrorObserved CompFeedPoll ReasonInternal]) (\<lambda>_.
                retS (Some e)))
           (\<lambda>_. bindS (emitS [FeedPollDone (if pf \<noteq> None then PollSuccess else PollNotModified)]) (\<lambda>_.
                retS None))))))))"

section \<open>Resolving a subscription\<close>

definition validation :: "string \<Rightarrow> gerr" where
  "validation t = Errorf (err_text ErrValidation @ '': '' @ t) [ErrValidation]"

text \<open>\<open>fmt.Errorf("%w: fetch failed: %w", ErrValidation, err)\<close>.\<close>

definition fetch_failed :: "gerr \<Rightarrow> gerr" where
  "fetch_failed e = Errorf (err_text ErrValidation @ '': fetch failed: '' @ err_text e) [ErrValidation, e]"

definition url_request :: "string \<Rightarrow> FetchRequest" where
  "url_request u = \<lparr>rq_URL = u, rq_ETag = [], rq_LastModified = []\<rparr>"

definition resolveFeed ::
  "env \<Rightarrow> string \<Rightarrow> ('s, gerr + string \<times> ParsedFeed option \<times> FetchResponse) svc" where
  "resolveFeed E rawURL =
     tryS (fetchS E (url_request rawURL)) (\<lambda>e. retS (Inl (fetch_failed e))) (\<lambda>resp.
     if rs_Status resp \<noteq> 200 \<or> rs_Body resp = []
     then retS (Inl (validation (''feed returned status '' @ FormatInt (rs_Status resp))))
     else let base = orURL (rs_FinalURL resp) rawURL in
       bindS (outcomeS (en_parse E (rs_Body resp) (rs_ContentType resp) base)) (\<lambda>p.
       case p of
         Inr (Some pf) \<Rightarrow>
           retS (Inr (normalizeFeedURL (en_lib E) (canonicalURL rawURL resp), Some pf, resp))
       | _ \<Rightarrow>
           bindS (outcomeS (en_discover E (rs_Body resp) base)) (\<lambda>d.
           case d of
             Inr (u # us) \<Rightarrow>
               tryS (fetchS E (url_request u))
                 (\<lambda>e. retS (Inl (validation ''discovered feed unreachable'')))
                 (\<lambda>resp2.
                    if rs_Status resp2 \<noteq> 200 then retS (Inl (validation ''discovered feed unreachable''))
                    else bindS (outcomeS (en_parse E (rs_Body resp2) (rs_ContentType resp2)
                           (orURL (rs_FinalURL resp2) u))) (\<lambda>p2.
                      case p2 of
                        Inl e \<Rightarrow> retS (Inl (validation ''discovered feed unparseable''))
                      | Inr pf \<Rightarrow>
                          retS (Inr (normalizeFeedURL (en_lib E) (canonicalURL u resp2), pf, resp2))))
           | _ \<Rightarrow> retS (Inl (validation ''no feed found at URL'')))))"

definition resolve_pipeline ::
  "'s store_ops \<Rightarrow> env \<Rightarrow> (f64 \<Rightarrow> int) \<Rightarrow> FeedServiceConfig \<Rightarrow> ('s, gerr option) svc" where
  "resolve_pipeline ops E oob cfg =
     bindS feedS (\<lambda>f.
     tryS (resolveFeed E (f_FeedURL f))
       (\<lambda>e. bindS (clk_Now E) (\<lambda>now.
          recordError ops E cfg now (err_text e) 0 PollFetchError (ClassifyFetchError e)))
       (\<lambda>(feedURL, pf, resp).
          let success = bindS (clk_Now E) (\<lambda>now. recordSuccess ops E oob cfg now resp pf) in
          if feedURL \<noteq> f_FeedURL f then
            bindS (clk_Now E) (\<lambda>now.
            tryS (storeC E (\<lambda>cx. so_SetFeedURL ops cx (f_UserID f) (f_ID f) feedURL now))
              (\<lambda>e. if err_is SConflict e then
                     tryS (storeC E (\<lambda>cx. so_DeleteFeed ops cx (f_UserID f) (f_ID f)))
                       (\<lambda>derr. bindS (clk_Now E) (\<lambda>now.
                          recordError ops E cfg now ''already subscribed to this feed'' 0 PollStoreError ReasonInternal))
                       (\<lambda>_. bindS (emitS [FeedPollDone PollSuccess]) (\<lambda>_. retS None))
                   else bindS (clk_Now E) (\<lambda>now.
                     recordError ops E cfg now (err_text e) 0 PollStoreError ReasonInternal))
              (\<lambda>_. bindS (setFeedS (\<lambda>f. f\<lparr>f_FeedURL := feedURL\<rparr>)) (\<lambda>_. success)))
          else success))"

definition resolveAndIngest ::
  "'s store_ops \<Rightarrow> env \<Rightarrow> (f64 \<Rightarrow> int) \<Rightarrow> FeedServiceConfig \<Rightarrow> ('s, gerr option) svc" where
  "resolveAndIngest ops E oob cfg = recoverS (resolve_pipeline ops E oob cfg) (recordPanic ops E cfg)"

definition ResolveAndIngest ::
  "'s store_ops \<Rightarrow> env \<Rightarrow> (f64 \<Rightarrow> int) \<Rightarrow> FeedServiceConfig \<Rightarrow> ('s, gerr option) svc" where
  "ResolveAndIngest ops E oob cfg =
     bindS (clk_Now E) (\<lambda>start.
     bindS (resolveAndIngest ops E oob cfg) (\<lambda>err.
     bindS (clk_Now E) (\<lambda>fin.
     bindS (emitS [ObserveFeedPoll (time_sub fin start)]) (\<lambda>_. retS err))))"

section \<open>Polling\<close>

definition adoptPermanentRedirect :: "'s store_ops \<Rightarrow> env \<Rightarrow> FetchResponse \<Rightarrow> ('s, unit) svc" where
  "adoptPermanentRedirect ops E resp =
     bindS feedS (\<lambda>f.
     if \<not> rs_PermanentRedirect resp \<or> rs_FinalURL resp = [] \<or> rs_FinalURL resp = f_FeedURL f then retS ()
     else bindS (clk_Now E) (\<lambda>now.
       tryS (storeC E (\<lambda>cx. so_SetFeedURL ops cx (f_UserID f) (f_ID f) (rs_FinalURL resp) now))
         (\<lambda>e. retS ())
         (\<lambda>_. setFeedS (\<lambda>f. f\<lparr>f_FeedURL := rs_FinalURL resp, f_ETag := [], f_LastModified := []\<rparr>))))"

text \<open>The body of \<open>PollFeed\<close> between the deferred functions; the second component is \<open>counted\<close>.\<close>

definition poll_pipeline ::
  "'s store_ops \<Rightarrow> env \<Rightarrow> (f64 \<Rightarrow> int) \<Rightarrow> FeedServiceConfig \<Rightarrow> time \<Rightarrow> ('s, gerr option \<times> bool) svc" where
  "poll_pipeline ops E oob cfg start =
     (let counted = (\<lambda>m. bindS m (\<lambda>e. retS (e, True))) in
     bindS feedS (\<lambda>f.
     tryS (fetchS E \<lparr>rq_URL = f_FeedURL f, rq_ETag = f_ETag f, rq_LastModified = f_LastModified f\<rparr>)
       (\<lambda>e. bindS (ctx_Err E) (\<lambda>cerr.
          if ctxShutdownCanceled cerr e
          then bindS (recordErrorEmit ops E cfg start (err_text e) 0 PollFetchError (ClassifyFetchError e) False)
                 (\<lambda>r. retS (r, False))
          else counted (recordError ops E cfg start (err_text e) 0 PollFetchError (ClassifyFetchError e))))
       (\<lambda>resp.
          if rs_NotModified resp then
            bindS (adoptPermanentRedirect ops E resp) (\<lambda>_.
            counted (recordSuccess ops E oob cfg start resp None))
          else if rs_Status resp \<noteq> 200 then
            (let reason = classifyHTTPStatus (rs_Status resp);
                 retryAfter = (if reason = ReasonRateLimited \<or> reason = ReasonHTTP5xx then rs_RetryAfter resp else 0)
             in counted (recordError ops E cfg start (''http '' @ FormatInt (rs_Status resp)) retryAfter PollHTTPError reason))
          else
            bindS (adoptPermanentRedirect ops E resp) (\<lambda>_.
            bindS feedS (\<lambda>f.
            bindS (outcomeS (en_parse E (rs_Body resp) (rs_ContentType resp) (orURL (rs_FinalURL resp) (f_FeedURL f)))) (\<lambda>p.
            case p of
              Inl e \<Rightarrow>
                if isHTML (en_lib E) (rs_ContentType resp) \<and> 0 < f_ErrorCount f
                then counted (resolveAndIngest ops E oob cfg)
                else counted (recordError ops E cfg start (''parse: '' @ err_text e) 0 PollParseError ReasonParse)
            | Inr pf \<Rightarrow> counted (recordSuccess ops E oob cfg start resp pf)))))))"

text \<open>The recover runs before the duration is observed: deferred functions run last in, first out.\<close>

definition PollFeed ::
  "'s store_ops \<Rightarrow> env \<Rightarrow> (f64 \<Rightarrow> int) \<Rightarrow> FeedServiceConfig \<Rightarrow> ('s, gerr option) svc" where
  "PollFeed ops E oob cfg =
     bindS (clk_Now E) (\<lambda>start.
     bindS (recoverS (poll_pipeline ops E oob cfg start)
              (\<lambda>p. bindS (recordPanic ops E cfg p) (\<lambda>e. retS (e, True)))) (\<lambda>(err, counted).
     bindS (if counted
            then bindS (clk_Now E) (\<lambda>fin. emitS [ObserveFeedPoll (time_sub fin start)])
            else retS ()) (\<lambda>_.
     retS err)))"

section \<open>Subscribing and editing\<close>

definition ensureCategoryOwned :: "'s store_ops \<Rightarrow> env \<Rightarrow> ID \<Rightarrow> ID option \<Rightarrow> ('s, gerr option) svc" where
  "ensureCategoryOwned ops E uid cat =
     (case cat of
        None \<Rightarrow> retS None
      | Some k \<Rightarrow> tryS (storeC E (\<lambda>cx. so_GetCategory ops cx uid k))
          (\<lambda>e. retS (Some (if err_is SNotFound e then validation ''unknown category'' else e)))
          (\<lambda>_. retS None))"

definition CreateSubscription ::
  "'s store_ops \<Rightarrow> env \<Rightarrow> FeedServiceConfig \<Rightarrow> ID \<Rightarrow> string \<Rightarrow> ID option \<Rightarrow> bool \<Rightarrow> ('s, gerr + Feed) svc" where
  "CreateSubscription ops E cfg uid rawURL cat full =
     (let rawURL = normalizeFeedURL (en_lib E) rawURL in
      if httpURL (en_lib E) rawURL = [] then retS (Inl (validation ''invalid feed URL''))
      else bindS (ensureCategoryOwned ops E uid cat) (\<lambda>cerr.
        case cerr of Some e \<Rightarrow> retS (Inl e) | None \<Rightarrow>
          bindS (clk_Now E) (\<lambda>now.
          let f = zero_feed\<lparr>f_UserID := uid, f_CategoryID := cat, f_FeedURL := rawURL,
                f_Title := feedTitle [] rawURL,
                f_NextCheckAt := time_add now (sc_MinInterval (fc_Schedule cfg)),
                f_CreatedAt := now, f_UpdatedAt := now, f_FetchFullContent := full\<rparr> in
          tryS (storeC E (\<lambda>cx. so_CreateFeed ops cx f))
            (\<lambda>e. retS (Inl e)) (\<lambda>i. retS (Inr (f\<lparr>f_ID := i\<rparr>))))))"

definition Subscribe ::
  "'s store_ops \<Rightarrow> env \<Rightarrow> (f64 \<Rightarrow> int) \<Rightarrow> FeedServiceConfig \<Rightarrow> ID \<Rightarrow> string \<Rightarrow> ID option \<Rightarrow> bool
    \<Rightarrow> ('s, gerr + Feed) svc" where
  "Subscribe ops E oob cfg uid rawURL cat full =
     tryS (CreateSubscription ops E cfg uid rawURL cat full) (\<lambda>e. retS (Inl e)) (\<lambda>f.
     bindS (setFeedS (\<lambda>_. f)) (\<lambda>_.
     bindS (ResolveAndIngest ops E oob cfg) (\<lambda>err.
     case err of
       Some e \<Rightarrow> bindS (storeC E (\<lambda>cx. so_DeleteFeed ops cx uid (f_ID f))) (\<lambda>_. retS (Inl e))
     | None \<Rightarrow> bindS feedS (\<lambda>f. retS (Inr f)))))"

definition Refresh ::
  "'s store_ops \<Rightarrow> env \<Rightarrow> (f64 \<Rightarrow> int) \<Rightarrow> FeedServiceConfig \<Rightarrow> ID \<Rightarrow> ID \<Rightarrow> ('s, gerr option) svc" where
  "Refresh ops E oob cfg uid fid =
     tryS (storeC E (\<lambda>cx. so_GetFeed ops cx uid fid)) (\<lambda>e. retS (Some e)) (\<lambda>f.
     bindS (setFeedS (\<lambda>_. f)) (\<lambda>_. PollFeed ops E oob cfg))"

definition SetFullContent :: "'s store_ops \<Rightarrow> env \<Rightarrow> ID \<Rightarrow> ID \<Rightarrow> bool \<Rightarrow> ('s, gerr + unit) svc" where
  "SetFullContent ops E uid fid on =
     bindS (clk_Now E) (\<lambda>now. storeC E (\<lambda>cx. so_SetFeedFullContent ops cx uid fid on now))"

record EditFeedInput =
  ei_Title :: string
  ei_URL :: string
  ei_CategoryID :: "ID option"
  ei_FullContent :: bool

record EditFeedResult =
  er_URLChanged :: bool
  er_CategoryChanged :: bool

text \<open>\<open>EditFeed\<close> returns its result beside the error.\<close>

definition EditFeed ::
  "'s store_ops \<Rightarrow> env \<Rightarrow> ID \<Rightarrow> ID \<Rightarrow> EditFeedInput \<Rightarrow> ('s, EditFeedResult \<times> gerr option) svc" where
  "EditFeed ops E uid fid inp =
     (let res0 = \<lparr>er_URLChanged = False, er_CategoryChanged = False\<rparr> in
     tryS (storeC E (\<lambda>cx. so_GetFeed ops cx uid fid)) (\<lambda>e. retS (res0, Some e)) (\<lambda>f.
     let trimmed = TrimSpace (ei_URL inp);
         newURL = (if trimmed \<noteq> [] then normalizeFeedURL (en_lib E) trimmed else []) in
     if trimmed \<noteq> [] \<and> httpURL (en_lib E) newURL = [] then retS (res0, Some (validation ''invalid feed URL''))
     else bindS (ensureCategoryOwned ops E uid (ei_CategoryID inp)) (\<lambda>cerr.
       case cerr of Some e \<Rightarrow> retS (res0, Some e) | None \<Rightarrow>
       tryS (if newURL \<noteq> [] \<and> newURL \<noteq> f_FeedURL f
             then bindS (clk_Now E) (\<lambda>now. storeC E (\<lambda>cx. so_SetFeedURL ops cx uid fid newURL now))
             else retS (Inr ())) (\<lambda>e. retS (res0, Some e)) (\<lambda>_.
       let res1 = res0\<lparr>er_URLChanged := (newURL \<noteq> [] \<and> newURL \<noteq> f_FeedURL f)\<rparr> in
       tryS (storeC E (\<lambda>cx. so_SetFeedUserTitle ops cx uid fid (TrimSpace (ei_Title inp))))
         (\<lambda>e. retS (res1, Some e)) (\<lambda>_.
       tryS (if \<not> sameID (f_CategoryID f) (ei_CategoryID inp)
             then storeC E (\<lambda>cx. so_SetFeedCategory ops cx uid fid (ei_CategoryID inp))
             else retS (Inr ())) (\<lambda>e. retS (res1, Some e)) (\<lambda>_.
       let res2 = res1\<lparr>er_CategoryChanged := (\<not> sameID (f_CategoryID f) (ei_CategoryID inp))\<rparr> in
       tryS (if ei_FullContent inp \<noteq> f_FetchFullContent f
             then SetFullContent ops E uid fid (ei_FullContent inp)
             else retS (Inr ())) (\<lambda>e. retS (res2, Some e)) (\<lambda>_. retS (res2, None))))))))"

section \<open>Pass-through methods\<close>

definition fs_Get :: "'s store_ops \<Rightarrow> env \<Rightarrow> ID \<Rightarrow> ID \<Rightarrow> ('s, gerr + Feed) svc" where
  "fs_Get ops E uid fid = storeC E (\<lambda>cx. so_GetFeed ops cx uid fid)"

definition fs_List :: "'s store_ops \<Rightarrow> env \<Rightarrow> ID \<Rightarrow> ('s, gerr + Feed list) svc" where
  "fs_List ops E uid = storeC E (\<lambda>cx. so_ListFeeds ops cx uid)"

definition fs_Delete :: "'s store_ops \<Rightarrow> env \<Rightarrow> ID \<Rightarrow> ID \<Rightarrow> ('s, gerr + unit) svc" where
  "fs_Delete ops E uid fid = storeC E (\<lambda>cx. so_DeleteFeed ops cx uid fid)"

end
