(* ===== verification/SqlModel.thy ===== *)
theory SqlModel
  imports CoreTypes "HOL-Library.Char_ord" "HOL-Library.List_Lexorder" "HOL-Library.Product_Lexorder"
begin

text \<open>
  The SQLite database after all migrations (\<open>internal/store/sqlite/migrations\<close>): the row types of
  \<open>sqlc/models.go\<close>, the tables with their constraints, and what every table shares: id allocation,
  constraint errors with the driver's message texts, the \<open>NOCASE\<close> collation. A table is the list of
  its rows in rowid order. The queries are in \<open>SqlFeeds\<close> and \<open>SqlEntries\<close>.
\<close>

section \<open>Rows\<close>

record FeedRow =
  fr_ID :: int
  fr_UserID :: int
  fr_FeedUrl :: string
  fr_SiteUrl :: string
  fr_Title :: string
  fr_Description :: string
  fr_Etag :: string
  fr_LastModified :: string
  fr_Disabled :: int
  fr_CheckedAt :: "int option"
  fr_NextCheckAt :: int
  fr_ErrorCount :: int
  fr_LastError :: string
  fr_CreatedAt :: int
  fr_UpdatedAt :: int
  fr_CategoryID :: "int option"
  fr_FetchFullContent :: int
  fr_TtlSeconds :: "int option"
  fr_UserTitle :: string

record EntryRow =
  er_ID :: int
  er_UserID :: int
  er_FeedID :: int
  er_Guid :: string
  er_Url :: string
  er_Title :: string
  er_Author :: string
  er_Content :: string
  er_Summary :: string
  er_PublishedAt :: int
  er_Status :: string
  er_Starred :: int
  er_ReadAt :: "int option"
  er_CreatedAt :: int
  er_Hash :: string
  er_ExtractState :: string
  er_ExtractAttempts :: int
  er_NextExtractAt :: "int option"
  er_ExtractError :: string
  er_ContentText :: string
  er_SummaryText :: string
  er_CommentsUrl :: string

record CategoryRow =
  cr_ID :: int
  cr_UserID :: int
  cr_Title :: string

record TombstoneRow =
  tb_FeedID :: int
  tb_Guid :: string
  tb_DeletedAt :: int

record UserRow =
  ur_ID :: int
  ur_Username :: string
  ur_CreatedAt :: int

text \<open>The database. \<open>feed_seq\<close> is the \<open>sqlite_sequence\<close> row of the \<open>AUTOINCREMENT\<close> table \<open>feeds\<close>
  (migration 0010); the other tables allocate one more than their largest rowid, so they reuse the
  id of a deleted last row.\<close>

record db =
  users :: "UserRow list"
  feeds :: "FeedRow list"
  feed_seq :: int
  entries :: "EntryRow list"
  categories :: "CategoryRow list"
  tombstones :: "TombstoneRow list"
  settings :: "string \<Rightarrow> string option"

text \<open>The database a fresh install has: the user of migration 0001.\<close>

definition init_db :: db where
  "init_db = \<lparr>users = [\<lparr>ur_ID = 1, ur_Username = ''ben'', ur_CreatedAt = 0\<rparr>], feeds = [],
     feed_seq = 0, entries = [], categories = [], tombstones = [], settings = (\<lambda>_. None)\<rparr>"

section \<open>Constraint errors\<close>

text \<open>What \<open>modernc.org/sqlite\<close> returns: a driver error whose text carries SQLite's message and the
  extended result code.\<close>

definition unique_failed :: "string \<Rightarrow> gerr" where
  "unique_failed cols = errors_New (''constraint failed: UNIQUE constraint failed: '' @ cols @ '' (2067)'')"

definition fk_failed :: gerr where
  "fk_failed = errors_New ''constraint failed: FOREIGN KEY constraint failed (787)''"

definition check_failed :: "string \<Rightarrow> gerr" where
  "check_failed c = errors_New (''constraint failed: CHECK constraint failed: '' @ c @ '' (275)'')"

section \<open>Statements\<close>

text \<open>A statement reads or changes the database, or fails and leaves it unchanged.\<close>

type_synonym 'a stmt = "db \<Rightarrow> (gerr + 'a) \<times> db"

definition max_id :: "('r \<Rightarrow> int) \<Rightarrow> 'r list \<Rightarrow> int" where
  "max_id k xs = foldr (\<lambda>x m. max (k x) m) xs 0"

lemma max_id_Nil [simp]: "max_id k [] = 0"
  by (simp add: max_id_def)

lemma max_id_Cons [simp]: "max_id k (x # xs) = max (k x) (max_id k xs)"
  by (simp add: max_id_def)

lemma max_id_ge: "x \<in> set xs \<Longrightarrow> k x \<le> max_id k xs"
  by (induction xs) auto

lemma max_id_nonneg: "0 \<le> max_id k xs"
  by (induction xs) auto

text \<open>\<open>ORDER BY e\<close>, ties in rowid order, and \<open>LIMIT n\<close>, where a negative \<open>n\<close> means no limit.\<close>

definition limit_rows :: "int \<Rightarrow> 'a list \<Rightarrow> 'a list" where
  "limit_rows n xs = (if n < 0 then xs else take (nat n) xs)"

text \<open>\<open>COLLATE NOCASE\<close> compares after folding the ASCII upper case letters.\<close>

definition nocase :: "string \<Rightarrow> string" where
  "nocase s = map ascii_lower s"

section \<open>Table constraints\<close>

definition feed_checks :: "FeedRow \<Rightarrow> gerr option" where
  "feed_checks r =
     (if fr_Disabled r \<notin> {0, 1} then Some (check_failed ''disabled IN (0,1)'')
      else if fr_FetchFullContent r \<notin> {0, 1} then Some (check_failed ''fetch_full_content IN (0,1)'')
      else None)"

definition feed_fk :: "db \<Rightarrow> FeedRow \<Rightarrow> bool" where
  "feed_fk d r \<longleftrightarrow> fr_UserID r \<in> ur_ID ` set (users d)
     \<and> (fr_CategoryID r = None \<or> the (fr_CategoryID r) \<in> cr_ID ` set (categories d))"

definition entry_checks :: "EntryRow \<Rightarrow> gerr option" where
  "entry_checks r =
     (if er_Status r \<notin> {''unread'', ''read''} then Some (check_failed ''status IN ('unread','read')'')
      else if er_Starred r \<notin> {0, 1} then Some (check_failed ''starred IN (0,1)'')
      else if er_ExtractState r \<notin> {''none'', ''pending'', ''done'', ''failed''}
        then Some (check_failed ''extract_state IN ('none','pending','done','failed')'')
      else None)"

definition entry_fk :: "db \<Rightarrow> EntryRow \<Rightarrow> bool" where
  "entry_fk d r \<longleftrightarrow> er_UserID r \<in> ur_ID ` set (users d) \<and> er_FeedID r \<in> fr_ID ` set (feeds d)"

section \<open>The invariant the schema enforces\<close>

definition ids_ok :: "('r \<Rightarrow> int) \<Rightarrow> 'r list \<Rightarrow> bool" where
  "ids_ok k xs \<longleftrightarrow> sorted_wrt (<) (map k xs) \<and> (\<forall>x \<in> set xs. 0 < k x)"

lemma ids_ok_distinct: "ids_ok k xs \<Longrightarrow> distinct (map k xs)"
  by (simp add: ids_ok_def strict_sorted_iff)

lemma ids_ok_filter: "ids_ok k xs \<Longrightarrow> ids_ok k (filter P xs)"
  by (auto simp: ids_ok_def sorted_wrt_map intro: sorted_wrt_filter)

lemma ids_ok_keys: "ids_ok k xs \<longleftrightarrow> sorted_wrt (<) (map k xs) \<and> (\<forall>i \<in> set (map k xs). 0 < i)"
  by (simp add: ids_ok_def)

lemma ids_ok_upd_where: "(\<And>x. P x \<Longrightarrow> k (f x) = k x) \<Longrightarrow> ids_ok k (upd_where P f xs) = ids_ok k xs"
  by (simp only: ids_ok_keys map_upd_where)

lemma ids_ok_snoc: "ids_ok k xs \<Longrightarrow> \<forall>x \<in> set xs. k x < k r \<Longrightarrow> 0 < k r \<Longrightarrow> ids_ok k (xs @ [r])"
  by (auto simp: ids_ok_def sorted_wrt_append)

lemma ids_ok_next: "ids_ok k xs \<Longrightarrow> max_id k xs < k r \<Longrightarrow> ids_ok k (xs @ [r])"
  using max_id_nonneg [of k xs] by (intro ids_ok_snoc) (auto dest: max_id_ge [of _ xs k])

definition wf_users :: "db \<Rightarrow> bool" where
  "wf_users d \<longleftrightarrow> distinct (map ur_ID (users d))"

definition wf_feeds :: "db \<Rightarrow> bool" where
  "wf_feeds d \<longleftrightarrow> ids_ok fr_ID (feeds d) \<and> (\<forall>r \<in> set (feeds d). fr_ID r \<le> feed_seq d)
     \<and> distinct (map (\<lambda>r. (fr_UserID r, fr_FeedUrl r)) (feeds d))
     \<and> (\<forall>r \<in> set (feeds d). feed_checks r = None \<and> feed_fk d r) \<and> 0 \<le> feed_seq d"

definition wf_categories :: "db \<Rightarrow> bool" where
  "wf_categories d \<longleftrightarrow> ids_ok cr_ID (categories d)
     \<and> distinct (map (\<lambda>r. (cr_UserID r, nocase (cr_Title r))) (categories d))
     \<and> (\<forall>r \<in> set (categories d). cr_UserID r \<in> ur_ID ` set (users d))"

definition wf_entries :: "db \<Rightarrow> bool" where
  "wf_entries d \<longleftrightarrow> ids_ok er_ID (entries d)
     \<and> distinct (map (\<lambda>r. (er_FeedID r, er_Guid r)) (entries d))
     \<and> (\<forall>r \<in> set (entries d). entry_checks r = None \<and> entry_fk d r)"

definition wf_tombstones :: "db \<Rightarrow> bool" where
  "wf_tombstones d \<longleftrightarrow> distinct (map (\<lambda>t. (tb_FeedID t, tb_Guid t)) (tombstones d))
     \<and> (\<forall>t \<in> set (tombstones d). tb_FeedID t \<in> fr_ID ` set (feeds d))"

definition wf_db :: "db \<Rightarrow> bool" where
  "wf_db d \<longleftrightarrow> wf_users d \<and> wf_feeds d \<and> wf_categories d \<and> wf_entries d \<and> wf_tombstones d"

lemma wf_init_db: "wf_db init_db"
  by (simp add: wf_db_def init_db_def wf_users_def wf_feeds_def wf_categories_def wf_entries_def
      wf_tombstones_def ids_ok_def)

text \<open>A statement that keeps the invariant on every outcome.\<close>

definition keeps :: "(db \<Rightarrow> bool) \<Rightarrow> 'a stmt \<Rightarrow> bool" where
  "keeps I s \<longleftrightarrow> (\<forall>d. I d \<longrightarrow> I (snd (s d)))"

lemma keepsI: "(\<And>d. I d \<Longrightarrow> I (snd (s d))) \<Longrightarrow> keeps I s"
  by (simp add: keeps_def)

lemma keepsD: "keeps I s \<Longrightarrow> I d \<Longrightarrow> I (snd (s d))"
  by (simp add: keeps_def)

end
