(* ===== verification/SqlFeeds.thy ===== *)
theory SqlFeeds
  imports SqlModel
begin

text \<open>
  The queries of \<open>sqlc/feeds.sql.go\<close>, \<open>sqlc/categories.sql.go\<close>, \<open>sqlc/settings.sql.go\<close> and
  \<open>sqlc/users.sql.go\<close>, one definition each, with the constraints they can violate and the cascades
  of the foreign keys; then the lemmas that each keeps the schema's invariant.
  The columns of an \<open>INSERT\<close> or \<open>UPDATE\<close> parameter struct are passed as a row; the columns the
  statement does not name are ignored.
\<close>

section \<open>\<open>feeds.sql.go\<close>\<close>

text \<open>\<open>:one\<close> queries return the row or \<open>sql.ErrNoRows\<close>.\<close>

definition query_row :: "'a option \<Rightarrow> gerr + 'a" where
  "query_row r = (case r of None \<Rightarrow> Inl ErrNoRows | Some a \<Rightarrow> Inr a)"

definition feed_due :: "int \<Rightarrow> FeedRow \<Rightarrow> bool" where
  "feed_due now r \<longleftrightarrow> fr_Disabled r = 0 \<and> fr_NextCheckAt r \<le> now"

definition sql_CountDueFeeds :: "int \<Rightarrow> int stmt" where
  "sql_CountDueFeeds now d = (Inr (count_where (feed_due now) (feeds d)), d)"

definition sql_CountFeeds :: "int stmt" where
  "sql_CountFeeds d = (Inr (int (length (feeds d))), d)"

definition sql_CreateFeed :: "FeedRow \<Rightarrow> int stmt" where
  "sql_CreateFeed a d =
     (let rid = max (feed_seq d) (max_id fr_ID (feeds d)) + 1;
          row = a\<lparr>fr_ID := rid, fr_UserTitle := []\<rparr>
      in case feed_checks row of
           Some e \<Rightarrow> (Inl e, d)
         | None \<Rightarrow>
             if \<exists>r \<in> set (feeds d). fr_UserID r = fr_UserID row \<and> fr_FeedUrl r = fr_FeedUrl row
             then (Inl (unique_failed ''feeds.user_id, feeds.feed_url''), d)
             else if \<not> feed_fk d row then (Inl fk_failed, d)
             else (Inr rid, d\<lparr>feeds := feeds d @ [row], feed_seq := rid\<rparr>))"

text \<open>\<open>ON DELETE CASCADE\<close> takes the feed's entries and tombstones.\<close>

definition feed_is :: "int \<Rightarrow> int \<Rightarrow> FeedRow \<Rightarrow> bool" where
  "feed_is i uid r \<longleftrightarrow> fr_ID r = i \<and> fr_UserID r = uid"

definition sql_DeleteFeed :: "int \<Rightarrow> int \<Rightarrow> int stmt" where
  "sql_DeleteFeed i uid d =
     (let gone = fr_ID ` set (filter (feed_is i uid) (feeds d))
      in (Inr (count_where (feed_is i uid) (feeds d)),
          d\<lparr>feeds := filter (\<lambda>r. \<not> feed_is i uid r) (feeds d),
            entries := filter (\<lambda>e. er_FeedID e \<notin> gone) (entries d),
            tombstones := filter (\<lambda>t. tb_FeedID t \<notin> gone) (tombstones d)\<rparr>))"

text \<open>One row per feed that has entries: its id, its entries, its unread entries.\<close>

definition sql_EntryStatsByFeed :: "int \<Rightarrow> (int \<times> int \<times> int) list stmt" where
  "sql_EntryStatsByFeed uid d =
     (let es = filter (\<lambda>e. er_UserID e = uid) (entries d)
      in (Inr (map (\<lambda>k. (k, count_where (\<lambda>e. er_FeedID e = k) es,
                         count_where (\<lambda>e. er_FeedID e = k \<and> er_Status e = ''unread'') es))
                (sort (remdups (map er_FeedID es)))), d))"

definition sql_FeedEntryStatsByID :: "int \<Rightarrow> int \<Rightarrow> (int \<times> int) stmt" where
  "sql_FeedEntryStatsByID uid fid d =
     (let es = filter (\<lambda>e. er_UserID e = uid \<and> er_FeedID e = fid) (entries d)
      in (Inr (int (length es), count_where (\<lambda>e. er_Status e = ''unread'') es), d))"

definition sql_GetFeed :: "int \<Rightarrow> int \<Rightarrow> FeedRow stmt" where
  "sql_GetFeed i uid d = (query_row (find (feed_is i uid) (feeds d)), d)"

definition sql_ListDueFeeds :: "int \<Rightarrow> int \<Rightarrow> FeedRow list stmt" where
  "sql_ListDueFeeds now lm d =
     (Inr (limit_rows lm (sort_key fr_NextCheckAt (filter (feed_due now) (feeds d)))), d)"

definition display_key :: "FeedRow \<Rightarrow> string" where
  "display_key r = nocase (if fr_UserTitle r \<noteq> [] then fr_UserTitle r else fr_Title r)"

definition sql_ListFeeds :: "int \<Rightarrow> FeedRow list stmt" where
  "sql_ListFeeds uid d =
     (Inr (sort_key display_key (filter (\<lambda>r. fr_UserID r = uid) (feeds d))), d)"

definition sql_SetFeedCategory :: "int option \<Rightarrow> int \<Rightarrow> int \<Rightarrow> int stmt" where
  "sql_SetFeedCategory cat i uid d =
     (let upd = (\<lambda>r. r\<lparr>fr_CategoryID := cat\<rparr>)
      in if \<exists>r \<in> set (feeds d). feed_is i uid r \<and> \<not> feed_fk d (upd r) then (Inl fk_failed, d)
         else (Inr (count_where (feed_is i uid) (feeds d)),
               d\<lparr>feeds := upd_where (feed_is i uid) upd (feeds d)\<rparr>))"

definition sql_SetFeedFullContent :: "int \<Rightarrow> int \<Rightarrow> int \<Rightarrow> int stmt" where
  "sql_SetFeedFullContent v i uid d =
     (let upd = (\<lambda>r. r\<lparr>fr_FetchFullContent := v\<rparr>)
      in if v \<notin> {0, 1} \<and> (\<exists>r \<in> set (feeds d). feed_is i uid r)
         then (Inl (check_failed ''fetch_full_content IN (0,1)''), d)
         else (Inr (count_where (feed_is i uid) (feeds d)),
               d\<lparr>feeds := upd_where (feed_is i uid) upd (feeds d)\<rparr>))"

definition sql_SetFeedURL :: "string \<Rightarrow> int \<Rightarrow> int \<Rightarrow> int \<Rightarrow> int stmt" where
  "sql_SetFeedURL url next i uid d =
     (if (\<exists>r \<in> set (feeds d). feed_is i uid r)
         \<and> (\<exists>r \<in> set (feeds d). fr_ID r \<noteq> i \<and> fr_UserID r = uid \<and> fr_FeedUrl r = url)
      then (Inl (unique_failed ''feeds.user_id, feeds.feed_url''), d)
      else (Inr (count_where (feed_is i uid) (feeds d)),
            d\<lparr>feeds := upd_where (feed_is i uid)
                 (\<lambda>r. r\<lparr>fr_FeedUrl := url, fr_Etag := [], fr_LastModified := [], fr_NextCheckAt := next\<rparr>)
                 (feeds d)\<rparr>))"

definition sql_SetFeedUserTitle :: "string \<Rightarrow> int \<Rightarrow> int \<Rightarrow> int stmt" where
  "sql_SetFeedUserTitle t i uid d =
     (Inr (count_where (feed_is i uid) (feeds d)),
      d\<lparr>feeds := upd_where (feed_is i uid) (\<lambda>r. r\<lparr>fr_UserTitle := t\<rparr>) (feeds d)\<rparr>)"

definition sql_UnreadCount :: "int \<Rightarrow> int stmt" where
  "sql_UnreadCount uid d =
     (Inr (count_where (\<lambda>e. er_UserID e = uid \<and> er_Status e = ''unread'') (entries d)), d)"

text \<open>\<open>feed_url\<close> in the \<open>WHERE\<close> is the compare-and-swap guard.\<close>

definition update_feed_cols :: "FeedRow \<Rightarrow> FeedRow \<Rightarrow> FeedRow" where
  "update_feed_cols a r = r\<lparr>fr_SiteUrl := fr_SiteUrl a, fr_Title := fr_Title a,
     fr_Description := fr_Description a, fr_Etag := fr_Etag a, fr_LastModified := fr_LastModified a,
     fr_Disabled := fr_Disabled a, fr_CheckedAt := fr_CheckedAt a,
     fr_NextCheckAt := fr_NextCheckAt a, fr_ErrorCount := fr_ErrorCount a,
     fr_LastError := fr_LastError a, fr_UpdatedAt := fr_UpdatedAt a,
     fr_TtlSeconds := fr_TtlSeconds a\<rparr>"

definition feed_cas :: "FeedRow \<Rightarrow> FeedRow \<Rightarrow> bool" where
  "feed_cas a r \<longleftrightarrow> fr_ID r = fr_ID a \<and> fr_UserID r = fr_UserID a \<and> fr_FeedUrl r = fr_FeedUrl a"

definition sql_UpdateFeed :: "FeedRow \<Rightarrow> unit stmt" where
  "sql_UpdateFeed a d =
     (if fr_Disabled a \<notin> {0, 1} \<and> (\<exists>r \<in> set (feeds d). feed_cas a r)
      then (Inl (check_failed ''disabled IN (0,1)''), d)
      else (Inr (), d\<lparr>feeds := upd_where (feed_cas a) (update_feed_cols a) (feeds d)\<rparr>))"

section \<open>\<open>categories.sql.go\<close>\<close>

definition category_is :: "int \<Rightarrow> int \<Rightarrow> CategoryRow \<Rightarrow> bool" where
  "category_is i uid r \<longleftrightarrow> cr_ID r = i \<and> cr_UserID r = uid"

text \<open>The unique index of migration 0011 ignores ASCII case.\<close>

definition sql_CreateCategory :: "int \<Rightarrow> string \<Rightarrow> int stmt" where
  "sql_CreateCategory uid t d =
     (let rid = max_id cr_ID (categories d) + 1
      in if \<exists>r \<in> set (categories d). cr_UserID r = uid \<and> nocase (cr_Title r) = nocase t
         then (Inl (unique_failed ''categories.user_id, categories.title''), d)
         else if uid \<notin> ur_ID ` set (users d) then (Inl fk_failed, d)
         else (Inr rid, d\<lparr>categories := categories d @ [\<lparr>cr_ID = rid, cr_UserID = uid, cr_Title = t\<rparr>]\<rparr>))"

text \<open>\<open>ON DELETE SET NULL\<close> leaves the category's feeds uncategorised.\<close>

definition sql_DeleteCategory :: "int \<Rightarrow> int \<Rightarrow> int stmt" where
  "sql_DeleteCategory i uid d =
     (let gone = cr_ID ` set (filter (category_is i uid) (categories d))
      in (Inr (count_where (category_is i uid) (categories d)),
          d\<lparr>categories := filter (\<lambda>r. \<not> category_is i uid r) (categories d),
            feeds := upd_where (\<lambda>f. fr_CategoryID f \<in> Some ` gone)
              (\<lambda>f. f\<lparr>fr_CategoryID := None\<rparr>) (feeds d)\<rparr>))"

definition sql_GetCategory :: "int \<Rightarrow> int \<Rightarrow> CategoryRow stmt" where
  "sql_GetCategory i uid d = (query_row (find (category_is i uid) (categories d)), d)"

definition sql_ListCategories :: "int \<Rightarrow> CategoryRow list stmt" where
  "sql_ListCategories uid d =
     (Inr (sort_key (\<lambda>r. nocase (cr_Title r)) (filter (\<lambda>r. cr_UserID r = uid) (categories d))), d)"

text \<open>\<open>GROUP BY f.category_id\<close>: one row per group that has unread entries, NULL being a group of its
  own. The groups are in the order of their first row (SQL leaves it open, the store reads a map).\<close>

definition unread_categories :: "int \<Rightarrow> db \<Rightarrow> int option list" where
  "unread_categories uid d =
     concat (map (\<lambda>e. map fr_CategoryID (filter (\<lambda>f. fr_ID f = er_FeedID e) (feeds d)))
       (filter (\<lambda>e. er_UserID e = uid \<and> er_Status e = ''unread'') (entries d)))"

definition sql_UnreadCountsByCategory :: "int \<Rightarrow> (int option \<times> int) list stmt" where
  "sql_UnreadCountsByCategory uid d =
     (let cs = unread_categories uid d
      in (Inr (map (\<lambda>c. (c, count_where (\<lambda>x. x = c) cs)) (remdups cs)), d))"

definition sql_UpdateCategory :: "string \<Rightarrow> int \<Rightarrow> int \<Rightarrow> int stmt" where
  "sql_UpdateCategory t i uid d =
     (if (\<exists>r \<in> set (categories d). category_is i uid r)
         \<and> (\<exists>r \<in> set (categories d). cr_ID r \<noteq> i \<and> cr_UserID r = uid \<and> nocase (cr_Title r) = nocase t)
      then (Inl (unique_failed ''categories.user_id, categories.title''), d)
      else (Inr (count_where (category_is i uid) (categories d)),
            d\<lparr>categories := upd_where (category_is i uid) (\<lambda>r. r\<lparr>cr_Title := t\<rparr>) (categories d)\<rparr>))"

section \<open>\<open>settings.sql.go\<close> and \<open>users.sql.go\<close>\<close>

definition sql_GetAppSetting :: "string \<Rightarrow> string stmt" where
  "sql_GetAppSetting k d = (query_row (settings d k), d)"

definition sql_PutAppSetting :: "string \<Rightarrow> string \<Rightarrow> unit stmt" where
  "sql_PutAppSetting k v d = (Inr (), d\<lparr>settings := (settings d)(k \<mapsto> v)\<rparr>)"

definition sql_CountUsers :: "int stmt" where
  "sql_CountUsers d = (Inr (int (length (users d))), d)"

end
