(* ===== verification/SqlEntries.thy ===== *)
theory SqlEntries
  imports SqlFeeds
begin

text \<open>
  The queries of \<open>sqlc/entries.sql.go\<close>, one definition each, as statements on the tables, with the
  \<open>CHECK\<close>, \<open>UNIQUE\<close> and foreign key constraints each can violate.
\<close>

section \<open>\<open>entries.sql.go\<close>\<close>

text \<open>\<open>UPDATE entries SET ... WHERE P\<close>: a row that would violate a \<open>CHECK\<close> fails the statement.\<close>

definition update_entries :: "(EntryRow \<Rightarrow> bool) \<Rightarrow> (EntryRow \<Rightarrow> EntryRow) \<Rightarrow> int stmt" where
  "update_entries P f d =
     (case find (\<lambda>r. P r \<and> entry_checks (f r) \<noteq> None) (entries d) of
        Some r \<Rightarrow> (Inl (the (entry_checks (f r))), d)
      | None \<Rightarrow> (Inr (count_where P (entries d)), d\<lparr>entries := upd_where P f (entries d)\<rparr>))"

definition exec_only :: "int stmt \<Rightarrow> unit stmt" where
  "exec_only s d = (case s d of (r, d') \<Rightarrow> (map_sum id (\<lambda>_. ()) r, d'))"

definition entry_is :: "int \<Rightarrow> int \<Rightarrow> EntryRow \<Rightarrow> bool" where
  "entry_is i uid r \<longleftrightarrow> er_ID r = i \<and> er_UserID r = uid"

definition entry_key :: "int \<Rightarrow> string \<Rightarrow> EntryRow \<Rightarrow> bool" where
  "entry_key fid g r \<longleftrightarrow> er_FeedID r = fid \<and> er_Guid r = g"

definition sql_CancelFeedExtractions :: "int \<Rightarrow> unit stmt" where
  "sql_CancelFeedExtractions fid = exec_only (update_entries
     (\<lambda>r. er_FeedID r = fid \<and> er_ExtractState r \<in> {''pending'', ''failed''})
     (\<lambda>r. r\<lparr>er_ExtractState := ''none'', er_NextExtractAt := None, er_ExtractError := []\<rparr>))"

text \<open>A comparison with NULL is not true, so an entry without \<open>next_extract_at\<close> is never due.\<close>

definition extraction_due :: "int option \<Rightarrow> EntryRow \<Rightarrow> bool" where
  "extraction_due now r \<longleftrightarrow> er_ExtractState r = ''pending''
     \<and> (case (er_NextExtractAt r, now) of (Some t, Some n) \<Rightarrow> t \<le> n | _ \<Rightarrow> False)"

definition sql_CountDueExtractions :: "int option \<Rightarrow> int stmt" where
  "sql_CountDueExtractions now d = (Inr (count_where (extraction_due now) (entries d)), d)"

definition sql_CountEntries :: "int stmt" where
  "sql_CountEntries d = (Inr (int (length (entries d))), d)"

definition sql_DeleteEntry :: "int \<Rightarrow> int \<Rightarrow> int stmt" where
  "sql_DeleteEntry i uid d =
     (Inr (count_where (entry_is i uid) (entries d)),
      d\<lparr>entries := filter (\<lambda>r. \<not> entry_is i uid r) (entries d)\<rparr>)"

definition sql_GetEntry :: "int \<Rightarrow> int \<Rightarrow> EntryRow stmt" where
  "sql_GetEntry i uid d = (query_row (find (entry_is i uid) (entries d)), d)"

text \<open>The columns \<open>id, hash, extract_state\<close>.\<close>

definition sql_GetEntryByGUID :: "int \<Rightarrow> string \<Rightarrow> (int \<times> string \<times> string) stmt" where
  "sql_GetEntryByGUID fid g d =
     (query_row (map_option (\<lambda>r. (er_ID r, er_Hash r, er_ExtractState r))
        (find (entry_key fid g) (entries d))), d)"

definition sql_GetFeedFullContent :: "int \<Rightarrow> int stmt" where
  "sql_GetFeedFullContent i d =
     (query_row (map_option fr_FetchFullContent (find (\<lambda>r. fr_ID r = i) (feeds d))), d)"

definition sql_InsertEntry :: "EntryRow \<Rightarrow> int stmt" where
  "sql_InsertEntry a d =
     (let rid = max_id er_ID (entries d) + 1;
          row = a\<lparr>er_ID := rid, er_Status := ''unread'', er_Starred := 0, er_ReadAt := None,
                  er_ExtractAttempts := 0, er_ExtractError := []\<rparr>
      in case entry_checks row of
           Some e \<Rightarrow> (Inl e, d)
         | None \<Rightarrow>
             if \<exists>r \<in> set (entries d). entry_key (er_FeedID row) (er_Guid row) r
             then (Inl (unique_failed ''entries.feed_id, entries.guid''), d)
             else if \<not> entry_fk d row then (Inl fk_failed, d)
             else (Inr rid, d\<lparr>entries := entries d @ [row]\<rparr>))"

definition tomb_key :: "int \<Rightarrow> string \<Rightarrow> TombstoneRow \<Rightarrow> bool" where
  "tomb_key fid g t \<longleftrightarrow> tb_FeedID t = fid \<and> tb_Guid t = g"

definition sql_InsertTombstone :: "int \<Rightarrow> string \<Rightarrow> int \<Rightarrow> unit stmt" where
  "sql_InsertTombstone fid g at d =
     (if \<exists>t \<in> set (tombstones d). tomb_key fid g t
      then (Inr (), d\<lparr>tombstones :=
              upd_where (tomb_key fid g) (\<lambda>t. t\<lparr>tb_DeletedAt := at\<rparr>) (tombstones d)\<rparr>)
      else if fid \<notin> fr_ID ` set (feeds d) then (Inl fk_failed, d)
      else (Inr (), d\<lparr>tombstones := tombstones d
              @ [\<lparr>tb_FeedID = fid, tb_Guid = g, tb_DeletedAt = at\<rparr>]\<rparr>))"

text \<open>\<open>ORDER BY published_at DESC, id DESC\<close>.\<close>

definition newest_first :: "(EntryRow \<Rightarrow> int) \<Rightarrow> EntryRow list \<Rightarrow> EntryRow list" where
  "newest_first key rs = sort_key (\<lambda>r. (- key r, - er_ID r)) rs"

definition sql_ListPendingExtractions :: "int option \<Rightarrow> int \<Rightarrow> EntryRow list stmt" where
  "sql_ListPendingExtractions now lm d =
     (Inr (limit_rows lm (newest_first er_PublishedAt (filter (extraction_due now) (entries d)))), d)"

definition sql_MarkFeedEntriesPending :: "int option \<Rightarrow> int \<Rightarrow> unit stmt" where
  "sql_MarkFeedEntriesPending at fid = exec_only (update_entries
     (\<lambda>r. er_FeedID r = fid \<and> er_ExtractState r \<in> {''none'', ''failed''})
     (\<lambda>r. r\<lparr>er_ExtractState := ''pending'', er_NextExtractAt := at, er_ExtractAttempts := 0,
        er_ExtractError := []\<rparr>))"

definition sql_SetEntryContent :: "string \<Rightarrow> string \<Rightarrow> int \<Rightarrow> unit stmt" where
  "sql_SetEntryContent content text i = exec_only (update_entries
     (\<lambda>r. er_ID r = i \<and> er_ExtractState r = ''pending'')
     (\<lambda>r. r\<lparr>er_Content := content, er_ContentText := text, er_ExtractState := ''done'',
        er_NextExtractAt := None, er_ExtractError := []\<rparr>))"

definition sql_TombstoneExists :: "int \<Rightarrow> string \<Rightarrow> int stmt" where
  "sql_TombstoneExists fid g d =
     (query_row (map_option (\<lambda>_. 1) (find (tomb_key fid g) (tombstones d))), d)"

definition content_cols :: "EntryRow \<Rightarrow> EntryRow \<Rightarrow> EntryRow" where
  "content_cols a r = r\<lparr>er_Title := er_Title a, er_Author := er_Author a,
     er_Content := er_Content a, er_Summary := er_Summary a, er_ContentText := er_ContentText a,
     er_SummaryText := er_SummaryText a, er_CommentsUrl := er_CommentsUrl a,
     er_PublishedAt := er_PublishedAt a, er_Url := er_Url a, er_Hash := er_Hash a\<rparr>"

definition sql_UpdateEntryContent :: "EntryRow \<Rightarrow> unit stmt" where
  "sql_UpdateEntryContent a =
     exec_only (update_entries (entry_is (er_ID a) (er_UserID a)) (content_cols a))"

definition metadata_cols :: "EntryRow \<Rightarrow> EntryRow \<Rightarrow> EntryRow" where
  "metadata_cols a r = r\<lparr>er_Title := er_Title a, er_Author := er_Author a,
     er_Summary := er_Summary a, er_SummaryText := er_SummaryText a,
     er_CommentsUrl := er_CommentsUrl a, er_PublishedAt := er_PublishedAt a, er_Url := er_Url a,
     er_Hash := er_Hash a\<rparr>"

definition sql_UpdateEntryMetadata :: "EntryRow \<Rightarrow> unit stmt" where
  "sql_UpdateEntryMetadata a =
     exec_only (update_entries (entry_is (er_ID a) (er_UserID a)) (metadata_cols a))"

definition sql_UpdateExtractState :: "string \<Rightarrow> int \<Rightarrow> int option \<Rightarrow> string \<Rightarrow> int \<Rightarrow> unit stmt" where
  "sql_UpdateExtractState st attempts next err i = exec_only (update_entries
     (\<lambda>r. er_ID r = i)
     (\<lambda>r. r\<lparr>er_ExtractState := st, er_ExtractAttempts := attempts, er_NextExtractAt := next,
        er_ExtractError := err\<rparr>))"

definition seen_at :: "EntryRow \<Rightarrow> int" where
  "seen_at r = (if 0 < er_PublishedAt r then er_PublishedAt r else er_CreatedAt r)"

definition sql_WeeklyEntryCount :: "int \<Rightarrow> int \<Rightarrow> int \<Rightarrow> int stmt" where
  "sql_WeeklyEntryCount fid lo hi d =
     (Inr (count_where (\<lambda>r. er_FeedID r = fid \<and> lo \<le> seen_at r \<and> seen_at r \<le> hi) (entries d)), d)"

end
