(* ===== verification/SqlInv.thy ===== *)
theory SqlInv
  imports SqlEntries
begin

text \<open>
  Every query of \<open>SqlFeeds\<close> and \<open>SqlEntries\<close> keeps the schema's invariant \<open>wf_db\<close>: ids ascend and
  are positive, the unique columns are unique, every reference points to a row, the checked columns
  hold admitted values. The proofs go through one lemma per table and kind of statement.
\<close>

section \<open>Updates and deletions in one table\<close>

lemma feed_fk_cong:
  "users d' = users d \<Longrightarrow> map cr_ID (categories d') = map cr_ID (categories d) \<Longrightarrow> feed_fk d' = feed_fk d"
  unfolding feed_fk_def fun_eq_iff by (metis set_map)

lemma entry_fk_cong:
  "users d' = users d \<Longrightarrow> map fr_ID (feeds d') = map fr_ID (feeds d) \<Longrightarrow> entry_fk d' = entry_fk d"
  unfolding entry_fk_def fun_eq_iff by (metis set_map)

lemma feed_fk_others [simp]:
  "feed_fk (d\<lparr>feeds := x\<rparr>) = feed_fk d" "feed_fk (d\<lparr>feed_seq := s\<rparr>) = feed_fk d"
  "feed_fk (d\<lparr>entries := e\<rparr>) = feed_fk d" "feed_fk (d\<lparr>tombstones := t\<rparr>) = feed_fk d"
  "feed_fk (d\<lparr>settings := g\<rparr>) = feed_fk d"
  by (rule feed_fk_cong; simp)+

lemma entry_fk_others [simp]:
  "entry_fk (d\<lparr>feed_seq := s\<rparr>) = entry_fk d" "entry_fk (d\<lparr>entries := e\<rparr>) = entry_fk d"
  "entry_fk (d\<lparr>tombstones := t\<rparr>) = entry_fk d" "entry_fk (d\<lparr>settings := g\<rparr>) = entry_fk d"
  "entry_fk (d\<lparr>categories := c\<rparr>) = entry_fk d"
  by (rule entry_fk_cong; simp)+

text \<open>The other tables of an updated database.\<close>

lemma wf_tables_others [simp]:
  "wf_users (d\<lparr>feeds := x\<rparr>) = wf_users d" "wf_users (d\<lparr>feed_seq := s\<rparr>) = wf_users d"
  "wf_users (d\<lparr>entries := e\<rparr>) = wf_users d" "wf_users (d\<lparr>categories := c\<rparr>) = wf_users d"
  "wf_users (d\<lparr>tombstones := t\<rparr>) = wf_users d" "wf_users (d\<lparr>settings := g\<rparr>) = wf_users d"
  "wf_feeds (d\<lparr>entries := e\<rparr>) = wf_feeds d" "wf_feeds (d\<lparr>tombstones := t\<rparr>) = wf_feeds d"
  "wf_feeds (d\<lparr>settings := g\<rparr>) = wf_feeds d"
  "wf_categories (d\<lparr>feeds := x\<rparr>) = wf_categories d" "wf_categories (d\<lparr>feed_seq := s\<rparr>) = wf_categories d"
  "wf_categories (d\<lparr>entries := e\<rparr>) = wf_categories d" "wf_categories (d\<lparr>tombstones := t\<rparr>) = wf_categories d"
  "wf_categories (d\<lparr>settings := g\<rparr>) = wf_categories d"
  "wf_entries (d\<lparr>feed_seq := s\<rparr>) = wf_entries d" "wf_entries (d\<lparr>categories := c\<rparr>) = wf_entries d"
  "wf_entries (d\<lparr>tombstones := t\<rparr>) = wf_entries d" "wf_entries (d\<lparr>settings := g\<rparr>) = wf_entries d"
  "wf_tombstones (d\<lparr>feed_seq := s\<rparr>) = wf_tombstones d" "wf_tombstones (d\<lparr>categories := c\<rparr>) = wf_tombstones d"
  "wf_tombstones (d\<lparr>entries := e\<rparr>) = wf_tombstones d" "wf_tombstones (d\<lparr>settings := g\<rparr>) = wf_tombstones d"
  by (simp_all add: wf_users_def wf_feeds_def wf_categories_def wf_entries_def wf_tombstones_def)

text \<open>An update of feeds that keeps ids, owners and URLs.\<close>

lemma wf_db_update_feeds:
  assumes wf: "wf_db d"
    and key: "\<And>r. r \<in> set (feeds d) \<Longrightarrow> P r \<Longrightarrow>
        fr_ID (f r) = fr_ID r \<and> fr_UserID (f r) = fr_UserID r \<and> feed_checks (f r) = None \<and> feed_fk d (f r)"
    and url: "distinct (map (\<lambda>r. (fr_UserID r, fr_FeedUrl r)) (upd_where P f (feeds d)))"
  shows "wf_db (d\<lparr>feeds := upd_where P f (feeds d)\<rparr>)"
proof -
  let ?d' = "d\<lparr>feeds := upd_where P f (feeds d)\<rparr>"
  have ids: "map fr_ID (feeds ?d') = map fr_ID (feeds d)" using key by (simp add: upd_where_def)
  then have img: "fr_ID ` set (feeds ?d') = fr_ID ` set (feeds d)" by (metis set_map)
  have fk: "entry_fk ?d' = entry_fk d" by (rule entry_fk_cong [OF _ ids]) simp
  have rows: "fr_ID r \<le> feed_seq d \<and> feed_checks r = None \<and> feed_fk d r"
    if "r \<in> set (upd_where P f (feeds d))" for r
    using that wf key by (auto simp: set_upd_where wf_db_def wf_feeds_def)
  have "wf_feeds ?d'" using wf url rows ids by (simp add: wf_db_def wf_feeds_def ids_ok_keys)
  moreover have "wf_entries ?d'" using wf by (simp add: wf_db_def wf_entries_def fk)
  moreover have "wf_tombstones ?d'" using wf img by (simp add: wf_db_def wf_tombstones_def)
  ultimately show ?thesis using wf by (simp add: wf_db_def)
qed

lemma distinct_keys_upd:
  "(\<And>r. P r \<Longrightarrow> k (f r) = k r) \<Longrightarrow> distinct (map k xs) \<Longrightarrow> distinct (map k (upd_where P f xs))"
  by (simp add: map_upd_where)

lemma wf_feedsD:
  "wf_db d \<Longrightarrow> r \<in> set (feeds d) \<Longrightarrow> feed_checks r = None \<and> feed_fk d r"
  "wf_db d \<Longrightarrow> distinct (map (\<lambda>r. (fr_UserID r, fr_FeedUrl r)) (feeds d))"
  "wf_db d \<Longrightarrow> distinct (map fr_ID (feeds d))"
  by (auto simp: wf_db_def wf_feeds_def ids_ok_distinct)

lemma wf_entriesD:
  "wf_db d \<Longrightarrow> r \<in> set (entries d) \<Longrightarrow> entry_checks r = None \<and> entry_fk d r"
  "wf_db d \<Longrightarrow> distinct (map (\<lambda>r. (er_FeedID r, er_Guid r)) (entries d))"
  "wf_db d \<Longrightarrow> distinct (map er_ID (entries d))"
  by (auto simp: wf_db_def wf_entries_def ids_ok_distinct)

lemma update_entries_keeps [wf_intros]:
  assumes "\<And>r. er_ID (f r) = er_ID r" "\<And>r. er_UserID (f r) = er_UserID r"
    and "\<And>r. er_FeedID (f r) = er_FeedID r" "\<And>r. er_Guid (f r) = er_Guid r"
  shows "keeps wf_db (update_entries P f)"
proof (rule keepsI)
  fix d
  assume wf: "wf_db d"
  show "wf_db (snd (update_entries P f d))"
  proof (cases "find (\<lambda>r. P r \<and> entry_checks (f r) \<noteq> None) (entries d)")
    case None
    have fk: "entry_fk d (f r) = entry_fk d r" for r using assms by (simp add: entry_fk_def)
    have rows: "entry_checks r = None \<and> entry_fk d r" if "r \<in> set (upd_where P f (entries d))" for r
      using that find_NoneD [OF None] wf_entriesD(1) [OF wf]
      by (auto simp: set_upd_where fk split: if_splits)
    have "wf_entries (d\<lparr>entries := upd_where P f (entries d)\<rparr>)"
      using wf rows assms by (simp add: wf_db_def wf_entries_def ids_ok_upd_where map_upd_where)
    then show ?thesis using wf None by (simp add: update_entries_def wf_db_def)
  next
    case (Some r)
    then show ?thesis using wf by (simp add: update_entries_def)
  qed
qed

lemma exec_only_keeps [wf_intros]: "keeps I s \<Longrightarrow> keeps I (exec_only s)"
  by (auto simp: keeps_def exec_only_def split: prod.split)

section \<open>The queries on entries and tombstones\<close>

lemma sql_entry_updates_keep [wf_intros]:
  "keeps wf_db (sql_CancelFeedExtractions fid)"
  "keeps wf_db (sql_MarkFeedEntriesPending at fid)"
  "keeps wf_db (sql_SetEntryContent c t i)"
  "keeps wf_db (sql_UpdateEntryContent a)"
  "keeps wf_db (sql_UpdateEntryMetadata a)"
  "keeps wf_db (sql_UpdateExtractState st n nx er i)"
  by (auto simp: sql_CancelFeedExtractions_def sql_MarkFeedEntriesPending_def sql_SetEntryContent_def
      sql_UpdateEntryContent_def sql_UpdateEntryMetadata_def sql_UpdateExtractState_def
      content_cols_def metadata_cols_def intro!: exec_only_keeps update_entries_keeps)

lemma wf_db_filter_entries: "wf_db d \<Longrightarrow> wf_db (d\<lparr>entries := filter P (entries d)\<rparr>)"
  by (simp add: wf_db_def wf_entries_def ids_ok_filter distinct_map_filter)

lemma sql_DeleteEntry_keeps [wf_intros]: "keeps wf_db (sql_DeleteEntry i uid)"
  by (simp add: keeps_def sql_DeleteEntry_def wf_db_filter_entries)

lemma sql_InsertEntry_keeps [wf_intros]: "keeps wf_db (sql_InsertEntry a)"
proof (rule keepsI)
  fix d
  assume wf: "wf_db d"
  define row where "row = a\<lparr>er_ID := max_id er_ID (entries d) + 1, er_Status := ''unread'',
      er_Starred := 0, er_ReadAt := None, er_ExtractAttempts := 0, er_ExtractError := []\<rparr>"
  show "wf_db (snd (sql_InsertEntry a d))"
  proof (cases "entry_checks row = None \<and> entry_fk d row
      \<and> \<not> (\<exists>r \<in> set (entries d). entry_key (er_FeedID row) (er_Guid row) r)")
    case True
    then have res: "snd (sql_InsertEntry a d) = d\<lparr>entries := entries d @ [row]\<rparr>"
      by (simp add: sql_InsertEntry_def row_def Let_def)
    have "ids_ok er_ID (entries d @ [row])"
      using wf by (intro ids_ok_next) (simp_all add: row_def wf_db_def wf_entries_def)
    moreover have "distinct (map (\<lambda>r. (er_FeedID r, er_Guid r)) (entries d @ [row]))"
      using True wf_entriesD(2) [OF wf] by (auto simp: entry_key_def)
    ultimately show ?thesis
      unfolding res using wf True by (simp add: wf_db_def wf_entries_def)
  next
    case False
    then have "snd (sql_InsertEntry a d) = d"
      unfolding sql_InsertEntry_def Let_def row_def [symmetric]
      by (cases "entry_checks row") (simp_all split del: if_split, auto)
    with wf show ?thesis by simp
  qed
qed

lemma sql_InsertTombstone_keeps [wf_intros]: "keeps wf_db (sql_InsertTombstone fid g at)"
proof (rule keepsI)
  fix d
  assume wf: "wf_db d"
  have "wf_tombstones (snd (sql_InsertTombstone fid g at d))"
    using wf unfolding sql_InsertTombstone_def wf_db_def wf_tombstones_def
    by (auto simp: map_upd_where set_upd_where tomb_key_def)
  then show "wf_db (snd (sql_InsertTombstone fid g at d))"
    using wf by (simp add: wf_db_def sql_InsertTombstone_def)
qed

section \<open>The queries on feeds\<close>

lemma sql_CreateFeed_keeps [wf_intros]: "keeps wf_db (sql_CreateFeed a)"
proof (rule keepsI)
  fix d
  assume wf: "wf_db d"
  define rid where "rid = max (feed_seq d) (max_id fr_ID (feeds d)) + 1"
  define row where "row = a\<lparr>fr_ID := rid, fr_UserTitle := []\<rparr>"
  show "wf_db (snd (sql_CreateFeed a d))"
  proof (cases "feed_checks row = None \<and> feed_fk d row
      \<and> \<not> (\<exists>r \<in> set (feeds d). fr_UserID r = fr_UserID row \<and> fr_FeedUrl r = fr_FeedUrl row)")
    case True
    then have res: "snd (sql_CreateFeed a d) = d\<lparr>feeds := feeds d @ [row], feed_seq := rid\<rparr>"
      unfolding sql_CreateFeed_def Let_def rid_def [symmetric] row_def [symmetric] by auto
    have lt: "max_id fr_ID (feeds d) < rid" "feed_seq d < rid" "0 < rid"
      using max_id_nonneg [of fr_ID "feeds d"] by (auto simp: rid_def)
    then have "ids_ok fr_ID (feeds d @ [row])"
      using wf by (intro ids_ok_next) (simp_all add: row_def wf_db_def wf_feeds_def)
    moreover have "distinct (map (\<lambda>r. (fr_UserID r, fr_FeedUrl r)) (feeds d @ [row]))"
      using True wf_feedsD(2) [OF wf] by auto
    moreover have "\<forall>r \<in> set (feeds d @ [row]). fr_ID r \<le> rid"
      using lt max_id_ge [of _ "feeds d" fr_ID] by (fastforce simp: row_def)
    ultimately have "wf_feeds (d\<lparr>feeds := feeds d @ [row], feed_seq := rid\<rparr>)"
      using wf True lt by (simp add: wf_db_def wf_feeds_def)
    moreover have "entry_fk (d\<lparr>feeds := feeds d @ [row], feed_seq := rid\<rparr>) r" if "entry_fk d r" for r
      using that by (auto simp: entry_fk_def)
    moreover have "wf_tombstones (d\<lparr>feeds := feeds d @ [row], feed_seq := rid\<rparr>)"
      using wf by (auto simp: wf_db_def wf_tombstones_def)
    ultimately show ?thesis
      unfolding res using wf by (simp add: wf_db_def wf_entries_def)
  next
    case False
    then have "snd (sql_CreateFeed a d) = d"
      unfolding sql_CreateFeed_def Let_def rid_def [symmetric] row_def [symmetric]
      by (auto split: option.split)
    with wf show ?thesis by simp
  qed
qed

lemma sql_DeleteFeed_keeps [wf_intros]: "keeps wf_db (sql_DeleteFeed i uid)"
proof (rule keepsI)
  fix d
  assume wf: "wf_db d"
  let ?gone = "fr_ID ` set (filter (feed_is i uid) (feeds d))"
  let ?d' = "d\<lparr>feeds := filter (\<lambda>r. \<not> feed_is i uid r) (feeds d),
      entries := filter (\<lambda>e. er_FeedID e \<notin> ?gone) (entries d),
      tombstones := filter (\<lambda>t. tb_FeedID t \<notin> ?gone) (tombstones d)\<rparr>"
  have left: "k \<in> fr_ID ` set (feeds ?d')" if "k \<in> fr_ID ` set (feeds d)" "k \<notin> ?gone" for k
    using that by auto
  have "wf_feeds ?d'" using wf by (simp add: wf_db_def wf_feeds_def ids_ok_filter distinct_map_filter)
  moreover have "wf_entries ?d'"
    using wf left by (simp add: wf_db_def wf_entries_def ids_ok_filter distinct_map_filter entry_fk_def)
  moreover have "wf_tombstones ?d'"
    using wf left by (simp add: wf_db_def wf_tombstones_def distinct_map_filter)
  ultimately show "wf_db (snd (sql_DeleteFeed i uid d))"
    using wf by (simp add: wf_db_def sql_DeleteFeed_def Let_def)
qed

lemma feed_checks_upd [simp]:
  "feed_checks (r\<lparr>fr_CategoryID := c\<rparr>) = feed_checks r"
  "feed_checks (r\<lparr>fr_UserTitle := t\<rparr>) = feed_checks r"
  "feed_checks (r\<lparr>fr_FeedUrl := u, fr_Etag := e, fr_LastModified := l, fr_NextCheckAt := n\<rparr>) = feed_checks r"
  by (simp_all add: feed_checks_def)

lemma sql_SetFeedCategory_keeps [wf_intros]: "keeps wf_db (sql_SetFeedCategory cat i uid)"
proof (rule keepsI)
  fix d
  assume wf: "wf_db d"
  let ?f = "\<lambda>r. r\<lparr>fr_CategoryID := cat\<rparr>"
  have "wf_db (d\<lparr>feeds := upd_where (feed_is i uid) ?f (feeds d)\<rparr>)"
    if "\<not> (\<exists>r \<in> set (feeds d). feed_is i uid r \<and> \<not> feed_fk d (?f r))"
    using wf that wf_feedsD(1) [OF wf]
    by (intro wf_db_update_feeds distinct_keys_upd) (auto simp: wf_feedsD(2))
  then show "wf_db (snd (sql_SetFeedCategory cat i uid d))"
    using wf by (simp add: sql_SetFeedCategory_def Let_def)
qed

lemma sql_SetFeedFullContent_keeps [wf_intros]: "keeps wf_db (sql_SetFeedFullContent v i uid)"
proof (rule keepsI)
  fix d
  assume wf: "wf_db d"
  have "feed_checks (r\<lparr>fr_FetchFullContent := v\<rparr>) = None \<and> feed_fk d (r\<lparr>fr_FetchFullContent := v\<rparr>)"
    if "r \<in> set (feeds d)" "v \<in> {0, 1}" for r
    using wf_feedsD(1) [OF wf that(1)] that(2) by (auto simp: feed_checks_def feed_fk_def split: if_splits)
  then have "wf_db (d\<lparr>feeds := upd_where (feed_is i uid) (\<lambda>r. r\<lparr>fr_FetchFullContent := v\<rparr>) (feeds d)\<rparr>)"
    if "v \<in> {0, 1} \<or> \<not> (\<exists>r \<in> set (feeds d). feed_is i uid r)"
    using wf that by (intro wf_db_update_feeds distinct_keys_upd) (auto simp: wf_feedsD(2))
  then show "wf_db (snd (sql_SetFeedFullContent v i uid d))"
    using wf by (simp add: sql_SetFeedFullContent_def Let_def)
qed

lemma sql_SetFeedUserTitle_keeps [wf_intros]: "keeps wf_db (sql_SetFeedUserTitle t i uid)"
proof (rule keepsI)
  fix d
  assume wf: "wf_db d"
  have "feed_fk d (r\<lparr>fr_UserTitle := t\<rparr>) = feed_fk d r" for r by (simp add: feed_fk_def)
  then have "wf_db (d\<lparr>feeds := upd_where (feed_is i uid) (\<lambda>r. r\<lparr>fr_UserTitle := t\<rparr>) (feeds d)\<rparr>)"
    using wf wf_feedsD(1) [OF wf]
    by (intro wf_db_update_feeds distinct_keys_upd) (simp_all add: wf_feedsD(2))
  then show "wf_db (snd (sql_SetFeedUserTitle t i uid d))" by (simp add: sql_SetFeedUserTitle_def)
qed

lemma sql_UpdateFeed_keeps [wf_intros]: "keeps wf_db (sql_UpdateFeed a)"
proof (rule keepsI)
  fix d
  assume wf: "wf_db d"
  have "feed_fk d (update_feed_cols a r) = feed_fk d r" for r
    by (simp add: feed_fk_def update_feed_cols_def)
  moreover have "feed_checks (update_feed_cols a r) = None"
    if "r \<in> set (feeds d)" "fr_Disabled a \<in> {0, 1}" for r
    using wf_feedsD(1) [OF wf that(1)] that(2)
    by (auto simp: feed_checks_def update_feed_cols_def split: if_splits)
  moreover have "fr_ID (update_feed_cols a r) = fr_ID r" "fr_UserID (update_feed_cols a r) = fr_UserID r"
    "fr_FeedUrl (update_feed_cols a r) = fr_FeedUrl r" for r
    by (simp_all add: update_feed_cols_def)
  ultimately show "wf_db (snd (sql_UpdateFeed a d))"
    using wf wf_feedsD(1) [OF wf]
    by (auto simp: sql_UpdateFeed_def wf_feedsD(2) intro!: wf_db_update_feeds distinct_keys_upd)
qed

text \<open>Changing a URL keeps the pairs of owner and URL distinct, because the statement fails when
  another row of the owner has the URL.\<close>

lemma distinct_keys_repoint:
  assumes ids: "distinct (map i xs)" and keys: "distinct (map k xs)"
    and hit: "\<And>r. P r \<Longrightarrow> i r = n \<and> k (f r) = v"
    and free: "\<And>r. r \<in> set xs \<Longrightarrow> i r \<noteq> n \<Longrightarrow> k r \<noteq> v"
  shows "distinct (map k (upd_where P f xs))"
  using ids keys free
proof (induction xs)
  case (Cons x xs)
  have IH: "distinct (map k (upd_where P f xs))" using Cons by simp
  show ?case
  proof (cases "P x")
    case True
    then have x: "i x = n" "k (f x) = v" using hit by auto
    have "\<not> P y" if "y \<in> set xs" for y
      using that Cons.prems(1) hit [of y] x(1) by (auto simp: image_iff)
    then have "upd_where P f xs = xs" by (rule upd_where_none)
    moreover have "k y \<noteq> v" if "y \<in> set xs" for y
      using that Cons.prems(1) Cons.prems(3) [of y] x(1) by (auto simp: image_iff)
    then have "v \<notin> k ` set xs" by auto
    ultimately show ?thesis using IH True x by simp
  next
    case False
    have "k x \<noteq> k (if P r then f r else r)" if r: "r \<in> set xs" for r
    proof (cases "P r")
      case True
      then have "i r = n" "k (f r) = v" using hit by auto
      moreover have "i x \<noteq> i r" using Cons.prems(1) r by auto
      ultimately have "k x \<noteq> v" using Cons.prems(3) [of x] by simp
      then show ?thesis using True \<open>k (f r) = v\<close> by simp
    next
      case False
      then show ?thesis using Cons.prems(2) r by auto
    qed
    then have "k x \<notin> k ` set (upd_where P f xs)" unfolding set_upd_where by blast
    then show ?thesis using IH False by simp
  qed
qed simp

lemma sql_SetFeedURL_keeps [wf_intros]: "keeps wf_db (sql_SetFeedURL url nx i uid)"
proof (rule keepsI)
  fix d
  assume wf: "wf_db d"
  let ?f = "\<lambda>r. r\<lparr>fr_FeedUrl := url, fr_Etag := [], fr_LastModified := [], fr_NextCheckAt := nx\<rparr>"
  have fk: "feed_fk d (?f r) = feed_fk d r" for r by (simp add: feed_fk_def)
  show "wf_db (snd (sql_SetFeedURL url nx i uid d))"
  proof (cases "\<exists>r \<in> set (feeds d). feed_is i uid r")
    case False
    then have "upd_where (feed_is i uid) ?f (feeds d) = feeds d" by (auto intro: upd_where_none)
    with False wf show ?thesis by (simp add: sql_SetFeedURL_def)
  next
    case True
    show ?thesis
    proof (cases "\<exists>r \<in> set (feeds d). fr_ID r \<noteq> i \<and> fr_UserID r = uid \<and> fr_FeedUrl r = url")
      case False
      then have "distinct (map (\<lambda>r. (fr_UserID r, fr_FeedUrl r)) (upd_where (feed_is i uid) ?f (feeds d)))"
        using wf_feedsD(2,3) [OF wf]
        by (intro distinct_keys_repoint [where i = fr_ID and n = i and v = "(uid, url)"])
          (auto simp: feed_is_def)
      then show ?thesis
        using False wf wf_feedsD(1) [OF wf]
        by (simp add: sql_SetFeedURL_def fk) (intro wf_db_update_feeds; simp add: fk)
    next
      case dup: True
      with True wf show ?thesis by (simp add: sql_SetFeedURL_def)
    qed
  qed
qed

section \<open>The queries on categories and settings\<close>

lemma sql_CreateCategory_keeps [wf_intros]: "keeps wf_db (sql_CreateCategory uid t)"
proof (rule keepsI)
  fix d
  assume wf: "wf_db d"
  define rid where "rid = max_id cr_ID (categories d) + 1"
  have "ids_ok cr_ID (categories d @ [\<lparr>cr_ID = rid, cr_UserID = uid, cr_Title = t\<rparr>])"
    using wf by (intro ids_ok_next) (simp_all add: rid_def wf_db_def wf_categories_def)
  moreover have fk: "feed_fk (d\<lparr>categories := categories d @ x\<rparr>) r" if "feed_fk d r" for r x
    using that by (auto simp: feed_fk_def)
  ultimately have "wf_categories (d\<lparr>categories := categories d @ [\<lparr>cr_ID = rid, cr_UserID = uid, cr_Title = t\<rparr>]\<rparr>)"
    if "uid \<in> ur_ID ` set (users d)"
      "\<not> (\<exists>r \<in> set (categories d). cr_UserID r = uid \<and> nocase (cr_Title r) = nocase t)"
    using that wf by (auto simp: wf_db_def wf_categories_def)
  moreover have "wf_feeds (d\<lparr>categories := categories d @ x\<rparr>)" for x
    using wf fk by (simp add: wf_db_def wf_feeds_def)
  ultimately show "wf_db (snd (sql_CreateCategory uid t d))"
    using wf by (simp add: sql_CreateCategory_def Let_def rid_def [symmetric] wf_db_def)
qed

lemma sql_UpdateCategory_keeps [wf_intros]: "keeps wf_db (sql_UpdateCategory t i uid)"
proof (rule keepsI)
  fix d
  assume wf: "wf_db d"
  let ?f = "\<lambda>r. r\<lparr>cr_Title := t\<rparr>"
  let ?cs = "upd_where (category_is i uid) ?f (categories d)"
  show "wf_db (snd (sql_UpdateCategory t i uid d))"
  proof (cases "(\<exists>r \<in> set (categories d). category_is i uid r)
      \<and> (\<exists>r \<in> set (categories d). cr_ID r \<noteq> i \<and> cr_UserID r = uid \<and> nocase (cr_Title r) = nocase t)")
    case True
    with wf show ?thesis by (simp add: sql_UpdateCategory_def)
  next
    case False
    have ids: "map cr_ID ?cs = map cr_ID (categories d)" by (simp add: map_upd_where)
    have "distinct (map (\<lambda>r. (cr_UserID r, nocase (cr_Title r))) ?cs)"
    proof (cases "\<exists>r \<in> set (categories d). category_is i uid r")
      case True
      with False wf show ?thesis
        by (intro distinct_keys_repoint [where i = cr_ID and n = i and v = "(uid, nocase t)"])
          (auto simp: category_is_def wf_db_def wf_categories_def ids_ok_distinct)
    next
      case none: False
      then have "?cs = categories d" by (auto intro: upd_where_none)
      with wf show ?thesis by (simp add: wf_db_def wf_categories_def)
    qed
    moreover have "\<forall>r \<in> set ?cs. cr_UserID r \<in> ur_ID ` set (users d)"
      using wf by (auto simp: set_upd_where wf_db_def wf_categories_def)
    ultimately have "wf_categories (d\<lparr>categories := ?cs\<rparr>)"
      using wf by (simp add: wf_db_def wf_categories_def ids_ok_keys ids)
    moreover have "feed_fk (d\<lparr>categories := ?cs\<rparr>) = feed_fk d"
      by (rule feed_fk_cong) (simp_all add: ids)
    then have "wf_feeds (d\<lparr>categories := ?cs\<rparr>)" using wf by (simp add: wf_db_def wf_feeds_def)
    ultimately show ?thesis using wf False by (simp add: sql_UpdateCategory_def wf_db_def)
  qed
qed

lemma sql_DeleteCategory_keeps [wf_intros]: "keeps wf_db (sql_DeleteCategory i uid)"
proof (rule keepsI)
  fix d
  assume wf: "wf_db d"
  let ?gone = "cr_ID ` set (filter (category_is i uid) (categories d))"
  let ?hit = "\<lambda>f. fr_CategoryID f \<in> Some ` ?gone"
  let ?d1 = "d\<lparr>feeds := upd_where ?hit (\<lambda>f. f\<lparr>fr_CategoryID := None\<rparr>) (feeds d)\<rparr>"
  let ?d2 = "?d1\<lparr>categories := filter (\<lambda>r. \<not> category_is i uid r) (categories d)\<rparr>"
  have "feed_fk d (r\<lparr>fr_CategoryID := None\<rparr>)" if "r \<in> set (feeds d)" for r
    using wf_feedsD(1) [OF wf that] by (simp add: feed_fk_def)
  then have wf1: "wf_db ?d1"
    using wf by (intro wf_db_update_feeds distinct_keys_upd) (simp_all add: wf_feedsD)
  have "feed_fk ?d2 f" if f: "f \<in> set (feeds ?d1)" for f
  proof -
    have "feed_fk d f" using wf_feedsD(1) [OF wf1 f] by simp
    moreover have "fr_CategoryID f \<notin> Some ` ?gone" using f by (auto simp: set_upd_where)
    ultimately show ?thesis by (auto simp: feed_fk_def)
  qed
  then have "wf_feeds ?d2" using wf1 by (simp add: wf_db_def wf_feeds_def)
  moreover have "wf_categories ?d2"
    using wf by (simp add: wf_db_def wf_categories_def ids_ok_filter distinct_map_filter)
  moreover have "snd (sql_DeleteCategory i uid d) = ?d2" by (simp add: sql_DeleteCategory_def Let_def)
  ultimately show "wf_db (snd (sql_DeleteCategory i uid d))" using wf1 by (simp add: wf_db_def)
qed

lemma sql_PutAppSetting_keeps [wf_intros]: "keeps wf_db (sql_PutAppSetting k v)"
  by (simp add: keeps_def sql_PutAppSetting_def wf_db_def)

section \<open>Queries\<close>

text \<open>A query leaves the database as it is.\<close>

definition reads :: "'a stmt \<Rightarrow> bool" where
  "reads s \<longleftrightarrow> (\<forall>d. snd (s d) = d)"

lemma reads_keeps: "reads s \<Longrightarrow> keeps I s"
  by (simp add: reads_def keeps_def)

lemma sql_reads:
  "reads (sql_CountDueFeeds now)" "reads sql_CountFeeds" "reads (sql_EntryStatsByFeed uid)"
  "reads (sql_FeedEntryStatsByID uid fid)" "reads (sql_GetFeed i uid)"
  "reads (sql_ListDueFeeds now lm)" "reads (sql_ListFeeds uid)" "reads (sql_UnreadCount uid)"
  "reads (sql_GetCategory i uid)" "reads (sql_ListCategories uid)"
  "reads (sql_UnreadCountsByCategory uid)" "reads (sql_GetAppSetting k)" "reads sql_CountUsers"
  "reads (sql_CountDueExtractions n)" "reads sql_CountEntries" "reads (sql_GetEntry i uid)"
  "reads (sql_GetEntryByGUID fid g)" "reads (sql_GetFeedFullContent i)"
  "reads (sql_ListPendingExtractions n lm)" "reads (sql_TombstoneExists fid g)"
  "reads (sql_WeeklyEntryCount fid lo hi)"
  by (simp_all add: reads_def sql_CountDueFeeds_def sql_CountFeeds_def sql_EntryStatsByFeed_def
      sql_FeedEntryStatsByID_def sql_GetFeed_def sql_ListDueFeeds_def sql_ListFeeds_def
      sql_UnreadCount_def sql_GetCategory_def sql_ListCategories_def sql_UnreadCountsByCategory_def
      sql_GetAppSetting_def sql_CountUsers_def sql_CountDueExtractions_def sql_CountEntries_def
      sql_GetEntry_def sql_GetEntryByGUID_def sql_GetFeedFullContent_def
      sql_ListPendingExtractions_def sql_TombstoneExists_def sql_WeeklyEntryCount_def Let_def)

lemmas sql_read_keeps [wf_intros] = sql_reads [THEN reads_keeps]

end
