(* ===== verification/Conn.thy ===== *)
theory Conn
  imports SqlInv
begin

text \<open>
  The database handle of \<open>internal/store/sqlite/store.go\<close>: one connection (\<open>SetMaxOpenConns(1)\<close>), the
  statements and transactions of \<open>database/sql\<close> on it, and \<open>mapErr\<close>.

  A store operation is a function from the connection to a result and the connection after it.
  A statement may fail for reasons outside the program (disk full, I/O error, a lock, a context
  cancelled meanwhile): the connection carries the list of these outcomes, one for each statement
  to come (\<open>None\<close>: the statement runs), and is reliable once the list is used up. A statement on a
  context that is done fails with the context's error before it reaches the database.
\<close>

record conn =
  cn_db :: db
  cn_faults :: "gerr option list"
  cn_saved :: "db option"      \<comment> \<open>the snapshot an open transaction rolls back to\<close>

type_synonym 'a op = "conn \<Rightarrow> (gerr + 'a) \<times> conn"

definition fresh_conn :: "db \<Rightarrow> conn" where
  "fresh_conn d = \<lparr>cn_db = d, cn_faults = [], cn_saved = None\<rparr>"

section \<open>Sequencing\<close>

definition returnE :: "'a \<Rightarrow> 'a op" where "returnE a c = (Inr a, c)"
definition throwE :: "gerr \<Rightarrow> 'a op" where "throwE e c = (Inl e, c)"

definition bindE :: "'a op \<Rightarrow> ('a \<Rightarrow> 'b op) \<Rightarrow> 'b op" where
  "bindE m k c = (case m c of (Inl e, c') \<Rightarrow> (Inl e, c') | (Inr a, c') \<Rightarrow> k a c')"

text \<open>\<open>if err := m; err != nil { return h(err) }\<close> with the other results going to \<open>k\<close>.\<close>

definition catchE :: "'a op \<Rightarrow> (gerr \<Rightarrow> 'b op) \<Rightarrow> ('a \<Rightarrow> 'b op) \<Rightarrow> 'b op" where
  "catchE m h k c = (case m c of (Inl e, c') \<Rightarrow> h e c' | (Inr a, c') \<Rightarrow> k a c')"

fun foldE :: "('s \<Rightarrow> 'a \<Rightarrow> 's op) \<Rightarrow> 's \<Rightarrow> 'a list \<Rightarrow> 's op" where
  "foldE f s [] = returnE s"
| "foldE f s (x # xs) = bindE (f s x) (\<lambda>t. foldE f t xs)"

section \<open>Statements\<close>

definition exec :: "ctx \<Rightarrow> 'a stmt \<Rightarrow> 'a op" where
  "exec cx s c =
     (let run = (\<lambda>c. case s (cn_db c) of (r, d) \<Rightarrow> (r, c\<lparr>cn_db := d\<rparr>)) in
      case cx of
        Some e \<Rightarrow> (Inl e, c)
      | None \<Rightarrow>
          (case cn_faults c of
             [] \<Rightarrow> run c
           | None # fs \<Rightarrow> run (c\<lparr>cn_faults := fs\<rparr>)
           | Some e # fs \<Rightarrow> (Inl e, c\<lparr>cn_faults := fs\<rparr>)))"

section \<open>\<open>mapErr\<close>\<close>

text \<open>\<open>mapErr\<close> looks for SQLite's message in the text of the error.\<close>

definition mapErr :: "gerr \<Rightarrow> gerr" where
  "mapErr e =
     (if err_is SNoRows e then ErrNotFound
      else if str_contains (err_text e) ''UNIQUE constraint failed'' then ErrConflict
      else if str_contains (err_text e) ''FOREIGN KEY constraint failed'' then ErrConflict
      else e)"

definition mapped :: "'a op \<Rightarrow> 'a op" where
  "mapped m c = (case m c of (r, c') \<Rightarrow> (map_sum mapErr id r, c'))"

lemma mapErr_NoRows [simp]: "mapErr ErrNoRows = ErrNotFound"
  by (simp add: mapErr_def)

lemma mapErr_unique [simp]: "mapErr (unique_failed cols) = ErrConflict"
  using str_contains_append [of "''constraint failed: ''" "''UNIQUE constraint failed''" "'': '' @ cols @ '' (2067)''"]
  by (simp add: mapErr_def unique_failed_def errors_New_def)

lemma mapErr_fk [simp]: "mapErr fk_failed = ErrConflict"
  using str_contains_append [of "''constraint failed: ''" "''FOREIGN KEY constraint failed''" "'' (787)''"]
  by (simp add: mapErr_def fk_failed_def errors_New_def)

section \<open>Transactions\<close>

text \<open>\<open>Rollback\<close> after \<open>Commit\<close> finds no open transaction and does nothing (the code ignores
  \<open>sql.ErrTxDone\<close>). A failed \<open>Commit\<close> leaves the transaction's writes undone.\<close>

definition BeginTx :: "ctx \<Rightarrow> unit op" where
  "BeginTx cx = bindE (exec cx (\<lambda>d. (Inr (), d))) (\<lambda>_ c. (Inr (), c\<lparr>cn_saved := Some (cn_db c)\<rparr>))"

definition Rollback :: "conn \<Rightarrow> conn" where
  "Rollback c = (case cn_saved c of None \<Rightarrow> c | Some d \<Rightarrow> c\<lparr>cn_db := d, cn_saved := None\<rparr>)"

definition Commit :: "unit op" where
  "Commit = catchE (exec None (\<lambda>d. (Inr (), d)))
     (\<lambda>e c. (Inl e, Rollback c)) (\<lambda>_ c. (Inr (), c\<lparr>cn_saved := None\<rparr>))"

text \<open>\<open>tx, err := BeginTx(...)\<close>; \<open>if err != nil \<dots>\<close>; \<open>defer tx.Rollback()\<close>; the body.\<close>

definition in_tx :: "ctx \<Rightarrow> 'a op \<Rightarrow> 'a op" where
  "in_tx cx body = bindE (mapped (BeginTx cx))
     (\<lambda>_ c. case body c of (r, c') \<Rightarrow> (r, Rollback c'))"

section \<open>Invariants of the database, through operations\<close>

definition conn_inv :: "(db \<Rightarrow> bool) \<Rightarrow> conn \<Rightarrow> bool" where
  "conn_inv I c \<longleftrightarrow> I (cn_db c) \<and> (case cn_saved c of None \<Rightarrow> True | Some d \<Rightarrow> I d)"

definition op_keeps :: "(db \<Rightarrow> bool) \<Rightarrow> 'a op \<Rightarrow> bool" where
  "op_keeps I m \<longleftrightarrow> (\<forall>c. conn_inv I c \<longrightarrow> conn_inv I (snd (m c)))"

lemma op_keepsD: "op_keeps I m \<Longrightarrow> conn_inv I c \<Longrightarrow> conn_inv I (snd (m c))"
  by (simp add: op_keeps_def)

lemma op_keeps_returnE [wf_intros]: "op_keeps I (returnE a)"
  by (simp add: op_keeps_def returnE_def)

lemma op_keeps_throwE [wf_intros]: "op_keeps I (throwE e)"
  by (simp add: op_keeps_def throwE_def)

lemma op_keeps_exec [wf_intros]: "keeps I s \<Longrightarrow> op_keeps I (exec cx s)"
  by (auto simp: op_keeps_def exec_def conn_inv_def Let_def split: option.split list.split prod.split
      dest: keepsD)

lemma op_keeps_bindE [wf_intros]:
  "op_keeps I m \<Longrightarrow> (\<And>a. op_keeps I (k a)) \<Longrightarrow> op_keeps I (bindE m k)"
  by (auto simp: op_keeps_def bindE_def split: prod.split sum.split)

lemma op_keeps_catchE [wf_intros]:
  "op_keeps I m \<Longrightarrow> (\<And>e. op_keeps I (h e)) \<Longrightarrow> (\<And>a. op_keeps I (k a)) \<Longrightarrow> op_keeps I (catchE m h k)"
  by (auto simp: op_keeps_def catchE_def split: prod.split sum.split)

lemma op_keeps_mapped [wf_intros]: "op_keeps I m \<Longrightarrow> op_keeps I (mapped m)"
  by (auto simp: op_keeps_def mapped_def split: prod.split)

lemma op_keeps_foldE [wf_intros]:
  "(\<And>s x. op_keeps I (f s x)) \<Longrightarrow> op_keeps I (foldE f s xs)"
proof (induction xs arbitrary: s)
  case Nil
  show ?case by (simp add: op_keeps_returnE)
next
  case (Cons x xs)
  then show ?case by (auto intro: op_keeps_bindE)
qed

lemma op_keeps_if [wf_intros]: "op_keeps I m \<Longrightarrow> op_keeps I n \<Longrightarrow> op_keeps I (if b then m else n)"
  by simp

lemma conn_inv_Rollback: "conn_inv I c \<Longrightarrow> conn_inv I (Rollback c)"
  by (auto simp: Rollback_def conn_inv_def split: option.splits)

lemma keeps_nop [wf_intros]: "keeps I (\<lambda>d. (r, d))"
  by (simp add: keeps_def)

lemma op_keeps_BeginTx [wf_intros]: "op_keeps I (BeginTx cx)"
  unfolding BeginTx_def
  by (intro op_keeps_bindE op_keeps_exec keeps_nop) (auto simp: op_keeps_def conn_inv_def)

lemma op_keeps_Commit [wf_intros]: "op_keeps I Commit"
  unfolding Commit_def
  by (intro op_keeps_catchE op_keeps_exec keeps_nop)
    (auto simp: op_keeps_def conn_inv_Rollback, auto simp: conn_inv_def split: option.splits)

lemma op_keeps_in_tx [wf_intros]: "op_keeps I body \<Longrightarrow> op_keeps I (in_tx cx body)"
  unfolding in_tx_def
  by (intro op_keeps_bindE op_keeps_mapped op_keeps_BeginTx)
    (auto simp: op_keeps_def conn_inv_Rollback split: prod.split dest: op_keepsD)

section \<open>Atomicity of transactions\<close>

text \<open>Operations that leave the transaction open, and bodies that, on an error, have committed
  nothing.\<close>

definition stays :: "'a op \<Rightarrow> bool" where
  "stays m \<longleftrightarrow> (\<forall>c. cn_saved (snd (m c)) = cn_saved c)"

definition tx_safe :: "'a op \<Rightarrow> bool" where
  "tx_safe m \<longleftrightarrow> (\<forall>c d e. cn_saved c = Some d \<longrightarrow> fst (m c) = Inl e \<longrightarrow>
     cn_db (Rollback (snd (m c))) = d)"

named_theorems stays_intros \<open>operations inside a transaction that leave it open\<close>

lemma stays_tx_safe: "stays m \<Longrightarrow> tx_safe m"
  by (simp add: stays_def tx_safe_def Rollback_def)

lemma stays_returnE [stays_intros]: "stays (returnE a)"
  by (simp add: stays_def returnE_def)

lemma stays_throwE [stays_intros]: "stays (throwE e)"
  by (simp add: stays_def throwE_def)

lemma stays_exec [stays_intros]: "stays (exec cx s)"
  by (auto simp: stays_def exec_def Let_def split: option.split list.split prod.split)

lemma stays_bindE [stays_intros]: "stays m \<Longrightarrow> (\<And>a. stays (k a)) \<Longrightarrow> stays (bindE m k)"
  by (auto simp: stays_def bindE_def split: prod.split sum.split) (metis snd_conv)+

lemma stays_catchE [stays_intros]:
  "stays m \<Longrightarrow> (\<And>e. stays (h e)) \<Longrightarrow> (\<And>a. stays (k a)) \<Longrightarrow> stays (catchE m h k)"
  by (auto simp: stays_def catchE_def split: prod.split sum.split) (metis snd_conv)+

lemma stays_mapped [stays_intros]: "stays m \<Longrightarrow> stays (mapped m)"
  by (auto simp: stays_def mapped_def split: prod.split) (metis snd_conv)

lemma stays_foldE [stays_intros]: "(\<And>s x. stays (f s x)) \<Longrightarrow> stays (foldE f s xs)"
proof (induction xs arbitrary: s)
  case Nil
  show ?case by (simp add: stays_returnE)
next
  case (Cons x xs)
  then show ?case by (auto intro: stays_bindE)
qed

lemma tx_safe_bindE: "stays m \<Longrightarrow> (\<And>a. tx_safe (k a)) \<Longrightarrow> tx_safe (bindE m k)"
  unfolding tx_safe_def
proof (intro allI impI)
  fix c d e
  assume m: "stays m" and k: "\<And>a. \<forall>c d e. cn_saved c = Some d \<longrightarrow> fst (k a c) = Inl e \<longrightarrow>
      cn_db (Rollback (snd (k a c))) = d"
    and c: "cn_saved c = Some d" and e: "fst (bindE m k c) = Inl e"
  obtain r c' where mc: "m c = (r, c')" by (cases "m c")
  then have s: "cn_saved c' = Some d" using m c by (metis snd_conv stays_def)
  show "cn_db (Rollback (snd (bindE m k c))) = d"
  proof (cases r)
    case (Inl x)
    then show ?thesis using mc s by (simp add: bindE_def Rollback_def)
  next
    case (Inr a)
    then show ?thesis using mc s e k [of a] by (simp add: bindE_def)
  qed
qed

lemma Commit_cases:
  "(\<exists>e fs. Commit c = (Inl e, Rollback (c\<lparr>cn_faults := fs\<rparr>)))
   \<or> (\<exists>fs. Commit c = (Inr (), c\<lparr>cn_faults := fs, cn_saved := None\<rparr>))"
  by (auto simp: Commit_def catchE_def exec_def Let_def split: list.split option.split)
    (metis conn.surjective conn.update_convs(2))+

lemma tx_safe_Commit: "tx_safe (bindE (mapped Commit) (\<lambda>_. returnE a))"
  unfolding tx_safe_def
proof (intro allI impI)
  fix c d e
  assume c: "cn_saved c = Some d" and e: "fst (bindE (mapped Commit) (\<lambda>_. returnE a) c) = Inl e"
  from Commit_cases [of c] show "cn_db (Rollback (snd (bindE (mapped Commit) (\<lambda>_. returnE a) c))) = d"
    using c e by (auto simp: bindE_def mapped_def returnE_def Rollback_def)
qed

text \<open>An operation run in a transaction either succeeds or leaves the database as it was.\<close>

lemma in_tx_atomic:
  assumes "tx_safe body" and "fst (in_tx cx body c) = Inl e"
  shows "cn_db (snd (in_tx cx body c)) = cn_db c"
proof -
  obtain r c1 where b: "mapped (BeginTx cx) c = (r, c1)" by (cases "mapped (BeginTx cx) c")
  have db: "cn_db c1 = cn_db c" and sv: "r = Inr () \<Longrightarrow> cn_saved c1 = Some (cn_db c)"
    using b by (auto simp: mapped_def BeginTx_def bindE_def exec_def Let_def
        split: option.splits list.splits)
  show ?thesis
  proof (cases r)
    case (Inl x)
    then show ?thesis using b db by (simp add: in_tx_def bindE_def)
  next
    case (Inr u)
    with sv have s: "cn_saved c1 = Some (cn_db c)" by simp
    obtain r2 c2 where b2: "body c1 = (r2, c2)" by (cases "body c1")
    have "r2 = Inl e" using assms(2) b b2 Inr by (simp add: in_tx_def bindE_def)
    then have "cn_db (Rollback c2) = cn_db c"
      using assms(1) s b2 unfolding tx_safe_def by (metis fst_conv snd_conv)
    then show ?thesis using b b2 Inr by (simp add: in_tx_def bindE_def)
  qed
qed

section \<open>Outcomes of statements\<close>

text \<open>The faults to come are faults of the driver, not the \<open>sql.ErrNoRows\<close> that only \<open>Scan\<close> makes.\<close>

definition faults_ok :: "conn \<Rightarrow> bool" where
  "faults_ok c \<longleftrightarrow> (\<forall>f \<in> set (cn_faults c). f = None \<or> \<not> err_is SNoRows (the f))"

lemma exec_Inr:
  assumes "exec cx s c = (Inr a, c')"
  shows "s (cn_db c) = (Inr a, cn_db c')" "cn_saved c' = cn_saved c" "faults_ok c \<Longrightarrow> faults_ok c'"
  using assms by (auto simp: exec_def Let_def faults_ok_def split: option.splits list.splits prod.splits)

lemma exec_Inl:
  assumes "exec cx s c = (Inl e, c')" and "faults_ok c" and "err_is SNoRows e" and "cx = None"
  shows "s (cn_db c) = (Inl e, cn_db c')" "cn_saved c' = cn_saved c" "faults_ok c'"
  using assms by (auto simp: exec_def Let_def faults_ok_def split: option.splits list.splits prod.splits)

lemma bindE_Inr:
  "bindE m k c = (Inr b, c') \<longleftrightarrow> (\<exists>a c1. m c = (Inr a, c1) \<and> k a c1 = (Inr b, c'))"
  by (auto simp: bindE_def split: prod.split sum.split)

lemma mapped_Inr: "mapped m c = (Inr a, c') \<longleftrightarrow> m c = (Inr a, c')"
  by (cases "m c") (auto simp: mapped_def map_sum_def split: sum.splits)

lemma catchE_Inr:
  "catchE m h k c = (Inr b, c') \<longleftrightarrow>
     (\<exists>e c1. m c = (Inl e, c1) \<and> h e c1 = (Inr b, c')) \<or> (\<exists>a c1. m c = (Inr a, c1) \<and> k a c1 = (Inr b, c'))"
  by (auto simp: catchE_def split: prod.split sum.split)

lemma returnE_Inr: "returnE a c = (Inr b, c') \<longleftrightarrow> b = a \<and> c' = c"
  by (auto simp: returnE_def)

lemma throwE_Inr [simp]: "throwE e c \<noteq> (Inr b, c')"
  by (simp add: throwE_def)

lemmas op_Inr = bindE_Inr mapped_Inr catchE_Inr returnE_Inr

text \<open>A successful transaction committed its writes, or had none to commit.\<close>

lemma BeginTx_Inr:
  "BeginTx cx c = (Inr u, c') \<Longrightarrow> cn_db c' = cn_db c \<and> cn_saved c' = Some (cn_db c) \<and> cx = None
     \<and> (faults_ok c \<longrightarrow> faults_ok c')"
  by (auto simp: BeginTx_def bindE_def exec_def Let_def faults_ok_def
      split: option.splits list.splits prod.splits sum.splits)

lemma Commit_Inr:
  "Commit c = (Inr u, c') \<Longrightarrow> cn_db c' = cn_db c \<and> cn_saved c' = None \<and> (faults_ok c \<longrightarrow> faults_ok c')"
  by (auto simp: Commit_def catchE_def exec_def Let_def faults_ok_def
      split: option.splits list.splits prod.splits sum.splits)

lemma in_tx_Inr:
  assumes "in_tx cx body c = (Inr a, c')"
  obtains c1 c2 where "cx = None" "cn_db c1 = cn_db c" "cn_saved c1 = Some (cn_db c)"
    "faults_ok c \<Longrightarrow> faults_ok c1" "body c1 = (Inr a, c2)" "c' = Rollback c2"
proof -
  from assms obtain c1 where b: "BeginTx cx c = (Inr (), c1)"
    and r: "(case body c1 of (r, c') \<Rightarrow> (r, Rollback c')) = (Inr a, c')"
    unfolding in_tx_def bindE_Inr mapped_Inr by auto
  obtain x c2 where "body c1 = (x, c2)" by (cases "body c1")
  with r that [of c1 c2] BeginTx_Inr [OF b] show thesis by simp
qed

lemma Rollback_committed [simp]: "cn_saved c = None \<Longrightarrow> Rollback c = c"
  by (simp add: Rollback_def)

section \<open>Reliable connections\<close>

text \<open>With a live context and no fault to come a statement simply runs.\<close>

lemma exec_reliable:
  "cn_faults c = [] \<Longrightarrow> exec None s c = (case s (cn_db c) of (r, d) \<Rightarrow> (r, c\<lparr>cn_db := d\<rparr>))"
  by (simp add: exec_def)

lemma exec_done [simp]: "exec (Some e) s c = (Inl e, c)"
  by (simp add: exec_def)

end
