(* ===== verification/SqliteStore.thy ===== *)
theory SqliteStore
  imports Conn Schedule
begin

text \<open>
  \<open>internal/store/sqlite\<close>: the conversions of \<open>store.go\<close> and the operations of \<open>feeds.go\<close>,
  \<open>categories.go\<close>, \<open>settings.go\<close> and \<open>counts.go\<close>. Times are stored in whole seconds, durations in
  whole seconds and only when positive. The operations on entries are in \<open>SqliteEntries\<close>.
\<close>

section \<open>Conversions\<close>

definition toUnix :: "time \<Rightarrow> int" where "toUnix t = time_unix t"
definition fromUnix :: "int \<Rightarrow> time" where "fromUnix s = unix_time s"

definition nullUnix :: "time option \<Rightarrow> int option" where "nullUnix t = map_option time_unix t"
definition ptrUnix :: "int option \<Rightarrow> time option" where "ptrUnix n = map_option unix_time n"

definition nullDurSec :: "duration \<Rightarrow> int option" where
  "nullDurSec d = (if d \<le> 0 then None else Some (go_div d Second))"

definition durSec :: "int option \<Rightarrow> duration" where
  "durSec n = (case n of None \<Rightarrow> 0 | Some s \<Rightarrow> i64 (s * Second))"

definition nullID :: "ID option \<Rightarrow> int option" where "nullID i = i"
definition ptrID :: "int option \<Rightarrow> ID option" where "ptrID n = n"

definition b2i :: "bool \<Rightarrow> int" where "b2i b = (if b then 1 else 0)"

lemma b2i_bit [simp]: "b2i b \<in> {0, 1}"
  by (simp add: b2i_def)

lemma b2i_nonzero [simp]: "(b2i b \<noteq> 0) = b"
  by (simp add: b2i_def)

lemma toUnix_fromUnix [simp]: "toUnix (fromUnix s) = s"
  by (simp add: toUnix_def fromUnix_def)

lemma nullUnix_ptrUnix [simp]: "nullUnix (ptrUnix n) = n"
  by (cases n) (simp_all add: nullUnix_def ptrUnix_def)

section \<open>\<open>feeds.go\<close>\<close>

definition feedFromRow :: "FeedRow \<Rightarrow> Feed" where
  "feedFromRow r = \<lparr>f_ID = fr_ID r, f_UserID = fr_UserID r, f_CategoryID = ptrID (fr_CategoryID r),
     f_FeedURL = fr_FeedUrl r, f_SiteURL = fr_SiteUrl r, f_Title = fr_Title r,
     f_UserTitle = fr_UserTitle r, f_Description = fr_Description r, f_ETag = fr_Etag r,
     f_LastModified = fr_LastModified r, f_Disabled = (fr_Disabled r \<noteq> 0),
     f_FetchFullContent = (fr_FetchFullContent r \<noteq> 0), f_CheckedAt = ptrUnix (fr_CheckedAt r),
     f_NextCheckAt = fromUnix (fr_NextCheckAt r), f_ErrorCount = fr_ErrorCount r,
     f_LastError = fr_LastError r, f_TTL = durSec (fr_TtlSeconds r),
     f_CreatedAt = fromUnix (fr_CreatedAt r), f_UpdatedAt = fromUnix (fr_UpdatedAt r)\<rparr>"

text \<open>The columns of a feed that the queries write, as the parameter structs carry them.\<close>

definition feed_params :: "Feed \<Rightarrow> FeedRow" where
  "feed_params f = \<lparr>fr_ID = f_ID f, fr_UserID = f_UserID f, fr_FeedUrl = f_FeedURL f,
     fr_SiteUrl = f_SiteURL f, fr_Title = f_Title f, fr_Description = f_Description f,
     fr_Etag = f_ETag f, fr_LastModified = f_LastModified f, fr_Disabled = b2i (f_Disabled f),
     fr_CheckedAt = nullUnix (f_CheckedAt f), fr_NextCheckAt = toUnix (f_NextCheckAt f),
     fr_ErrorCount = f_ErrorCount f, fr_LastError = f_LastError f,
     fr_CreatedAt = toUnix (f_CreatedAt f), fr_UpdatedAt = toUnix (f_UpdatedAt f),
     fr_CategoryID = nullID (f_CategoryID f), fr_FetchFullContent = b2i (f_FetchFullContent f),
     fr_TtlSeconds = nullDurSec (f_TTL f), fr_UserTitle = []\<rparr>"

definition CreateFeed :: "ctx \<Rightarrow> Feed \<Rightarrow> ID op" where
  "CreateFeed cx f = mapped (exec cx (sql_CreateFeed (feed_params f)))"

definition GetFeed :: "ctx \<Rightarrow> ID \<Rightarrow> ID \<Rightarrow> Feed op" where
  "GetFeed cx uid fid =
     bindE (mapped (exec cx (sql_GetFeed fid uid))) (\<lambda>r. returnE (feedFromRow r))"

definition ListFeeds :: "ctx \<Rightarrow> ID \<Rightarrow> Feed list op" where
  "ListFeeds cx uid =
     bindE (mapped (exec cx (sql_ListFeeds uid))) (\<lambda>rs. returnE (map feedFromRow rs))"

definition ListDueFeeds :: "ctx \<Rightarrow> time \<Rightarrow> int \<Rightarrow> Feed list op" where
  "ListDueFeeds cx now lm =
     bindE (mapped (exec cx (sql_ListDueFeeds (toUnix now) lm))) (\<lambda>rs. returnE (map feedFromRow rs))"

definition UpdateFeed :: "ctx \<Rightarrow> Feed \<Rightarrow> unit op" where
  "UpdateFeed cx f = mapped (exec cx (sql_UpdateFeed (feed_params f)))"

text \<open>\<open>n == 0\<close> rows affected means the row is missing or belongs to another user.\<close>

definition affected :: "int op \<Rightarrow> unit op" where
  "affected m = bindE (mapped m) (\<lambda>n. if n = 0 then throwE ErrNotFound else returnE ())"

definition DeleteFeed :: "ctx \<Rightarrow> ID \<Rightarrow> ID \<Rightarrow> unit op" where
  "DeleteFeed cx uid fid = affected (exec cx (sql_DeleteFeed fid uid))"

definition EntryStatsByFeed :: "ctx \<Rightarrow> ID \<Rightarrow> (ID \<Rightarrow> FeedEntryStats option) op" where
  "EntryStatsByFeed cx uid =
     bindE (mapped (exec cx (sql_EntryStatsByFeed uid)))
       (\<lambda>rs. returnE (map_of (map (\<lambda>(k, t, u). (k, \<lparr>st_Total = t, st_Unread = u\<rparr>)) rs)))"

definition UnreadCount :: "ctx \<Rightarrow> ID \<Rightarrow> int op" where
  "UnreadCount cx uid = mapped (exec cx (sql_UnreadCount uid))"

definition FeedEntryStatsByID :: "ctx \<Rightarrow> ID \<Rightarrow> ID \<Rightarrow> FeedEntryStats op" where
  "FeedEntryStatsByID cx uid fid =
     bindE (mapped (exec cx (sql_FeedEntryStatsByID uid fid)))
       (\<lambda>(t, u). returnE \<lparr>st_Total = t, st_Unread = u\<rparr>)"

definition SetFeedFullContent :: "ctx \<Rightarrow> ID \<Rightarrow> ID \<Rightarrow> bool \<Rightarrow> time \<Rightarrow> unit op" where
  "SetFeedFullContent cx uid fid on due =
     in_tx cx
       (bindE (mapped (exec cx (sql_SetFeedFullContent (b2i on) fid uid)))
         (\<lambda>n. if n = 0 then throwE ErrNotFound
          else bindE (mapped (exec cx (if on then sql_MarkFeedEntriesPending (Some (toUnix due)) fid
                                       else sql_CancelFeedExtractions fid)))
            (\<lambda>_. bindE (mapped Commit) (\<lambda>_. returnE ()))))"

definition WeeklyEntryCount :: "ctx \<Rightarrow> ID \<Rightarrow> time \<Rightarrow> int op" where
  "WeeklyEntryCount cx fid now =
     mapped (exec cx (sql_WeeklyEntryCount fid (toUnix (time_add now (- Week))) (toUnix now)))"

definition SetFeedUserTitle :: "ctx \<Rightarrow> ID \<Rightarrow> ID \<Rightarrow> string \<Rightarrow> unit op" where
  "SetFeedUserTitle cx uid fid t = affected (exec cx (sql_SetFeedUserTitle t fid uid))"

definition SetFeedURL :: "ctx \<Rightarrow> ID \<Rightarrow> ID \<Rightarrow> string \<Rightarrow> time \<Rightarrow> unit op" where
  "SetFeedURL cx uid fid url now = affected (exec cx (sql_SetFeedURL url (toUnix now) fid uid))"

section \<open>\<open>categories.go\<close>\<close>

definition categoryFromRow :: "CategoryRow \<Rightarrow> Category" where
  "categoryFromRow r = \<lparr>c_ID = cr_ID r, c_UserID = cr_UserID r, c_Title = cr_Title r\<rparr>"

definition CreateCategory :: "ctx \<Rightarrow> Category \<Rightarrow> ID op" where
  "CreateCategory cx c = mapped (exec cx (sql_CreateCategory (c_UserID c) (c_Title c)))"

definition GetCategory :: "ctx \<Rightarrow> ID \<Rightarrow> ID \<Rightarrow> Category op" where
  "GetCategory cx uid i =
     bindE (mapped (exec cx (sql_GetCategory i uid))) (\<lambda>r. returnE (categoryFromRow r))"

definition ListCategories :: "ctx \<Rightarrow> ID \<Rightarrow> Category list op" where
  "ListCategories cx uid =
     bindE (mapped (exec cx (sql_ListCategories uid))) (\<lambda>rs. returnE (map categoryFromRow rs))"

definition UpdateCategory :: "ctx \<Rightarrow> Category \<Rightarrow> unit op" where
  "UpdateCategory cx c = affected (exec cx (sql_UpdateCategory (c_Title c) (c_ID c) (c_UserID c)))"

definition DeleteCategory :: "ctx \<Rightarrow> ID \<Rightarrow> ID \<Rightarrow> unit op" where
  "DeleteCategory cx uid i = affected (exec cx (sql_DeleteCategory i uid))"

definition SetFeedCategory :: "ctx \<Rightarrow> ID \<Rightarrow> ID \<Rightarrow> ID option \<Rightarrow> unit op" where
  "SetFeedCategory cx uid fid cat = affected (exec cx (sql_SetFeedCategory (nullID cat) fid uid))"

definition UnreadCountsByCategory :: "ctx \<Rightarrow> ID \<Rightarrow> ((ID \<Rightarrow> int option) \<times> int) op" where
  "UnreadCountsByCategory cx uid =
     bindE (mapped (exec cx (sql_UnreadCountsByCategory uid)))
       (\<lambda>rs. returnE
         (foldl (\<lambda>(per, uncat) (c, n). case c of Some k \<Rightarrow> (per(k \<mapsto> n), uncat) | None \<Rightarrow> (per, n))
            (Map.empty, 0) rs))"

section \<open>\<open>settings.go\<close> and \<open>counts.go\<close>\<close>

definition GetSetting :: "ctx \<Rightarrow> string \<Rightarrow> string op" where
  "GetSetting cx k = mapped (exec cx (sql_GetAppSetting k))"

definition PutSetting :: "ctx \<Rightarrow> string \<Rightarrow> string \<Rightarrow> unit op" where
  "PutSetting cx k v = mapped (exec cx (sql_PutAppSetting k v))"

definition CountUsers :: "ctx \<Rightarrow> int op" where
  "CountUsers cx = mapped (exec cx sql_CountUsers)"

definition CountFeeds :: "ctx \<Rightarrow> int op" where
  "CountFeeds cx = mapped (exec cx sql_CountFeeds)"

definition CountEntries :: "ctx \<Rightarrow> int op" where
  "CountEntries cx = mapped (exec cx sql_CountEntries)"

definition CountDueFeeds :: "ctx \<Rightarrow> time \<Rightarrow> int op" where
  "CountDueFeeds cx now = mapped (exec cx (sql_CountDueFeeds (toUnix now)))"

definition CountDueExtractions :: "ctx \<Rightarrow> time \<Rightarrow> int op" where
  "CountDueExtractions cx now = mapped (exec cx (sql_CountDueExtractions (nullUnix (Some now))))"

lemmas feed_op_defs = CreateFeed_def GetFeed_def ListFeeds_def ListDueFeeds_def UpdateFeed_def
  DeleteFeed_def EntryStatsByFeed_def UnreadCount_def FeedEntryStatsByID_def SetFeedFullContent_def
  WeeklyEntryCount_def SetFeedUserTitle_def SetFeedURL_def

lemmas category_op_defs = CreateCategory_def GetCategory_def ListCategories_def UpdateCategory_def
  DeleteCategory_def SetFeedCategory_def UnreadCountsByCategory_def

lemmas other_op_defs = GetSetting_def PutSetting_def CountUsers_def CountFeeds_def CountEntries_def
  CountDueFeeds_def CountDueExtractions_def

end
