(* ===== verification/Traces.thy ===== *)
theory Traces
  imports Service
begin

text \<open>
  Rules for what a service call emits, shared by the poller's and the scraper's services: calls that
  emit nothing, calls that cannot panic, calls that emit one attempt when they return.
\<close>

section \<open>Rules for traces\<close>

text \<open>A call that emits nothing, and one that cannot panic.\<close>

definition quiet :: "('s, 'a) svc \<Rightarrow> bool" where
  "quiet m \<longleftrightarrow> (\<forall>w. w_trace (snd (m w)) = w_trace w)"

definition safe :: "('s, 'a) svc \<Rightarrow> bool" where
  "safe m \<longleftrightarrow> (\<forall>w. \<exists>a. fst (m w) = Ret a)"

text \<open>A call that emits one attempt (events that satisfy \<open>A\<close>) when it returns and nothing when it panics.\<close>

definition counts :: "(metric list \<Rightarrow> bool) \<Rightarrow> ('s, 'a) svc \<Rightarrow> bool" where
  "counts A m \<longleftrightarrow> (\<forall>w. case m w of
       (Ret a, w') \<Rightarrow> \<exists>ms. A ms \<and> w_trace w' = w_trace w @ ms
     | (Panic p, w') \<Rightarrow> w_trace w' = w_trace w)"

named_theorems trace_intros \<open>rules for quiet, safe and counting calls\<close>

lemma quietD: "quiet m \<Longrightarrow> m w = (x, w') \<Longrightarrow> w_trace w' = w_trace w"
  by (metis quiet_def snd_conv)

lemma quiet_prims [trace_intros]:
  "quiet (retS a)" "quiet (panicS p)" "quiet (askS q)" "quiet (clk_Now E)" "quiet (ctx_Err E)"
  "quiet (storeS s)" "quiet feedS" "quiet (setFeedS f)" "quiet (outcomeS v)"
  by (auto simp: quiet_def retS_def panicS_def askS_def clk_Now_def ctx_Err_def storeS_def feedS_def
      setFeedS_def outcomeS_def split: prod.split outcome.split)

lemma quiet_bindS [trace_intros]: "quiet m \<Longrightarrow> (\<And>a. quiet (k a)) \<Longrightarrow> quiet (bindS m k)"
  unfolding quiet_def bindS_def by (auto split: prod.split outcome.split) (metis snd_conv)+

lemma quiet_tryS [trace_intros]:
  "quiet m \<Longrightarrow> (\<And>e. quiet (h e)) \<Longrightarrow> (\<And>a. quiet (k a)) \<Longrightarrow> quiet (tryS m h k)"
  unfolding tryS_def by (intro quiet_bindS) (auto split: sum.split)

lemma quiet_storeC [trace_intros]: "quiet (storeC E m)"
  unfolding storeC_def by (intro quiet_bindS quiet_prims)

lemma quiet_fetchS [trace_intros]: "quiet (fetchS E req)"
  unfolding fetchS_def by (intro quiet_bindS quiet_prims)

lemma quiet_mapS [trace_intros]: "(\<And>x. quiet (f x)) \<Longrightarrow> quiet (mapS f xs)"
  by (induction xs) (auto intro!: trace_intros)

lemma bindS_Ret: "bindS m k w = (Ret b, w') \<longleftrightarrow> (\<exists>a w1. m w = (Ret a, w1) \<and> k a w1 = (Ret b, w'))"
  by (auto simp: bindS_def split: prod.split outcome.split)

lemma bindS_Panic: "bindS m k w = (Panic p, w')
    \<longleftrightarrow> m w = (Panic p, w') \<or> (\<exists>a w1. m w = (Ret a, w1) \<and> k a w1 = (Panic p, w'))"
  by (auto simp: bindS_def split: prod.split outcome.split)

lemma recoverS_Ret: "recoverS m h w = (Ret b, w')
    \<longleftrightarrow> m w = (Ret b, w') \<or> (\<exists>p w1. m w = (Panic p, w1) \<and> h p w1 = (Ret b, w'))"
  by (auto simp: recoverS_def split: prod.split outcome.split)

lemma recoverS_Panic: "recoverS m h w = (Panic q, w')
    \<longleftrightarrow> (\<exists>p w1. m w = (Panic p, w1) \<and> h p w1 = (Panic q, w'))"
  by (auto simp: recoverS_def split: prod.split outcome.split)

lemma countsI:
  assumes "\<And>w a w'. m w = (Ret a, w') \<Longrightarrow> \<exists>ms. A ms \<and> w_trace w' = w_trace w @ ms"
    and "\<And>w p w'. m w = (Panic p, w') \<Longrightarrow> w_trace w' = w_trace w"
  shows "counts A m"
  unfolding counts_def using assms by (auto split: prod.split outcome.split)

lemma counts_Ret: "counts A m \<Longrightarrow> m w = (Ret a, w') \<Longrightarrow> \<exists>ms. A ms \<and> w_trace w' = w_trace w @ ms"
  unfolding counts_def by (drule spec [of _ w]) simp

lemma counts_Panic: "counts A m \<Longrightarrow> m w = (Panic p, w') \<Longrightarrow> w_trace w' = w_trace w"
  unfolding counts_def by (drule spec [of _ w]) simp

lemma counts_bindS [trace_intros]: "quiet m \<Longrightarrow> (\<And>a. counts A (k a)) \<Longrightarrow> counts A (bindS m k)"
proof (rule countsI)
  fix w b w'
  assume q: "quiet m" and k: "\<And>a. counts A (k a)" and "bindS m k w = (Ret b, w')"
  then obtain a w1 where m: "m w = (Ret a, w1)" and r: "k a w1 = (Ret b, w')" by (auto simp: bindS_Ret)
  from counts_Ret [OF k r] show "\<exists>ms. A ms \<and> w_trace w' = w_trace w @ ms"
    unfolding quietD [OF q m] .
next
  fix w p w'
  assume q: "quiet m" and k: "\<And>a. counts A (k a)" and "bindS m k w = (Panic p, w')"
  then consider "m w = (Panic p, w')" | a w1 where "m w = (Ret a, w1)" "k a w1 = (Panic p, w')"
    by (auto simp: bindS_Panic)
  then show "w_trace w' = w_trace w"
  proof cases
    case 1
    with q show ?thesis by (rule quietD)
  next
    case 2
    then show ?thesis using quietD [OF q 2(1)] counts_Panic [OF k 2(2)] by simp
  qed
qed

lemma counts_tryS [trace_intros]:
  "quiet m \<Longrightarrow> (\<And>e. counts A (h e)) \<Longrightarrow> (\<And>a. counts A (k a)) \<Longrightarrow> counts A (tryS m h k)"
  unfolding tryS_def by (intro counts_bindS) (auto split: sum.split)

lemma counts_emit [trace_intros]: "A ms \<Longrightarrow> counts A (bindS (emitS ms) (\<lambda>_. retS a))"
  by (auto simp: counts_def bindS_def emitS_def retS_def)

lemma counts_recoverS [trace_intros]: "counts A m \<Longrightarrow> (\<And>p. counts A (h p)) \<Longrightarrow> counts A (recoverS m h)"
proof (rule countsI)
  fix w b w'
  assume c: "counts A m" and h: "\<And>p. counts A (h p)" and "recoverS m h w = (Ret b, w')"
  then consider "m w = (Ret b, w')" | p w1 where "m w = (Panic p, w1)" "h p w1 = (Ret b, w')"
    by (auto simp: recoverS_Ret)
  then show "\<exists>ms. A ms \<and> w_trace w' = w_trace w @ ms"
  proof cases
    case 1
    with c show ?thesis by (rule counts_Ret)
  next
    case 2
    from counts_Ret [OF h 2(2)] show ?thesis unfolding counts_Panic [OF c 2(1)] .
  qed
next
  fix w q w'
  assume c: "counts A m" and h: "\<And>p. counts A (h p)" and "recoverS m h w = (Panic q, w')"
  then obtain p w1 where m: "m w = (Panic p, w1)" and r: "h p w1 = (Panic q, w')" by (auto simp: recoverS_Panic)
  from counts_Panic [OF h r] show "w_trace w' = w_trace w" unfolding counts_Panic [OF c m] .
qed

lemma safe_prims [trace_intros]:
  "safe (retS a)" "safe (askS q)" "safe (clk_Now E)" "safe (ctx_Err E)" "safe (storeS s)" "safe feedS"
  "safe (setFeedS f)" "safe (emitS ms)"
  by (auto simp: safe_def retS_def askS_def clk_Now_def ctx_Err_def storeS_def feedS_def setFeedS_def
      emitS_def split: prod.split)

lemma safe_bindS [trace_intros]: "safe m \<Longrightarrow> (\<And>a. safe (k a)) \<Longrightarrow> safe (bindS m k)"
  unfolding safe_def bindS_def by (auto split: prod.split outcome.split) (metis fst_conv outcome.distinct(1))+

lemma safe_storeC [trace_intros]: "safe (storeC E m)"
  unfolding storeC_def by (intro safe_bindS safe_prims)

lemma safe_recoverS [trace_intros]: "(\<And>p. safe (h p)) \<Longrightarrow> safe (recoverS m h)"
  unfolding safe_def recoverS_def by (auto split: prod.split outcome.split)

lemma safe_tryS [trace_intros]:
  "safe m \<Longrightarrow> (\<And>e. safe (h e)) \<Longrightarrow> (\<And>a. safe (k a)) \<Longrightarrow> safe (tryS m h k)"
  unfolding tryS_def by (intro safe_bindS) (auto split: sum.split)

lemma safe_run: "safe m \<Longrightarrow> \<exists>a w'. m w = (Ret a, w')"
  unfolding safe_def by (metis prod.collapse)

section \<open>Calls that say whether they counted\<close>

lemma counts_pair: "counts A m \<Longrightarrow> counts A (bindS m (\<lambda>e. retS (e, True)))"
  by (rule countsI) (auto simp: bindS_Ret bindS_Panic retS_def dest: counts_Ret counts_Panic)

text \<open>A call that returns \<open>counted\<close> beside its result, always true, after one attempt.\<close>

definition always_counted :: "(metric list \<Rightarrow> bool) \<Rightarrow> ('s, 'a \<times> bool) svc \<Rightarrow> bool" where
  "always_counted A m \<longleftrightarrow> counts A m \<and> (\<forall>w. case m w of (Ret (e, b), w') \<Rightarrow> b | _ \<Rightarrow> True)"

lemma always_counted_wrap: "counts A m \<Longrightarrow> always_counted A (bindS m (\<lambda>e. retS (e, True)))"
  unfolding always_counted_def
  by (auto simp: counts_pair, auto simp: bindS_def retS_def split: prod.splits outcome.splits)

lemma always_counted_bindS: "quiet m \<Longrightarrow> (\<And>a. always_counted A (k a)) \<Longrightarrow> always_counted A (bindS m k)"
proof -
  assume q: "quiet m" and k: "\<And>a. always_counted A (k a)"
  have "counts A (bindS m k)" using q k by (intro counts_bindS) (simp_all add: always_counted_def)
  moreover have "case bindS m k w of (Ret (e, b), w') \<Rightarrow> b | _ \<Rightarrow> True" for w
  proof -
    obtain x w1 where m: "m w = (x, w1)" by (cases "m w")
    show ?thesis
    proof (cases x)
      case (Ret a)
      then show ?thesis using m k [of a] by (simp add: bindS_def always_counted_def)
    next
      case (Panic p)
      then show ?thesis using m by (simp add: bindS_def)
    qed
  qed
  ultimately show ?thesis by (simp add: always_counted_def)
qed

lemma always_counted_run:
  assumes "always_counted A m" "w_trace v = w_trace w"
  shows "case m v of (Ret (r, c), w') \<Rightarrow> c \<and> (\<exists>ms. A ms \<and> w_trace w' = w_trace w @ ms)
    | (Panic p, w') \<Rightarrow> w_trace w' = w_trace w"
proof -
  from assms(1) have c: "counts A m" and b: "case m v of (Ret (e, b), w') \<Rightarrow> b | _ \<Rightarrow> True"
    by (auto simp: always_counted_def)
  obtain x v1 where m: "m v = (x, v1)" by (cases "m v")
  show ?thesis
    using b counts_Ret [OF c, of v] counts_Panic [OF c, of v] m assms(2) by (cases x) auto
qed

lemma bindS_feedS: "bindS feedS k w = k (w_feed w) w"
  by (simp add: bindS_def feedS_def)

lemma tryS_fetch: "en_fetch E (w_step w) req = Ret (Inr resp) \<Longrightarrow>
    tryS (fetchS E req) h k w = k resp (w\<lparr>w_step := Suc (w_step w)\<rparr>)"
  by (simp add: tryS_def fetchS_def bindS_def askS_def outcomeS_def retS_def)

text \<open>The pipeline under its deferred recover, whose handler counts.\<close>

lemma recover_counted:
  assumes "case m v of (Ret (r, c), w') \<Rightarrow> c \<and> (\<exists>ms. A ms \<and> w_trace w' = w_trace v @ ms)
      | (Panic p, w') \<Rightarrow> w_trace w' = w_trace v"
    and "\<And>p. counts A (h p)" and "\<And>p. safe (h p)"
  shows "\<exists>r u ms. recoverS m (\<lambda>p. bindS (h p) (\<lambda>e. retS (e, True))) v = (Ret (r, True), u)
    \<and> A ms \<and> w_trace u = w_trace v @ ms"
proof -
  obtain x u where p: "m v = (x, u)" by (cases "m v")
  show ?thesis
  proof (cases x)
    case (Ret a)
    then show ?thesis using assms(1) p by (cases a) (auto simp: recoverS_Ret)
  next
    case (Panic q)
    with assms(1) p have t: "w_trace u = w_trace v" by simp
    obtain r u' where m: "h q u = (Ret r, u')" using safe_run [OF assms(3)] by blast
    have "recoverS m (\<lambda>p. bindS (h p) (\<lambda>e. retS (e, True))) v = (Ret (r, True), u')"
      using p Panic m by (simp add: recoverS_Ret bindS_Ret retS_def)
    then show ?thesis using counts_Ret [OF assms(2) m] t by auto
  qed
qed

end
