(* ===== verification/FeedContract.thy ===== *)
theory FeedContract
  imports FeedService SqliteStore Traces
begin

text \<open>
  What \<open>FeedService\<close> relies on in a store: the contract of the operations of \<open>core.Store\<close> it calls,
  as a locale over any implementation, and what follows for the service whatever the network, the
  clock, the parser and the sanitizer do. A feed is seen as its stored columns, looked up by id.
\<close>

section \<open>Views of the feed table\<close>

type_synonym feed_view = "ID \<Rightarrow> FeedRow option"

definition edit :: "('r \<Rightarrow> bool) \<Rightarrow> ('r \<Rightarrow> 'r) \<Rightarrow> (ID \<Rightarrow> 'r option) \<Rightarrow> ID \<Rightarrow> 'r option" where
  "edit P u R = (\<lambda>i. map_option (\<lambda>r. if P r then u r else r) (R i))"

definition repoint :: "string \<Rightarrow> time \<Rightarrow> FeedRow \<Rightarrow> FeedRow" where
  "repoint url now r =
     r\<lparr>fr_FeedUrl := url, fr_Etag := [], fr_LastModified := [], fr_NextCheckAt := toUnix now\<rparr>"

text \<open>Ids are keys of the view.\<close>

definition keyed :: "feed_view \<Rightarrow> bool" where
  "keyed R \<longleftrightarrow> (\<forall>i r. R i = Some r \<longrightarrow> fr_ID r = i)"

text \<open>The columns that belong to the user, which no poll may change.\<close>

definition user_cols :: "FeedRow \<Rightarrow> int \<times> int \<times> int option \<times> string \<times> int \<times> int" where
  "user_cols r = (fr_ID r, fr_UserID r, fr_CategoryID r, fr_UserTitle r, fr_FetchFullContent r, fr_CreatedAt r)"

text \<open>What a call on one feed may do to the table: the other feeds keep their rows, the feed keeps the
  user's columns or is gone.\<close>

definition kept :: "ID \<Rightarrow> feed_view \<Rightarrow> feed_view \<Rightarrow> bool" where
  "kept fid R R' \<longleftrightarrow> (\<forall>i. i \<noteq> fid \<longrightarrow> R' i = R i)
     \<and> (R' fid = None \<or> map_option user_cols (R' fid) = map_option user_cols (R fid))"

lemma kept_refl [simp]: "kept fid R R"
  by (simp add: kept_def)

lemma kept_edit:
  assumes "kept fid R R'" "keyed R'"
    and "\<And>r. P r \<Longrightarrow> fr_ID r = fid" "\<And>r. P r \<Longrightarrow> user_cols (u r) = user_cols r"
  shows "kept fid R (edit P u R')"
proof -
  have "edit P u R' i = R' i" if "i \<noteq> fid" for i
    using that assms(2,3) by (cases "R' i") (auto simp: edit_def keyed_def)
  moreover have "map_option user_cols (edit P u R' fid) = map_option user_cols (R' fid)"
    using assms(4) by (cases "R' fid") (auto simp: edit_def)
  moreover have "edit P u R' fid = None \<longleftrightarrow> R' fid = None" by (simp add: edit_def)
  ultimately show ?thesis using assms(1) by (auto simp: kept_def)
qed

lemma keyed_edit: "keyed R \<Longrightarrow> (\<And>r. P r \<Longrightarrow> fr_ID (u r) = fr_ID r) \<Longrightarrow> keyed (edit P u R)"
  by (fastforce simp: keyed_def edit_def)

section \<open>Rules for calls\<close>

text \<open>An assertion \<open>J\<close> on the store and the feed of the call that a call keeps, panics included; and one
  that a call establishes from \<open>J\<close> when it returns.\<close>

definition holds :: "('s \<Rightarrow> Feed \<Rightarrow> bool) \<Rightarrow> ('s, 'a) svc \<Rightarrow> bool" where
  "holds J m \<longleftrightarrow> (\<forall>w. J (w_store w) (w_feed w) \<longrightarrow> J (w_store (snd (m w))) (w_feed (snd (m w))))"

definition ends :: "('s \<Rightarrow> Feed \<Rightarrow> bool) \<Rightarrow> ('a \<Rightarrow> 's \<Rightarrow> Feed \<Rightarrow> bool) \<Rightarrow> ('s, 'a) svc \<Rightarrow> bool" where
  "ends J Q m \<longleftrightarrow> (\<forall>w a w'. J (w_store w) (w_feed w) \<longrightarrow> m w = (Ret a, w') \<longrightarrow> Q a (w_store w') (w_feed w'))"

named_theorems hoare \<open>rules for assertions over service calls\<close>

lemma holdsD: "holds J m \<Longrightarrow> J (w_store w) (w_feed w) \<Longrightarrow> m w = (x, w') \<Longrightarrow> J (w_store w') (w_feed w')"
  unfolding holds_def by (drule spec [of _ w]) simp

lemma holds_prims [hoare]:
  "holds J (retS a)" "holds J (panicS p)" "holds J (askS q)" "holds J (clk_Now E)" "holds J (ctx_Err E)"
  "holds J feedS" "holds J (emitS ms)" "holds J (outcomeS v)"
  by (auto simp: holds_def retS_def panicS_def askS_def clk_Now_def ctx_Err_def feedS_def emitS_def
      outcomeS_def split: outcome.split)

lemma holds_bindS:
  assumes "holds J m" and "\<And>a. holds J (k a)"
  shows "holds J (bindS m k)"
  unfolding holds_def
proof (intro allI impI)
  fix w :: "'a world"
  assume J: "J (w_store w) (w_feed w)"
  obtain x w1 where m: "m w = (x, w1)" by (cases "m w")
  from holdsD [OF assms(1) J m] have J1: "J (w_store w1) (w_feed w1)" .
  show "J (w_store (snd (bindS m k w))) (w_feed (snd (bindS m k w)))"
  proof (cases x)
    case (Ret a)
    then show ?thesis using J1 assms(2) [of a] m by (simp add: bindS_def holds_def)
  next
    case (Panic p)
    then show ?thesis using J1 m by (simp add: bindS_def)
  qed
qed

text \<open>Reading the feed gives one that satisfies the assertion.\<close>

lemma holds_feed: "(\<And>f s. J s f \<Longrightarrow> holds J (k f)) \<Longrightarrow> holds J (bindS feedS k)"
  unfolding holds_def by (auto simp: bindS_def feedS_def)

lemma holds_tryS: "holds J m \<Longrightarrow> (\<And>e. holds J (h e)) \<Longrightarrow> (\<And>a. holds J (k a)) \<Longrightarrow> holds J (tryS m h k)"
  unfolding tryS_def by (intro holds_bindS) (auto split: sum.split)

lemma holds_if: "(b \<Longrightarrow> holds J m) \<Longrightarrow> (\<not> b \<Longrightarrow> holds J n) \<Longrightarrow> holds J (if b then m else n)"
  by simp

lemma holds_fetchS [hoare]: "holds J (fetchS E req)"
  unfolding fetchS_def by (intro holds_bindS holds_prims)

lemma holds_mapS [hoare]: "(\<And>x. holds J (f x)) \<Longrightarrow> holds J (mapS f xs)"
  by (induction xs) (auto intro!: holds_bindS holds_prims)

lemma holds_setFeedS: "(\<And>s f. J s f \<Longrightarrow> J s (g f)) \<Longrightarrow> holds J (setFeedS g)"
  by (auto simp: holds_def setFeedS_def)

lemma holds_storeS: "(\<And>s f. J s f \<Longrightarrow> J (snd (m s)) f) \<Longrightarrow> holds J (storeS m)"
  by (auto simp: holds_def storeS_def split: prod.split) (metis snd_conv)

lemma holds_storeC: "(\<And>cx s f. J s f \<Longrightarrow> J (snd (m cx s)) f) \<Longrightarrow> holds J (storeC E m)"
  unfolding storeC_def by (intro holds_bindS holds_prims holds_storeS)

lemma holds_recoverS [hoare]:
  assumes "holds J m" and "\<And>p. holds J (h p)"
  shows "holds J (recoverS m h)"
  unfolding holds_def
proof (intro allI impI)
  fix w :: "'a world"
  assume J: "J (w_store w) (w_feed w)"
  obtain x w1 where m: "m w = (x, w1)" by (cases "m w")
  from holdsD [OF assms(1) J m] have J1: "J (w_store w1) (w_feed w1)" .
  show "J (w_store (snd (recoverS m h w))) (w_feed (snd (recoverS m h w)))"
  proof (cases x)
    case (Ret a)
    then show ?thesis using J1 m by (simp add: recoverS_def)
  next
    case (Panic p)
    then show ?thesis using J1 assms(2) [of p] m by (simp add: recoverS_def holds_def)
  qed
qed

lemma endsD: "ends J Q m \<Longrightarrow> J (w_store w) (w_feed w) \<Longrightarrow> m w = (Ret a, w') \<Longrightarrow> Q a (w_store w') (w_feed w')"
  unfolding ends_def by blast

lemma ends_retS: "(\<And>s f. J s f \<Longrightarrow> Q a s f) \<Longrightarrow> ends J Q (retS a)"
  by (auto simp: ends_def retS_def)

lemma ends_mono: "ends J Q m \<Longrightarrow> (\<And>a s f. Q a s f \<Longrightarrow> Q' a s f) \<Longrightarrow> ends J Q' m"
  unfolding ends_def by blast

lemma holds_ends: "holds J m \<Longrightarrow> ends J (\<lambda>_. J) m"
  unfolding ends_def by (metis holdsD)

text \<open>First a call that establishes an intermediate assertion, then one that starts from it.\<close>

lemma ends_bindS: "ends J K m \<Longrightarrow> (\<And>a. ends (K a) Q (k a)) \<Longrightarrow> ends J Q (bindS m k)"
  unfolding ends_def bindS_def by (auto split: prod.splits outcome.splits)

lemma ends_keep: "holds J m \<Longrightarrow> (\<And>a. ends J Q (k a)) \<Longrightarrow> ends J Q (bindS m k)"
  by (rule ends_bindS [OF holds_ends])

lemma ends_feed: "(\<And>f s. J s f \<Longrightarrow> ends J Q (k f)) \<Longrightarrow> ends J Q (bindS feedS k)"
  unfolding ends_def by (auto simp: bindS_def feedS_def)

lemma ends_tryS:
  "holds J m \<Longrightarrow> (\<And>e. ends J Q (h e)) \<Longrightarrow> (\<And>a. ends J Q (k a)) \<Longrightarrow> ends J Q (tryS m h k)"
  unfolding tryS_def by (intro ends_keep) (auto split: sum.split)

lemma ends_recoverS:
  assumes "holds J m" and "ends J Q m" and "\<And>p. ends J Q (h p)"
  shows "ends J Q (recoverS m h)"
  unfolding ends_def
proof (intro allI impI)
  fix w a w'
  assume J: "J (w_store w) (w_feed w)" and r: "recoverS m h w = (Ret a, w')"
  obtain x w1 where m: "m w = (x, w1)" by (cases "m w")
  show "Q a (w_store w') (w_feed w')"
  proof (cases x)
    case (Ret b)
    then show ?thesis using r m endsD [OF assms(2) J] by (simp add: recoverS_def)
  next
    case (Panic p)
    then have "h p w1 = (Ret a, w')" using r m by (simp add: recoverS_def)
    with holdsD [OF assms(1) J m] show ?thesis by (rule endsD [OF assms(3)])
  qed
qed

lemma ends_pinned:
  "(\<And>g. J s g \<Longrightarrow> True) \<Longrightarrow> (\<And>g. ends (\<lambda>s f. J s f \<and> f = g) Q (k g)) \<Longrightarrow> ends J Q (bindS feedS k)"
  unfolding ends_def by (auto simp: bindS_def feedS_def)

lemma ends_storeS: "(\<And>s f. J s f \<Longrightarrow> Q (fst (m s)) (snd (m s)) f) \<Longrightarrow> ends J Q (storeS m)"
  by (auto simp: ends_def storeS_def split: prod.splits) (metis fst_conv snd_conv)

lemma ends_storeC: "(\<And>cx s f. J s f \<Longrightarrow> Q (fst (m cx s)) (snd (m cx s)) f) \<Longrightarrow> ends J Q (storeC E m)"
  unfolding storeC_def by (rule ends_keep [OF holds_prims(5)]) (rule ends_storeS)

lemma ends_setFeedS: "(\<And>s f. J s f \<Longrightarrow> Q () s (g f)) \<Longrightarrow> ends J Q (setFeedS g)"
  by (auto simp: ends_def setFeedS_def)

lemma ends_value:
  "ends J K m \<Longrightarrow> (\<And>e. ends (K (Inl e)) Q (h e)) \<Longrightarrow> (\<And>a. ends (K (Inr a)) Q (k a)) \<Longrightarrow> ends J Q (tryS m h k)"
  unfolding tryS_def by (erule ends_bindS) (auto split: sum.split)

lemma ends_assume: "(\<And>s f. J s f \<Longrightarrow> P \<and> J' s f) \<Longrightarrow> (P \<Longrightarrow> ends J' Q m) \<Longrightarrow> ends J Q m"
  unfolding ends_def by blast

lemma ends_if: "(b \<Longrightarrow> ends J Q m) \<Longrightarrow> (\<not> b \<Longrightarrow> ends J Q n) \<Longrightarrow> ends J Q (if b then m else n)"
  by simp

lemma ends_option:
  "(\<And>e. ends J Q (h e)) \<Longrightarrow> ends J Q k \<Longrightarrow> ends J Q (case x of None \<Rightarrow> k | Some e \<Rightarrow> h e)"
  by (simp split: option.split)

text \<open>A call that establishes \<open>Q\<close> when it returns and keeps \<open>J\<close> when it panics.\<close>

definition trip :: "('s \<Rightarrow> Feed \<Rightarrow> bool) \<Rightarrow> ('a \<Rightarrow> 's \<Rightarrow> Feed \<Rightarrow> bool) \<Rightarrow> ('s, 'a) svc \<Rightarrow> bool" where
  "trip J Q m \<longleftrightarrow> ends J Q m
     \<and> (\<forall>w p w'. J (w_store w) (w_feed w) \<longrightarrow> m w = (Panic p, w') \<longrightarrow> J (w_store w') (w_feed w'))"

lemma trip_safe: "safe m \<Longrightarrow> ends J Q m \<Longrightarrow> trip J Q m"
  unfolding trip_def by (metis safe_run outcome.distinct(1) prod.inject)

lemma trip_keep: "holds J m \<Longrightarrow> (\<And>a. trip J Q (k a)) \<Longrightarrow> trip J Q (bindS m k)"
  unfolding trip_def
  by (auto simp: bindS_Panic intro: ends_keep dest: holdsD)

lemma trip_tryS:
  "holds J m \<Longrightarrow> (\<And>e. trip J Q (h e)) \<Longrightarrow> (\<And>a. trip J Q (k a)) \<Longrightarrow> trip J Q (tryS m h k)"
  unfolding tryS_def by (intro trip_keep) (auto split: sum.split)

lemma trip_if: "(b \<Longrightarrow> trip J Q m) \<Longrightarrow> (\<not> b \<Longrightarrow> trip J Q n) \<Longrightarrow> trip J Q (if b then m else n)"
  by simp

lemma trip_recoverS:
  assumes "trip J Q m" and "\<And>p. ends J Q (h p)"
  shows "ends J Q (recoverS m h)"
  unfolding ends_def recoverS_Ret
proof (intro allI impI)
  fix w a w'
  assume J: "J (w_store w) (w_feed w)" and "m w = (Ret a, w') \<or> (\<exists>p w1. m w = (Panic p, w1) \<and> h p w1 = (Ret a, w'))"
  then consider "m w = (Ret a, w')" | p w1 where "m w = (Panic p, w1)" "h p w1 = (Ret a, w')" by blast
  then show "Q a (w_store w') (w_feed w')"
  proof cases
    case 1
    then show ?thesis using assms(1) J by (auto simp: trip_def dest: endsD)
  next
    case 2
    then have "J (w_store w1) (w_feed w1)" using assms(1) J by (auto simp: trip_def)
    then show ?thesis using 2(2) by (rule endsD [OF assms(2)])
  qed
qed

section \<open>The contract\<close>

text \<open>A feed as a store returns it for the stored columns; a store may keep times finer than a second.\<close>

definition shown_as :: "FeedRow \<Rightarrow> Feed \<Rightarrow> bool" where
  "shown_as r f \<longleftrightarrow> f_ID f = fr_ID r \<and> f_UserID f = fr_UserID r \<and> f_CategoryID f = fr_CategoryID r
     \<and> f_FeedURL f = fr_FeedUrl r \<and> f_SiteURL f = fr_SiteUrl r \<and> f_Title f = fr_Title r
     \<and> f_UserTitle f = fr_UserTitle r \<and> f_Description f = fr_Description r \<and> f_ETag f = fr_Etag r
     \<and> f_LastModified f = fr_LastModified r \<and> f_Disabled f = (fr_Disabled r \<noteq> 0)
     \<and> f_FetchFullContent f = (fr_FetchFullContent r \<noteq> 0) \<and> nullUnix (f_CheckedAt f) = fr_CheckedAt r
     \<and> toUnix (f_NextCheckAt f) = fr_NextCheckAt r \<and> f_ErrorCount f = fr_ErrorCount r
     \<and> f_LastError f = fr_LastError r"

lemma shown_as_feedFromRow: "shown_as r (feedFromRow r)"
  by (simp add: shown_as_def feedFromRow_def ptrID_def)

text \<open>Every operation keeps the store's own invariant; one that fails changes no feed. \<open>UpdateFeed\<close> is a
  compare-and-swap on the feed's URL: where it misses it does nothing and reports no error. The
  services create feeds without a title of the user's.\<close>

definition on_ok :: "(gerr + 'a) \<Rightarrow> 'v \<Rightarrow> 'v \<Rightarrow> 'v" where
  "on_ok r R' R = (case r of Inl e \<Rightarrow> R | Inr _ \<Rightarrow> R')"

locale feed_store =
  fixes ops :: "'s store_ops" and inv :: "'s \<Rightarrow> bool" and row :: "'s \<Rightarrow> feed_view"
  assumes row_keyed: "inv s \<Longrightarrow> keyed (row s)"
    and GetFeed_law: "inv s \<Longrightarrow> so_GetFeed ops cx uid fid s = (gf, s') \<Longrightarrow>
      inv s' \<and> row s' = row s \<and> (\<forall>f. gf = Inr f \<longrightarrow> (\<exists>r. row s fid = Some r \<and> fr_UserID r = uid \<and> shown_as r f))"
    and UpdateFeed_law: "inv s \<Longrightarrow> so_UpdateFeed ops cx f s = (r, s') \<Longrightarrow>
      inv s' \<and> row s' = on_ok r (edit (feed_cas (feed_params f)) (update_feed_cols (feed_params f)) (row s)) (row s)"
    and SetFeedURL_law: "inv s \<Longrightarrow> so_SetFeedURL ops cx uid fid url now s = (r, s') \<Longrightarrow>
      inv s' \<and> row s' = on_ok r (edit (feed_is fid uid) (repoint url now) (row s)) (row s)"
    and SetFeedURL_live: "inv s \<Longrightarrow> so_SetFeedURL ops cx uid fid url now s = (Inr (), s') \<Longrightarrow>
      (\<exists>r. row s fid = Some r \<and> fr_UserID r = uid)
      \<and> (\<forall>i r. i \<noteq> fid \<longrightarrow> row s i = Some r \<longrightarrow> fr_UserID r = uid \<longrightarrow> fr_FeedUrl r \<noteq> url)"
    and DeleteFeed_law: "inv s \<Longrightarrow> so_DeleteFeed ops cx uid fid s = (r, s') \<Longrightarrow>
      inv s' \<and> row s' = on_ok r ((row s)(fid := None)) (row s)"
    and SetFeedCategory_law: "inv s \<Longrightarrow> so_SetFeedCategory ops cx uid fid cat s = (r, s') \<Longrightarrow>
      inv s' \<and> row s' = on_ok r (edit (feed_is fid uid) (fr_CategoryID_update (\<lambda>_. cat)) (row s)) (row s)"
    and SetFeedUserTitle_law: "inv s \<Longrightarrow> so_SetFeedUserTitle ops cx uid fid t s = (r, s') \<Longrightarrow>
      inv s' \<and> row s' = on_ok r (edit (feed_is fid uid) (fr_UserTitle_update (\<lambda>_. t)) (row s)) (row s)"
    and SetFeedFullContent_law: "inv s \<Longrightarrow> so_SetFeedFullContent ops cx uid fid on due s = (r, s') \<Longrightarrow>
      inv s' \<and> row s' = on_ok r (edit (feed_is fid uid) (fr_FetchFullContent_update (\<lambda>_. b2i on)) (row s)) (row s)"
    and CreateFeed_law: "inv s \<Longrightarrow> f_UserTitle f = [] \<Longrightarrow> so_CreateFeed ops cx f s = (c, s') \<Longrightarrow>
      inv s' \<and> (case c of Inl e \<Rightarrow> row s' = row s
        | Inr i \<Rightarrow> row s i = None \<and> row s' = (row s)(i \<mapsto> (feed_params f)\<lparr>fr_ID := i, fr_UserTitle := []\<rparr>))"
    and other_laws:
      "inv s \<Longrightarrow> inv (snd (so_WeeklyEntryCount ops cx fid now s)) \<and> row (snd (so_WeeklyEntryCount ops cx fid now s)) = row s"
      "inv s \<Longrightarrow> inv (snd (so_EntryDedup ops cx fid gs s)) \<and> row (snd (so_EntryDedup ops cx fid gs s)) = row s"
      "inv s \<Longrightarrow> inv (snd (so_UpsertEntries ops cx fid es s)) \<and> row (snd (so_UpsertEntries ops cx fid es s)) = row s"
      "inv s \<Longrightarrow> inv (snd (so_GetCategory ops cx uid k s)) \<and> row (snd (so_GetCategory ops cx uid k s)) = row s"
begin

section \<open>A call keeps the other feeds and the user's columns\<close>

definition owns :: "ID \<Rightarrow> ID \<Rightarrow> feed_view \<Rightarrow> 's \<Rightarrow> Feed \<Rightarrow> bool" where
  "owns fid uid R s f \<longleftrightarrow> inv s \<and> f_ID f = fid \<and> f_UserID f = uid \<and> kept fid R (row s)"

lemma owns_UpdateFeed: "owns fid uid R s f \<Longrightarrow> f_ID g = fid \<Longrightarrow> owns fid uid R (snd (so_UpdateFeed ops cx g s)) f"
proof -
  assume o: "owns fid uid R s f" and g: "f_ID g = fid"
  obtain r s' where u: "so_UpdateFeed ops cx g s = (r, s')" by fastforce
  have i: "inv s" and k: "kept fid R (row s)" using o by (simp_all add: owns_def)
  have "kept fid R (edit (feed_cas (feed_params g)) (update_feed_cols (feed_params g)) (row s))"
    using k row_keyed [OF i] g
    by (intro kept_edit) (auto simp: feed_cas_def feed_params_def user_cols_def update_feed_cols_def)
  then show ?thesis using o u UpdateFeed_law [OF i u] by (auto simp: owns_def on_ok_def split: sum.split)
qed

lemma owns_SetFeedURL: "owns fid uid R s f \<Longrightarrow> owns fid uid R (snd (so_SetFeedURL ops cx u fid url now s)) f"
proof -
  assume o: "owns fid uid R s f"
  obtain r s' where u: "so_SetFeedURL ops cx u fid url now s = (r, s')" by fastforce
  have i: "inv s" and k: "kept fid R (row s)" using o by (simp_all add: owns_def)
  have "kept fid R (edit (feed_is fid u) (repoint url now) (row s))"
    using k row_keyed [OF i]
    by (intro kept_edit) (auto simp: feed_is_def user_cols_def repoint_def)
  then show ?thesis using o u SetFeedURL_law [OF i u] by (auto simp: owns_def on_ok_def split: sum.split)
qed

lemma owns_DeleteFeed: "owns fid uid R s f \<Longrightarrow> owns fid uid R (snd (so_DeleteFeed ops cx u fid s)) f"
proof -
  assume o: "owns fid uid R s f"
  obtain r s' where u: "so_DeleteFeed ops cx u fid s = (r, s')" by fastforce
  then show ?thesis
    using o DeleteFeed_law [OF _ u] by (auto simp: owns_def on_ok_def kept_def split: sum.split)
qed

lemma owns_others:
  "owns fid uid R s f \<Longrightarrow> owns fid uid R (snd (so_WeeklyEntryCount ops cx i now s)) f"
  "owns fid uid R s f \<Longrightarrow> owns fid uid R (snd (so_EntryDedup ops cx i gs s)) f"
  "owns fid uid R s f \<Longrightarrow> owns fid uid R (snd (so_UpsertEntries ops cx i es s)) f"
  using other_laws by (simp_all add: owns_def)

lemma owns_feed: "owns fid uid R s f \<Longrightarrow> f_ID f = fid"
  by (simp add: owns_def)

lemma owns_setFeed:
  "(\<And>f. f_ID (g f) = f_ID f \<and> f_UserID (g f) = f_UserID f) \<Longrightarrow> owns fid uid R s f \<Longrightarrow> owns fid uid R s (g f)"
  by (simp add: owns_def)

lemmas owns_rules = holds_bindS holds_tryS holds_feed holds_setFeedS holds_storeS holds_storeC

end

end
