(* ===== verification/PollContract.thy ===== *)
theory PollContract
  imports FeedContract
begin

text \<open>
  What a poll and an edit do to the feed table, for every store that keeps the contract of
  \<open>FeedContract\<close>: method by method, then for \<open>PollFeed\<close>, \<open>ResolveAndIngest\<close> and \<open>EditFeed\<close>.
\<close>

text \<open>Replies that neither redirect for good nor are web pages.\<close>

definition plain_replies :: "env \<Rightarrow> bool" where
  "plain_replies E \<longleftrightarrow> (\<forall>n req resp. en_fetch E n req = Ret (Inr resp) \<longrightarrow>
      \<not> rs_PermanentRedirect resp \<and> \<not> isHTML (en_lib E) (rs_ContentType resp))"

lemma plain_repliesD: "plain_replies E \<Longrightarrow> en_fetch E n req = Ret (Inr resp) \<Longrightarrow>
    \<not> rs_PermanentRedirect resp \<and> \<not> isHTML (en_lib E) (rs_ContentType resp)"
  by (simp add: plain_replies_def)

context feed_store
begin

section \<open>Ownership through the methods\<close>

lemma holds_feed_owns:
  "(\<And>f. f_ID f = fid \<Longrightarrow> holds (owns fid uid R) (k f)) \<Longrightarrow> holds (owns fid uid R) (bindS feedS k)"
  by (rule holds_feed) (auto simp: owns_def)

lemma recordErrorEmit_owns: "holds (owns fid uid R) (recordErrorEmit ops E cfg now msg ra res reason emit)"
  unfolding recordErrorEmit_def
  by (intro holds_bindS holds_feed_owns)
    (auto simp: Let_def owns_setFeed intro!: hoare holds_setFeedS holds_storeS holds_storeC owns_UpdateFeed)

lemma recordPanic_owns: "holds (owns fid uid R) (recordPanic ops E cfg p)"
  unfolding recordPanic_def recordError_def by (intro holds_bindS hoare recordErrorEmit_owns)

lemma nextCheck_owns: "holds (owns fid uid R) (nextCheck ops E oob cfg now)"
  unfolding nextCheck_def
  by (auto intro!: hoare holds_feed_owns holds_tryS holds_storeC owns_others)

lemma ingest_owns: "holds (owns fid uid R) (ingest ops E pf base)"
  unfolding ingest_def ingest_entry_def Let_def
  by (auto intro!: hoare holds_bindS holds_feed_owns holds_tryS holds_storeC owns_others split: prod.split)

lemma apply_ids [simp]:
  "f_ID (apply_parsed pf f) = f_ID f" "f_UserID (apply_parsed pf f) = f_UserID f"
  "f_FeedURL (apply_parsed pf f) = f_FeedURL f"
  "f_ID (apply_success resp now f) = f_ID f" "f_UserID (apply_success resp now f) = f_UserID f"
  "f_FeedURL (apply_success resp now f) = f_FeedURL f"
  by (simp_all add: apply_parsed_def apply_success_def split: option.split)

lemma recordSuccess_owns: "holds (owns fid uid R) (recordSuccess ops E oob cfg now resp pf)"
  unfolding recordSuccess_def recordError_def
  by (intro holds_bindS holds_feed_owns)
    (auto simp: owns_setFeed split: option.split intro!: hoare holds_bindS holds_feed_owns holds_tryS holds_setFeedS
      holds_storeC ingest_owns nextCheck_owns owns_UpdateFeed recordErrorEmit_owns)

lemma resolveFeed_holds: "holds J (resolveFeed E url)"
  unfolding resolveFeed_def Let_def
  by (auto split: sum.split option.split list.split intro!: hoare holds_tryS holds_bindS)

lemma adopt_owns: "holds (owns fid uid R) (adoptPermanentRedirect ops E resp)"
  unfolding adoptPermanentRedirect_def
  by (auto simp: owns_setFeed intro!: hoare holds_feed_owns holds_bindS holds_tryS holds_setFeedS holds_storeC owns_SetFeedURL)

lemma resolve_pipeline_owns: "holds (owns fid uid R) (resolve_pipeline ops E oob cfg)"
  unfolding resolve_pipeline_def Let_def recordError_def
  by (auto simp: owns_setFeed split: prod.split intro!: hoare holds_feed_owns holds_bindS holds_tryS holds_setFeedS
      holds_storeC resolveFeed_holds owns_SetFeedURL owns_DeleteFeed recordErrorEmit_owns recordSuccess_owns)

lemma resolveAndIngest_owns: "holds (owns fid uid R) (resolveAndIngest ops E oob cfg)"
  unfolding resolveAndIngest_def by (intro hoare resolve_pipeline_owns recordPanic_owns)

lemma ResolveAndIngest_owns: "holds (owns fid uid R) (ResolveAndIngest ops E oob cfg)"
  unfolding ResolveAndIngest_def by (intro hoare holds_bindS resolveAndIngest_owns)

lemma poll_pipeline_owns: "holds (owns fid uid R) (poll_pipeline ops E oob cfg start)"
  unfolding poll_pipeline_def Let_def recordError_def
  by (auto split: sum.split intro!: hoare holds_feed_owns holds_bindS holds_tryS adopt_owns
      recordErrorEmit_owns recordSuccess_owns resolveAndIngest_owns)

lemma PollFeed_owns: "holds (owns fid uid R) (PollFeed ops E oob cfg)"
  unfolding PollFeed_def
  by (auto intro!: hoare holds_bindS poll_pipeline_owns recordPanic_owns)

lemma PollFeed_kept:
  assumes "inv (w_store w)" "PollFeed ops E oob cfg w = (r, w')"
  shows "inv (w_store w') \<and> kept (f_ID (w_feed w)) (row (w_store w)) (row (w_store w'))"
  using holdsD [OF PollFeed_owns [of "f_ID (w_feed w)" "f_UserID (w_feed w)" "row (w_store w)"] _ assms(2)] assms(1)
  by (simp add: owns_def)

section \<open>A poll of a feed whose URL was edited meanwhile\<close>

text \<open>The call's snapshot is stale when the stored URL is another one.\<close>

definition stale :: "ID \<Rightarrow> ID \<Rightarrow> string \<Rightarrow> feed_view \<Rightarrow> 's \<Rightarrow> Feed \<Rightarrow> bool" where
  "stale fid uid u R s f \<longleftrightarrow> inv s \<and> row s = R \<and> f_ID f = fid \<and> f_UserID f = uid \<and> f_FeedURL f = u
     \<and> (\<forall>r. R fid = Some r \<longrightarrow> fr_FeedUrl r \<noteq> u)"

lemma stale_UpdateFeed: "stale fid uid u R s f \<Longrightarrow> f_ID g = fid \<Longrightarrow> f_FeedURL g = u
    \<Longrightarrow> stale fid uid u R (snd (so_UpdateFeed ops cx g s)) f"
proof -
  assume o: "stale fid uid u R s f" and g: "f_ID g = fid" "f_FeedURL g = u"
  obtain r s' where up: "so_UpdateFeed ops cx g s = (r, s')" by fastforce
  have i: "inv s" and k: "row s = R" using o by (simp_all add: stale_def)
  have "edit (feed_cas (feed_params g)) (update_feed_cols (feed_params g)) (row s) j = row s j" for j
    using o g row_keyed [OF i]
    by (cases "row s j") (auto simp: edit_def stale_def feed_cas_def feed_params_def keyed_def)
  then have "edit (feed_cas (feed_params g)) (update_feed_cols (feed_params g)) (row s) = R"
    using k by auto
  then show ?thesis
    using o up UpdateFeed_law [OF i up] by (auto simp: stale_def on_ok_def split: sum.split)
qed

lemma stale_others:
  "stale fid uid u R s f \<Longrightarrow> stale fid uid u R (snd (so_WeeklyEntryCount ops cx i now s)) f"
  "stale fid uid u R s f \<Longrightarrow> stale fid uid u R (snd (so_EntryDedup ops cx i gs s)) f"
  "stale fid uid u R s f \<Longrightarrow> stale fid uid u R (snd (so_UpsertEntries ops cx i es s)) f"
  using other_laws by (simp_all add: stale_def)

lemma stale_setFeed:
  "(\<And>f. f_ID (g f) = f_ID f \<and> f_UserID (g f) = f_UserID f \<and> f_FeedURL (g f) = f_FeedURL f)
   \<Longrightarrow> stale fid uid u R s f \<Longrightarrow> stale fid uid u R s (g f)"
  by (simp add: stale_def)

lemma holds_feed_stale:
  "(\<And>f. f_ID f = fid \<Longrightarrow> f_FeedURL f = u \<Longrightarrow> holds (stale fid uid u R) (k f))
   \<Longrightarrow> holds (stale fid uid u R) (bindS feedS k)"
  by (rule holds_feed) (auto simp: stale_def)

lemma recordErrorEmit_stale: "holds (stale fid uid u R) (recordErrorEmit ops E cfg now msg ra res reason emit)"
  unfolding recordErrorEmit_def
  by (intro holds_bindS holds_feed_stale)
    (auto simp: Let_def stale_setFeed intro!: hoare holds_setFeedS holds_storeS holds_storeC stale_UpdateFeed)

lemma recordPanic_stale: "holds (stale fid uid u R) (recordPanic ops E cfg p)"
  unfolding recordPanic_def recordError_def by (intro holds_bindS hoare recordErrorEmit_stale)

lemma nextCheck_stale: "holds (stale fid uid u R) (nextCheck ops E oob cfg now)"
  unfolding nextCheck_def
  by (auto intro!: hoare holds_feed_stale holds_tryS holds_storeC stale_others)

lemma ingest_stale: "holds (stale fid uid u R) (ingest ops E pf base)"
  unfolding ingest_def ingest_entry_def Let_def
  by (auto intro!: hoare holds_bindS holds_feed_stale holds_tryS holds_storeC stale_others split: prod.split)

lemma recordSuccess_stale: "holds (stale fid uid u R) (recordSuccess ops E oob cfg now resp pf)"
  unfolding recordSuccess_def recordError_def
  by (intro holds_bindS holds_feed_stale)
    (auto simp: stale_setFeed split: option.split intro!: hoare holds_bindS holds_feed_stale holds_tryS holds_setFeedS
      holds_storeC ingest_stale nextCheck_stale stale_UpdateFeed recordErrorEmit_stale)

lemma tryS_fetch_holds:
  assumes "\<And>e. holds J (h e)" and "\<And>n resp. en_fetch E n req = Ret (Inr resp) \<Longrightarrow> holds J (k resp)"
  shows "holds J (tryS (fetchS E req) h k)"
  unfolding holds_def
proof (intro allI impI)
  fix w :: "'a world"
  assume J: "J (w_store w) (w_feed w)"
  show "J (w_store (snd (tryS (fetchS E req) h k w))) (w_feed (snd (tryS (fetchS E req) h k w)))"
    using J assms(1) assms(2) [of "w_step w"]
    by (auto simp: tryS_def fetchS_def bindS_def askS_def outcomeS_def retS_def panicS_def holds_def
        split: outcome.split sum.split)
qed

lemma adopt_holds: "\<not> rs_PermanentRedirect resp \<Longrightarrow> holds J (adoptPermanentRedirect ops E resp)"
  unfolding adoptPermanentRedirect_def by (auto intro!: holds_feed hoare)

lemma poll_pipeline_stale:
  assumes "plain_replies E"
  shows "holds (stale fid uid u R) (poll_pipeline ops E oob cfg start)"
  unfolding poll_pipeline_def Let_def recordError_def
  by (auto dest!: plain_repliesD [OF assms] split: sum.split intro!: hoare holds_feed_stale holds_bindS
      tryS_fetch_holds adopt_holds recordErrorEmit_stale recordSuccess_stale)

lemma PollFeed_stale:
  assumes "plain_replies E"
  shows "holds (stale fid uid u R) (PollFeed ops E oob cfg)"
  unfolding PollFeed_def
  by (auto intro!: hoare holds_bindS poll_pipeline_stale recordPanic_stale assms)

end

end
