(* ===== verification/PollDue.thy ===== *)
theory PollDue
  imports PollContract
begin

text \<open>
  When a feed is due again after a poll: \<open>NewFeedService\<close>'s normalisation makes every delay at least a
  second, and a poll that returns no error leaves a row whose next check lies after its last one.
\<close>

section \<open>Least delays\<close>

definition cfg_fits :: "FeedServiceConfig \<Rightarrow> bool" where
  "cfg_fits cfg \<longleftrightarrow>
     Second \<le> sc_MinInterval (fc_Schedule cfg) \<and> sc_MinInterval (fc_Schedule cfg) \<le> 2 ^ 62
     \<and> Second \<le> sc_MaxInterval (fc_Schedule cfg) \<and> sc_MaxInterval (fc_Schedule cfg) \<le> 2 ^ 62
     \<and> Second \<le> rc_Interval (fc_Reschedule cfg) \<and> rc_Interval (fc_Reschedule cfg) \<le> 2 ^ 46
     \<and> Second \<le> rc_MaxBackoff (fc_Reschedule cfg) \<and> rc_MaxBackoff (fc_Reschedule cfg) \<le> 2 ^ 62
     \<and> jitter_ok (fc_Jitter cfg)"

text \<open>A duration an operator may set: nothing (or a negative one, which the code replaces), or at
  least a second and at most a bound: \<open>2^46\<close> ns, which is 19 hours, for the intervals, \<open>2^62\<close> ns, which
  is 146 years, for their maxima.\<close>

definition sane :: "duration \<Rightarrow> duration \<Rightarrow> bool" where
  "sane most d \<longleftrightarrow> d \<le> 0 \<or> Second \<le> d \<and> d \<le> most"

lemma normalize_fits:
  assumes "sane (2 ^ 46) (sc_MinInterval (fc_Schedule cfg))" "sane (2 ^ 62) (sc_MaxInterval (fc_Schedule cfg))"
    and "sane (2 ^ 46) (rc_Interval (fc_Reschedule cfg))" "sane (2 ^ 62) (rc_MaxBackoff (fc_Reschedule cfg))"
    and "jitter_ok (fc_Jitter cfg)"
  shows "cfg_fits (normalize_cfg cfg)"
  using assms by (auto simp: cfg_fits_def normalize_cfg_def Let_def sane_def Hour_def Minute_def Second_def)

lemma reschedule_least:
  assumes "0 < rc_Interval cfg" "rc_Interval cfg \<le> 2 ^ 46" "0 < rc_MaxBackoff cfg" "rc_MaxBackoff cfg \<le> 2 ^ 62"
    and "jitter_ok j"
  shows "now + min (rc_Interval cfg) (rc_MaxBackoff cfg) \<le> PollReschedule now cfg n ra j"
proof (cases "0 < n")
  case False
  then show ?thesis using assms by (auto simp: PollReschedule_def reschedule_delay_def time_add_def Let_def)
next
  case True
  define k where "k = nat (if 16 < n then 16 else n)"
  have k: "k \<le> 16" by (simp add: k_def nat_le_iff)
  have s: "shl64 (rc_Interval cfg) k = rc_Interval cfg * 2 ^ k"
    using assms(1,2) k by (intro shl64_exact) auto
  have ge: "rc_Interval cfg \<le> rc_Interval cfg * 2 ^ k"
    using assms(1) mult_left_mono [of 1 "2 ^ k" "rc_Interval cfg"] by simp
  define d where "d = (if rc_MaxBackoff cfg < rc_Interval cfg * 2 ^ k \<or> rc_Interval cfg * 2 ^ k \<le> 0
      then rc_MaxBackoff cfg else rc_Interval cfg * 2 ^ k)"
  have d: "min (rc_Interval cfg) (rc_MaxBackoff cfg) \<le> d" "0 \<le> d" "d \<le> 2 ^ 62"
    using ge assms min.coboundedI1 [OF ge, of "rc_MaxBackoff cfg"] by (auto simp: d_def)
  have "PollReschedule now cfg n ra j = now + (let e = add_jitter j d in if e < ra then min ra (rc_MaxBackoff cfg) else e)"
    using True by (simp add: PollReschedule_def time_add_def reschedule_delay_def Let_def d_def s k_def [symmetric])
  then show ?thesis using d add_jitter_bounds(1) [OF assms(5) d(2,3)] by (auto simp: Let_def)
qed

lemma adaptive_least:
  assumes "0 < sc_MinInterval cfg" "0 < sc_MaxInterval cfg" "sc_MaxInterval cfg \<le> 2 ^ 62" "jitter_ok j"
  shows "min (sc_MinInterval cfg) (sc_MaxInterval cfg) \<le> AdaptiveInterval oob n cfg ttl j"
proof -
  define c where "c = min (max (if n \<le> 0 then sc_MaxInterval cfg else f64_to_i64 oob
      (f64_div (f64_of_int Week) (f64_mul (f64_of_int n) (sc_Factor cfg))))
      (sc_MinInterval cfg)) (sc_MaxInterval cfg)"
  have c: "min (sc_MinInterval cfg) (sc_MaxInterval cfg) \<le> c" "0 \<le> c" "c \<le> 2 ^ 62"
    using assms by (auto simp: c_def)
  have "AdaptiveInterval oob n cfg ttl j =
      (if 0 < ttl then max (add_jitter j c) (min ttl maxTTLInfluence) else add_jitter j c)"
    by (simp add: AdaptiveInterval_def Let_def c_def)
  then show ?thesis using c add_jitter_bounds(1) [OF assms(4) c(2,3)] by auto
qed

lemma time_unix_later: "now + d \<le> t \<Longrightarrow> Second \<le> d \<Longrightarrow> toUnix now < toUnix t"
proof -
  assume "now + d \<le> t" "Second \<le> d"
  then have "(now + Second) div Second \<le> t div Second" by (intro zdiv_mono1) (auto simp: Second_def)
  then show ?thesis by (simp add: toUnix_def time_unix_def Second_def)
qed

text \<open>The feed of the call, and a stored row, are checked before they are due again.\<close>

definition timed :: "Feed \<Rightarrow> bool" where
  "timed f \<longleftrightarrow> (\<exists>t. f_CheckedAt f = Some t \<and> toUnix t < toUnix (f_NextCheckAt f))"

definition row_timed :: "FeedRow \<Rightarrow> bool" where
  "row_timed r \<longleftrightarrow> (\<exists>t. fr_CheckedAt r = Some t \<and> t < fr_NextCheckAt r)"

lemma update_timed: "timed f \<Longrightarrow> row_timed (update_feed_cols (feed_params f) r)"
  by (auto simp: timed_def row_timed_def update_feed_cols_def feed_params_def nullUnix_def toUnix_def)

lemma reschedule_timed:
  "cfg_fits cfg \<Longrightarrow> toUnix now < toUnix (PollReschedule now (fc_Reschedule cfg) n ra (fc_Jitter cfg))"
  using reschedule_least [of "fc_Reschedule cfg" "fc_Jitter cfg" now n ra]
  by (intro time_unix_later) (auto simp: cfg_fits_def Second_def)

lemma adaptive_timed:
  "cfg_fits cfg \<Longrightarrow> toUnix now < toUnix (time_add now (AdaptiveInterval oob n (fc_Schedule cfg) ttl (fc_Jitter cfg)))"
  using adaptive_least [of "fc_Schedule cfg" "fc_Jitter cfg" oob n ttl]
  by (intro time_unix_later [where d = "min (sc_MinInterval (fc_Schedule cfg)) (sc_MaxInterval (fc_Schedule cfg))"])
    (auto simp: cfg_fits_def time_add_def Second_def)

lemma minCheck_timed: "cfg_fits cfg \<Longrightarrow> toUnix now < toUnix (minCheck cfg now)"
  using add_jitter_bounds(1) [of "fc_Jitter cfg" "sc_MinInterval (fc_Schedule cfg)"]
  by (intro time_unix_later [where d = "sc_MinInterval (fc_Schedule cfg)"])
    (auto simp: cfg_fits_def minCheck_def time_add_def Second_def)

section \<open>A poll that returns no error leaves the feed scheduled\<close>

context feed_store
begin

text \<open>With no error: the feed is gone, its URL was edited meanwhile, or its row is timed.\<close>

definition scheduled :: "ID \<Rightarrow> gerr option \<Rightarrow> 's \<Rightarrow> Feed \<Rightarrow> bool" where
  "scheduled fid err s f \<longleftrightarrow> err = None \<longrightarrow>
     (case row s fid of None \<Rightarrow> True | Some r \<Rightarrow> \<not> feed_cas (feed_params f) r \<or> row_timed r)"

definition here :: "ID \<Rightarrow> ID \<Rightarrow> 's \<Rightarrow> Feed \<Rightarrow> bool" where
  "here fid uid s f \<longleftrightarrow> inv s \<and> f_ID f = fid \<and> f_UserID f = uid"

lemma owns_here: "(\<And>R. holds (owns fid uid R) m) \<Longrightarrow> holds (here fid uid) m"
  unfolding holds_def here_def owns_def by (metis kept_refl)

lemmas here_rules = recordErrorEmit_owns [THEN owns_here] recordPanic_owns [THEN owns_here]
  nextCheck_owns [THEN owns_here] ingest_owns [THEN owns_here] recordSuccess_owns [THEN owns_here]
  adopt_owns [THEN owns_here] resolve_pipeline_owns [THEN owns_here] resolveAndIngest_owns [THEN owns_here]
  poll_pipeline_owns [THEN owns_here] resolveFeed_holds

lemma ends_feed_here:
  "(\<And>f. f_ID f = fid \<Longrightarrow> ends (here fid uid) Q (k f)) \<Longrightarrow> ends (here fid uid) Q (bindS feedS k)"
  by (rule ends_feed) (auto simp: here_def)

text \<open>Writing a timed feed.\<close>

lemma UpdateFeed_scheduled:
  assumes "here fid uid s f \<and> timed f"
  shows "scheduled fid (err_of (fst (so_UpdateFeed ops cx f s))) (snd (so_UpdateFeed ops cx f s)) f"
proof -
  obtain r s' where u: "so_UpdateFeed ops cx f s = (r, s')" by fastforce
  have i: "inv s" using assms by (simp add: here_def)
  show ?thesis
  proof (cases r)
    case (Inl e)
    then show ?thesis using u by (simp add: scheduled_def err_of_def)
  next
    case (Inr x)
    then have "row s' = edit (feed_cas (feed_params f)) (update_feed_cols (feed_params f)) (row s)"
      using UpdateFeed_law [OF i u] by (simp add: on_ok_def)
    then show ?thesis using u assms by (auto simp: scheduled_def edit_def update_timed split: option.split)
  qed
qed

lemma recordErrorEmit_scheduled:
  assumes "cfg_fits cfg"
  shows "ends (here fid uid) (scheduled fid) (recordErrorEmit ops E cfg now msg ra res reason emit)"
proof -
  let ?J = "\<lambda>s f. here fid uid s f \<and> timed f"
  have set: "ends (here fid uid) (\<lambda>_. ?J) (setFeedS (\<lambda>f. let n = f_ErrorCount f + 1 in
        f\<lparr>f_ErrorCount := n, f_LastError := msg, f_CheckedAt := Some now, f_UpdatedAt := now,
          f_NextCheckAt := PollReschedule now (fc_Reschedule cfg) n ra (fc_Jitter cfg)\<rparr>))"
    by (rule ends_setFeedS) (auto simp: here_def timed_def Let_def reschedule_timed [OF assms])
  have store: "ends (\<lambda>s f. ?J s f \<and> f = g) (\<lambda>r. scheduled fid (err_of r)) (storeS (so_UpdateFeed ops cx g))" for cx g
    by (rule ends_storeS) (auto intro: UpdateFeed_scheduled)
  have storec: "ends (\<lambda>s f. ?J s f \<and> f = g) (\<lambda>r. scheduled fid (err_of r)) (storeC E (\<lambda>cx. so_UpdateFeed ops cx g))" for g
    by (rule ends_storeC) (auto intro: UpdateFeed_scheduled)
  have wr: "ends (\<lambda>s f. ?J s f \<and> f = g) (\<lambda>r. scheduled fid (err_of r))
      (if cerr \<noteq> None then storeS (so_UpdateFeed ops None g) else storeC E (\<lambda>cx. so_UpdateFeed ops cx g))"
    for cerr :: ctx and g using store [where cx = None and g = g] storec [of g] by simp
  have fin: "ends (scheduled fid (err_of r)) (scheduled fid)
      (bindS (if emit then emitS ms else retS ()) (\<lambda>_. retS (err_of r)))" for r ms
    by (rule ends_keep) (auto intro!: hoare ends_retS)
  show ?thesis
    unfolding recordErrorEmit_def
    by (rule ends_bindS [OF set], rule ends_keep, rule hoare, rule ends_pinned, simp,
        rule ends_bindS [OF wr fin])
qed

lemma recordPanic_scheduled: "cfg_fits cfg \<Longrightarrow> ends (here fid uid) (scheduled fid) (recordPanic ops E cfg p)"
  unfolding recordPanic_def recordError_def
  by (intro ends_keep recordErrorEmit_scheduled hoare)

lemma nextCheck_result:
  "cfg_fits cfg \<Longrightarrow> nextCheck ops E oob cfg now w = (Ret t, w') \<Longrightarrow> toUnix now < toUnix t"
  by (auto simp: nextCheck_def bindS_def feedS_def retS_def tryS_def minCheck_timed adaptive_timed
      split: if_splits prod.splits outcome.splits sum.splits)

definition checked :: "ID \<Rightarrow> ID \<Rightarrow> time \<Rightarrow> 's \<Rightarrow> Feed \<Rightarrow> bool" where
  "checked fid uid now s f \<longleftrightarrow> here fid uid s f \<and> f_CheckedAt f = Some now"

lemma nextCheck_timed:
  assumes "cfg_fits cfg"
  shows "ends (checked fid uid now) (\<lambda>t s f. checked fid uid now s f \<and> toUnix now < toUnix t) (nextCheck ops E oob cfg now)"
proof -
  have "holds (checked fid uid now) (nextCheck ops E oob cfg now)"
    unfolding nextCheck_def using other_laws
    by (auto simp: checked_def here_def intro!: hoare holds_feed holds_tryS holds_storeC)
  then show ?thesis
    unfolding ends_def using nextCheck_result [OF assms] by (metis holdsD)
qed

lemma recordSuccess_scheduled:
  assumes "cfg_fits cfg"
  shows "ends (here fid uid) (scheduled fid) (recordSuccess ops E oob cfg now resp pf)"
proof -
  let ?J = "checked fid uid now"
  let ?T = "\<lambda>s f. here fid uid s f \<and> timed f"
  have set: "ends (here fid uid) (\<lambda>_. ?J) (setFeedS (apply_success resp now \<circ> apply_parsed pf))"
    by (rule ends_setFeedS) (simp add: checked_def here_def apply_success_def [of resp now])
  have put: "ends (\<lambda>s f. ?J s f \<and> toUnix now < toUnix t) (\<lambda>_. ?T) (setFeedS (\<lambda>f. f\<lparr>f_NextCheckAt := t\<rparr>))" for t
    by (rule ends_setFeedS) (auto simp: checked_def here_def timed_def)
  have store: "ends (\<lambda>s f. ?T s f \<and> f = g) (\<lambda>r. scheduled fid (err_of r)) (storeC E (\<lambda>cx. so_UpdateFeed ops cx g))" for g
    by (rule ends_storeC) (auto intro: UpdateFeed_scheduled)
  have fin: "ends (scheduled fid (err_of r)) (scheduled fid)
     (case r of Inl e \<Rightarrow> bindS (emitS [FeedPollDone PollStoreError, ErrorObserved CompFeedPoll ReasonInternal]) (\<lambda>_. retS (Some e))
      | Inr _ \<Rightarrow> bindS (emitS [FeedPollDone (if pf \<noteq> None then PollSuccess else PollNotModified)]) (\<lambda>_. retS None))" for r
    by (cases r) (auto simp: err_of_def intro!: ends_keep hoare ends_retS)
  let ?ok = "bindS (setFeedS (apply_success resp now \<circ> apply_parsed pf)) (\<lambda>_.
         bindS (nextCheck ops E oob cfg now) (\<lambda>t.
         bindS (setFeedS (\<lambda>f. f\<lparr>f_NextCheckAt := t\<rparr>)) (\<lambda>_.
         bindS feedS (\<lambda>f.
         tryS (storeC E (\<lambda>cx. so_UpdateFeed ops cx f))
           (\<lambda>e. bindS (emitS [FeedPollDone PollStoreError, ErrorObserved CompFeedPoll ReasonInternal]) (\<lambda>_.
                retS (Some e)))
           (\<lambda>_. bindS (emitS [FeedPollDone (if pf \<noteq> None then PollSuccess else PollNotModified)]) (\<lambda>_.
                retS None))))))"
  have ok: "ends (here fid uid) (scheduled fid) ?ok"
    unfolding tryS_def
    by (rule ends_bindS [OF set], rule ends_bindS [OF nextCheck_timed [OF assms]], rule ends_bindS [OF put], rule ends_pinned, simp,
        rule ends_bindS [OF store fin])
  have ing: "holds (here fid uid) (case pf of None \<Rightarrow> retS None | Some p \<Rightarrow> ingest ops E p base)" for base
    by (auto split: option.split intro!: hoare here_rules)
  have rest: "ends (here fid uid) (scheduled fid) (case ierr of
       Some e \<Rightarrow> recordErrorEmit ops E cfg now (''ingest: '' @ err_text e) 0 PollStoreError ReasonInternal True
     | None \<Rightarrow> ?ok)" for ierr
    by (cases ierr) (simp_all only: option.case ok recordErrorEmit_scheduled [OF assms])
  show ?thesis
    unfolding recordSuccess_def recordError_def
    by (rule ends_feed_here, rule ends_keep [OF ing rest])
qed

lemma SetFeedURL_here: "holds (here fid uid) (storeC E (\<lambda>cx. so_SetFeedURL ops cx u fid url now))"
  by (rule owns_here) (auto intro!: holds_storeC owns_SetFeedURL)

lemma DeleteFeed_gone:
  "ends (here fid uid) (\<lambda>r s f. here fid uid s f \<and> (\<forall>x. r = Inr x \<longrightarrow> row s fid = None))
      (storeC E (\<lambda>cx. so_DeleteFeed ops cx uid fid))"
  proof (rule ends_storeC)
    fix cx s f
    assume h: "here fid uid s f"
    obtain r s' where d: "so_DeleteFeed ops cx uid fid s = (r, s')" by fastforce
    with h DeleteFeed_law [OF _ d] show "here fid uid (snd (so_DeleteFeed ops cx uid fid s)) f
        \<and> (\<forall>x. fst (so_DeleteFeed ops cx uid fid s) = Inr x \<longrightarrow> row (snd (so_DeleteFeed ops cx uid fid s)) fid = None)"
      by (auto simp: here_def on_ok_def)
  qed

lemma duplicate_scheduled:
  assumes "cfg_fits cfg"
  shows "ends (here fid uid) (scheduled fid)
      (tryS (storeC E (\<lambda>cx. so_DeleteFeed ops cx uid fid))
         (\<lambda>derr. bindS (clk_Now E) (\<lambda>now.
            recordErrorEmit ops E cfg now ''already subscribed to this feed'' 0 PollStoreError ReasonInternal True))
         (\<lambda>_. bindS (emitS [FeedPollDone PollSuccess]) (\<lambda>_. retS None)))"
    unfolding tryS_def
  proof (rule ends_bindS [OF DeleteFeed_gone])
    fix r :: "gerr + unit"
    show "ends (\<lambda>s f. here fid uid s f \<and> (\<forall>x. r = Inr x \<longrightarrow> row s fid = None)) (scheduled fid)
      (case r of Inl derr \<Rightarrow> bindS (clk_Now E) (\<lambda>now.
            recordErrorEmit ops E cfg now ''already subscribed to this feed'' 0 PollStoreError ReasonInternal True)
       | Inr _ \<Rightarrow> bindS (emitS [FeedPollDone PollSuccess]) (\<lambda>_. retS None))"
    proof (cases r)
      case (Inl e)
      then show ?thesis by (auto intro!: ends_keep hoare recordErrorEmit_scheduled assms)
    next
      case (Inr x)
      then show ?thesis by (auto simp: scheduled_def intro!: ends_keep hoare ends_retS)
    qed
  qed

lemma resolve_pipeline_scheduled:
  assumes "cfg_fits cfg"
  shows "ends (here fid uid) (scheduled fid) (resolve_pipeline ops E oob cfg)"
  unfolding resolve_pipeline_def Let_def recordError_def
  by (rule ends_feed)
    (auto split: prod.split simp: here_def [of fid uid] intro!: hoare ends_tryS [OF resolveFeed_holds]
      ends_tryS [OF SetFeedURL_here] ends_keep holds_setFeedS duplicate_scheduled recordErrorEmit_scheduled
      recordSuccess_scheduled assms, auto simp: here_def)

lemma resolveAndIngest_scheduled:
  "cfg_fits cfg \<Longrightarrow> ends (here fid uid) (scheduled fid) (resolveAndIngest ops E oob cfg)"
  unfolding resolveAndIngest_def
  by (intro ends_recoverS resolve_pipeline_scheduled recordPanic_scheduled here_rules)

lemma poll_pipeline_scheduled:
  assumes "cfg_fits cfg"
  shows "ends (here fid uid) (\<lambda>a. scheduled fid (fst a)) (poll_pipeline ops E oob cfg start)"
proof -
  have pair: "ends (here fid uid) (\<lambda>a. scheduled fid (fst a)) (bindS m (\<lambda>e. retS (e, b)))"
    if "ends (here fid uid) (scheduled fid) m" for m b fid
    by (rule ends_bindS [OF that]) (auto intro: ends_retS)
  show ?thesis
    unfolding poll_pipeline_def Let_def recordError_def
    by (auto split: sum.split intro!: hoare ends_feed_here ends_tryS [OF holds_fetchS] pair
        ends_keep [OF holds_prims(8)] ends_keep [OF holds_prims(5)] ends_keep [OF here_rules(6)]
        recordErrorEmit_scheduled recordSuccess_scheduled resolveAndIngest_scheduled assms)
qed

lemma PollFeed_scheduled:
  assumes "cfg_fits cfg"
  shows "ends (here fid uid) (scheduled fid) (PollFeed ops E oob cfg)"
proof -
  have rec: "ends (here fid uid) (\<lambda>a. scheduled fid (fst a))
      (recoverS (poll_pipeline ops E oob cfg start) (\<lambda>p. bindS (recordPanic ops E cfg p) (\<lambda>e. retS (e, True))))" for start
    by (intro ends_recoverS poll_pipeline_scheduled here_rules assms ends_bindS [OF recordPanic_scheduled])
      (auto intro: ends_retS)
  show ?thesis
    unfolding PollFeed_def
    by (rule ends_keep [OF holds_prims(4)], rule ends_bindS [OF rec])
      (auto split: prod.split intro!: ends_keep hoare holds_bindS ends_retS)
qed

end

end
