(* ===== verification/PollMetrics.thy ===== *)
theory PollMetrics
  imports FeedService Traces
begin

text \<open>
  The metrics of a poll, over every store and every environment: no panic leaves \<open>PollFeed\<close> or
  \<open>ResolveAndIngest\<close>, and an attempt emits one outcome with one duration, or neither.
\<close>

text \<open>The events of one attempt without its duration: one outcome, and one error exactly when the
  outcome is a failure.\<close>

definition attempt :: "metric list \<Rightarrow> bool" where
  "attempt ms \<longleftrightarrow> (\<exists>r. r \<in> {PollSuccess, PollNotModified} \<and> ms = [FeedPollDone r])
     \<or> (\<exists>r reason. r \<notin> {PollSuccess, PollNotModified} \<and> ms = [FeedPollDone r, ErrorObserved CompFeedPoll reason])"

section \<open>The methods\<close>

lemma recordErrorEmit_counts [trace_intros]:
  "r \<notin> {PollSuccess, PollNotModified} \<Longrightarrow> counts attempt (recordErrorEmit ops E cfg now msg ra r reason True)"
  unfolding recordErrorEmit_def if_True
  by (intro trace_intros) (auto simp: attempt_def intro!: trace_intros)

lemma recordErrorEmit_quiet [trace_intros]: "quiet (recordErrorEmit ops E cfg now msg ra r reason False)"
  unfolding recordErrorEmit_def by (auto intro!: trace_intros)

lemma recordErrorEmit_safe [trace_intros]: "safe (recordErrorEmit ops E cfg now msg ra r reason emit)"
  unfolding recordErrorEmit_def by (auto intro!: trace_intros)

lemma recordError_counts [trace_intros]:
  "r \<notin> {PollSuccess, PollNotModified} \<Longrightarrow> counts attempt (recordError ops E cfg now msg ra r reason)"
  unfolding recordError_def by (rule recordErrorEmit_counts)

lemma recordPanic_counts [trace_intros]: "counts attempt (recordPanic ops E cfg p)"
  unfolding recordPanic_def by (auto intro!: trace_intros)

lemma recordPanic_safe [trace_intros]: "safe (recordPanic ops E cfg p)"
  unfolding recordPanic_def recordError_def by (auto intro!: trace_intros)

lemma nextCheck_quiet [trace_intros]: "quiet (nextCheck ops E oob cfg now)"
  unfolding nextCheck_def by (auto intro!: trace_intros)

lemma ingest_quiet [trace_intros]: "quiet (ingest ops E pf base)"
  unfolding ingest_def ingest_entry_def Let_def by (auto split: prod.split intro!: trace_intros)

lemma recordSuccess_counts [trace_intros]: "counts attempt (recordSuccess ops E oob cfg now resp pf)"
  unfolding recordSuccess_def
  by (intro trace_intros) (auto simp: attempt_def split: option.split intro!: trace_intros)

lemma resolveFeed_quiet [trace_intros]: "quiet (resolveFeed E url)"
  unfolding resolveFeed_def Let_def
  by (auto split: sum.split option.split list.split intro!: trace_intros)

lemma adopt_quiet [trace_intros]: "quiet (adoptPermanentRedirect ops E resp)"
  unfolding adoptPermanentRedirect_def by (auto intro!: trace_intros)

lemma resolve_pipeline_counts [trace_intros]: "counts attempt (resolve_pipeline ops E oob cfg)"
  unfolding resolve_pipeline_def Let_def
  by (auto split: prod.split simp: attempt_def intro!: trace_intros)

lemma resolveAndIngest_counts [trace_intros]: "counts attempt (resolveAndIngest ops E oob cfg)"
  unfolding resolveAndIngest_def by (intro trace_intros)

lemma resolveAndIngest_safe [trace_intros]: "safe (resolveAndIngest ops E oob cfg)"
  unfolding resolveAndIngest_def by (intro trace_intros)

section \<open>One outcome, one duration\<close>

text \<open>A shutdown cancelled the attempt: the fetch failed with \<open>context.Canceled\<close> and the context is done
  when \<open>PollFeed\<close> looks. The clock is the first question, the fetch the second, the context the
  third.\<close>

definition poll_request :: "Feed \<Rightarrow> FetchRequest" where
  "poll_request f = \<lparr>rq_URL = f_FeedURL f, rq_ETag = f_ETag f, rq_LastModified = f_LastModified f\<rparr>"

definition poll_cancelled :: "env \<Rightarrow> 's world \<Rightarrow> bool" where
  "poll_cancelled E w = (case en_fetch E (Suc (w_step w)) (poll_request (w_feed w)) of
       Ret (Inl e) \<Rightarrow> ctxShutdownCanceled (en_ctx E (Suc (Suc (w_step w)))) e
     | _ \<Rightarrow> False)"

lemma poll_pipeline_cancelled:
  assumes "en_fetch E (w_step w) (poll_request (w_feed w)) = Ret (Inl e)"
    and "ctxShutdownCanceled (en_ctx E (Suc (w_step w))) e"
  shows "\<exists>r w'. poll_pipeline ops E oob cfg start w = (Ret (r, False), w') \<and> w_trace w' = w_trace w"
proof -
  let ?w1 = "w\<lparr>w_step := Suc (Suc (w_step w))\<rparr>"
  let ?m = "recordErrorEmit ops E cfg start (err_text e) 0 PollFetchError (ClassifyFetchError e) False"
  obtain r w' where m: "?m ?w1 = (Ret r, w')"
    using recordErrorEmit_safe [of ops E cfg start "err_text e" 0 PollFetchError "ClassifyFetchError e" False]
    unfolding safe_def by (metis prod.collapse)
  have "w_trace w' = w_trace w" using quietD [OF recordErrorEmit_quiet m] by simp
  moreover have "poll_pipeline ops E oob cfg start w = (Ret (r, False), w')"
    using assms m
    by (simp add: poll_pipeline_def bindS_def tryS_def feedS_def fetchS_def askS_def outcomeS_def retS_def
        ctx_Err_def poll_request_def)
  ultimately show ?thesis by blast
qed

lemma poll_pipeline_counted:
  assumes "\<not> (\<exists>e. en_fetch E (w_step w) (poll_request (w_feed w)) = Ret (Inl e)
      \<and> ctxShutdownCanceled (en_ctx E (Suc (w_step w))) e)"
  shows "case poll_pipeline ops E oob cfg start w of
      (Ret (r, c), w') \<Rightarrow> c \<and> (\<exists>ms. attempt ms \<and> w_trace w' = w_trace w @ ms)
    | (Panic p, w') \<Rightarrow> w_trace w' = w_trace w"
proof -
  let ?w1 = "w\<lparr>w_step := Suc (w_step w)\<rparr>"
  note counted = always_counted_wrap always_counted_bindS
  show ?thesis
  proof (cases "en_fetch E (w_step w) (poll_request (w_feed w))")
    case (Panic p)
    then show ?thesis
      by (simp add: poll_pipeline_def bindS_def tryS_def feedS_def fetchS_def askS_def outcomeS_def
          panicS_def poll_request_def)
  next
    case (Ret x)
    show ?thesis
    proof (cases x)
      case (Inl e)
      with assms Ret have nc: "\<not> ctxShutdownCanceled (en_ctx E (Suc (w_step w))) e" by simp
      let ?m = "bindS (recordError ops E cfg start (err_text e) 0 PollFetchError (ClassifyFetchError e))
          (\<lambda>e. retS (e, True))"
      have "poll_pipeline ops E oob cfg start w = ?m (w\<lparr>w_step := Suc (Suc (w_step w))\<rparr>)"
        using Ret Inl nc
        by (simp add: poll_pipeline_def bindS_def tryS_def feedS_def fetchS_def askS_def outcomeS_def
            retS_def ctx_Err_def poll_request_def)
      moreover have "always_counted attempt ?m" by (intro counted recordError_counts) simp
      ultimately show ?thesis using always_counted_run [of attempt ?m "w\<lparr>w_step := Suc (Suc (w_step w))\<rparr>" w] by simp
    next
      case (Inr resp)
      with Ret have fetched: "en_fetch E (w_step w) (poll_request (w_feed w)) = Ret (Inr resp)" by simp
      obtain m where run: "poll_pipeline ops E oob cfg start w = m ?w1" and m: "always_counted attempt m"
      proof
        show "poll_pipeline ops E oob cfg start w =
          (if rs_NotModified resp then
            bindS (adoptPermanentRedirect ops E resp) (\<lambda>_.
            bindS (recordSuccess ops E oob cfg start resp None) (\<lambda>e. retS (e, True)))
          else if rs_Status resp \<noteq> 200 then
            bindS (recordError ops E cfg start (''http '' @ FormatInt (rs_Status resp))
              (if classifyHTTPStatus (rs_Status resp) = ReasonRateLimited \<or> classifyHTTPStatus (rs_Status resp) = ReasonHTTP5xx
               then rs_RetryAfter resp else 0) PollHTTPError (classifyHTTPStatus (rs_Status resp))) (\<lambda>e. retS (e, True))
          else
            bindS (adoptPermanentRedirect ops E resp) (\<lambda>_.
            bindS feedS (\<lambda>f.
            bindS (outcomeS (en_parse E (rs_Body resp) (rs_ContentType resp) (orURL (rs_FinalURL resp) (f_FeedURL f)))) (\<lambda>p.
            case p of
              Inl e \<Rightarrow>
                if isHTML (en_lib E) (rs_ContentType resp) \<and> 0 < f_ErrorCount f
                then bindS (resolveAndIngest ops E oob cfg) (\<lambda>e. retS (e, True))
                else bindS (recordError ops E cfg start (''parse: '' @ err_text e) 0 PollParseError ReasonParse) (\<lambda>e. retS (e, True))
            | Inr pf \<Rightarrow> bindS (recordSuccess ops E oob cfg start resp pf) (\<lambda>e. retS (e, True)))))) ?w1"
          by (simp only: poll_pipeline_def Let_def bindS_feedS tryS_fetch [OF fetched [unfolded poll_request_def]])
      qed (auto split: sum.split intro!: counted trace_intros)
      then show ?thesis using always_counted_run [OF m, of ?w1 w] by simp
    qed
  qed
qed

lemma PollFeed_trace:
  "\<exists>err w'. PollFeed ops E oob cfg w = (Ret err, w')
     \<and> (if poll_cancelled E w then w_trace w' = w_trace w
        else \<exists>as d. attempt as \<and> w_trace w' = w_trace w @ as @ [ObserveFeedPoll d])"
proof -
  define start v where sv: "start = en_clock E (w_step w)" "v = w\<lparr>w_step := Suc (w_step w)\<rparr>"
  let ?p = "poll_pipeline ops E oob cfg start"
  let ?q = "recoverS ?p (\<lambda>p. bindS (recordPanic ops E cfg p) (\<lambda>e. retS (e, True)))"
  have run: "PollFeed ops E oob cfg w = (case ?q v of
      (Ret (err, c), u) \<Rightarrow> if c
        then (Ret err, u\<lparr>w_step := Suc (w_step u),
               w_trace := w_trace u @ [ObserveFeedPoll (time_sub (en_clock E (w_step u)) start)]\<rparr>)
        else (Ret err, u)
    | (Panic p, u) \<Rightarrow> (Panic p, u))"
    by (simp add: PollFeed_def sv bindS_def clk_Now_def askS_def retS_def emitS_def
        split: prod.split outcome.split)
  have cancelled: "poll_cancelled E w \<longleftrightarrow> (\<exists>e. en_fetch E (w_step v) (poll_request (w_feed v)) = Ret (Inl e)
      \<and> ctxShutdownCanceled (en_ctx E (Suc (w_step v))) e)"
    by (auto simp: poll_cancelled_def sv split: outcome.split sum.split)
  have tr: "w_trace v = w_trace w" by (simp add: sv)
  show ?thesis
  proof (cases "poll_cancelled E w")
    case True
    then obtain e where "en_fetch E (w_step v) (poll_request (w_feed v)) = Ret (Inl e)"
        "ctxShutdownCanceled (en_ctx E (Suc (w_step v))) e" unfolding cancelled by blast
    from poll_pipeline_cancelled [OF this, of ops oob cfg start]
    obtain r u where p: "?p v = (Ret (r, False), u)" and t: "w_trace u = w_trace v" by blast
    have "?q v = (Ret (r, False), u)" using p by (simp add: recoverS_Ret)
    then show ?thesis using t tr True by (simp add: run)
  next
    case False
    have "\<exists>r u as. ?q v = (Ret (r, True), u) \<and> attempt as \<and> w_trace u = w_trace v @ as"
      by (rule recover_counted [where A = attempt and m = ?p and h = "recordPanic ops E cfg"],
          rule poll_pipeline_counted [OF False [unfolded cancelled]]) (rule trace_intros)+
    then show ?thesis using False tr by (auto simp: run)
  qed
qed


text \<open>\<open>ResolveAndIngest\<close> returns, whatever its dependencies do, and always emits one outcome (with
  an error exactly on failure) followed by one duration.\<close>

lemma resolve_metrics_paired:
  "\<exists>err w' as d. ResolveAndIngest ops E oob cfg w = (Ret err, w')
     \<and> attempt as \<and> w_trace w' = w_trace w @ as @ [ObserveFeedPoll d]"
proof -
  define v where v: "v = w\<lparr>w_step := Suc (w_step w)\<rparr>"
  obtain r u where m: "resolveAndIngest ops E oob cfg v = (Ret r, u)"
    using resolveAndIngest_safe [of ops E oob cfg] unfolding safe_def by (metis prod.collapse)
  from counts_Ret [OF resolveAndIngest_counts m]
  obtain as where "attempt as" "w_trace u = w_trace w @ as" by (auto simp: v)
  then show ?thesis
    using m by (auto simp: ResolveAndIngest_def bindS_def clk_Now_def askS_def retS_def emitS_def v)
qed

end
