(* ===== verification/EditContract.thy ===== *)
theory EditContract
  imports PollDue PollMetrics
begin

text \<open>
  Subscribing and editing over any store that keeps the contract of \<open>FeedContract\<close>:
  \<open>CreateSubscription\<close> and \<open>EditFeed\<close> return on every path, what they leave in the feed table when they
  succeed, and that a refused URL leaves it as it was.
\<close>

section \<open>No panic\<close>

lemma ensureCategoryOwned_safe [trace_intros]: "safe (ensureCategoryOwned ops E uid cat)"
  unfolding ensureCategoryOwned_def by (auto split: option.split intro!: trace_intros)

lemma CreateSubscription_safe: "safe (CreateSubscription ops E cfg uid raw cat full)"
  unfolding CreateSubscription_def Let_def by (auto split: option.split intro!: trace_intros)

lemma EditFeed_safe: "safe (EditFeed ops E uid fid inp)"
  unfolding EditFeed_def SetFullContent_def Let_def by (auto split: option.split intro!: trace_intros)

section \<open>Assertions\<close>

text \<open>The URL an edit asks for; nothing when the field is blank.\<close>

definition edit_url :: "env \<Rightarrow> EditFeedInput \<Rightarrow> string" where
  "edit_url E inp = (if TrimSpace (ei_URL inp) \<noteq> [] then normalizeFeedURL (en_lib E) (TrimSpace (ei_URL inp)) else [])"

text \<open>What the row of a feed is after an edit: the columns the poller owns, then all.\<close>

definition edit_rest :: "string \<Rightarrow> FeedRow \<Rightarrow> FeedRow \<Rightarrow> bool" where
  "edit_rest url r r' \<longleftrightarrow>
     (if url \<noteq> [] \<and> url \<noteq> fr_FeedUrl r
      then fr_FeedUrl r' = url \<and> fr_Etag r' = [] \<and> fr_LastModified r' = []
      else fr_FeedUrl r' = fr_FeedUrl r \<and> fr_Etag r' = fr_Etag r \<and> fr_LastModified r' = fr_LastModified r
        \<and> fr_NextCheckAt r' = fr_NextCheckAt r)
     \<and> fr_Title r' = fr_Title r \<and> fr_ErrorCount r' = fr_ErrorCount r \<and> fr_CheckedAt r' = fr_CheckedAt r"

definition edit_row :: "env \<Rightarrow> EditFeedInput \<Rightarrow> FeedRow \<Rightarrow> FeedRow \<Rightarrow> bool" where
  "edit_row E inp r r' \<longleftrightarrow> edit_rest (edit_url E inp) r r'
     \<and> fr_UserTitle r' = TrimSpace (ei_Title inp) \<and> fr_CategoryID r' = ei_CategoryID inp
     \<and> (fr_FetchFullContent r' \<noteq> 0) = ei_FullContent inp"

lemma edit_rest_upd [simp]:
  "edit_rest url r (x\<lparr>fr_UserTitle := t\<rparr>) = edit_rest url r x"
  "edit_rest url r (x\<lparr>fr_CategoryID := c\<rparr>) = edit_rest url r x"
  "edit_rest url r (x\<lparr>fr_FetchFullContent := n\<rparr>) = edit_rest url r x"
  by (simp_all add: edit_rest_def)

lemma edit_rest_url:
  "edit_rest url r x \<Longrightarrow> fr_FeedUrl x \<noteq> fr_FeedUrl r \<longleftrightarrow> url \<noteq> [] \<and> url \<noteq> fr_FeedUrl r"
  by (auto simp: edit_rest_def split: if_splits)

definition no_result :: EditFeedResult where
  "no_result = \<lparr>er_URLChanged = False, er_CategoryChanged = False\<rparr>"

context feed_store
begin

definition table :: "feed_view \<Rightarrow> 's \<Rightarrow> Feed \<Rightarrow> bool" where
  "table R s f \<longleftrightarrow> inv s \<and> row s = R"

lemma GetFeed_table:
  "ends (table R) (\<lambda>gf s f. table R s f \<and> (\<forall>g. gf = Inr g \<longrightarrow> (\<exists>r. R fid = Some r \<and> fr_UserID r = uid \<and> shown_as r g)))
     (storeC E (\<lambda>cx. so_GetFeed ops cx uid fid))"
proof (rule ends_storeC)
  fix cx s f
  assume t: "table R s f"
  obtain gf s' where g: "so_GetFeed ops cx uid fid s = (gf, s')" by fastforce
  with GetFeed_law [OF _ g] t show "table R (snd (so_GetFeed ops cx uid fid s)) f \<and>
      (\<forall>g. fst (so_GetFeed ops cx uid fid s) = Inr g \<longrightarrow> (\<exists>r. R fid = Some r \<and> fr_UserID r = uid \<and> shown_as r g))"
    by (auto simp: table_def)
qed

lemma ensureCategoryOwned_table: "holds (table R) (ensureCategoryOwned ops E uid cat)"
  unfolding ensureCategoryOwned_def using other_laws
  by (auto simp: table_def split: option.split intro!: hoare holds_tryS holds_storeC)

section \<open>A refused URL\<close>

lemma SetFeedURL_taken:
  assumes "R j = Some r" "j \<noteq> fid" "fr_UserID r = uid" "fr_FeedUrl r = url"
  shows "ends (table R) (\<lambda>x s f. table R s f \<and> isl x) (storeC E (\<lambda>cx. so_SetFeedURL ops cx uid fid url now))"
proof (rule ends_storeC)
  fix cx s f
  assume t: "table R s f"
  then have i: "inv s" by (simp add: table_def)
  obtain x s' where g: "so_SetFeedURL ops cx uid fid url now s = (x, s')" by fastforce
  show "table R (snd (so_SetFeedURL ops cx uid fid url now s)) f \<and> isl (fst (so_SetFeedURL ops cx uid fid url now s))"
  proof (cases x)
    case (Inl e)
    then show ?thesis using SetFeedURL_law [OF i g] t g by (simp add: table_def on_ok_def)
  next
    case (Inr u)
    then have "so_SetFeedURL ops cx uid fid url now s = (Inr (), s')" using g by simp
    from SetFeedURL_live [OF i this] show ?thesis using assms t by (auto simp: table_def)
  qed
qed

definition refused :: "feed_view \<Rightarrow> EditFeedResult \<times> gerr option \<Rightarrow> 's \<Rightarrow> Feed \<Rightarrow> bool" where
  "refused R a s f \<longleftrightarrow> table R s f \<and> fst a = no_result \<and> snd a \<noteq> None"

lemma refuse: "ends (table R) (refused R) (retS (\<lparr>er_URLChanged = False, er_CategoryChanged = False\<rparr>, Some e))"
  by (rule ends_retS) (simp add: refused_def no_result_def)

lemma EditFeed_taken:
  assumes "R j = Some r" "j \<noteq> fid" "fr_UserID r = uid" "fr_FeedUrl r = edit_url E inp"
    and "edit_url E inp \<noteq> []" and "\<And>r. R fid = Some r \<Longrightarrow> fr_FeedUrl r \<noteq> edit_url E inp"
  shows "ends (table R) (refused R) (EditFeed ops E uid fid inp)"
proof -
  have blank: "TrimSpace (ei_URL inp) \<noteq> []" using assms(5) by (auto simp: edit_url_def split: if_splits)
  have url: "normalizeFeedURL (en_lib E) (TrimSpace (ei_URL inp)) = edit_url E inp"
    using blank by (simp add: edit_url_def)
  have set: "ends (table R) (refused R) (tryS (bindS (clk_Now E) (\<lambda>now. storeC E (\<lambda>cx. so_SetFeedURL ops cx uid fid (edit_url E inp) now)))
      (\<lambda>e. retS (\<lparr>er_URLChanged = False, er_CategoryChanged = False\<rparr>, Some e)) k)" for k
  proof (rule ends_value)
    show "ends (table R) (\<lambda>x s f. table R s f \<and> isl x)
        (bindS (clk_Now E) (\<lambda>now. storeC E (\<lambda>cx. so_SetFeedURL ops cx uid fid (edit_url E inp) now)))"
      by (rule ends_keep [OF holds_prims(4) SetFeedURL_taken [where R = R and j = j and r = r, OF assms(1-4)]])
    show "ends (\<lambda>s f. table R s f \<and> isl (Inr a)) (refused R) (k a)" for a by (simp add: ends_def)
    show "ends (\<lambda>s f. table R s f \<and> isl (Inl e)) (refused R) (retS (\<lparr>er_URLChanged = False, er_CategoryChanged = False\<rparr>, Some e))" for e
      using refuse by simp
  qed
  show ?thesis
    unfolding EditFeed_def Let_def
    apply (rule ends_value [OF GetFeed_table [of R fid uid]])
    subgoal using refuse by simp
    subgoal for g
      apply (rule ends_assume [where P = "edit_url E inp \<noteq> f_FeedURL g" and J' = "table R"])
      subgoal using assms(6) by (auto simp: shown_as_def)
      subgoal premises neq
        unfolding url if_P [OF blank] if_P [OF conjI [OF assms(5) neq]]
        by (intro ends_if refuse ends_keep [OF ensureCategoryOwned_table] ends_option set)
      done
    done
qed

section \<open>An edit that succeeds\<close>

text \<open>The feed's row is one that satisfies \<open>P\<close>, the others are those of \<open>R\<close>.\<close>

definition edited :: "feed_view \<Rightarrow> ID \<Rightarrow> ID \<Rightarrow> (FeedRow \<Rightarrow> bool) \<Rightarrow> 's \<Rightarrow> Feed \<Rightarrow> bool" where
  "edited R fid uid P s f \<longleftrightarrow> inv s \<and> (\<exists>r. row s = R(fid \<mapsto> r) \<and> fr_ID r = fid \<and> fr_UserID r = uid \<and> P r)"

definition edited_ok :: "feed_view \<Rightarrow> ID \<Rightarrow> ID \<Rightarrow> (FeedRow \<Rightarrow> bool) \<Rightarrow> (gerr + unit) \<Rightarrow> 's \<Rightarrow> Feed \<Rightarrow> bool" where
  "edited_ok R fid uid P x s f \<longleftrightarrow> (\<not> isl x \<longrightarrow> edited R fid uid P s f)"

lemma edit_one:
  assumes "keyed (R(fid \<mapsto> r))" and "fr_UserID r = uid"
  shows "edit (feed_is fid uid) u (R(fid \<mapsto> r)) = R(fid \<mapsto> u r)"
proof
  fix i
  have id: "(R(fid \<mapsto> r)) j = Some x \<Longrightarrow> fr_ID x = j" for j x
    using assms(1) unfolding keyed_def by blast
  show "edit (feed_is fid uid) u (R(fid \<mapsto> r)) i = (R(fid \<mapsto> u r)) i"
  proof (cases "i = fid")
    case True
    then show ?thesis using id [of fid r] assms(2) by (simp add: edit_def feed_is_def)
  next
    case False
    then show ?thesis using id [of i] by (cases "R i") (simp_all add: edit_def feed_is_def)
  qed
qed

lemma edit_step:
  assumes law: "\<And>cx s x s'. inv s \<Longrightarrow> m cx s = (x, s') \<Longrightarrow>
      inv s' \<and> row s' = on_ok x (edit (feed_is fid uid) u (row s)) (row s)"
    and u: "\<And>r. fr_ID (u r) = fr_ID r \<and> fr_UserID (u r) = fr_UserID r"
  shows "ends (edited R fid uid P) (edited_ok R fid uid (\<lambda>r'. \<exists>r. P r \<and> r' = u r))
      (storeC E m)"
proof (rule ends_storeC, unfold edited_ok_def, intro impI)
  fix cx s f
  assume e: "edited R fid uid P s f" and a: "\<not> isl (fst (m cx s))"
  then obtain r where i: "inv s" and r: "row s = R(fid \<mapsto> r)" "fr_ID r = fid" "fr_UserID r = uid" "P r"
    by (auto simp: edited_def)
  obtain a s' where m: "m cx s = (Inr a, s')" using a by (cases "m cx s"; cases "fst (m cx s)") auto
  have "edit (feed_is fid uid) u (row s) = R(fid \<mapsto> u r)"
    unfolding r(1) by (rule edit_one) (use row_keyed [OF i] r in simp_all)
  then have "inv s' \<and> row s' = R(fid \<mapsto> u r)" using law [OF i m] by (simp add: on_ok_def)
  then show "edited R fid uid (\<lambda>r'. \<exists>r. P r \<and> r' = u r) (snd (m cx s)) f"
    using m r u by (auto simp: edited_def)
qed

lemma edit_steps:
  "ends (edited R fid uid P) (edited_ok R fid uid (\<lambda>r'. \<exists>r. P r \<and> r' = repoint url now r))
      (storeC E (\<lambda>cx. so_SetFeedURL ops cx uid fid url now))"
  "ends (edited R fid uid P) (edited_ok R fid uid (\<lambda>r'. \<exists>r. P r \<and> r' = r\<lparr>fr_UserTitle := t\<rparr>))
      (storeC E (\<lambda>cx. so_SetFeedUserTitle ops cx uid fid t))"
  "ends (edited R fid uid P) (edited_ok R fid uid (\<lambda>r'. \<exists>r. P r \<and> r' = r\<lparr>fr_CategoryID := cat\<rparr>))
      (storeC E (\<lambda>cx. so_SetFeedCategory ops cx uid fid cat))"
  "ends (edited R fid uid P) (edited_ok R fid uid (\<lambda>r'. \<exists>r. P r \<and> r' = r\<lparr>fr_FetchFullContent := b2i on\<rparr>))
      (storeC E (\<lambda>cx. so_SetFeedFullContent ops cx uid fid on due))"
  by (rule edit_step, erule (1) SetFeedURL_law SetFeedUserTitle_law SetFeedCategory_law SetFeedFullContent_law,
      simp add: repoint_def)+

definition edit_done :: "env \<Rightarrow> EditFeedInput \<Rightarrow> feed_view \<Rightarrow> ID \<Rightarrow> ID \<Rightarrow> EditFeedResult \<times> gerr option \<Rightarrow> 's \<Rightarrow> Feed \<Rightarrow> bool" where
  "edit_done E inp R fid uid a s f \<longleftrightarrow> (snd a = None \<longrightarrow>
     (\<exists>r r'. R fid = Some r \<and> fr_UserID r = uid \<and> row s = R(fid \<mapsto> r') \<and> edit_row E inp r r'
       \<and> er_URLChanged (fst a) = (fr_FeedUrl r' \<noteq> fr_FeedUrl r)
       \<and> er_CategoryChanged (fst a) = (fr_CategoryID r' \<noteq> fr_CategoryID r)))"

lemma edit_weaken:
  "ends J (edited_ok R fid uid P) m \<Longrightarrow> (\<And>r. P r \<Longrightarrow> Q r)
   \<Longrightarrow> ends J (edited_ok R fid uid Q) m"
  by (erule ends_mono) (auto simp: edited_ok_def edited_def)

lemma edit_skip:
  "(\<And>r. P r \<Longrightarrow> Q r) \<Longrightarrow> ends (edited R fid uid P) (edited_ok R fid uid Q) (retS (Inr ()))"
  by (rule ends_retS) (auto simp: edited_ok_def edited_def)

text \<open>After an edit step that succeeded, or stopped with its error.\<close>

lemma edit_then:
  assumes "ends (edited R fid uid P) (edited_ok R fid uid Q) m"
    and "ends (edited R fid uid Q) (edit_done E inp R fid uid) k"
  shows "ends (edited R fid uid P) (edit_done E inp R fid uid) (tryS m (\<lambda>e. retS (res, Some e)) (\<lambda>_. k))"
proof (rule ends_value [OF assms(1)])
  show "ends (edited_ok R fid uid Q (Inl e)) (edit_done E inp R fid uid) (retS (res, Some e))" for e
    by (rule ends_retS) (simp add: edit_done_def)
  show "ends (edited_ok R fid uid Q (Inr a)) (edit_done E inp R fid uid) k" for a
    using assms(2) by (simp add: ends_def edited_ok_def)
qed

lemma EditFeed_done: "ends (table R) (edit_done E inp R fid uid) (EditFeed ops E uid fid inp)"
proof -
  have stop: "ends J (edit_done E inp R fid uid) (retS (x, Some e))" for J x e
    by (rule ends_retS) (simp add: edit_done_def)
  note clock = ends_keep [OF holds_prims(4)]
  show ?thesis
    unfolding EditFeed_def SetFullContent_def Let_def edit_url_def [symmetric]
    apply (rule ends_value [OF GetFeed_table [of R fid uid]])
    subgoal by (rule stop)
    subgoal for g
      apply (rule ends_assume [where P = "\<exists>r. R fid = Some r \<and> fr_ID r = fid \<and> fr_UserID r = uid \<and> shown_as r g" and J' = "table R"])
      subgoal using row_keyed by (auto simp: table_def keyed_def)
      subgoal premises p
      proof -
        from p obtain r where r: "R fid = Some r" "fr_ID r = fid" "fr_UserID r = uid" and g: "shown_as r g" by blast
        have flds: "f_FeedURL g = fr_FeedUrl r" "f_CategoryID g = fr_CategoryID r"
          "f_FetchFullContent g = (fr_FetchFullContent r \<noteq> 0)"
          using g by (simp_all add: shown_as_def)
        let ?c = "edit_url E inp \<noteq> [] \<and> edit_url E inp \<noteq> fr_FeedUrl r"
        let ?A = "edit_rest (edit_url E inp) r"
        let ?P1 = "\<lambda>x. ?A x \<and> fr_CategoryID x = fr_CategoryID r \<and> fr_FetchFullContent x = fr_FetchFullContent r"
        let ?P2 = "\<lambda>x. ?P1 x \<and> fr_UserTitle x = TrimSpace (ei_Title inp)"
        let ?P3 = "\<lambda>x. ?A x \<and> fr_CategoryID x = ei_CategoryID inp \<and> fr_FetchFullContent x = fr_FetchFullContent r
            \<and> fr_UserTitle x = TrimSpace (ei_Title inp)"
        have init: "table R s f \<Longrightarrow> True \<and> edited R fid uid (\<lambda>x. x = r) s f" for s f
          using r by (auto simp: table_def edited_def)
        have url: "ends (edited R fid uid (\<lambda>x. x = r)) (edited_ok R fid uid ?P1)
            (if ?c then bindS (clk_Now E) (\<lambda>now. storeC E (\<lambda>cx. so_SetFeedURL ops cx uid fid (edit_url E inp) now))
             else retS (Inr ()))"
          by (auto intro!: clock edit_skip edit_weaken [OF edit_steps(1)]) (auto simp: edit_rest_def repoint_def)
        have title: "ends (edited R fid uid ?P1) (edited_ok R fid uid ?P2)
            (storeC E (\<lambda>cx. so_SetFeedUserTitle ops cx uid fid (TrimSpace (ei_Title inp))))"
          by (rule edit_weaken [OF edit_steps(2)]) auto
        have cat: "ends (edited R fid uid ?P2) (edited_ok R fid uid ?P3)
            (if \<not> sameID (f_CategoryID g) (ei_CategoryID inp)
             then storeC E (\<lambda>cx. so_SetFeedCategory ops cx uid fid (ei_CategoryID inp)) else retS (Inr ()))"
        proof (rule ends_if)
          show "ends (edited R fid uid ?P2) (edited_ok R fid uid ?P3)
              (storeC E (\<lambda>cx. so_SetFeedCategory ops cx uid fid (ei_CategoryID inp)))"
            by (rule edit_weaken [OF edit_steps(3)]) auto
          show "\<not> \<not> sameID (f_CategoryID g) (ei_CategoryID inp) \<Longrightarrow>
              ends (edited R fid uid ?P2) (edited_ok R fid uid ?P3) (retS (Inr ()))"
            by (rule edit_skip) (simp add: flds)
        qed
        have full: "ends (edited R fid uid ?P3) (edited_ok R fid uid (edit_row E inp r))
            (if ei_FullContent inp \<noteq> f_FetchFullContent g
             then bindS (clk_Now E) (\<lambda>now. storeC E (\<lambda>cx. so_SetFeedFullContent ops cx uid fid (ei_FullContent inp) now))
             else retS (Inr ()))"
        proof (rule ends_if)
          show "ends (edited R fid uid ?P3) (edited_ok R fid uid (edit_row E inp r))
              (bindS (clk_Now E) (\<lambda>now. storeC E (\<lambda>cx. so_SetFeedFullContent ops cx uid fid (ei_FullContent inp) now)))"
            by (rule clock, rule edit_weaken [OF edit_steps(4)]) (auto simp: edit_row_def b2i_def split: if_splits)
          show "\<not> ei_FullContent inp \<noteq> f_FetchFullContent g \<Longrightarrow>
              ends (edited R fid uid ?P3) (edited_ok R fid uid (edit_row E inp r)) (retS (Inr ()))"
            by (rule edit_skip) (simp add: flds edit_row_def)
        qed
        have fin: "ends (edited R fid uid (edit_row E inp r)) (edit_done E inp R fid uid)
            (retS (\<lparr>er_URLChanged = ?c, er_CategoryChanged = \<not> sameID (f_CategoryID g) (ei_CategoryID inp)\<rparr>, None))"
          by (rule ends_retS) (use r in \<open>auto simp: edited_def edit_done_def flds edit_row_def dest: edit_rest_url\<close>)
        show ?thesis
          unfolding flds(1) EditFeedResult.simps
          by (intro ends_if stop ends_keep [OF ensureCategoryOwned_table] ends_option
              ends_assume [OF init edit_then [OF url edit_then [OF title edit_then [OF cat edit_then [OF full fin]]]]])
      qed
      done
    done
qed

section \<open>A new subscription\<close>

text \<open>The pending feed a subscription returns is the one new row; an error leaves the table as it was.\<close>

definition created :: "url_lib \<Rightarrow> FeedServiceConfig \<Rightarrow> ID \<Rightarrow> string \<Rightarrow> ID option \<Rightarrow> bool \<Rightarrow> feed_view
    \<Rightarrow> gerr + Feed \<Rightarrow> 's \<Rightarrow> Feed \<Rightarrow> bool" where
  "created lib cfg uid raw cat full R a s f \<longleftrightarrow> (case a of
     Inl e \<Rightarrow> row s = R
   | Inr g \<Rightarrow> R (f_ID g) = None \<and> row s = R(f_ID g \<mapsto> (feed_params g)\<lparr>fr_UserTitle := []\<rparr>)
       \<and> f_FeedURL g = normalizeFeedURL lib raw \<and> httpURL lib (f_FeedURL g) \<noteq> []
       \<and> f_UserID g = uid \<and> f_CategoryID g = cat \<and> f_FetchFullContent g = full \<and> f_ErrorCount g = 0
       \<and> f_Title g = f_FeedURL g \<and> f_CheckedAt g = None
       \<and> f_NextCheckAt g = time_add (f_CreatedAt g) (sc_MinInterval (fc_Schedule cfg)))"

lemma CreateSubscription_created:
  "ends (table R) (created (en_lib E) cfg uid raw cat full R) (CreateSubscription ops E cfg uid raw cat full)"
proof -
  let ?u = "normalizeFeedURL (en_lib E) raw"
  let ?new = "\<lambda>now. zero_feed\<lparr>f_UserID := uid, f_CategoryID := cat, f_FeedURL := ?u,
                f_Title := feedTitle [] ?u, f_NextCheckAt := time_add now (sc_MinInterval (fc_Schedule cfg)),
                f_CreatedAt := now, f_UpdatedAt := now, f_FetchFullContent := full\<rparr>"
  have err: "ends (table R) (created (en_lib E) cfg uid raw cat full R) (retS (Inl e))" for e
    by (rule ends_retS) (simp add: created_def table_def)
  have put: "ends (table R) (\<lambda>x s f. case x of Inl e \<Rightarrow> row s = R
        | Inr i \<Rightarrow> R i = None \<and> row s = R(i \<mapsto> (feed_params g)\<lparr>fr_ID := i, fr_UserTitle := []\<rparr>))
      (storeC E (\<lambda>cx. so_CreateFeed ops cx g))" if "f_UserTitle g = []" for g
  proof (rule ends_storeC)
    fix cx s f
    assume t: "table R s f"
    obtain x s' where c: "so_CreateFeed ops cx g s = (x, s')" by fastforce
    with t that CreateFeed_law [OF _ _ c]
    show "case fst (so_CreateFeed ops cx g s) of Inl e \<Rightarrow> row (snd (so_CreateFeed ops cx g s)) = R
        | Inr i \<Rightarrow> R i = None \<and> row (snd (so_CreateFeed ops cx g s)) = R(i \<mapsto> (feed_params g)\<lparr>fr_ID := i, fr_UserTitle := []\<rparr>)"
      by (auto simp: table_def split: sum.splits)
  qed
  have new: "ends (table R) (created (en_lib E) cfg uid raw cat full R)
      (tryS (storeC E (\<lambda>cx. so_CreateFeed ops cx (?new now))) (\<lambda>e. retS (Inl e)) (\<lambda>i. retS (Inr ((?new now)\<lparr>f_ID := i\<rparr>))))"
    if "httpURL (en_lib E) ?u \<noteq> []" for now
  proof (rule ends_value [OF put])
    show "f_UserTitle (?new now) = []" by (simp add: zero_feed_def)
    show "ends (\<lambda>s f. case Inl e of Inl e \<Rightarrow> row s = R
        | Inr i \<Rightarrow> R i = None \<and> row s = R(i \<mapsto> (feed_params (?new now))\<lparr>fr_ID := i, fr_UserTitle := []\<rparr>))
        (created (en_lib E) cfg uid raw cat full R) (retS (Inl e))" for e
      by (rule ends_retS) (simp add: created_def)
    show "ends (\<lambda>s f. case Inr i of Inl e \<Rightarrow> row s = R
        | Inr i \<Rightarrow> R i = None \<and> row s = R(i \<mapsto> (feed_params (?new now))\<lparr>fr_ID := i, fr_UserTitle := []\<rparr>))
        (created (en_lib E) cfg uid raw cat full R) (retS (Inr ((?new now)\<lparr>f_ID := i\<rparr>)))" for i
      by (rule ends_retS) (use that in \<open>simp add: created_def feed_params_def feedTitle_def zero_feed_def\<close>)
  qed
  show ?thesis
    unfolding CreateSubscription_def Let_def
    by (intro ends_if err ends_keep [OF ensureCategoryOwned_table] ends_option ends_keep [OF holds_prims(4)] new)
qed

end

end
