(* ===== verification/CursorCodec.thy ===== *)
theory CursorCodec
  imports CoreTypes
begin

text \<open>
  \<open>internal/core/cursor.go\<close>: the keyset position of a list page and its text form, which is
  \<open>base64.RawURLEncoding\<close> of \<open>"<key>:<id>"\<close>. The base64 codec is the standard library's: groups of
  three bytes, the URL alphabet, no padding; the decoder skips CR and LF and does not look at the
  unused low bits of a final short group (it is not \<open>Strict\<close>).
\<close>

section \<open>Base64, URL alphabet, no padding\<close>

text \<open>The value of a sextet as a character: A-Z, a-z, 0-9, \<open>-\<close>, \<open>_\<close>.\<close>

definition b64_char :: "nat \<Rightarrow> char" where
  "b64_char v =
     (if v < 26 then char_of (65 + v)
      else if v < 52 then char_of (97 + (v - 26))
      else if v < 62 then char_of (48 + (v - 52))
      else if v = 62 then CHR ''-'' else CHR ''_'')"

definition b64_val :: "char \<Rightarrow> nat option" where
  "b64_val c =
     (let n = of_char c :: nat in
      if 65 \<le> n \<and> n \<le> 90 then Some (n - 65)
      else if 97 \<le> n \<and> n \<le> 122 then Some (n - 97 + 26)
      else if 48 \<le> n \<and> n \<le> 57 then Some (n - 48 + 52)
      else if c = CHR ''-'' then Some 62
      else if c = CHR ''_'' then Some 63
      else None)"

fun b64_encode_bytes :: "nat list \<Rightarrow> string" where
  "b64_encode_bytes [] = []"
| "b64_encode_bytes [a] = [b64_char (a div 4), b64_char (a mod 4 * 16)]"
| "b64_encode_bytes [a, b] =
     [b64_char (a div 4), b64_char (a mod 4 * 16 + b div 16), b64_char (b mod 16 * 4)]"
| "b64_encode_bytes (a # b # c # rest) =
     b64_char (a div 4) # b64_char (a mod 4 * 16 + b div 16) #
     b64_char (b mod 16 * 4 + c div 64) # b64_char (c mod 64) # b64_encode_bytes rest"

text \<open>\<open>decodeQuantum\<close>: four characters give three bytes; a final group of two or three gives one or
  two; a single left-over character is a \<open>CorruptInputError\<close>.\<close>

fun b64_decode_vals :: "nat list \<Rightarrow> nat list option" where
  "b64_decode_vals [] = Some []"
| "b64_decode_vals [p] = None"
| "b64_decode_vals [p, q] = Some [(p * 4 + q div 16) mod 256]"
| "b64_decode_vals [p, q, r] = Some [(p * 4 + q div 16) mod 256, (q * 16 + r div 4) mod 256]"
| "b64_decode_vals (p # q # r # s # rest) =
     map_option (\<lambda>bs. (p * 4 + q div 16) mod 256 # (q * 16 + r div 4) mod 256 #
         (r * 64 + s) mod 256 # bs)
       (b64_decode_vals rest)"

definition RawURLEncode :: "string \<Rightarrow> string" where
  "RawURLEncode s = b64_encode_bytes (map of_char s)"

definition RawURLDecode :: "string \<Rightarrow> string option" where
  "RawURLDecode s =
     (case those (map b64_val (filter (\<lambda>c. c \<noteq> CHR 0x0A \<and> c \<noteq> CHR 0x0D) s)) of
        None \<Rightarrow> None
      | Some vs \<Rightarrow> map_option (map char_of) (b64_decode_vals vs))"

lemma b64_val_char [simp]: "v < 64 \<Longrightarrow> b64_val (b64_char v) = Some v"
  by (auto simp: b64_val_def b64_char_def Let_def of_char_of)

lemma b64_char_not_newline: "v < 64 \<Longrightarrow> b64_char v \<noteq> CHR 0x0A \<and> b64_char v \<noteq> CHR 0x0D"
  using b64_val_char [of v] by (auto simp: b64_val_def)

text \<open>The sextets the encoder writes.\<close>

fun sextets :: "nat list \<Rightarrow> nat list" where
  "sextets [] = []"
| "sextets [a] = [a div 4, a mod 4 * 16]"
| "sextets [a, b] = [a div 4, a mod 4 * 16 + b div 16, b mod 16 * 4]"
| "sextets (a # b # c # rest) =
     a div 4 # (a mod 4 * 16 + b div 16) # (b mod 16 * 4 + c div 64) # c mod 64 # sextets rest"

lemma b64_encode_sextets: "b64_encode_bytes bs = map b64_char (sextets bs)"
  by (induction bs rule: sextets.induct) simp_all

lemma sextets_bound: "\<forall>b \<in> set bs. b < 256 \<Longrightarrow> v \<in> set (sextets bs) \<Longrightarrow> v < 64"
  by (induction bs rule: sextets.induct) auto

text \<open>The three bytes of a group come back; \<open>c = 0\<close> and \<open>b = 0\<close> are the short groups.\<close>

lemma group_byte1: "(a::nat) < 256 \<Longrightarrow> b < 256 \<Longrightarrow> (a div 4 * 4 + (a mod 4 * 16 + b div 16) div 16) mod 256 = a"
proof -
  assume "a < 256" "b < 256"
  have "(a mod 4 * 16 + b div 16) div 16 = a mod 4" using \<open>b < 256\<close> by simp
  with \<open>a < 256\<close> show ?thesis by simp
qed

lemma group_byte2:
  "(b::nat) < 256 \<Longrightarrow> c < 256 \<Longrightarrow>
   ((a mod 4 * 16 + b div 16) * 16 + (b mod 16 * 4 + c div 64) div 4) mod 256 = b"
proof -
  assume "b < 256" "c < 256"
  have "(b mod 16 * 4 + c div 64) div 4 = b mod 16" using \<open>c < 256\<close> by simp
  then have "(a mod 4 * 16 + b div 16) * 16 + (b mod 16 * 4 + c div 64) div 4
      = a mod 4 * 256 + (b div 16 * 16 + b mod 16)" by (simp add: algebra_simps)
  then have "(a mod 4 * 16 + b div 16) * 16 + (b mod 16 * 4 + c div 64) div 4 = a mod 4 * 256 + b"
    by simp
  with \<open>b < 256\<close> show ?thesis by simp
qed

lemma group_byte3: "(c::nat) < 256 \<Longrightarrow> ((b mod 16 * 4 + c div 64) * 64 + c mod 64) mod 256 = c"
proof -
  assume "c < 256"
  have "(b mod 16 * 4 + c div 64) * 64 + c mod 64 = b mod 16 * 256 + (c div 64 * 64 + c mod 64)"
    by (simp add: algebra_simps)
  then have "(b mod 16 * 4 + c div 64) * 64 + c mod 64 = b mod 16 * 256 + c" by simp
  with \<open>c < 256\<close> show ?thesis by simp
qed

lemma b64_decode_sextets:
  "\<forall>b \<in> set bs. b < 256 \<Longrightarrow> b64_decode_vals (sextets bs) = Some bs"
proof (induction bs rule: sextets.induct)
  case (2 a)
  then show ?case using group_byte1 [of a 0] by simp
next
  case (3 a b)
  then show ?case using group_byte1 [of a b] group_byte2 [of b 0 a] by simp
next
  case (4 a b c rest)
  then show ?case using group_byte1 [of a b] group_byte2 [of b c a] group_byte3 [of c b] by simp
qed simp

lemma those_map_Some: "(\<And>x. x \<in> set xs \<Longrightarrow> f x = Some (g x)) \<Longrightarrow> those (map f xs) = Some (map g xs)"
  by (induction xs) auto

lemma of_char_lt: "(of_char c :: nat) < 256"
  using mod_less_divisor [of 256 "of_char c :: nat"] by simp

lemma RawURLDecode_Encode: "RawURLDecode (RawURLEncode s) = Some s"
proof -
  let ?bs = "map of_char s :: nat list"
  have b: "\<forall>b \<in> set ?bs. b < 256" using of_char_lt by auto
  have v: "v < 64" if "v \<in> set (sextets ?bs)" for v by (rule sextets_bound [OF b that])
  have "filter (\<lambda>c. c \<noteq> CHR 0x0A \<and> c \<noteq> CHR 0x0D) (RawURLEncode s) = RawURLEncode s"
    using v b64_char_not_newline
    by (auto simp: RawURLEncode_def b64_encode_sextets filter_id_conv)
  moreover have "those (map b64_val (RawURLEncode s)) = Some (sextets ?bs)"
    using v those_map_Some [of "sextets ?bs" "b64_val \<circ> b64_char" "\<lambda>x. x"]
    by (simp add: RawURLEncode_def b64_encode_sextets)
  ultimately show ?thesis
    using b64_decode_sextets [OF b] by (simp add: RawURLDecode_def comp_def)
qed

section \<open>Cursors\<close>

text \<open>\<open>CursorKey\<close>: the unix seconds of the active order column.\<close>

definition CursorKey :: "Entry \<Rightarrow> Order \<Rightarrow> int" where
  "CursorKey e ord =
     (case (ord, e_ReadAt e) of
        (OrderReadAtDesc, Some t) \<Rightarrow> time_unix t
      | _ \<Rightarrow> time_unix (e_PublishedAt e))"

definition EncodeCursor :: "Cursor \<Rightarrow> string" where
  "EncodeCursor c =
     (let raw = FormatInt (cur_Key c) @ '':'' @ FormatInt (cur_ID c) in RawURLEncode raw)"

text \<open>\<open>strings.SplitN(s, ":", 2)\<close>: the text before the first colon and the text after it, or the
  whole string alone when there is none.\<close>

definition split_colon :: "string \<Rightarrow> string list" where
  "split_colon s =
     (let a = takeWhile (\<lambda>c. c \<noteq> CHR '':'') s in
      if length a = length s then [s] else [a, drop (Suc (length a)) s])"

definition DecodeCursor :: "string \<Rightarrow> Cursor option" where
  "DecodeCursor s =
     (case RawURLDecode s of
        None \<Rightarrow> None
      | Some b \<Rightarrow>
          (case split_colon b of
             [p0, p1] \<Rightarrow>
               (case (ParseInt p0, ParseInt p1) of
                  (Some key, Some n) \<Rightarrow> Some \<lparr>cur_Key = key, cur_ID = n\<rparr>
                | _ \<Rightarrow> None)
           | _ \<Rightarrow> None))"

lemma takeWhile_stop: "x \<notin> set a \<Longrightarrow> takeWhile (\<lambda>c. c \<noteq> x) (a @ x # b) = a"
  by (induction a) auto

lemma split_colon_append:
  "CHR '':'' \<notin> set a \<Longrightarrow> split_colon (a @ CHR '':'' # b) = [a, b]"
  by (simp add: split_colon_def takeWhile_stop)

text \<open>A cursor survives the trip through its text form, for every key and id an \<open>int64\<close> can
  hold (the only values the fields can have).\<close>

lemma cursor_roundtrip:
  assumes "in_i64 (cur_Key c)" and "in_i64 (cur_ID c)"
  shows "DecodeCursor (EncodeCursor c) = Some c"
  using assms
  by (simp add: DecodeCursor_def EncodeCursor_def RawURLDecode_Encode split_colon_append
      FormatInt_no_colon ParseInt_FormatInt)

end
