(* ===== verification/SqliteEntries.thy ===== *)
theory SqliteEntries
  imports SqliteStore CursorCodec
begin

text \<open>
  \<open>internal/store/sqlite/entries.go\<close>, operation by operation, with \<open>PlainText\<close> of
  \<open>internal/core/text.go\<close>. The wall clock that \<open>time.Now()\<close> reads is the argument \<open>wall\<close>;
  \<open>html.UnescapeString\<close>, a table of some two thousand entities, is the argument \<open>unesc\<close>.
\<close>

section \<open>\<open>core.PlainText\<close>\<close>

text \<open>\<open>plainTextTagRE.ReplaceAllString(s, " ")\<close> for the expression \<open><[^>]*>\<close>: from a \<open><\<close> to the next
  \<open>></\<close>; without one there is no match.\<close>

fun strip_tags :: "string \<Rightarrow> string" where
  "strip_tags [] = []"
| "strip_tags (c # cs) =
     (if c = CHR ''<'' \<and> CHR ''>'' \<in> set cs
      then CHR '' '' # strip_tags (drop (Suc (length (takeWhile (\<lambda>x. x \<noteq> CHR ''>'') cs))) cs)
      else c # strip_tags cs)"

definition PlainText :: "(string \<Rightarrow> string) \<Rightarrow> string \<Rightarrow> string" where
  "PlainText unesc s = join_with '' '' (Fields (unesc (strip_tags s)))"

section \<open>Rows and entries\<close>

definition status_of :: "string \<Rightarrow> EntryStatus" where
  "status_of s = (if s = ''unread'' then StatusUnread else if s = ''read'' then StatusRead
     else StatusOther s)"

fun status_str :: "EntryStatus \<Rightarrow> string" where
  "status_str StatusUnread = ''unread''"
| "status_str StatusRead = ''read''"
| "status_str (StatusOther s) = s"

definition extract_of :: "string \<Rightarrow> ExtractState" where
  "extract_of s = (if s = ''none'' then ExtractNone else if s = ''pending'' then ExtractPending
     else if s = ''done'' then ExtractDone else if s = ''failed'' then ExtractFailed
     else ExtractOther s)"

fun extract_str :: "ExtractState \<Rightarrow> string" where
  "extract_str ExtractNone = ''none''"
| "extract_str ExtractPending = ''pending''"
| "extract_str ExtractDone = ''done''"
| "extract_str ExtractFailed = ''failed''"
| "extract_str (ExtractOther s) = s"

definition entryFromRow :: "EntryRow \<Rightarrow> Entry" where
  "entryFromRow r = \<lparr>e_ID = er_ID r, e_UserID = er_UserID r, e_FeedID = er_FeedID r,
     e_GUID = er_Guid r, e_URL = er_Url r, e_Title = er_Title r, e_Author = er_Author r,
     e_Content = er_Content r, e_Summary = er_Summary r, e_PublishedAt = fromUnix (er_PublishedAt r),
     e_Status = status_of (er_Status r), e_Starred = (er_Starred r \<noteq> 0),
     e_ReadAt = ptrUnix (er_ReadAt r), e_CreatedAt = fromUnix (er_CreatedAt r), e_Hash = er_Hash r,
     e_CommentsURL = er_CommentsUrl r, e_ExtractState = extract_of (er_ExtractState r),
     e_ExtractAttempts = er_ExtractAttempts r, e_ExtractError = er_ExtractError r\<rparr>"

text \<open>\<open>substr(x, 1, n)\<close> of SQLite: the first \<open>n\<close> characters, where a byte from \<open>0xC0\<close> up takes the
  continuation bytes after it along, up to a NUL byte.\<close>

fun substr1 :: "nat \<Rightarrow> string \<Rightarrow> string" where
  "substr1 0 s = []"
| "substr1 (Suc n) [] = []"
| "substr1 (Suc n) (c # s) =
     (if c = CHR 0x00 then []
      else if 0xC0 \<le> (of_char c :: nat)
        then (let k = takeWhile (\<lambda>x. 0x80 \<le> (of_char x :: nat) \<and> of_char x < (0xC0 :: nat)) s
              in c # k @ substr1 n (drop (length k) s))
      else c # substr1 n s)"

text \<open>The sixteen columns of a list row; the other fields of the row keep Go's zero values.\<close>

definition scanEntry :: "EntryRow \<Rightarrow> Entry" where
  "scanEntry r = entryFromRow (r\<lparr>er_Content := substr1 2048 (er_Content r),
     er_Summary := substr1 2048 (er_Summary r), er_ExtractState := [], er_ExtractAttempts := 0,
     er_NextExtractAt := None, er_ExtractError := [], er_ContentText := [], er_SummaryText := []\<rparr>)"

section \<open>Upsert\<close>

text \<open>The parameters of \<open>InsertEntry\<close>, \<open>UpdateEntryContent\<close> and \<open>UpdateEntryMetadata\<close>.\<close>

definition entry_params ::
  "(string \<Rightarrow> string) \<Rightarrow> int \<Rightarrow> int \<Rightarrow> ExtractState \<Rightarrow> Entry \<Rightarrow> EntryRow" where
  "entry_params unesc i fid st e = \<lparr>er_ID = i, er_UserID = e_UserID e, er_FeedID = fid,
     er_Guid = e_GUID e, er_Url = e_URL e, er_Title = e_Title e, er_Author = e_Author e,
     er_Content = e_Content e, er_Summary = e_Summary e, er_PublishedAt = toUnix (e_PublishedAt e),
     er_Status = [], er_Starred = 0, er_ReadAt = None, er_CreatedAt = toUnix (e_CreatedAt e),
     er_Hash = e_Hash e, er_ExtractState = extract_str st, er_ExtractAttempts = 0,
     er_NextExtractAt = (if st = ExtractPending then nullUnix (Some (e_CreatedAt e)) else None),
     er_ExtractError = [], er_ContentText = PlainText unesc (e_Content e),
     er_SummaryText = PlainText unesc (e_Summary e), er_CommentsUrl = e_CommentsURL e\<rparr>"

text \<open>\<open>errors.Is(err, sql.ErrNoRows)\<close> goes to \<open>n\<close>; other errors leave through \<open>mapErr\<close>.\<close>

definition if_no_rows :: "'a op \<Rightarrow> 'b op \<Rightarrow> ('a \<Rightarrow> 'b op) \<Rightarrow> 'b op" where
  "if_no_rows m n k = catchE m (\<lambda>e. if err_is SNoRows e then n else throwE (mapErr e)) k"

text \<open>The body of the loop of \<open>UpsertEntries\<close>; the accumulator is \<open>inserted\<close>.\<close>

definition upsert_one ::
  "(string \<Rightarrow> string) \<Rightarrow> ctx \<Rightarrow> ID \<Rightarrow> ExtractState \<Rightarrow> Entry list \<Rightarrow> Entry \<Rightarrow> Entry list op" where
  "upsert_one unesc cx fid ins acc e =
     if_no_rows (exec cx (sql_TombstoneExists fid (e_GUID e)))
       (if_no_rows (exec cx (sql_GetEntryByGUID fid (e_GUID e)))
          (bindE (mapped (exec cx (sql_InsertEntry (entry_params unesc 0 fid ins e))))
             (\<lambda>i. returnE (acc @ [e\<lparr>e_ID := i, e_Status := StatusUnread, e_ExtractState := ins\<rparr>])))
          (\<lambda>(i, h, st).
             if h \<noteq> e_Hash e then
               bindE (mapped (exec cx
                 (if st = extract_str ExtractDone
                  then sql_UpdateEntryMetadata (entry_params unesc i fid ins e)
                  else sql_UpdateEntryContent (entry_params unesc i fid ins e))))
                 (\<lambda>_. returnE acc)
             else returnE acc))
       (\<lambda>_. returnE acc)"

definition UpsertEntries ::
  "(string \<Rightarrow> string) \<Rightarrow> ctx \<Rightarrow> ID \<Rightarrow> Entry list \<Rightarrow> Entry list op" where
  "UpsertEntries unesc cx fid es =
     in_tx cx
       (if_no_rows (exec cx (sql_GetFeedFullContent fid)) (returnE [])
          (\<lambda>ff. bindE (foldE (upsert_one unesc cx fid (if ff = 1 then ExtractPending else ExtractNone)) [] es)
             (\<lambda>inserted. bindE (mapped Commit) (\<lambda>_. returnE inserted))))"

section \<open>Reading\<close>

definition GetEntry :: "ctx \<Rightarrow> ID \<Rightarrow> ID \<Rightarrow> Entry op" where
  "GetEntry cx uid i =
     bindE (mapped (exec cx (sql_GetEntry i uid))) (\<lambda>r. returnE (entryFromRow r))"

text \<open>The order column of \<open>ListEntries\<close>; a history row has a \<open>read_at\<close>.\<close>

definition order_key :: "Order \<Rightarrow> EntryRow \<Rightarrow> int" where
  "order_key ord r = (case ord of OrderPublishedDesc \<Rightarrow> er_PublishedAt r
     | OrderReadAtDesc \<Rightarrow> (case er_ReadAt r of None \<Rightarrow> 0 | Some t \<Rightarrow> t))"

text \<open>The \<open>WHERE\<close> built from the filter, without the cursor. The join with \<open>feeds\<close> is on its primary
  key, so it yields at most one row per entry.\<close>

definition in_category :: "db \<Rightarrow> int option \<Rightarrow> EntryRow \<Rightarrow> bool" where
  "in_category d cat r \<longleftrightarrow> (\<exists>f \<in> set (feeds d). fr_ID f = er_FeedID r \<and> fr_CategoryID f = cat)"

definition list_where :: "db \<Rightarrow> ID \<Rightarrow> EntryFilter \<Rightarrow> EntryRow \<Rightarrow> bool" where
  "list_where d uid f r \<longleftrightarrow> er_UserID r = uid
     \<and> (fl_FeedID f = None \<or> fl_FeedID f = Some (er_FeedID r))
     \<and> (fl_Status f = None \<or> status_str (the (fl_Status f)) = er_Status r)
     \<and> (fl_Starred f = None \<or> b2i (the (fl_Starred f)) = er_Starred r)
     \<and> (if fl_CategoryID f \<noteq> None then in_category d (fl_CategoryID f) r
        else fl_Uncategorised f \<longrightarrow> in_category d None r)
     \<and> (fl_Order f = OrderReadAtDesc \<longrightarrow> er_ReadAt r \<noteq> None)"

definition after_cursor :: "EntryFilter \<Rightarrow> EntryRow \<Rightarrow> bool" where
  "after_cursor f r \<longleftrightarrow> (case fl_Cursor f of None \<Rightarrow> True
     | Some c \<Rightarrow> order_key (fl_Order f) r < cur_Key c
         \<or> order_key (fl_Order f) r = cur_Key c \<and> er_ID r < cur_ID c)"

definition page_limit :: "EntryFilter \<Rightarrow> int" where
  "page_limit f = (if fl_Limit f \<le> 0 \<or> 200 < fl_Limit f then 50 else fl_Limit f)"

definition sql_list_entries :: "ID \<Rightarrow> EntryFilter \<Rightarrow> EntryRow list stmt" where
  "sql_list_entries uid f d =
     (Inr (limit_rows (page_limit f + 1) (newest_first (order_key (fl_Order f))
        (filter (\<lambda>r. list_where d uid f r \<and> after_cursor f r) (entries d)))), d)"

definition ListEntries :: "ctx \<Rightarrow> ID \<Rightarrow> EntryFilter \<Rightarrow> (Entry list \<times> Cursor option) op" where
  "ListEntries cx uid f =
     bindE (mapped (exec cx (sql_list_entries uid f)))
       (\<lambda>rs. let out = map scanEntry rs; n = nat (page_limit f) in
          if n < length out
          then let l = out ! (n - 1) in
               returnE (take n out, Some \<lparr>cur_Key = CursorKey l (fl_Order f), cur_ID = e_ID l\<rparr>)
          else returnE (out, None))"

definition ListPendingExtractions :: "ctx \<Rightarrow> time \<Rightarrow> int \<Rightarrow> Entry list op" where
  "ListPendingExtractions cx now lm =
     bindE (mapped (exec cx (sql_ListPendingExtractions (Some (toUnix now)) lm)))
       (\<lambda>rs. returnE (map entryFromRow rs))"

section \<open>Writing\<close>

definition SetStatus :: "time \<Rightarrow> ctx \<Rightarrow> ID \<Rightarrow> ID list \<Rightarrow> EntryStatus \<Rightarrow> unit op" where
  "SetStatus wall cx uid is st =
     (if is = [] then returnE ()
      else let readAt = (if st = StatusRead then Some (toUnix wall) else None) in
        mapped (exec cx (exec_only (update_entries (\<lambda>r. er_UserID r = uid \<and> er_ID r \<in> set is)
          (\<lambda>r. r\<lparr>er_Status := status_str st, er_ReadAt := readAt\<rparr>)))))"

definition SetStarred :: "ctx \<Rightarrow> ID \<Rightarrow> ID list \<Rightarrow> bool \<Rightarrow> unit op" where
  "SetStarred cx uid is starred =
     (if is = [] then returnE ()
      else mapped (exec cx (exec_only (update_entries (\<lambda>r. er_UserID r = uid \<and> er_ID r \<in> set is)
          (\<lambda>r. r\<lparr>er_Starred := b2i starred\<rparr>)))))"

text \<open>The selection of \<open>MarkReadByFilter\<close>: the feed, else the category, else the uncategorised
  feeds, else everything; always unread.\<close>

definition mark_where :: "db \<Rightarrow> ID \<Rightarrow> EntryFilter \<Rightarrow> EntryRow \<Rightarrow> bool" where
  "mark_where d uid f r \<longleftrightarrow> er_UserID r = uid \<and> er_Status r = ''unread''
     \<and> (let own = (\<lambda>cat. \<exists>x \<in> set (feeds d). fr_UserID x = uid \<and> fr_CategoryID x = cat
                    \<and> fr_ID x = er_FeedID r) in
        if fl_FeedID f \<noteq> None then fl_FeedID f = Some (er_FeedID r)
        else if fl_CategoryID f \<noteq> None then own (fl_CategoryID f)
        else fl_Uncategorised f \<longrightarrow> own None)"

definition sql_mark_read :: "int \<Rightarrow> ID \<Rightarrow> EntryFilter \<Rightarrow> int stmt" where
  "sql_mark_read now uid f d = update_entries (mark_where d uid f)
     (\<lambda>r. r\<lparr>er_Status := ''read'', er_ReadAt := Some now\<rparr>) d"

definition MarkReadByFilter :: "time \<Rightarrow> ctx \<Rightarrow> ID \<Rightarrow> EntryFilter \<Rightarrow> int op" where
  "MarkReadByFilter wall cx uid f = mapped (exec cx (sql_mark_read (toUnix wall) uid f))"

definition DeleteEntry :: "time \<Rightarrow> ctx \<Rightarrow> ID \<Rightarrow> ID \<Rightarrow> unit op" where
  "DeleteEntry wall cx uid i =
     bindE (GetEntry cx uid i)
       (\<lambda>e. in_tx cx
         (bindE (mapped (exec cx (sql_InsertTombstone (e_FeedID e) (e_GUID e) (toUnix wall))))
           (\<lambda>_. bindE (mapped (exec cx (sql_DeleteEntry i uid)))
             (\<lambda>n. if n = 0 then throwE ErrNotFound
              else bindE (mapped Commit) (\<lambda>_. returnE ())))))"

definition SetEntryContent :: "(string \<Rightarrow> string) \<Rightarrow> ctx \<Rightarrow> ID \<Rightarrow> string \<Rightarrow> unit op" where
  "SetEntryContent unesc cx i content =
     mapped (exec cx (sql_SetEntryContent content (PlainText unesc content) i))"

definition UpdateExtractState ::
  "ctx \<Rightarrow> ID \<Rightarrow> ExtractState \<Rightarrow> int \<Rightarrow> time option \<Rightarrow> string \<Rightarrow> unit op" where
  "UpdateExtractState cx i st attempts next reason =
     mapped (exec cx (sql_UpdateExtractState (extract_str st) attempts (nullUnix next) reason i))"

section \<open>Deduplication before ingest\<close>

text \<open>The guids are looked up in batches of 500.\<close>

definition sql_guid_hashes :: "ID \<Rightarrow> string list \<Rightarrow> (string \<times> string) list stmt" where
  "sql_guid_hashes fid gs d =
     (Inr (map (\<lambda>r. (er_Guid r, er_Hash r))
        (filter (\<lambda>r. er_FeedID r = fid \<and> er_Guid r \<in> set gs) (entries d))), d)"

definition sql_guid_tombstones :: "ID \<Rightarrow> string list \<Rightarrow> string list stmt" where
  "sql_guid_tombstones fid gs d =
     (Inr (map tb_Guid (filter (\<lambda>t. tb_FeedID t = fid \<and> tb_Guid t \<in> set gs) (tombstones d))), d)"

function batches :: "nat \<Rightarrow> 'a list \<Rightarrow> 'a list list" where
  "batches n xs = (if xs = [] then [] else if n = 0 then [xs] else take n xs # batches n (drop n xs))"
  by pat_completeness auto
termination
  by (relation "measure (\<lambda>(n, xs). length xs)") auto

declare batches.simps [simp del]

definition dedup_batch ::
  "ctx \<Rightarrow> ID \<Rightarrow> (string \<Rightarrow> string option) \<times> (string \<Rightarrow> bool) \<Rightarrow> string list
     \<Rightarrow> ((string \<Rightarrow> string option) \<times> (string \<Rightarrow> bool)) op" where
  "dedup_batch cx fid acc gs = (case acc of (existing, dead) \<Rightarrow>
     bindE (mapped (exec cx (sql_guid_hashes fid gs)))
       (\<lambda>hs. bindE (mapped (exec cx (sql_guid_tombstones fid gs)))
         (\<lambda>ts. returnE (foldl (\<lambda>m (g, h). m(g \<mapsto> h)) existing hs,
                        foldl (\<lambda>m g. m(g := True)) dead ts))))"

definition EntryDedup ::
  "ctx \<Rightarrow> ID \<Rightarrow> string list \<Rightarrow> ((string \<Rightarrow> string option) \<times> (string \<Rightarrow> bool)) op" where
  "EntryDedup cx fid guids =
     foldE (dedup_batch cx fid) (Map.empty, \<lambda>_. False) (batches 500 guids)"

lemmas entry_op_defs = UpsertEntries_def GetEntry_def ListEntries_def ListPendingExtractions_def
  SetStatus_def SetStarred_def MarkReadByFilter_def DeleteEntry_def SetEntryContent_def
  UpdateExtractState_def EntryDedup_def

end
