(* ===== verification/UpsertSpec.thy ===== *)
theory UpsertSpec
  imports SqliteEntries
begin

text \<open>
  What \<open>UpsertEntries\<close> promises: the effect of one entry and of a batch as pure functions of the
  database, the refinement of the transaction to them (all or nothing, under every sequence of
  driver faults), and what the effect keeps: the user's state, tombstones, scraped articles.
\<close>

section \<open>The effect of a batch\<close>

definition entry_at :: "db \<Rightarrow> int \<Rightarrow> string \<Rightarrow> EntryRow option" where
  "entry_at d fid g = find (entry_key fid g) (entries d)"

definition tombstoned :: "db \<Rightarrow> int \<Rightarrow> string \<Rightarrow> bool" where
  "tombstoned d fid g \<longleftrightarrow> (\<exists>t \<in> set (tombstones d). tomb_key fid g t)"

text \<open>A new row, and the columns a changed entry refreshes: the content only while no scraped article
  is in it.\<close>

definition new_row :: "(string \<Rightarrow> string) \<Rightarrow> ExtractState \<Rightarrow> int \<Rightarrow> Entry \<Rightarrow> int \<Rightarrow> EntryRow" where
  "new_row unesc ins fid e i = (entry_params unesc i fid ins e)\<lparr>er_Status := ''unread''\<rparr>"

definition refresh :: "(string \<Rightarrow> string) \<Rightarrow> ExtractState \<Rightarrow> int \<Rightarrow> Entry \<Rightarrow> EntryRow \<Rightarrow> EntryRow \<Rightarrow> EntryRow" where
  "refresh unesc ins fid e old =
     (if er_ExtractState old = ''done'' then metadata_cols else content_cols)
       (entry_params unesc (er_ID old) fid ins e)"

definition put_entry :: "(string \<Rightarrow> string) \<Rightarrow> ExtractState \<Rightarrow> int \<Rightarrow> Entry \<Rightarrow> db \<Rightarrow> db" where
  "put_entry unesc ins fid e d =
     (if tombstoned d fid (e_GUID e) then d
      else case entry_at d fid (e_GUID e) of
        None \<Rightarrow> d\<lparr>entries := entries d @ [new_row unesc ins fid e (max_id er_ID (entries d) + 1)]\<rparr>
      | Some old \<Rightarrow>
          if er_Hash old = e_Hash e then d
          else d\<lparr>entries := upd_where (entry_is (er_ID old) (e_UserID e))
                  (refresh unesc ins fid e old) (entries d)\<rparr>)"

definition put_new :: "ExtractState \<Rightarrow> int \<Rightarrow> Entry \<Rightarrow> db \<Rightarrow> Entry list" where
  "put_new ins fid e d =
     (if tombstoned d fid (e_GUID e) \<or> entry_at d fid (e_GUID e) \<noteq> None then []
      else [e\<lparr>e_ID := max_id er_ID (entries d) + 1, e_Status := StatusUnread, e_ExtractState := ins\<rparr>])"

fun put_all :: "(string \<Rightarrow> string) \<Rightarrow> ExtractState \<Rightarrow> int \<Rightarrow> Entry list \<Rightarrow> db \<Rightarrow> db" where
  "put_all unesc ins fid [] d = d"
| "put_all unesc ins fid (e # es) d = put_all unesc ins fid es (put_entry unesc ins fid e d)"

fun put_all_new :: "(string \<Rightarrow> string) \<Rightarrow> ExtractState \<Rightarrow> int \<Rightarrow> Entry list \<Rightarrow> db \<Rightarrow> Entry list" where
  "put_all_new unesc ins fid [] d = []"
| "put_all_new unesc ins fid (e # es) d =
     put_new ins fid e d @ put_all_new unesc ins fid es (put_entry unesc ins fid e d)"

section \<open>The transaction refines the effect\<close>

lemma if_no_rows_Inr:
  assumes "if_no_rows (exec None s) n k c = (Inr b, c')" and "faults_ok c"
  obtains e c1 where "s (cn_db c) = (Inl e, cn_db c1)" "err_is SNoRows e" "cn_saved c1 = cn_saved c"
      "faults_ok c1" "n c1 = (Inr b, c')"
  | a c1 where "s (cn_db c) = (Inr a, cn_db c1)" "cn_saved c1 = cn_saved c" "faults_ok c1"
      "k a c1 = (Inr b, c')"
  using assms(1) unfolding if_no_rows_def catchE_Inr
proof (elim disjE exE conjE)
  fix e c1
  assume e: "exec None s c = (Inl e, c1)"
    and n: "(if err_is SNoRows e then n else throwE (mapErr e)) c1 = (Inr b, c')"
  from n have "err_is SNoRows e" "n c1 = (Inr b, c')" by (auto split: if_splits)
  with exec_Inl [OF e assms(2)] that(1) show thesis by blast
next
  fix a c1
  assume "exec None s c = (Inr a, c1)" "k a c1 = (Inr b, c')"
  with exec_Inr [of None s c a c1] assms(2) that(2) show thesis by blast
qed

lemma query_row_simps [simp]:
  "query_row x = Inr a \<longleftrightarrow> x = Some a" "query_row x = Inl e \<longleftrightarrow> x = None \<and> e = ErrNoRows"
  by (auto simp: query_row_def split: option.split)

lemma find_tomb: "find (tomb_key fid g) (tombstones d) = None \<longleftrightarrow> \<not> tombstoned d fid g"
  by (auto simp: tombstoned_def find_None_iff_all)

lemma update_entries_Inr:
  "update_entries P f d = (Inr n, d') \<Longrightarrow> d' = d\<lparr>entries := upd_where P f (entries d)\<rparr>"
  by (auto simp: update_entries_def split: option.splits)

lemma exec_only_Inr: "exec_only s d = (Inr u, d') \<longleftrightarrow> (\<exists>n. s d = (Inr n, d'))"
  by (cases "s d") (auto simp: exec_only_def map_sum_def split: sum.splits)

lemma sql_InsertEntry_Inr:
  assumes "sql_InsertEntry (entry_params unesc 0 fid ins e) d = (Inr i, d')"
  shows "i = max_id er_ID (entries d) + 1 \<and> d' = d\<lparr>entries := entries d @ [new_row unesc ins fid e i]\<rparr>"
proof -
  have "(entry_params unesc 0 fid ins e)\<lparr>er_ID := k, er_Status := ''unread'', er_Starred := 0,
      er_ReadAt := None, er_ExtractAttempts := 0, er_ExtractError := []\<rparr> = new_row unesc ins fid e k" for k
    by (simp add: new_row_def entry_params_def)
  with assms show ?thesis by (auto simp: sql_InsertEntry_def Let_def split: option.splits if_splits)
qed

lemma upsert_one_Inr:
  assumes "upsert_one unesc None fid ins acc e c = (Inr acc', c')" and "faults_ok c"
  shows "acc' = acc @ put_new ins fid e (cn_db c) \<and> cn_db c' = put_entry unesc ins fid e (cn_db c)
     \<and> cn_saved c' = cn_saved c \<and> faults_ok c'"
  using assms unfolding upsert_one_def
proof (cases rule: if_no_rows_Inr)
  case (1 err c1)
  then have t: "\<not> tombstoned (cn_db c) fid (e_GUID e)" and db1: "cn_db c1 = cn_db c"
    by (auto simp: sql_TombstoneExists_def find_tomb)
  from 1(5,4) show ?thesis
  proof (cases rule: if_no_rows_Inr)
    case (1 err2 c2)
    then have n: "entry_at (cn_db c) fid (e_GUID e) = None" and db2: "cn_db c2 = cn_db c"
      using db1 by (auto simp: sql_GetEntryByGUID_def entry_at_def)
    from 1(5) obtain i c3 where i: "exec None (sql_InsertEntry (entry_params unesc 0 fid ins e)) c2 = (Inr i, c3)"
      and r: "acc' = acc @ [e\<lparr>e_ID := i, e_Status := StatusUnread, e_ExtractState := ins\<rparr>]" "c' = c3"
      by (auto simp: op_Inr)
    from sql_InsertEntry_Inr [OF exec_Inr(1) [OF i]] db2 have
      ic: "i = max_id er_ID (entries (cn_db c)) + 1"
      "cn_db c3 = (cn_db c)\<lparr>entries := entries (cn_db c) @ [new_row unesc ins fid e i]\<rparr>"
      by simp_all
    have "cn_db c3 = put_entry unesc ins fid e (cn_db c)" using t n ic by (simp add: put_entry_def)
    moreover have "acc' = acc @ put_new ins fid e (cn_db c)" using t n ic(1) r by (simp add: put_new_def)
    ultimately show ?thesis
      using r exec_Inr(2,3) [OF i] 1(3,4) \<open>cn_saved c1 = cn_saved c\<close> by simp
  next
    case (2 a c2)
    obtain i h st where a: "a = (i, h, st)" by (cases a)
    from 2(1) db1 have db2: "cn_db c2 = cn_db c" by (simp add: sql_GetEntryByGUID_def)
    from 2(1) [unfolded db1 sql_GetEntryByGUID_def a] obtain old where
      o: "entry_at (cn_db c) fid (e_GUID e) = Some old"
      "i = er_ID old" "h = er_Hash old" "st = er_ExtractState old"
      unfolding entry_at_def [symmetric] prod.inject query_row_simps by auto
    show ?thesis
    proof (cases "h = e_Hash e")
      case True
      then show ?thesis
        using 2(2-4) t o db2 a \<open>cn_saved c1 = cn_saved c\<close>
        by (simp add: put_entry_def put_new_def op_Inr)
    next
      case False
      with 2(4) a obtain u c3 where u: "exec None (if st = extract_str ExtractDone
          then sql_UpdateEntryMetadata (entry_params unesc i fid ins e)
          else sql_UpdateEntryContent (entry_params unesc i fid ins e)) c2 = (Inr u, c3)"
        and r: "acc' = acc" "c' = c3"
        by (auto simp: op_Inr)
      have "cn_db c3 = (cn_db c2)\<lparr>entries := upd_where (entry_is i (e_UserID e))
          (refresh unesc ins fid e old) (entries (cn_db c2))\<rparr>"
        using exec_Inr(1) [OF u] o(2,4)
        by (auto simp: sql_UpdateEntryMetadata_def sql_UpdateEntryContent_def exec_only_Inr refresh_def
            entry_params_def split: if_splits dest!: update_entries_Inr)
      then show ?thesis
        using t o db2 False r 2(2,3) exec_Inr(2,3) [OF u] \<open>cn_saved c1 = cn_saved c\<close>
        by (simp add: put_entry_def put_new_def)
    qed
  qed
next
  case (2 a c1)
  from 2(1) have "cn_db c1 = cn_db c" by (simp add: sql_TombstoneExists_def)
  moreover from 2(1) have "find (tomb_key fid (e_GUID e)) (tombstones (cn_db c)) \<noteq> None"
    by (auto simp: sql_TombstoneExists_def)
  then have "tombstoned (cn_db c) fid (e_GUID e)" by (simp add: find_tomb)
  ultimately show ?thesis using 2 by (simp add: put_entry_def put_new_def op_Inr)
qed

lemma upsert_fold_Inr:
  "foldE (upsert_one unesc None fid ins) acc es c = (Inr acc', c') \<Longrightarrow> faults_ok c \<Longrightarrow>
   acc' = acc @ put_all_new unesc ins fid es (cn_db c) \<and> cn_db c' = put_all unesc ins fid es (cn_db c)
     \<and> cn_saved c' = cn_saved c \<and> faults_ok c'"
proof (induction es arbitrary: acc c)
  case Nil
  then show ?case by (simp add: op_Inr)
next
  case (Cons e es)
  from Cons.prems obtain acc1 c1 where 1: "upsert_one unesc None fid ins acc e c = (Inr acc1, c1)"
    and 2: "foldE (upsert_one unesc None fid ins) acc1 es c1 = (Inr acc', c')"
    by (auto simp: op_Inr)
  from upsert_one_Inr [OF 1] Cons.IH [OF 2] Cons.prems(2) show ?case by simp
qed

lemma tx_safe_if_no_rows:
  "tx_safe n \<Longrightarrow> (\<And>a. tx_safe (k a)) \<Longrightarrow> tx_safe (if_no_rows (exec cx s) n k)"
proof -
  assume n: "tx_safe n" and k: "\<And>a. tx_safe (k a)"
  show ?thesis
    unfolding tx_safe_def if_no_rows_def catchE_def
  proof (intro allI impI)
    fix c d e
    assume c: "cn_saved c = Some d"
      and e: "fst (case exec cx s c of (Inl e, c') \<Rightarrow> (if err_is SNoRows e then n else throwE (mapErr e)) c'
        | (Inr a, c') \<Rightarrow> k a c') = Inl e"
    obtain r c1 where x: "exec cx s c = (r, c1)" by (cases "exec cx s c")
    then have s1: "cn_saved c1 = Some d" using c stays_exec [of cx s] by (metis snd_conv stays_def)
    show "cn_db (Rollback (snd (case exec cx s c of (Inl e, c') \<Rightarrow>
        (if err_is SNoRows e then n else throwE (mapErr e)) c' | (Inr a, c') \<Rightarrow> k a c'))) = d"
    proof (cases r)
      case (Inl x1)
      show ?thesis
      proof (cases "err_is SNoRows x1")
        case True
        then show ?thesis using e x s1 n Inl by (simp add: tx_safe_def)
      next
        case False
        then show ?thesis using x s1 Inl by (simp add: throwE_def Rollback_def)
      qed
    next
      case (Inr a)
      then show ?thesis using e x s1 k [of a] by (simp add: tx_safe_def)
    qed
  qed
qed

lemma stays_if_no_rows [stays_intros]:
  "stays n \<Longrightarrow> (\<And>a. stays (k a)) \<Longrightarrow> stays (if_no_rows (exec cx s) n k)"
  unfolding if_no_rows_def by (intro stays_catchE stays_exec) (auto intro: stays_throwE)

lemma stays_upsert_one [stays_intros]: "stays (upsert_one unesc cx fid ins acc e)"
  unfolding upsert_one_def
  by (intro stays_if_no_rows stays_bindE stays_mapped stays_exec stays_returnE)
    (auto split: prod.split intro: stays_bindE stays_mapped stays_exec stays_returnE)

text \<open>The extract state the feed's row asks new entries to have.\<close>

definition insert_state :: "db \<Rightarrow> int \<Rightarrow> ExtractState" where
  "insert_state d fid =
     (if \<exists>f. find (\<lambda>r. fr_ID r = fid) (feeds d) = Some f \<and> fr_FetchFullContent f = 1
      then ExtractPending else ExtractNone)"

lemma upsert_refines:
  assumes "faults_ok c"
  shows "case UpsertEntries unesc cx fid es c of
      (Inl e, c') \<Rightarrow> cn_db c' = cn_db c
    | (Inr inserted, c') \<Rightarrow>
        if fid \<in> fr_ID ` set (feeds (cn_db c))
        then cn_db c' = put_all unesc (insert_state (cn_db c) fid) fid es (cn_db c)
          \<and> inserted = put_all_new unesc (insert_state (cn_db c) fid) fid es (cn_db c)
        else cn_db c' = cn_db c \<and> inserted = []"
proof -
  obtain r c' where u: "UpsertEntries unesc cx fid es c = (r, c')"
    by (cases "UpsertEntries unesc cx fid es c")
  show ?thesis
  proof (cases r)
    case (Inl e)
    have "tx_safe (if_no_rows (exec cx (sql_GetFeedFullContent fid)) (returnE [])
        (\<lambda>ff. bindE (foldE (upsert_one unesc cx fid (if ff = 1 then ExtractPending else ExtractNone)) [] es)
           (\<lambda>inserted. bindE (mapped Commit) (\<lambda>_. returnE inserted))))"
      by (intro tx_safe_if_no_rows stays_tx_safe [OF stays_returnE] tx_safe_bindE stays_foldE
          stays_upsert_one tx_safe_Commit)
    then have "cn_db c' = cn_db c"
      using in_tx_atomic [where c = c and cx = cx and e = e] u Inl
      unfolding UpsertEntries_def by (metis fst_conv snd_conv)
    then show ?thesis using u Inl by simp
  next
    case (Inr inserted)
    with u obtain c1 c2 where cx: "cx = None" and c1: "cn_db c1 = cn_db c" "faults_ok c1"
      and body: "if_no_rows (exec cx (sql_GetFeedFullContent fid)) (returnE [])
        (\<lambda>ff. bindE (foldE (upsert_one unesc cx fid (if ff = 1 then ExtractPending else ExtractNone)) [] es)
           (\<lambda>inserted. bindE (mapped Commit) (\<lambda>_. returnE inserted))) c1 = (Inr inserted, c2)"
      and c': "c' = Rollback c2" and s1: "cn_saved c1 = Some (cn_db c)"
      using assms unfolding UpsertEntries_def by (auto elim!: in_tx_Inr)
    let ?find = "find (\<lambda>r. fr_ID r = fid) (feeds (cn_db c))"
    have ex: "fid \<in> fr_ID ` set (feeds (cn_db c)) \<longleftrightarrow> ?find \<noteq> None"
      by (auto simp: find_None_iff_all)
    from body [unfolded cx] c1(2) show ?thesis
    proof (cases rule: if_no_rows_Inr)
      case (1 e c3)
      then have "?find = None" "cn_db c3 = cn_db c" using c1 by (auto simp: sql_GetFeedFullContent_def)
      with 1 s1 c' ex show ?thesis using u Inr by (simp add: op_Inr Rollback_def)
    next
      case (2 ff c3)
      from 2(1) c1(1) have db3: "cn_db c3 = cn_db c" by (simp add: sql_GetFeedFullContent_def)
      from 2(1) [unfolded c1(1) sql_GetFeedFullContent_def] obtain f where
        f: "?find = Some f" "ff = fr_FetchFullContent f"
        unfolding prod.inject query_row_simps by auto
      have st: "insert_state (cn_db c) fid = (if ff = 1 then ExtractPending else ExtractNone)"
        using f by (simp add: insert_state_def)
      from 2(4) obtain c4 where
        fold: "foldE (upsert_one unesc None fid (insert_state (cn_db c) fid)) [] es c3 = (Inr inserted, c4)"
        and com: "Commit c4 = (Inr (), c2)"
        by (auto simp: st op_Inr)
      from Commit_Inr [OF com] c' have "cn_db c' = cn_db c4" by simp
      with upsert_fold_Inr [OF fold 2(3)] db3
      have "cn_db c' = put_all unesc (insert_state (cn_db c) fid) fid es (cn_db c)"
        "inserted = put_all_new unesc (insert_state (cn_db c) fid) fid es (cn_db c)" by simp_all
      moreover have "fid \<in> fr_ID ` set (feeds (cn_db c))" using ex f(1) by simp
      ultimately show ?thesis unfolding u Inr by simp
    qed
  qed
qed

text \<open>C6. \<open>UpsertEntries\<close> is all or nothing: under every sequence of driver faults and every state of
  the context, an error leaves the database unchanged, and a success has exactly the effect of
  putting the entries one by one, new ones with the extract state of the feed's row at that moment;
  a feed deleted meanwhile takes nothing.\<close>

theorem upsert_all_or_nothing:
  assumes "faults_ok c"
  shows "case UpsertEntries unesc cx fid es c of
      (Inl e, c') \<Rightarrow> cn_db c' = cn_db c
    | (Inr inserted, c') \<Rightarrow>
        if fid \<in> fr_ID ` set (feeds (cn_db c))
        then cn_db c' = put_all unesc (insert_state (cn_db c) fid) fid es (cn_db c)
          \<and> inserted = put_all_new unesc (insert_state (cn_db c) fid) fid es (cn_db c)
        else cn_db c' = cn_db c \<and> inserted = []"
  by (rule upsert_refines [OF assms])

theorem upsert_all_or_nothing_witness:
  "cn_db (snd (UpsertEntries (\<lambda>s. s) None 1 [] \<lparr>cn_db = init_db, cn_faults = [None, Some (errors_New ''disk'')], cn_saved = None\<rparr>))
     = init_db"
  using upsert_all_or_nothing [where c = "\<lparr>cn_db = init_db,
      cn_faults = [None, Some (errors_New ''disk'')], cn_saved = None\<rparr>"
      and unesc = "\<lambda>s. s" and cx = None and fid = 1 and es = "[]"]
  by (auto simp: faults_ok_def init_db_def split: prod.splits sum.splits if_splits)

end
