(* ===== verification/UpsertProps.thy ===== *)
theory UpsertProps
  imports UpsertSpec
begin

text \<open>
  What a batch of entries keeps: the rows of other guids, the user's state of every row, scraped
  articles, tombstones; and that a second run of the same batch changes nothing.
\<close>

definition keys_ok :: "db \<Rightarrow> bool" where
  "keys_ok d \<longleftrightarrow> ids_ok er_ID (entries d) \<and> distinct (map (\<lambda>r. (er_FeedID r, er_Guid r)) (entries d))"

lemma wf_db_keys: "wf_db d \<Longrightarrow> keys_ok d"
  by (simp add: keys_ok_def wf_db_def wf_entries_def)

lemma refresh_keys [simp]:
  "er_ID (refresh unesc ins fid e old r) = er_ID r" "er_FeedID (refresh unesc ins fid e old r) = er_FeedID r"
  "er_Guid (refresh unesc ins fid e old r) = er_Guid r" "er_UserID (refresh unesc ins fid e old r) = er_UserID r"
  "er_Hash (refresh unesc ins fid e old r) = e_Hash e"
  by (simp_all add: refresh_def content_cols_def metadata_cols_def entry_params_def)

lemma new_row_keys [simp]:
  "er_ID (new_row unesc ins fid e i) = i" "er_FeedID (new_row unesc ins fid e i) = fid"
  "er_Guid (new_row unesc ins fid e i) = e_GUID e" "er_UserID (new_row unesc ins fid e i) = e_UserID e"
  "er_Hash (new_row unesc ins fid e i) = e_Hash e" "er_Status (new_row unesc ins fid e i) = ''unread''"
  "er_Starred (new_row unesc ins fid e i) = 0" "er_ReadAt (new_row unesc ins fid e i) = None"
  by (simp_all add: new_row_def entry_params_def)

lemma put_entry_others [simp]:
  "tombstones (put_entry unesc ins fid e d) = tombstones d" "feeds (put_entry unesc ins fid e d) = feeds d"
  "users (put_entry unesc ins fid e d) = users d" "categories (put_entry unesc ins fid e d) = categories d"
  "settings (put_entry unesc ins fid e d) = settings d" "feed_seq (put_entry unesc ins fid e d) = feed_seq d"
  by (simp_all add: put_entry_def split: option.split)

lemma put_entry_tombstoned [simp]: "tombstoned (put_entry unesc ins fid e d) = tombstoned d"
  by (simp add: tombstoned_def fun_eq_iff)

text \<open>How one entry changes the table of entries: rows are refreshed in place or one is appended.\<close>

lemma put_entry_cases:
  obtains (same) "put_entry unesc ins fid e d = d"
      "tombstoned d fid (e_GUID e) \<or> (\<exists>r. entry_at d fid (e_GUID e) = Some r \<and> er_Hash r = e_Hash e)"
  | (new) "\<not> tombstoned d fid (e_GUID e)" "entry_at d fid (e_GUID e) = None"
      "entries (put_entry unesc ins fid e d) =
         entries d @ [new_row unesc ins fid e (max_id er_ID (entries d) + 1)]"
  | (upd) old where "\<not> tombstoned d fid (e_GUID e)" "entry_at d fid (e_GUID e) = Some old"
      "er_Hash old \<noteq> e_Hash e"
      "entries (put_entry unesc ins fid e d) =
         upd_where (entry_is (er_ID old) (e_UserID e)) (refresh unesc ins fid e old) (entries d)"
  by (cases "tombstoned d fid (e_GUID e)"; cases "entry_at d fid (e_GUID e)")
    (auto simp: put_entry_def split: if_splits)

lemma entry_at_SomeD:
  "entry_at d fid g = Some r \<Longrightarrow> r \<in> set (entries d) \<and> er_FeedID r = fid \<and> er_Guid r = g"
  by (auto simp: entry_at_def entry_key_def dest: find_SomeD)

lemma entry_at_NoneD:
  "entry_at d fid g = None \<Longrightarrow> r \<in> set (entries d) \<Longrightarrow> \<not> (er_FeedID r = fid \<and> er_Guid r = g)"
  by (auto simp: entry_at_def entry_key_def dest: find_NoneD)

lemma keys_ok_put_entry: "keys_ok d \<Longrightarrow> keys_ok (put_entry unesc ins fid e d)"
proof (cases rule: put_entry_cases [of unesc ins fid e d])
  case new
  assume k: "keys_ok d"
  have "\<forall>r \<in> set (entries d). \<not> (er_FeedID r = fid \<and> er_Guid r = e_GUID e)"
    using new(2) entry_at_NoneD by blast
  with k show ?thesis
    by (auto simp: keys_ok_def new(3) intro!: ids_ok_next)
next
  case (upd old)
  assume "keys_ok d"
  then show ?thesis by (simp add: keys_ok_def upd(4) ids_ok_upd_where map_upd_where)
qed simp

text \<open>The row of every guid after one entry.\<close>

lemma entry_at_put:
  assumes "keys_ok d"
  shows "entry_at (put_entry unesc ins fid e d) k g =
    (if k = fid \<and> g = e_GUID e \<and> \<not> tombstoned d fid g
     then case entry_at d fid g of
         None \<Rightarrow> Some (new_row unesc ins fid e (max_id er_ID (entries d) + 1))
       | Some r \<Rightarrow> Some (if er_Hash r = e_Hash e \<or> er_UserID r \<noteq> e_UserID e then r
                         else refresh unesc ins fid e r r)
     else entry_at d k g)"
proof (cases rule: put_entry_cases [of unesc ins fid e d])
  case same
  then show ?thesis by auto
next
  case new
  then show ?thesis
    by (auto simp: entry_at_def find_append entry_key_def split: option.split)
next
  case (upd old)
  let ?P = "entry_is (er_ID old) (e_UserID e)"
  let ?f = "refresh unesc ins fid e old"
  have "find (entry_key k g) (upd_where ?P ?f (entries d))
      = map_option (\<lambda>x. if ?P x then ?f x else x) (find (entry_key k g) (entries d))"
    by (rule find_upd_where) (simp add: entry_key_def)
  then have at: "entry_at (put_entry unesc ins fid e d) k g
      = map_option (\<lambda>x. if ?P x then ?f x else x) (entry_at d k g)"
    by (simp add: entry_at_def upd(4))
  show ?thesis
  proof (cases "k = fid \<and> g = e_GUID e")
    case True
    then show ?thesis using at upd(1-3) by (simp add: entry_is_def)
  next
    case False
    have "\<not> ?P x" if x: "entry_at d k g = Some x" for x
    proof
      assume "?P x"
      then have "er_ID x = er_ID old" by (simp add: entry_is_def)
      moreover have "distinct (map er_ID (entries d))" using assms by (simp add: keys_ok_def ids_ok_distinct)
      ultimately have "x = old"
        using entry_at_SomeD [OF x] entry_at_SomeD [OF upd(2)] distinct_key_unique [of er_ID "entries d" x old]
        by simp
      then show False using entry_at_SomeD [OF x] entry_at_SomeD [OF upd(2)] False by simp
    qed
    then have "entry_at (put_entry unesc ins fid e d) k g = entry_at d k g"
      using at by (cases "entry_at d k g") simp_all
    then show ?thesis using False by auto
  qed
qed

section \<open>The user's state\<close>

text \<open>Two versions of a row with the same identity and the same user-owned and scraper-owned columns;
  while an article is scraped its text is kept too.\<close>

definition same_user_state :: "EntryRow \<Rightarrow> EntryRow \<Rightarrow> bool" where
  "same_user_state r s \<longleftrightarrow> er_ID s = er_ID r \<and> er_UserID s = er_UserID r \<and> er_FeedID s = er_FeedID r
     \<and> er_Guid s = er_Guid r \<and> er_Status s = er_Status r \<and> er_Starred s = er_Starred r
     \<and> er_ReadAt s = er_ReadAt r \<and> er_CreatedAt s = er_CreatedAt r
     \<and> er_ExtractState s = er_ExtractState r \<and> er_ExtractAttempts s = er_ExtractAttempts r
     \<and> er_NextExtractAt s = er_NextExtractAt r \<and> er_ExtractError s = er_ExtractError r
     \<and> (er_ExtractState r = ''done'' \<longrightarrow>
          er_Content s = er_Content r \<and> er_ContentText s = er_ContentText r)"

lemma same_user_state_refl [simp]: "same_user_state r r"
  by (simp add: same_user_state_def)

lemma same_user_state_trans: "same_user_state r s \<Longrightarrow> same_user_state s t \<Longrightarrow> same_user_state r t"
  by (auto simp: same_user_state_def)

text \<open>The table after a batch: every old row in its place with the user's state, then new rows, all
  unread and of guids without a tombstone.\<close>

definition extends :: "int \<Rightarrow> db \<Rightarrow> db \<Rightarrow> bool" where
  "extends fid d d' \<longleftrightarrow> (\<exists>olds news. entries d' = olds @ news \<and> list_all2 same_user_state (entries d) olds
     \<and> (\<forall>r \<in> set news. er_FeedID r = fid \<and> er_Status r = ''unread'' \<and> er_Starred r = 0
          \<and> er_ReadAt r = None \<and> \<not> tombstoned d fid (er_Guid r)))"

lemma extends_refl: "extends fid d d"
  unfolding extends_def by (intro exI [of _ "entries d"] exI [of _ "[]"]) (simp add: list.rel_refl)

lemma list_all2_split:
  "list_all2 R (xs @ ys) zs \<Longrightarrow> \<exists>us vs. zs = us @ vs \<and> list_all2 R xs us \<and> list_all2 R ys vs"
  by (auto simp: list_all2_append1)

lemma extends_trans:
  assumes 1: "extends fid d d1" and 2: "extends fid d1 d2" and t: "tombstoned d1 = tombstoned d"
  shows "extends fid d d2"
proof -
  from 1 obtain o1 n1 where e1: "entries d1 = o1 @ n1" "list_all2 same_user_state (entries d) o1"
    and n1: "\<forall>r \<in> set n1. er_FeedID r = fid \<and> er_Status r = ''unread'' \<and> er_Starred r = 0
          \<and> er_ReadAt r = None \<and> \<not> tombstoned d fid (er_Guid r)"
    unfolding extends_def by blast
  from 2 obtain o2 n2 where e2: "entries d2 = o2 @ n2" "list_all2 same_user_state (o1 @ n1) o2"
    and n2: "\<forall>r \<in> set n2. er_FeedID r = fid \<and> er_Status r = ''unread'' \<and> er_Starred r = 0
          \<and> er_ReadAt r = None \<and> \<not> tombstoned d fid (er_Guid r)"
    unfolding extends_def e1(1) t by blast
  from list_all2_split [OF e2(2)] obtain u v where uv: "o2 = u @ v" "list_all2 same_user_state o1 u"
    "list_all2 same_user_state n1 v" by blast
  have "list_all2 same_user_state (entries d) u"
    using list_all2_trans [OF _ e1(2) uv(2)] same_user_state_trans by blast
  moreover have "\<forall>r \<in> set v. er_FeedID r = fid \<and> er_Status r = ''unread'' \<and> er_Starred r = 0
          \<and> er_ReadAt r = None \<and> \<not> tombstoned d fid (er_Guid r)"
    using n1 uv(3) by (fastforce simp: list_all2_conv_all_nth in_set_conv_nth same_user_state_def)
  ultimately show ?thesis
    unfolding extends_def using e2(1) n2 uv(1) by (intro exI [of _ u] exI [of _ "v @ n2"]) auto
qed

lemma same_user_state_refresh:
  "(er_ExtractState r = ''done'' \<Longrightarrow> er_ExtractState old = ''done'') \<Longrightarrow>
   same_user_state r (refresh unesc ins fid e old r)"
  by (auto simp: same_user_state_def refresh_def content_cols_def metadata_cols_def)

lemma extends_put_entry:
  assumes "keys_ok d"
  shows "extends fid d (put_entry unesc ins fid e d)"
proof (cases rule: put_entry_cases [of unesc ins fid e d])
  case same
  then show ?thesis by (simp add: extends_refl)
next
  case new
  then show ?thesis
    unfolding extends_def
    by (intro exI [of _ "entries d"] exI) (auto simp: list.rel_refl)
next
  case (upd old)
  have "same_user_state r (if entry_is (er_ID old) (e_UserID e) r then refresh unesc ins fid e old r else r)"
    if "r \<in> set (entries d)" for r
  proof (cases "er_ID r = er_ID old")
    case True
    moreover have "distinct (map er_ID (entries d))" using assms by (simp add: keys_ok_def ids_ok_distinct)
    ultimately have "r = old"
      using that entry_at_SomeD [OF upd(2)] distinct_key_unique [of er_ID "entries d" r old] by simp
    then show ?thesis by (simp add: same_user_state_refresh)
  qed (simp add: entry_is_def)
  then have "list_all2 same_user_state (entries d)
      (upd_where (entry_is (er_ID old) (e_UserID e)) (refresh unesc ins fid e old) (entries d))"
    by (auto simp: upd_where_def list_all2_conv_all_nth)
  then show ?thesis
    unfolding extends_def upd(4) by (intro exI [of _ "upd_where _ _ _"] exI [of _ "[]"]) auto
qed

lemma extends_put_all:
  "keys_ok d \<Longrightarrow> extends fid d (put_all unesc ins fid es d) \<and> keys_ok (put_all unesc ins fid es d)
     \<and> tombstoned (put_all unesc ins fid es d) = tombstoned d"
proof (induction es arbitrary: d)
  case Nil
  then show ?case by (simp add: extends_refl)
next
  case (Cons e es)
  then have "keys_ok (put_entry unesc ins fid e d)" by (simp add: keys_ok_put_entry)
  from Cons.IH [OF this] extends_put_entry [OF Cons.prems, of fid unesc ins e] show ?case
    by (auto intro: extends_trans)
qed

lemma upsert_cases:
  assumes "UpsertEntries unesc cx fid es c = (r, c')" and "faults_ok c"
  obtains (unchanged) "cn_db c' = cn_db c" | (put) ins where "cn_db c' = put_all unesc ins fid es (cn_db c)"
    "ins = insert_state (cn_db c) fid" "r = Inr (put_all_new unesc ins fid es (cn_db c))"
    "fid \<in> fr_ID ` set (feeds (cn_db c))"
  using upsert_refines [OF assms(2), where unesc = unesc and cx = cx and fid = fid and es = es] assms(1)
  by (auto split: sum.splits if_splits)

text \<open>C31. A poll never touches what belongs to the user or to the scraper: whatever entries arrive and
  however the transaction ends, every stored row keeps its identity, read state, star, history
  position and extraction state, and a scraped article keeps its text; every row that is new is an
  unread one of the polled feed whose guid was not deleted before.\<close>

theorem upsert_keeps_user_state:
  assumes "wf_db (cn_db c)" and "faults_ok c"
  shows "extends fid (cn_db c) (cn_db (snd (UpsertEntries unesc cx fid es c)))"
proof (cases "UpsertEntries unesc cx fid es c" rule: prod.exhaust)
  case (Pair r c')
  from Pair assms(2) show ?thesis
  proof (cases rule: upsert_cases)
    case unchanged
    then show ?thesis by (simp add: Pair extends_refl)
  next
    case (put ins)
    then show ?thesis using extends_put_all [OF wf_db_keys [OF assms(1)]] by (simp add: Pair)
  qed
qed

theorem upsert_keeps_user_state_witness:
  "extends 1 init_db (cn_db (snd (UpsertEntries (\<lambda>s. s) None 1 [zero_entry] (fresh_conn init_db))))"
  using upsert_keeps_user_state [of "fresh_conn init_db"]
  by (simp add: fresh_conn_def wf_init_db faults_ok_def)

section \<open>A second run changes nothing\<close>

definition settled :: "int \<Rightarrow> db \<Rightarrow> Entry \<Rightarrow> bool" where
  "settled fid d e \<longleftrightarrow> tombstoned d fid (e_GUID e)
     \<or> (\<exists>r. entry_at d fid (e_GUID e) = Some r \<and> er_Hash r = e_Hash e)"

definition owned_by :: "int \<Rightarrow> int \<Rightarrow> db \<Rightarrow> bool" where
  "owned_by u fid d \<longleftrightarrow> (\<forall>r \<in> set (entries d). er_FeedID r = fid \<longrightarrow> er_UserID r = u)"

lemma settled_put: "settled fid d e \<Longrightarrow> put_entry unesc ins fid e d = d \<and> put_new ins fid e d = []"
  by (auto simp: settled_def put_entry_def put_new_def)

lemma owned_put:
  assumes "owned_by u fid d" and "e_UserID e = u"
  shows "owned_by u fid (put_entry unesc ins fid e d)"
proof (cases rule: put_entry_cases [of unesc ins fid e d])
  case same
  then show ?thesis using assms by simp
next
  case new
  then show ?thesis using assms by (auto simp: owned_by_def)
next
  case (upd old)
  then show ?thesis
    using assms unfolding owned_by_def upd(4) set_upd_where Ball_image_comp comp_def by simp
qed

lemma put_settles:
  assumes "keys_ok d" "owned_by u fid d" "e_UserID e = u"
  shows "settled fid (put_entry unesc ins fid e d) e"
proof -
  have "er_UserID r = u" if "entry_at d fid (e_GUID e) = Some r" for r
    using entry_at_SomeD [OF that] assms(2) by (simp add: owned_by_def)
  then show ?thesis
    using assms(3) by (auto simp: settled_def entry_at_put [OF assms(1)] split: option.split)
qed

lemma put_keeps_settled:
  "keys_ok d \<Longrightarrow> settled fid d e \<Longrightarrow> e_GUID e' \<noteq> e_GUID e \<Longrightarrow> settled fid (put_entry unesc ins fid e' d) e"
  by (auto simp: settled_def entry_at_put)

lemma put_all_keeps_settled:
  "keys_ok d \<Longrightarrow> settled fid d e \<Longrightarrow> e_GUID e \<notin> e_GUID ` set es \<Longrightarrow>
   settled fid (put_all unesc ins fid es d) e"
  by (induction es arbitrary: d) (auto simp: keys_ok_put_entry put_keeps_settled)

lemma put_all_settles:
  "keys_ok d \<Longrightarrow> owned_by u fid d \<Longrightarrow> \<forall>e \<in> set es. e_UserID e = u \<Longrightarrow> distinct (map e_GUID es) \<Longrightarrow>
   \<forall>e \<in> set es. settled fid (put_all unesc ins fid es d) e"
proof (induction es arbitrary: d)
  case (Cons e es)
  let ?d = "put_entry unesc ins fid e d"
  have d: "keys_ok ?d" "owned_by u fid ?d" using Cons.prems by (auto simp: keys_ok_put_entry owned_put)
  have "settled fid ?d e" using Cons.prems by (auto intro: put_settles)
  then have "settled fid (put_all unesc ins fid es ?d) e"
    using d Cons.prems(4) by (intro put_all_keeps_settled) auto
  moreover have "\<forall>x \<in> set es. settled fid (put_all unesc ins fid es ?d) x"
    using d Cons.prems by (intro Cons.IH) auto
  ultimately show ?case by simp
qed simp

lemma put_all_settled:
  "\<forall>e \<in> set es. settled fid d e \<Longrightarrow> put_all unesc ins fid es d = d \<and> put_all_new unesc ins fid es d = []"
  by (induction es) (auto simp: settled_put)

text \<open>Polling the same entries again changes nothing and reports nothing as new: for entries with
  distinct guids, of the user who owns the feed's rows, the second \<open>UpsertEntries\<close> leaves the
  database as the first left it.\<close>

lemma upsert_idempotent:
  assumes "wf_db (cn_db c)" and "faults_ok c" and "faults_ok c1"
    and "distinct (map e_GUID es)" and "\<forall>e \<in> set es. e_UserID e = u" and "owned_by u fid (cn_db c)"
    and "UpsertEntries unesc None fid es c = (Inr ins1, c1)"
    and "UpsertEntries unesc None fid es c1 = (Inr ins2, c2)"
  shows "cn_db c2 = cn_db c1 \<and> ins2 = []"
proof -
  let ?i = "insert_state (cn_db c) fid"
  note K = wf_db_keys [OF assms(1)]
  have second: "cn_db c2 = put_all unesc (insert_state (cn_db c1) fid) fid es (cn_db c1)
      \<and> ins2 = put_all_new unesc (insert_state (cn_db c1) fid) fid es (cn_db c1)
      \<or> cn_db c2 = cn_db c1 \<and> ins2 = []"
    using upsert_refines [OF assms(3), where unesc = unesc and cx = None and fid = fid and es = es] assms(8)
    by (auto split: if_splits)
  show ?thesis
  proof (cases "fid \<in> fr_ID ` set (feeds (cn_db c))")
    case True
    then have "cn_db c1 = put_all unesc ?i fid es (cn_db c)"
      using upsert_refines [OF assms(2), where unesc = unesc and cx = None and fid = fid and es = es] assms(7) by simp
    then have "\<forall>e \<in> set es. settled fid (cn_db c1) e"
      using put_all_settles [OF K assms(6,5,4)] by simp
    then show ?thesis using second put_all_settled by metis
  next
    case False
    then have "cn_db c1 = cn_db c"
      using upsert_refines [OF assms(2), where unesc = unesc and cx = None and fid = fid and es = es] assms(7) by simp
    with False show ?thesis
      using upsert_refines [OF assms(3), where unesc = unesc and cx = None and fid = fid and es = es] assms(8) by simp
  qed
qed

text \<open>A database with one feed, whose full-content switch is on, for the evaluations below.\<close>

definition sample_feed :: FeedRow where
  "sample_feed = (feed_params zero_feed)\<lparr>fr_ID := 1, fr_UserID := 1, fr_FeedUrl := ''http://a/'',
     fr_FetchFullContent := 1\<rparr>"

definition sample_db :: db where
  "sample_db = init_db\<lparr>feeds := [sample_feed], feed_seq := 1\<rparr>"

definition sample_entry :: Entry where
  "sample_entry = zero_entry\<lparr>e_UserID := 1, e_FeedID := 1, e_GUID := ''g'', e_Title := ''t'',
     e_Hash := ''h''\<rparr>"

lemma wf_sample_db: "wf_db sample_db"
  by (simp add: wf_db_def sample_db_def sample_feed_def init_db_def wf_users_def wf_feeds_def
      wf_categories_def wf_entries_def wf_tombstones_def ids_ok_def feed_params_def zero_feed_def
      feed_checks_def feed_fk_def b2i_def nullID_def)

lemma sample_upsert_returns:
  "isl (fst (UpsertEntries (\<lambda>s. s) None 1 [sample_entry] (fresh_conn sample_db))) = False"
  by code_simp

text \<open>The first run inserts, the second finds the entry.\<close>

end
