(* ===== verification/StoreSteps.thy ===== *)
theory StoreSteps
  imports UpsertProps
begin

text \<open>
  The store as a state machine: a step is one operation that writes, called with any arguments the
  services pass, under any context and any driver faults. The invariant of the reachable databases,
  that deleted entries stay deleted, and that a feed's id is never given to another feed.
\<close>

section \<open>Steps\<close>

definition conn_of :: "gerr option list \<Rightarrow> db \<Rightarrow> conn" where
  "conn_of fs d = \<lparr>cn_db = d, cn_faults = fs, cn_saved = None\<rparr>"

lemma conn_of_simps [simp]: "cn_db (conn_of fs d) = d" "cn_saved (conn_of fs d) = None"
  by (simp_all add: conn_of_def)

definition after :: "gerr option list \<Rightarrow> 'a op \<Rightarrow> db \<Rightarrow> db" where
  "after fs m d = cn_db (snd (m (conn_of fs d)))"

text \<open>The scraper asks for \<open>pending\<close> with a time or \<open>failed\<close> without one; \<open>MarkRead\<close> passes one of the
  two statuses.\<close>

definition extract_args_ok :: "ExtractState \<Rightarrow> time option \<Rightarrow> bool" where
  "extract_args_ok st next \<longleftrightarrow> (st = ExtractPending \<and> next \<noteq> None) \<or> (st = ExtractFailed \<and> next = None)"

inductive store_step :: "(string \<Rightarrow> string) \<Rightarrow> db \<Rightarrow> db \<Rightarrow> bool" for unesc where
  create_feed: "store_step unesc d (after fs (CreateFeed cx f) d)"
| update_feed: "store_step unesc d (after fs (UpdateFeed cx f) d)"
| delete_feed: "store_step unesc d (after fs (DeleteFeed cx u k) d)"
| set_category: "store_step unesc d (after fs (SetFeedCategory cx u k cat) d)"
| set_full_content: "store_step unesc d (after fs (SetFeedFullContent cx u k on t) d)"
| set_user_title: "store_step unesc d (after fs (SetFeedUserTitle cx u k s) d)"
| set_url: "store_step unesc d (after fs (SetFeedURL cx u k s t) d)"
| upsert: "faults_ok (conn_of fs d) \<Longrightarrow> store_step unesc d (after fs (UpsertEntries unesc cx k es) d)"
| set_status: "EntryStatus_Valid st \<Longrightarrow> store_step unesc d (after fs (SetStatus wall cx u is st) d)"
| set_starred: "store_step unesc d (after fs (SetStarred cx u is b) d)"
| mark_read: "store_step unesc d (after fs (MarkReadByFilter wall cx u fl) d)"
| delete_entry: "store_step unesc d (after fs (DeleteEntry wall cx u i) d)"
| set_content: "store_step unesc d (after fs (SetEntryContent unesc cx i s) d)"
| update_extract: "extract_args_ok st nx \<Longrightarrow> store_step unesc d (after fs (UpdateExtractState cx i st n nx s) d)"
| create_category: "store_step unesc d (after fs (CreateCategory cx c) d)"
| update_category: "store_step unesc d (after fs (UpdateCategory cx c) d)"
| delete_category: "store_step unesc d (after fs (DeleteCategory cx u i) d)"
| put_setting: "store_step unesc d (after fs (PutSetting cx s v) d)"

text \<open>An invariant that every statement keeps is kept by the operations made of them.\<close>

lemma after_keeps: "op_keeps I m \<Longrightarrow> I d \<Longrightarrow> I (after fs m d)"
proof -
  assume "op_keeps I m" "I d"
  then have "conn_inv I (snd (m (conn_of fs d)))"
    by (auto simp: op_keeps_def conn_of_def conn_inv_def)
  then show ?thesis by (simp add: after_def conn_inv_def)
qed

lemma op_keeps_affected [wf_intros]: "op_keeps I m \<Longrightarrow> op_keeps I (affected m)"
  unfolding affected_def by (intro op_keeps_bindE op_keeps_mapped) (simp_all add: wf_intros)

section \<open>The invariant\<close>

text \<open>Row by row: a queued entry has a due time and no other entry has one; an entry is read iff it has
  a place in the history.\<close>

definition row_ok :: "EntryRow \<Rightarrow> bool" where
  "row_ok r \<longleftrightarrow> (er_ExtractState r = ''pending'' \<longleftrightarrow> er_NextExtractAt r \<noteq> None)
     \<and> (er_Status r = ''read'' \<longleftrightarrow> er_ReadAt r \<noteq> None)"

definition rows_ok :: "db \<Rightarrow> bool" where
  "rows_ok d \<longleftrightarrow> (\<forall>r \<in> set (entries d). row_ok r)"

text \<open>A deleted entry is not in the table.\<close>

definition no_zombie :: "db \<Rightarrow> bool" where
  "no_zombie d \<longleftrightarrow> (\<forall>r \<in> set (entries d). \<not> tombstoned d (er_FeedID r) (er_Guid r))"

definition store_inv :: "db \<Rightarrow> bool" where
  "store_inv d \<longleftrightarrow> wf_db d \<and> rows_ok d \<and> no_zombie d"

lemma store_inv_init: "store_inv init_db"
  using wf_init_db by (simp add: store_inv_def rows_ok_def no_zombie_def) (simp add: init_db_def)

lemma keeps_conj [wf_intros]: "keeps I s \<Longrightarrow> keeps J s \<Longrightarrow> keeps (\<lambda>d. I d \<and> J d) s"
  by (simp add: keeps_def)

text \<open>Statements by the tables they write.\<close>

definition keeps_entries :: "'a stmt \<Rightarrow> bool" where
  "keeps_entries s \<longleftrightarrow> (\<forall>d. entries (snd (s d)) = entries d \<and> tombstones (snd (s d)) = tombstones d)"

lemma keeps_entries_inv:
  "keeps_entries s \<Longrightarrow> keeps rows_ok s" "keeps_entries s \<Longrightarrow> keeps no_zombie s"
  by (simp_all add: keeps_entries_def keeps_def rows_ok_def no_zombie_def tombstoned_def)

lemma sql_keeps_entries:
  "keeps_entries (sql_CreateFeed a)" "keeps_entries (sql_UpdateFeed a)" "keeps_entries (sql_SetFeedCategory cat i uid)"
  "keeps_entries (sql_SetFeedFullContent v i uid)" "keeps_entries (sql_SetFeedUserTitle t i uid)"
  "keeps_entries (sql_SetFeedURL url nx i uid)" "keeps_entries (sql_CreateCategory uid t)"
  "keeps_entries (sql_UpdateCategory t i uid)" "keeps_entries (sql_DeleteCategory i uid)"
  "keeps_entries (sql_PutAppSetting k w)"
  by (simp_all add: keeps_entries_def sql_CreateFeed_def sql_UpdateFeed_def sql_SetFeedCategory_def
      sql_SetFeedFullContent_def sql_SetFeedUserTitle_def sql_SetFeedURL_def sql_CreateCategory_def
      sql_UpdateCategory_def sql_DeleteCategory_def sql_PutAppSetting_def Let_def split: option.split)

lemma update_entries_rows_ok:
  "(\<And>r. P r \<Longrightarrow> row_ok r \<Longrightarrow> row_ok (f r)) \<Longrightarrow> keeps rows_ok (update_entries P f)"
  by (auto simp: keeps_def update_entries_def rows_ok_def set_upd_where split: option.split)

lemma update_entries_no_zombie:
  "(\<And>r. er_FeedID (f r) = er_FeedID r) \<Longrightarrow> (\<And>r. er_Guid (f r) = er_Guid r) \<Longrightarrow>
   keeps no_zombie (update_entries P f)"
  by (auto simp: keeps_def update_entries_def no_zombie_def tombstoned_def set_upd_where split: option.split)

lemma update_entries_inv:
  assumes "\<And>r. er_ID (f r) = er_ID r" "\<And>r. er_UserID (f r) = er_UserID r"
    and "\<And>r. er_FeedID (f r) = er_FeedID r" "\<And>r. er_Guid (f r) = er_Guid r"
    and "\<And>r. P r \<Longrightarrow> row_ok r \<Longrightarrow> row_ok (f r)"
  shows "keeps store_inv (update_entries P f)"
  using assms update_entries_keeps [of f P] update_entries_rows_ok [of P f] update_entries_no_zombie [of f P]
  by (simp add: keeps_def store_inv_def)

lemma sql_DeleteFeed_inv [wf_intros]: "keeps store_inv (sql_DeleteFeed i uid)"
  using sql_DeleteFeed_keeps [of i uid]
  by (auto simp: keeps_def store_inv_def rows_ok_def no_zombie_def tombstoned_def sql_DeleteFeed_def
      tomb_key_def Let_def)

lemma sql_feed_stmts_inv [wf_intros]:
  "keeps store_inv (sql_CreateFeed a)" "keeps store_inv (sql_UpdateFeed a)" "keeps store_inv (sql_SetFeedCategory cat i uid)"
  "keeps store_inv (sql_SetFeedFullContent v i uid)" "keeps store_inv (sql_SetFeedUserTitle t i uid)"
  "keeps store_inv (sql_SetFeedURL url nx i uid)" "keeps store_inv (sql_CreateCategory uid t)"
  "keeps store_inv (sql_UpdateCategory t i uid)" "keeps store_inv (sql_DeleteCategory i uid)"
  "keeps store_inv (sql_PutAppSetting k w)"
  unfolding store_inv_def
  by (intro keeps_conj wf_intros keeps_entries_inv sql_keeps_entries)+

lemma sql_entry_stmts_inv [wf_intros]:
  "keeps store_inv (sql_CancelFeedExtractions fid)" "keeps store_inv (sql_MarkFeedEntriesPending (Some n) fid)"
  "keeps store_inv (sql_SetEntryContent c t i)"
  "extract_args_ok st nx \<Longrightarrow> keeps store_inv (sql_UpdateExtractState (extract_str st) k (nullUnix nx) er i)"
  by (auto simp: sql_CancelFeedExtractions_def sql_MarkFeedEntriesPending_def sql_SetEntryContent_def
      sql_UpdateExtractState_def row_ok_def extract_args_ok_def nullUnix_def
      intro!: exec_only_keeps update_entries_inv)

lemma sql_mark_read_inv [wf_intros]: "keeps store_inv (sql_mark_read now u fl)"
  unfolding keeps_def sql_mark_read_def
  using update_entries_inv [of "\<lambda>r. r\<lparr>er_Status := ''read'', er_ReadAt := Some now\<rparr>"]
  by (simp add: keeps_def row_ok_def)

lemma op_keeps_inv:
  "op_keeps store_inv (CreateFeed cx f)" "op_keeps store_inv (UpdateFeed cx f)" "op_keeps store_inv (DeleteFeed cx u k)"
  "op_keeps store_inv (SetFeedCategory cx u k cat)" "op_keeps store_inv (SetFeedFullContent cx u k on t)"
  "op_keeps store_inv (SetFeedUserTitle cx u k s)" "op_keeps store_inv (SetFeedURL cx u k s t)"
  "op_keeps store_inv (SetStarred cx u is b)" "op_keeps store_inv (MarkReadByFilter wall cx u fl)"
  "op_keeps store_inv (SetEntryContent unesc cx i s)" "op_keeps store_inv (CreateCategory cx c)"
  "op_keeps store_inv (UpdateCategory cx c)" "op_keeps store_inv (DeleteCategory cx u i)"
  "op_keeps store_inv (PutSetting cx s v)"
  "EntryStatus_Valid es \<Longrightarrow> op_keeps store_inv (SetStatus wall cx u is es)"
  "extract_args_ok st nx \<Longrightarrow> op_keeps store_inv (UpdateExtractState cx i st n nx s)"
  unfolding feed_op_defs category_op_defs other_op_defs entry_op_defs Let_def
  by (auto intro!: wf_intros update_entries_inv simp: row_ok_def)

section \<open>The two operations that check and write\<close>

lemma rows_ok_put_entry:
  assumes "rows_ok d" and "ins \<in> {ExtractNone, ExtractPending}"
  shows "rows_ok (put_entry unesc ins fid e d)"
proof (cases rule: put_entry_cases [of unesc ins fid e d])
  case new
  moreover have "row_ok (new_row unesc ins fid e i)" for i
    using assms(2) by (auto simp: row_ok_def new_row_def entry_params_def nullUnix_def)
  ultimately show ?thesis using assms(1) by (simp add: rows_ok_def)
next
  case (upd old)
  moreover have "row_ok (refresh unesc ins fid e old r) = row_ok r" for r
    by (simp add: row_ok_def refresh_def content_cols_def metadata_cols_def)
  ultimately show ?thesis
    using assms(1) unfolding rows_ok_def upd(4) set_upd_where Ball_image_comp comp_def by simp
qed (use assms in simp)

lemma no_zombie_put_entry:
  assumes "no_zombie d"
  shows "no_zombie (put_entry unesc ins fid e d)"
proof (cases rule: put_entry_cases [of unesc ins fid e d])
  case new
  then show ?thesis using assms by (simp add: no_zombie_def)
next
  case (upd old)
  then show ?thesis
    using assms unfolding no_zombie_def upd(4) set_upd_where Ball_image_comp comp_def by simp
qed (use assms in simp)

lemma put_all_inv:
  "ins \<in> {ExtractNone, ExtractPending} \<Longrightarrow> rows_ok d \<Longrightarrow> no_zombie d \<Longrightarrow>
   rows_ok (put_all unesc ins fid es d) \<and> no_zombie (put_all unesc ins fid es d)"
  by (induction es arbitrary: d) (auto simp: rows_ok_put_entry no_zombie_put_entry)

lemma insert_state_cases: "insert_state d fid \<in> {ExtractNone, ExtractPending}"
  by (simp add: insert_state_def)

text \<open>The database after \<open>UpsertEntries\<close>.\<close>

lemma after_upsert:
  assumes "faults_ok (conn_of fs d)"
  shows "after fs (UpsertEntries unesc cx k es) d = d
    \<or> k \<in> fr_ID ` set (feeds d) \<and> after fs (UpsertEntries unesc cx k es) d = put_all unesc (insert_state d k) k es d"
proof (cases "UpsertEntries unesc cx k es (conn_of fs d)")
  case (Pair r c')
  from Pair assms show ?thesis
    by (cases rule: upsert_cases) (simp_all add: after_def Pair)
qed

lemma op_keeps_wf_upsert: "op_keeps wf_db (UpsertEntries unesc cx k es)"
  unfolding UpsertEntries_def upsert_one_def if_no_rows_def
  by (intro wf_intros) (auto split: prod.split intro!: wf_intros)

lemma upsert_inv:
  assumes "faults_ok (conn_of fs d)" and "store_inv d"
  shows "store_inv (after fs (UpsertEntries unesc cx k es) d)"
proof -
  have "wf_db (after fs (UpsertEntries unesc cx k es) d)"
    using after_keeps [OF op_keeps_wf_upsert] assms(2) by (simp add: store_inv_def)
  then show ?thesis
    using after_upsert [OF assms(1), of unesc cx k es] assms(2) put_all_inv [OF insert_state_cases]
    by (auto simp: store_inv_def)
qed

text \<open>The database after \<open>DeleteEntry\<close>: unchanged on an error; otherwise the entry is gone and its guid
  is tombstoned.\<close>

definition entomb :: "int \<Rightarrow> string \<Rightarrow> int \<Rightarrow> db \<Rightarrow> db" where
  "entomb fid g now d = snd (sql_InsertTombstone fid g now d)"

lemma tombstoned_entomb:
  "fst (sql_InsertTombstone fid g now d) = Inr () \<Longrightarrow>
   tombstoned (entomb fid g now d) k h \<longleftrightarrow> tombstoned d k h \<or> k = fid \<and> h = g"
proof -
  assume ok: "fst (sql_InsertTombstone fid g now d) = Inr ()"
  have keys: "tombstoned x k h \<longleftrightarrow> (k, h) \<in> set (map (\<lambda>t. (tb_FeedID t, tb_Guid t)) (tombstones x))" for x k h
    by (auto simp: tombstoned_def tomb_key_def)
  show ?thesis
  proof (cases "\<exists>t \<in> set (tombstones d). tomb_key fid g t")
    case True
    then have "(fid, g) \<in> set (map (\<lambda>t. (tb_FeedID t, tb_Guid t)) (tombstones d))"
      by (force simp: tomb_key_def)
    moreover have "map (\<lambda>t. (tb_FeedID t, tb_Guid t)) (tombstones (entomb fid g now d))
        = map (\<lambda>t. (tb_FeedID t, tb_Guid t)) (tombstones d)"
      using True by (simp add: entomb_def sql_InsertTombstone_def map_upd_where)
    ultimately show ?thesis unfolding keys by auto
  next
    case False
    then show ?thesis
      using ok unfolding keys entomb_def sql_InsertTombstone_def by (auto split: if_splits)
  qed
qed

lemma delete_entry_cases:
  assumes "DeleteEntry wall cx u i c = (r, c')"
  obtains (error) e where "r = Inl e" "cn_db c' = cn_db c"
  | (deleted) row where "r = Inr ()" "row \<in> set (entries (cn_db c))" "entry_is i u row"
      "fst (sql_InsertTombstone (er_FeedID row) (er_Guid row) (toUnix wall) (cn_db c)) = Inr ()"
      "cn_db c' = snd (sql_DeleteEntry i u (entomb (er_FeedID row) (er_Guid row) (toUnix wall) (cn_db c)))"
proof -
  define body :: "Entry \<Rightarrow> unit op" where "body e = bindE (mapped (exec cx (sql_InsertTombstone (e_FeedID e) (e_GUID e) (toUnix wall))))
           (\<lambda>_. bindE (mapped (exec cx (sql_DeleteEntry i u)))
             (\<lambda>n. if n = 0 then throwE ErrNotFound
              else bindE (mapped Commit) (\<lambda>_. returnE ())))" for e
  have D: "DeleteEntry wall cx u i = bindE (GetEntry cx u i) (\<lambda>e. in_tx cx (body e))"
    by (simp add: DeleteEntry_def body_def)
  have last: "tx_safe (if n = 0 then throwE ErrNotFound else bindE (mapped Commit) (\<lambda>_. returnE ()))" for n :: int
    by (rule if_split [of tx_safe, THEN iffD2], intro conjI impI stays_tx_safe [OF stays_throwE] tx_safe_Commit)
  have safe: "tx_safe (body e)" for e
    unfolding body_def by (intro tx_safe_bindE stays_mapped stays_exec last)
  have rd: "cn_db (snd (GetEntry cx u i c)) = cn_db c"
    by (auto simp: GetEntry_def bindE_def mapped_def exec_def Let_def sql_GetEntry_def returnE_def
        split: option.splits list.splits prod.splits sum.splits)
  obtain x c1 where g: "GetEntry cx u i c = (x, c1)" by (cases "GetEntry cx u i c")
  with rd have c1: "cn_db c1 = cn_db c" by simp
  show thesis
  proof (cases x)
    case (Inl e)
    then have "r = Inl e" "c' = c1" using assms g by (simp_all add: D bindE_def)
    then show thesis using error c1 by simp
  next
    case (Inr e)
    then have t: "in_tx cx (body e) c1 = (r, c')" using assms g by (simp add: D bindE_def)
    show thesis
    proof (cases r)
      case (Inl err)
      then show thesis using error in_tx_atomic [OF safe, of cx e c1 err] t c1 by simp
    next
      case r: (Inr v)
      from g Inr obtain row where row: "find (entry_is i u) (entries (cn_db c)) = Some row" "e = entryFromRow row"
        by (auto simp: GetEntry_def op_Inr sql_GetEntry_def dest!: exec_Inr(1))
      from t r obtain c2 c3 where c2: "cn_db c2 = cn_db c" and b: "body e c2 = (Inr v, c3)" and c': "c' = Rollback c3"
        using c1 by (auto elim: in_tx_Inr)
      from b obtain u1 c4 n c5 where
        1: "exec cx (sql_InsertTombstone (e_FeedID e) (e_GUID e) (toUnix wall)) c2 = (Inr u1, c4)"
        and 2: "exec cx (sql_DeleteEntry i u) c4 = (Inr n, c5)" and 3: "Commit c5 = (Inr (), c3)"
        unfolding body_def op_Inr by (auto simp: op_Inr split: if_splits)
      have k: "e_FeedID e = er_FeedID row" "e_GUID e = er_Guid row" using row(2) by (simp_all add: entryFromRow_def)
      have "cn_db c4 = entomb (er_FeedID row) (er_Guid row) (toUnix wall) (cn_db c)"
        "fst (sql_InsertTombstone (er_FeedID row) (er_Guid row) (toUnix wall) (cn_db c)) = Inr ()"
        using exec_Inr(1) [OF 1] c2 k by (simp_all add: entomb_def)
      moreover have "cn_db c' = cn_db c5" using Commit_Inr [OF 3] c' by simp
      moreover have "cn_db c5 = snd (sql_DeleteEntry i u (cn_db c4))" using exec_Inr(1) [OF 2] by simp
      ultimately show thesis using deleted [of row] r find_SomeD [OF row(1)] by simp
    qed
  qed
qed

lemma entomb_others [simp]:
  "entries (entomb fid g now d) = entries d" "feeds (entomb fid g now d) = feeds d"
  "feed_seq (entomb fid g now d) = feed_seq d"
  by (simp_all add: entomb_def sql_InsertTombstone_def)

lemma entries_DeleteEntry [simp]:
  "entries (snd (sql_DeleteEntry i u d)) = filter (\<lambda>r. \<not> entry_is i u r) (entries d)"
  "tombstones (snd (sql_DeleteEntry i u d)) = tombstones d" "feeds (snd (sql_DeleteEntry i u d)) = feeds d"
  "feed_seq (snd (sql_DeleteEntry i u d)) = feed_seq d"
  by (simp_all add: sql_DeleteEntry_def)

lemma tombstoned_DeleteEntry [simp]: "tombstoned (snd (sql_DeleteEntry i u d)) = tombstoned d"
  by (simp add: tombstoned_def fun_eq_iff)

text \<open>The deleted row is the only one with its guid.\<close>

lemma other_rows_other_keys:
  assumes "wf_db d" "row \<in> set (entries d)" "entry_is i u row" "r \<in> set (entries d)" "\<not> entry_is i u r"
  shows "\<not> (er_FeedID r = er_FeedID row \<and> er_Guid r = er_Guid row)"
  using distinct_key_unique [OF wf_entriesD(2) [OF assms(1)] assms(4,2)] assms(3,5) by auto

lemma delete_entry_inv: "store_inv d \<Longrightarrow> store_inv (after fs (DeleteEntry wall cx u i) d)"
proof -
  assume inv: "store_inv d"
  obtain r c' where c': "DeleteEntry wall cx u i (conn_of fs d) = (r, c')"
    by (cases "DeleteEntry wall cx u i (conn_of fs d)")
  then show ?thesis
  proof (cases rule: delete_entry_cases)
    case (error e)
    then show ?thesis using inv c' by (simp add: after_def conn_of_def)
  next
    case (deleted row)
    let ?d1 = "entomb (er_FeedID row) (er_Guid row) (toUnix wall) d"
    have d': "after fs (DeleteEntry wall cx u i) d = snd (sql_DeleteEntry i u ?d1)"
      using c' deleted by (simp add: after_def conn_of_def)
    have row: "row \<in> set (entries d)" "fst (sql_InsertTombstone (er_FeedID row) (er_Guid row) (toUnix wall) d) = Inr ()"
      using deleted(2,4) by (simp_all add: conn_of_def)
    have "wf_db (snd (sql_DeleteEntry i u ?d1))"
      unfolding entomb_def
      using inv by (intro keepsD [OF sql_DeleteEntry_keeps] keepsD [OF sql_InsertTombstone_keeps])
        (simp add: store_inv_def)
    moreover have "rows_ok (snd (sql_DeleteEntry i u ?d1))"
      using inv by (simp add: store_inv_def rows_ok_def)
    moreover have "no_zombie (snd (sql_DeleteEntry i u ?d1))"
      using inv row other_rows_other_keys [OF _ row(1) deleted(3)]
      by (auto simp: store_inv_def no_zombie_def tombstoned_entomb)
    ultimately show ?thesis unfolding d' store_inv_def by simp
  qed
qed

section \<open>Reachable databases\<close>

lemma store_step_inv: "store_step unesc d d' \<Longrightarrow> store_inv d \<Longrightarrow> store_inv d'"
  by (induction rule: store_step.induct) (auto simp del: EntryStatus_Valid.simps
      intro: after_keeps op_keeps_inv upsert_inv delete_entry_inv)

lemma store_steps_inv: "(store_step unesc)\<^sup>*\<^sup>* d d' \<Longrightarrow> store_inv d \<Longrightarrow> store_inv d'"
  by (induction rule: rtranclp_induct) (auto intro: store_step_inv)

text \<open>C5. From a fresh install, every database the operations can reach, with any arguments, contexts and
  driver faults, is well formed: ids positive and ascending, one feed per user and URL, one
  category per user and title up to ASCII case, one entry per feed and guid, no dangling
  reference; a queued entry has a due time and no other entry has one, an entry is read iff it has
  a place in the history, and no entry has a tombstone.\<close>

theorem reachable_store_inv:
  assumes "(store_step unesc)\<^sup>*\<^sup>* init_db d"
  shows "wf_db d \<and> rows_ok d \<and> no_zombie d"
  using store_steps_inv [OF assms store_inv_init] by (simp add: store_inv_def)

theorem reachable_store_inv_witness:
  "wf_db (after [] (CreateFeed None zero_feed) init_db)"
  using reachable_store_inv [OF r_into_rtranclp [of "store_step (\<lambda>s. s)", OF store_step.create_feed [where fs = "[]" and cx = None]]]
  by blast

section \<open>Deleted entries stay deleted\<close>

text \<open>The guid \<open>g\<close> of feed \<open>k\<close> has no entry and cannot get one: it is tombstoned, or the feed is gone
  and its id is used up.\<close>

definition buried :: "int \<Rightarrow> string \<Rightarrow> db \<Rightarrow> bool" where
  "buried k g d \<longleftrightarrow> k \<le> feed_seq d \<and> (\<forall>r \<in> set (entries d). \<not> entry_key k g r)
     \<and> (tombstoned d k g \<or> k \<notin> fr_ID ` set (feeds d)) \<and> distinct (map fr_ID (feeds d))"

lemma update_entries_buried: 
  "(\<And>r. er_FeedID (f r) = er_FeedID r) \<Longrightarrow> (\<And>r. er_Guid (f r) = er_Guid r) \<Longrightarrow>
   keeps (buried k g) (update_entries P f)"
  by (auto simp: keeps_def update_entries_def buried_def tombstoned_def set_upd_where entry_key_def
      split: option.split)

lemma update_feeds_ids:
  "(\<And>r. P r \<Longrightarrow> fr_ID (f r) = fr_ID r) \<Longrightarrow> fr_ID ` set (upd_where P f xs) = fr_ID ` set xs"
  by (metis map_upd_where set_map)

lemma sql_feed_stmts_buried [wf_intros]:
  "keeps (buried k g) (sql_UpdateFeed a)" "keeps (buried k g) (sql_SetFeedCategory cat i uid)"
  "keeps (buried k g) (sql_SetFeedFullContent v i uid)" "keeps (buried k g) (sql_SetFeedUserTitle t i uid)"
  "keeps (buried k g) (sql_SetFeedURL url nx i uid)" "keeps (buried k g) (sql_CreateCategory uid t)"
  "keeps (buried k g) (sql_UpdateCategory t i uid)" "keeps (buried k g) (sql_DeleteCategory i uid)"
  "keeps (buried k g) (sql_PutAppSetting q w)"
  by (simp_all add: keeps_def buried_def tombstoned_def update_feeds_ids map_upd_where sql_UpdateFeed_def
      sql_SetFeedCategory_def sql_SetFeedFullContent_def sql_SetFeedUserTitle_def sql_SetFeedURL_def
      sql_CreateCategory_def sql_UpdateCategory_def sql_DeleteCategory_def sql_PutAppSetting_def
      update_feed_cols_def Let_def)

lemma sql_CreateFeed_cases:
  obtains "snd (sql_CreateFeed a d) = d"
  | row where "snd (sql_CreateFeed a d) = d\<lparr>feeds := feeds d @ [row], feed_seq := fr_ID row\<rparr>"
      "feed_seq d < fr_ID row" "max_id fr_ID (feeds d) < fr_ID row"
proof -
  let ?row = "a\<lparr>fr_ID := max (feed_seq d) (max_id fr_ID (feeds d)) + 1, fr_UserTitle := []\<rparr>"
  have "snd (sql_CreateFeed a d) = d
      \<or> snd (sql_CreateFeed a d) = d\<lparr>feeds := feeds d @ [?row], feed_seq := fr_ID ?row\<rparr>"
    by (simp add: sql_CreateFeed_def Let_def split: option.split)
  then show thesis using that(1) that(2) [of ?row] by fastforce
qed

lemma sql_CreateFeed_buried [wf_intros]: "keeps (buried k g) (sql_CreateFeed a)"
proof (rule keepsI)
  fix d
  assume b: "buried k g d"
  show "buried k g (snd (sql_CreateFeed a d))"
  proof (cases rule: sql_CreateFeed_cases [of a d])
    case 1
    with b show ?thesis by simp
  next
    case (2 row)
    have "fr_ID r < fr_ID row" if "r \<in> set (feeds d)" for r
      using max_id_ge [OF that, of fr_ID] 2(3) by simp
    then have "fr_ID row \<notin> fr_ID ` set (feeds d)" by fastforce
    then show ?thesis using b 2(2) by (simp add: 2(1) buried_def tombstoned_def)
  qed
qed

lemma sql_DeleteFeed_buried [wf_intros]: "keeps (buried k g) (sql_DeleteFeed i uid)"
proof (rule keepsI)
  fix d
  assume b: "buried k g d"
  let ?d = "snd (sql_DeleteFeed i uid d)"
  have fs: "feeds ?d = filter (\<lambda>r. \<not> feed_is i uid r) (feeds d)" by (simp add: sql_DeleteFeed_def Let_def)
  have gone: "k \<notin> fr_ID ` set (feeds ?d)" if "k \<in> fr_ID ` set (filter (feed_is i uid) (feeds d))"
  proof
    assume "k \<in> fr_ID ` set (feeds ?d)"
    then obtain y where y: "y \<in> set (feeds d)" "\<not> feed_is i uid y" "fr_ID y = k" by (auto simp: fs)
    from that obtain x where x: "x \<in> set (feeds d)" "feed_is i uid x" "fr_ID x = k" by auto
    have "x = y" using b x y by (intro distinct_key_unique [of fr_ID "feeds d"]) (simp_all add: buried_def)
    with x y show False by simp
  qed
  have "tombstoned ?d k g \<or> k \<notin> fr_ID ` set (feeds ?d)"
  proof (cases "k \<in> fr_ID ` set (filter (feed_is i uid) (feeds d))")
    case False
    then have "tombstoned ?d k g = tombstoned d k g"
      by (auto simp: tombstoned_def sql_DeleteFeed_def tomb_key_def Let_def)
    with b show ?thesis by (auto simp: buried_def fs)
  qed (use gone in simp)
  then show "buried k g ?d"
    using b by (simp add: buried_def distinct_map_filter sql_DeleteFeed_def Let_def)
qed

lemma sql_entry_stmts_buried [wf_intros]:
  "keeps (buried k g) (sql_CancelFeedExtractions fid)" "keeps (buried k g) (sql_MarkFeedEntriesPending q fid)"
  "keeps (buried k g) (sql_SetEntryContent c t i)" "keeps (buried k g) (sql_UpdateExtractState st j nx er i)"
  unfolding sql_CancelFeedExtractions_def sql_MarkFeedEntriesPending_def sql_SetEntryContent_def
    sql_UpdateExtractState_def
  by (intro exec_only_keeps update_entries_buried; simp)+

lemma sql_mark_read_buried [wf_intros]: "keeps (buried k g) (sql_mark_read now u fl)"
  using update_entries_buried [of "\<lambda>r. r\<lparr>er_Status := ''read'', er_ReadAt := Some now\<rparr>"]
  by (simp add: keeps_def sql_mark_read_def)

lemma op_keeps_buried:
  "op_keeps (buried k g) (CreateFeed cx f)" "op_keeps (buried k g) (UpdateFeed cx f)"
  "op_keeps (buried k g) (DeleteFeed cx u j)" "op_keeps (buried k g) (SetFeedCategory cx u j cat)"
  "op_keeps (buried k g) (SetFeedFullContent cx u j on t)" "op_keeps (buried k g) (SetFeedUserTitle cx u j s)"
  "op_keeps (buried k g) (SetFeedURL cx u j s t)" "op_keeps (buried k g) (SetStarred cx u is b)"
  "op_keeps (buried k g) (MarkReadByFilter wall cx u fl)" "op_keeps (buried k g) (SetEntryContent unesc cx i s)"
  "op_keeps (buried k g) (CreateCategory cx c)" "op_keeps (buried k g) (UpdateCategory cx c)"
  "op_keeps (buried k g) (DeleteCategory cx u i)" "op_keeps (buried k g) (PutSetting cx s v)"
  "op_keeps (buried k g) (SetStatus wall cx u is st)"
  "op_keeps (buried k g) (UpdateExtractState cx i xs n nx s)"
  unfolding feed_op_defs category_op_defs other_op_defs entry_op_defs Let_def
  by (auto intro!: wf_intros update_entries_buried)

lemma put_entry_buried: "buried k g d \<Longrightarrow> fid \<in> fr_ID ` set (feeds d) \<Longrightarrow> buried k g (put_entry unesc ins fid e d)"
  by (cases rule: put_entry_cases [of unesc ins fid e d])
    (auto simp: buried_def entry_key_def set_upd_where)

lemma put_all_buried: "buried k g d \<Longrightarrow> fid \<in> fr_ID ` set (feeds d) \<Longrightarrow> buried k g (put_all unesc ins fid es d)"
  by (induction es arbitrary: d) (simp_all add: put_entry_buried)

lemma delete_entry_buried:
  assumes "buried k g d"
  shows "buried k g (after fs (DeleteEntry wall cx u i) d)"
proof -
  obtain r c' where c': "DeleteEntry wall cx u i (conn_of fs d) = (r, c')"
    by (cases "DeleteEntry wall cx u i (conn_of fs d)")
  then show ?thesis
  proof (cases rule: delete_entry_cases)
    case (error e)
    then show ?thesis using assms c' by (simp add: after_def)
  next
    case (deleted row)
    then show ?thesis
      using assms c' by (simp add: after_def buried_def tombstoned_entomb) blast
  qed
qed

lemma store_step_buried: "store_step unesc d d' \<Longrightarrow> buried k g d \<Longrightarrow> buried k g d'"
proof (induction rule: store_step.induct)
  case (upsert fs d cx j es)
  then show ?case using after_upsert [OF upsert(1), of unesc cx j es] put_all_buried by auto
next
  case (delete_entry d fs wall cx u i)
  then show ?case by (rule delete_entry_buried)
qed (auto intro: after_keeps op_keeps_buried)

text \<open>C10. A deleted entry never comes back: once \<open>DeleteEntry\<close> returned nil for an entry, no later
  sequence of operations (polls that deliver its guid again, under any faults, included) gives its
  feed an entry with that guid again.\<close>

theorem deleted_never_back:
  assumes "store_inv d" and "entry_is i u row" and "row \<in> set (entries d)"
    and "fst (DeleteEntry wall cx u i (conn_of fs d)) = Inr ()"
    and "(store_step unesc)\<^sup>*\<^sup>* (after fs (DeleteEntry wall cx u i) d) d'"
  shows "entry_at d' (er_FeedID row) (er_Guid row) = None"
proof -
  let ?d1 = "after fs (DeleteEntry wall cx u i) d"
  obtain r c' where c': "DeleteEntry wall cx u i (conn_of fs d) = (r, c')"
    by (cases "DeleteEntry wall cx u i (conn_of fs d)")
  have wf: "wf_db d" using assms(1) by (simp add: store_inv_def)
  have "buried (er_FeedID row) (er_Guid row) ?d1"
    using c'
  proof (cases rule: delete_entry_cases)
    case (error e)
    then show ?thesis using assms(4) c' by simp
  next
    case (deleted row')
    have "row' = row"
      using deleted(2,3) assms(2,3) distinct_key_unique [OF wf_entriesD(3) [OF wf], of row' row]
      by (simp add: entry_is_def)
    moreover have "er_FeedID row \<le> feed_seq d"
      using wf assms(3) by (auto simp: wf_db_def wf_entries_def entry_fk_def wf_feeds_def)
    ultimately show ?thesis
      using deleted c' other_rows_other_keys [OF wf assms(3,2)] wf_feedsD(3) [OF wf]
      by (auto simp: buried_def after_def tombstoned_entomb entry_key_def)
  qed
  with assms(5) have "buried (er_FeedID row) (er_Guid row) d'"
    by (induction rule: rtranclp_induct) (auto intro: store_step_buried)
  then show ?thesis by (simp add: entry_at_def find_None_iff_all buried_def)
qed

text \<open>A poll stores an entry, the user deletes it, the next poll delivers it again.\<close>

definition sample_db1 :: db where
  "sample_db1 = after [] (UpsertEntries (\<lambda>s. s) None 1 [sample_entry]) sample_db"

lemma sample_db1_inv: "store_inv sample_db1"
proof -
  have "store_inv sample_db"
    using wf_sample_db by (simp add: store_inv_def rows_ok_def no_zombie_def) (simp add: sample_db_def init_db_def)
  then show ?thesis unfolding sample_db1_def by (intro upsert_inv) (simp_all add: conn_of_def faults_ok_def)
qed

theorem deleted_never_back_witness:
  "entry_at (after [] (UpsertEntries (\<lambda>s. s) None 1 [sample_entry]) (after [] (DeleteEntry 0 None 1 1) sample_db1))
     1 ''g'' = None"
proof -
  have row: "entries sample_db1 = [new_row (\<lambda>s. s) ExtractPending 1 sample_entry 1]" by code_simp
  have "fst (DeleteEntry 0 None 1 1 (conn_of [] sample_db1)) = Inr ()" by code_simp
  then show ?thesis
    using deleted_never_back [OF sample_db1_inv, where unesc = "\<lambda>s. s" and i = 1 and u = 1 and fs = "[]" and wall = 0 and cx = None
        and row = "new_row (\<lambda>s. s) ExtractPending 1 sample_entry 1" and d' = "after [] (UpsertEntries (\<lambda>s. s) None 1 [sample_entry]) (after [] (DeleteEntry 0 None 1 1) sample_db1)"]
      store_step.upsert [where fs = "[]" and d = "after [] (DeleteEntry 0 None 1 1) sample_db1"
        and unesc = "\<lambda>s. s" and cx = None and k = 1 and es = "[sample_entry]"]
    by (auto simp: row entry_is_def sample_entry_def conn_of_def faults_ok_def)
qed

section \<open>Feed ids\<close>

lemma seq_stmts_keep [wf_intros]:
  "keeps (\<lambda>d. n \<le> feed_seq d) (sql_CreateFeed a)"
  "keeps (\<lambda>d. n \<le> feed_seq d) (sql_UpdateFeed a)" "keeps (\<lambda>d. n \<le> feed_seq d) (sql_DeleteFeed i uid)"
  "keeps (\<lambda>d. n \<le> feed_seq d) (sql_SetFeedCategory cat i uid)"
  "keeps (\<lambda>d. n \<le> feed_seq d) (sql_SetFeedFullContent v i uid)"
  "keeps (\<lambda>d. n \<le> feed_seq d) (sql_SetFeedUserTitle t i uid)"
  "keeps (\<lambda>d. n \<le> feed_seq d) (sql_SetFeedURL url nx i uid)"
  "keeps (\<lambda>d. n \<le> feed_seq d) (sql_CreateCategory uid t)" "keeps (\<lambda>d. n \<le> feed_seq d) (sql_UpdateCategory t i uid)"
  "keeps (\<lambda>d. n \<le> feed_seq d) (sql_DeleteCategory i uid)" "keeps (\<lambda>d. n \<le> feed_seq d) (sql_PutAppSetting q w)"
  by (auto simp: keeps_def sql_CreateFeed_def sql_UpdateFeed_def sql_DeleteFeed_def
      sql_SetFeedCategory_def sql_SetFeedFullContent_def sql_SetFeedUserTitle_def sql_SetFeedURL_def
      sql_CreateCategory_def sql_UpdateCategory_def sql_DeleteCategory_def sql_PutAppSetting_def Let_def
      split: option.split)

lemma update_entries_seq: "keeps (\<lambda>d. n \<le> feed_seq d) (update_entries P f)"
  by (auto simp: keeps_def update_entries_def split: option.split)

lemma entry_stmts_seq [wf_intros]:
  "keeps (\<lambda>d. n \<le> feed_seq d) (sql_CancelFeedExtractions fid)" "keeps (\<lambda>d. n \<le> feed_seq d) (sql_MarkFeedEntriesPending q fid)"
  "keeps (\<lambda>d. n \<le> feed_seq d) (sql_SetEntryContent c t i)" "keeps (\<lambda>d. n \<le> feed_seq d) (sql_UpdateExtractState st j nx er i)"
  unfolding sql_CancelFeedExtractions_def sql_MarkFeedEntriesPending_def sql_SetEntryContent_def
    sql_UpdateExtractState_def
  by (intro exec_only_keeps update_entries_seq; simp)+

lemma sql_mark_read_seq [wf_intros]: "keeps (\<lambda>d. n \<le> feed_seq d) (sql_mark_read now u fl)"
  using update_entries_seq [of n _ "\<lambda>r. r\<lparr>er_Status := ''read'', er_ReadAt := Some now\<rparr>"]
  by (simp add: keeps_def sql_mark_read_def)

lemma op_keeps_seq:
  "op_keeps (\<lambda>d. m \<le> feed_seq d) (CreateFeed cx f)" "op_keeps (\<lambda>d. m \<le> feed_seq d) (UpdateFeed cx f)"
  "op_keeps (\<lambda>d. m \<le> feed_seq d) (DeleteFeed cx u j)" "op_keeps (\<lambda>d. m \<le> feed_seq d) (SetFeedCategory cx u j cat)"
  "op_keeps (\<lambda>d. m \<le> feed_seq d) (SetFeedFullContent cx u j on t)" "op_keeps (\<lambda>d. m \<le> feed_seq d) (SetFeedUserTitle cx u j s)"
  "op_keeps (\<lambda>d. m \<le> feed_seq d) (SetFeedURL cx u j s t)" "op_keeps (\<lambda>d. m \<le> feed_seq d) (SetStarred cx u is b)"
  "op_keeps (\<lambda>d. m \<le> feed_seq d) (MarkReadByFilter wall cx u fl)" "op_keeps (\<lambda>d. m \<le> feed_seq d) (SetEntryContent unesc cx i s)"
  "op_keeps (\<lambda>d. m \<le> feed_seq d) (CreateCategory cx c)" "op_keeps (\<lambda>d. m \<le> feed_seq d) (UpdateCategory cx c)"
  "op_keeps (\<lambda>d. m \<le> feed_seq d) (DeleteCategory cx u i)" "op_keeps (\<lambda>d. m \<le> feed_seq d) (PutSetting cx s v)"
  "op_keeps (\<lambda>d. m \<le> feed_seq d) (SetStatus wall cx u is st)"
  "op_keeps (\<lambda>d. m \<le> feed_seq d) (UpdateExtractState cx i xs n nx s)"
  unfolding feed_op_defs category_op_defs other_op_defs entry_op_defs Let_def
  by (auto intro!: wf_intros update_entries_seq)

lemma put_all_seq: "feed_seq (put_all unesc ins fid es d) = feed_seq d"
  by (induction es arbitrary: d) simp_all

lemma store_step_seq: "store_step unesc d d' \<Longrightarrow> m \<le> feed_seq d \<Longrightarrow> m \<le> feed_seq d'"
proof (induction rule: store_step.induct)
  case (upsert fs d cx j es)
  then show ?case using after_upsert [OF upsert(1), of unesc cx j es] by (auto simp: put_all_seq)
next
  case (delete_entry d fs wall cx u i)
  obtain r c' where c': "DeleteEntry wall cx u i (conn_of fs d) = (r, c')"
    by (cases "DeleteEntry wall cx u i (conn_of fs d)")
  then show ?case
    using delete_entry by (cases rule: delete_entry_cases) (simp_all add: after_def c')
qed (auto intro: after_keeps [where I = "\<lambda>d. m \<le> feed_seq d"] op_keeps_seq)

text \<open>The id of a subscription is never given to another one: a feed created later, after any
  operations (deletions included), has a larger id than every feed there ever was, and at that
  moment neither an entry nor a tombstone carries it, so a stale write of an old poll hits no row
  of the new feed.\<close>

lemma feed_ids_never_reused:
  assumes "store_inv d" and "r \<in> set (feeds d)" and "(store_step unesc)\<^sup>*\<^sup>* d d'"
    and "fst (CreateFeed cx f (conn_of fs d')) = Inr i"
  shows "fr_ID r < i \<and> (\<forall>e \<in> set (entries d'). er_FeedID e \<noteq> i)
     \<and> (\<forall>t \<in> set (tombstones d'). tb_FeedID t \<noteq> i)"
proof -
  have inv: "wf_db d'" using store_steps_inv [OF assms(3,1)] by (simp add: store_inv_def)
  have "fr_ID r \<le> feed_seq d" using assms(1,2) by (simp add: store_inv_def wf_db_def wf_feeds_def)
  with assms(3) have seq: "fr_ID r \<le> feed_seq d'"
    by (induction rule: rtranclp_induct) (auto intro: store_step_seq)
  have "CreateFeed cx f (conn_of fs d') = (Inr i, snd (CreateFeed cx f (conn_of fs d')))"
    using assms(4) by (cases "CreateFeed cx f (conn_of fs d')") simp
  then have "fst (sql_CreateFeed (feed_params f) d') = Inr i"
    unfolding CreateFeed_def mapped_Inr by (auto dest: exec_Inr(1))
  then have i: "feed_seq d' < i"
    by (auto simp: sql_CreateFeed_def Let_def split: option.splits if_splits)
  have "k < i" if "k \<in> fr_ID ` set (feeds d')" for k
    using that inv i by (auto simp: wf_db_def wf_feeds_def)
  with inv have "\<forall>e \<in> set (entries d'). er_FeedID e < i" "\<forall>t \<in> set (tombstones d'). tb_FeedID t < i"
    by (simp_all add: wf_db_def wf_entries_def wf_tombstones_def entry_fk_def)
  then show ?thesis using seq i by force
qed

end
