(* ===== verification/SqliteContract.thy ===== *)
theory SqliteContract
  imports EditContract StoreSteps
begin

text \<open>
  The SQLite store keeps the contract of \<open>FeedContract\<close>: \<open>sqlite_ops\<close> collects the operations of
  \<open>SqliteStore\<close> and \<open>SqliteEntries\<close> under the names the services call, the interpretation discharges
  the laws for every database, every fault of the driver and every state of the context.
\<close>

section \<open>The operations\<close>

definition sqlite_ops :: "(string \<Rightarrow> string) \<Rightarrow> conn store_ops" where
  "sqlite_ops unesc = \<lparr>so_CreateFeed = CreateFeed, so_GetFeed = GetFeed, so_ListFeeds = ListFeeds,
     so_UpdateFeed = UpdateFeed, so_DeleteFeed = DeleteFeed, so_SetFeedCategory = SetFeedCategory,
     so_SetFeedFullContent = SetFeedFullContent, so_SetFeedUserTitle = SetFeedUserTitle,
     so_SetFeedURL = SetFeedURL, so_WeeklyEntryCount = WeeklyEntryCount,
     so_UpsertEntries = UpsertEntries unesc, so_EntryDedup = EntryDedup, so_GetCategory = GetCategory,
     so_SetEntryContent = SetEntryContent unesc, so_UpdateExtractState = UpdateExtractState\<rparr>"

lemma sqlite_ops_simps [simp]:
  "so_CreateFeed (sqlite_ops unesc) = CreateFeed" "so_GetFeed (sqlite_ops unesc) = GetFeed"
  "so_UpdateFeed (sqlite_ops unesc) = UpdateFeed" "so_DeleteFeed (sqlite_ops unesc) = DeleteFeed"
  "so_SetFeedCategory (sqlite_ops unesc) = SetFeedCategory"
  "so_SetFeedFullContent (sqlite_ops unesc) = SetFeedFullContent"
  "so_SetFeedUserTitle (sqlite_ops unesc) = SetFeedUserTitle" "so_SetFeedURL (sqlite_ops unesc) = SetFeedURL"
  "so_WeeklyEntryCount (sqlite_ops unesc) = WeeklyEntryCount"
  "so_UpsertEntries (sqlite_ops unesc) = UpsertEntries unesc" "so_EntryDedup (sqlite_ops unesc) = EntryDedup"
  "so_GetCategory (sqlite_ops unesc) = GetCategory"
  "so_SetEntryContent (sqlite_ops unesc) = SetEntryContent unesc"
  "so_UpdateExtractState (sqlite_ops unesc) = UpdateExtractState"
  by (simp_all add: sqlite_ops_def)

text \<open>Between operations the connection has no open transaction.\<close>

definition conn_ok :: "conn \<Rightarrow> bool" where
  "conn_ok c \<longleftrightarrow> wf_db (cn_db c) \<and> cn_saved c = None"

definition feed_row :: "conn \<Rightarrow> feed_view" where
  "feed_row c i = find (\<lambda>r. fr_ID r = i) (feeds (cn_db c))"

lemma conn_ok_fresh: "wf_db d \<Longrightarrow> conn_ok (fresh_conn d)"
  by (simp add: conn_ok_def fresh_conn_def)

lemma feed_row_cong: "feeds (cn_db c') = feeds (cn_db c) \<Longrightarrow> feed_row c' = feed_row c"
  by (simp add: feed_row_def fun_eq_iff)

lemma feed_row_keyed: "keyed (feed_row c)"
  by (auto simp: keyed_def feed_row_def dest: find_SomeD)

lemma feed_row_mem: "wf_db (cn_db c) \<Longrightarrow> r \<in> set (feeds (cn_db c)) \<Longrightarrow> feed_row c (fr_ID r) = Some r"
  unfolding feed_row_def
  by (rule find_distinct_key [where k = fr_ID]) (auto simp: wf_db_def wf_feeds_def ids_ok_distinct)

section \<open>Operations of one statement\<close>

text \<open>Either the statement failed and nothing changed, or it ran.\<close>

definition clean :: "'a stmt \<Rightarrow> bool" where
  "clean s \<longleftrightarrow> (\<forall>d e d'. s d = (Inl e, d') \<longrightarrow> d' = d)"

lemma exec_outcome:
  assumes "exec cx s c = (r, c')" and "clean s"
  shows "cn_saved c' = cn_saved c \<and> (case r of Inl e \<Rightarrow> cn_db c' = cn_db c | Inr a \<Rightarrow> s (cn_db c) = (Inr a, cn_db c'))"
  using assms unfolding clean_def
  by (auto simp: exec_def Let_def split: option.splits list.splits prod.splits sum.splits)

lemma mapped_outcome:
  assumes "mapped (exec cx s) c = (r, c')" and "clean s"
  shows "cn_saved c' = cn_saved c \<and> (case r of Inl e \<Rightarrow> cn_db c' = cn_db c | Inr a \<Rightarrow> s (cn_db c) = (Inr a, cn_db c'))"
proof -
  obtain x c1 where e: "exec cx s c = (x, c1)" by (cases "exec cx s c")
  from exec_outcome [OF e assms(2)] show ?thesis
    using assms(1) e by (cases x) (auto simp: mapped_def)
qed

lemma affected_outcome:
  assumes "affected (exec cx s) c = (r, c')" and "clean s"
    and "\<And>d d'. s d = (Inr 0, d') \<Longrightarrow> feeds d' = feeds d"
  shows "cn_saved c' = cn_saved c \<and> (case r of Inl e \<Rightarrow> feeds (cn_db c') = feeds (cn_db c)
    | Inr _ \<Rightarrow> (\<exists>n. n \<noteq> 0 \<and> s (cn_db c) = (Inr n, cn_db c')))"
proof -
  obtain x c1 where e: "mapped (exec cx s) c = (x, c1)" by (cases "mapped (exec cx s) c")
  from mapped_outcome [OF e assms(2)] show ?thesis
    using assms(1) e assms(3) [of "cn_db c" "cn_db c1"]
    by (cases x) (auto simp: affected_def bindE_def throwE_def returnE_def split: if_splits)
qed

lemma clean_feed_stmts:
  "clean (sql_CreateFeed a)" "clean (sql_UpdateFeed a)" "clean (sql_DeleteFeed i uid)"
  "clean (sql_SetFeedCategory cat i uid)" "clean (sql_SetFeedUserTitle t i uid)" "clean (sql_SetFeedURL u nx i uid)"
  by (auto simp: clean_def sql_CreateFeed_def sql_UpdateFeed_def sql_DeleteFeed_def sql_SetFeedCategory_def
      sql_SetFeedUserTitle_def sql_SetFeedURL_def Let_def split: option.splits if_splits)

lemma reads_clean: "reads s \<Longrightarrow> clean s"
  unfolding reads_def clean_def by (metis snd_conv)

lemma feed_row_upd:
  "feeds (cn_db c') = upd_where P u (feeds (cn_db c)) \<Longrightarrow> (\<And>r. P r \<Longrightarrow> fr_ID (u r) = fr_ID r)
   \<Longrightarrow> feed_row c' = edit P u (feed_row c)"
  by (auto simp: feed_row_def edit_def fun_eq_iff find_upd_where)

lemma upd_where_count: "count_where P xs = 0 \<Longrightarrow> upd_where P u xs = xs"
  by (auto simp: count_where_zero intro: upd_where_none)

section \<open>Transactions are closed\<close>

lemma in_tx_closed: "cn_saved c = None \<Longrightarrow> cn_saved (snd (in_tx cx body c)) = None"
proof -
  assume c: "cn_saved c = None"
  obtain r c1 where b: "mapped (BeginTx cx) c = (r, c1)" by (cases "mapped (BeginTx cx) c")
  show ?thesis
  proof (cases r)
    case (Inl e)
    then have "cn_saved c1 = None"
      using b c by (auto simp: mapped_def BeginTx_def bindE_def exec_def Let_def split: option.splits list.splits)
    then show ?thesis using b Inl by (simp add: in_tx_def bindE_def)
  next
    case (Inr x)
    then show ?thesis using b by (auto simp: in_tx_def bindE_def Rollback_def split: prod.split option.split)
  qed
qed

text \<open>A statement kept by a predicate on the database keeps it through any operation.\<close>

lemma op_keeps_closed:
  "op_keeps I m \<Longrightarrow> I (cn_db c) \<Longrightarrow> cn_saved c = None \<Longrightarrow> I (cn_db (snd (m c)))"
  using op_keepsD [of I m c] by (auto simp: conn_inv_def)

lemma stays_saved: "stays m \<Longrightarrow> cn_saved (snd (m c)) = cn_saved c"
  by (simp add: stays_def)

section \<open>The laws\<close>

definition edits :: "(FeedRow \<Rightarrow> bool) \<Rightarrow> (FeedRow \<Rightarrow> FeedRow) \<Rightarrow> int stmt \<Rightarrow> bool" where
  "edits P u s \<longleftrightarrow> (\<forall>d n d'. s d = (Inr n, d') \<longrightarrow>
     n = count_where P (feeds d) \<and> feeds d' = upd_where P u (feeds d))"

lemma feed_stmts_edit:
  "edits (feed_is i uid) (fr_CategoryID_update (\<lambda>_. cat)) (sql_SetFeedCategory cat i uid)"
  "edits (feed_is i uid) (fr_UserTitle_update (\<lambda>_. t)) (sql_SetFeedUserTitle t i uid)"
  "edits (feed_is i uid) (fr_FetchFullContent_update (\<lambda>_. v)) (sql_SetFeedFullContent v i uid)"
  "edits (feed_is i uid) (repoint url now) (sql_SetFeedURL url (toUnix now) i uid)"
  by (auto simp: edits_def sql_SetFeedCategory_def sql_SetFeedUserTitle_def sql_SetFeedFullContent_def
      sql_SetFeedURL_def repoint_def [abs_def] Let_def split: if_splits)

lemma sql_UpdateFeed_Inr:
  "sql_UpdateFeed a d = (Inr x, d') \<Longrightarrow> feeds d' = upd_where (feed_cas a) (update_feed_cols a) (feeds d)"
  by (auto simp: sql_UpdateFeed_def split: if_splits)

lemma UpdateFeed_sqlite:
  assumes "conn_ok c" and "UpdateFeed cx f c = (r, c')"
  shows "conn_ok c' \<and> feed_row c'
      = on_ok r (edit (feed_cas (feed_params f)) (update_feed_cols (feed_params f)) (feed_row c)) (feed_row c)"
proof -
  have m: "mapped (exec cx (sql_UpdateFeed (feed_params f))) c = (r, c')"
    using assms(2) by (simp add: UpdateFeed_def)
  note o = mapped_outcome [OF m clean_feed_stmts(2)]
  have wf: "wf_db (cn_db c')"
    using o assms(1) keepsD [OF sql_UpdateFeed_keeps, of "cn_db c" "feed_params f"]
    by (cases r) (auto simp: conn_ok_def)
  have row: "feed_row c' = on_ok r (edit (feed_cas (feed_params f)) (update_feed_cols (feed_params f)) (feed_row c)) (feed_row c)"
  proof (cases r)
    case (Inl e)
    then show ?thesis using o by (auto simp: on_ok_def intro: feed_row_cong)
  next
    case (Inr x)
    then have "feeds (cn_db c') = upd_where (feed_cas (feed_params f)) (update_feed_cols (feed_params f)) (feeds (cn_db c))"
      using o by (auto intro: sql_UpdateFeed_Inr)
    then show ?thesis using Inr by (simp add: on_ok_def feed_row_upd update_feed_cols_def)
  qed
  show ?thesis using wf row o assms(1) by (simp add: conn_ok_def)
qed

text \<open>The four edits that report a missing row.\<close>

lemma affected_edit:
  assumes "conn_ok c" and "affected (exec cx s) c = (r, c')" and "clean s" and "keeps wf_db s"
    and "edits P u s" and "\<And>x. P x \<Longrightarrow> fr_ID (u x) = fr_ID x"
  shows "conn_ok c' \<and> feed_row c' = on_ok r (edit P u (feed_row c)) (feed_row c)
     \<and> (\<forall>x. r = Inr x \<longrightarrow> (\<exists>y \<in> set (feeds (cn_db c)). P y) \<and> (\<exists>n. s (cn_db c) = (Inr n, cn_db c')))"
proof -
  have upd: "s d = (Inr n, d') \<Longrightarrow> n = count_where P (feeds d) \<and> feeds d' = upd_where P u (feeds d)" for d n d'
    using assms(5) by (simp add: edits_def)
  have zero: "s d = (Inr 0, d') \<Longrightarrow> feeds d' = feeds d" for d d'
    using upd [of d 0 d'] upd_where_count [of P "feeds d" u] by simp
  note o = affected_outcome [OF assms(2,3) zero]
  have "op_keeps wf_db (affected (exec cx s))" by (intro wf_intros assms(4))
  then have wf: "wf_db (cn_db c')"
    using op_keeps_closed [of wf_db "affected (exec cx s)" c] assms(1,2) by (simp add: conn_ok_def)
  show ?thesis
  proof (cases r)
    case (Inl e)
    then show ?thesis using o wf assms(1) by (auto simp: on_ok_def conn_ok_def intro: feed_row_cong)
  next
    case (Inr x)
    then obtain n where n: "n \<noteq> 0" "s (cn_db c) = (Inr n, cn_db c')" using o by auto
    from upd [OF n(2)] n(1) have "\<exists>y \<in> set (feeds (cn_db c)). P y" by (auto simp: count_where_zero)
    then show ?thesis
      using Inr o wf assms(1) n upd [OF n(2)] feed_row_upd [of c' P u c] assms(6)
      by (auto simp: on_ok_def conn_ok_def)
  qed
qed

lemma SetFeedURL_edit:
  assumes "conn_ok c" and "SetFeedURL cx uid fid url now c = (r, c')"
  shows "conn_ok c' \<and> feed_row c' = on_ok r (edit (feed_is fid uid) (repoint url now) (feed_row c)) (feed_row c)
     \<and> (\<forall>x. r = Inr x \<longrightarrow> (\<exists>y \<in> set (feeds (cn_db c)). feed_is fid uid y)
        \<and> (\<exists>n. sql_SetFeedURL url (toUnix now) fid uid (cn_db c) = (Inr n, cn_db c')))"
  by (rule affected_edit [OF assms(1) assms(2) [unfolded SetFeedURL_def] clean_feed_stmts(6)
        sql_SetFeedURL_keeps feed_stmts_edit(4)]) (simp add: repoint_def)

lemma SetFeedURL_sqlite_live:
  assumes "conn_ok c" and "SetFeedURL cx uid fid url now c = (Inr (), c')"
  shows "(\<exists>r. feed_row c fid = Some r \<and> fr_UserID r = uid)
     \<and> (\<forall>i r. i \<noteq> fid \<longrightarrow> feed_row c i = Some r \<longrightarrow> fr_UserID r = uid \<longrightarrow> fr_FeedUrl r \<noteq> url)"
proof -
  from SetFeedURL_edit [OF assms] obtain y n where y: "y \<in> set (feeds (cn_db c))" "feed_is fid uid y"
    and n: "sql_SetFeedURL url (toUnix now) fid uid (cn_db c) = (Inr n, cn_db c')" by auto
  have "feed_row c fid = Some y"
    using feed_row_mem [of c y] y assms(1) by (simp add: conn_ok_def feed_is_def)
  moreover have "fr_FeedUrl r \<noteq> url" if "i \<noteq> fid" "feed_row c i = Some r" "fr_UserID r = uid" for i r
    using n y that by (auto simp: sql_SetFeedURL_def feed_row_def dest!: find_SomeD split: if_splits)
  ultimately show ?thesis using y by (auto simp: feed_is_def)
qed

lemma SetFeedCategory_sqlite:
  assumes "conn_ok c" and "SetFeedCategory cx uid fid cat c = (r, c')"
  shows "conn_ok c' \<and> feed_row c' = on_ok r (edit (feed_is fid uid) (fr_CategoryID_update (\<lambda>_. cat)) (feed_row c)) (feed_row c)"
  using affected_edit [OF assms(1) assms(2) [unfolded SetFeedCategory_def nullID_def] clean_feed_stmts(4)
        sql_SetFeedCategory_keeps feed_stmts_edit(1)] by simp

lemma SetFeedUserTitle_sqlite:
  assumes "conn_ok c" and "SetFeedUserTitle cx uid fid t c = (r, c')"
  shows "conn_ok c' \<and> feed_row c' = on_ok r (edit (feed_is fid uid) (fr_UserTitle_update (\<lambda>_. t)) (feed_row c)) (feed_row c)"
  using affected_edit [OF assms(1) assms(2) [unfolded SetFeedUserTitle_def] clean_feed_stmts(5)
        sql_SetFeedUserTitle_keeps feed_stmts_edit(2)] by simp

lemma sql_DeleteFeed_Inr:
  "sql_DeleteFeed fid uid d = (Inr n, d') \<Longrightarrow>
     n = count_where (feed_is fid uid) (feeds d) \<and> feeds d' = filter (\<lambda>r. \<not> feed_is fid uid r) (feeds d)"
  by (auto simp: sql_DeleteFeed_def Let_def)

lemma DeleteFeed_sqlite:
  assumes "conn_ok c" and "DeleteFeed cx uid fid c = (r, c')"
  shows "conn_ok c' \<and> feed_row c' = on_ok r ((feed_row c)(fid := None)) (feed_row c)"
proof -
  have m: "affected (exec cx (sql_DeleteFeed fid uid)) c = (r, c')" using assms(2) by (simp add: DeleteFeed_def)
  have zero: "sql_DeleteFeed fid uid d = (Inr 0, d') \<Longrightarrow> feeds d' = feeds d" for d d'
    by (auto simp: sql_DeleteFeed_def Let_def count_where_zero filter_id_conv)
  note o = affected_outcome [OF m clean_feed_stmts(3) zero]
  have "op_keeps wf_db (affected (exec cx (sql_DeleteFeed fid uid)))"
    by (intro wf_intros)
  then have wf: "wf_db (cn_db c')"
    using op_keeps_closed [of wf_db "affected (exec cx (sql_DeleteFeed fid uid))" c] assms(1) m
    by (simp add: conn_ok_def)
  show ?thesis
  proof (cases r)
    case (Inl e)
    then show ?thesis using o wf assms(1) by (auto simp: on_ok_def conn_ok_def intro: feed_row_cong)
  next
    case (Inr x)
    then obtain n where n: "n \<noteq> 0" "sql_DeleteFeed fid uid (cn_db c) = (Inr n, cn_db c')" using o by auto
    note fs = sql_DeleteFeed_Inr [OF n(2)]
    then obtain y where y: "y \<in> set (feeds (cn_db c))" "feed_is fid uid y"
      using n(1) by (auto simp: count_where_zero)
    have ids: "distinct (map fr_ID (feeds (cn_db c)))"
      using assms(1) by (simp add: conn_ok_def wf_db_def wf_feeds_def ids_ok_distinct)
    have "feed_row c' i = ((feed_row c)(fid := None)) i" for i
    proof (cases "i = fid")
      case True
      have "feed_is fid uid z" if "z \<in> set (feeds (cn_db c))" "fr_ID z = fid" for z
        using distinct_key_unique [OF ids that(1) y(1)] that y(2) by (simp add: feed_is_def)
      then show ?thesis using True fs by (auto simp: feed_row_def find_None_iff_all)
    next
      case False
      then have "(\<lambda>r. \<not> feed_is fid uid r \<and> fr_ID r = i) = (\<lambda>r. fr_ID r = i)"
        by (auto simp: feed_is_def)
      then show ?thesis using False fs by (simp add: feed_row_def find_filter)
    qed
    then show ?thesis using Inr wf o assms(1) by (auto simp: on_ok_def conn_ok_def)
  qed
qed

lemma sql_CreateFeed_Inr:
  "sql_CreateFeed a d = (Inr i, d') \<Longrightarrow> i = max (feed_seq d) (max_id fr_ID (feeds d)) + 1
     \<and> feeds d' = feeds d @ [a\<lparr>fr_ID := i, fr_UserTitle := []\<rparr>]"
  by (auto simp: sql_CreateFeed_def Let_def split: option.splits if_splits)

lemma CreateFeed_sqlite:
  assumes "conn_ok c" and "CreateFeed cx f c = (r, c')"
  shows "conn_ok c' \<and> (case r of Inl e \<Rightarrow> feed_row c' = feed_row c
        | Inr i \<Rightarrow> feed_row c i = None \<and> feed_row c' = (feed_row c)(i \<mapsto> (feed_params f)\<lparr>fr_ID := i, fr_UserTitle := []\<rparr>))"
proof -
  have m: "mapped (exec cx (sql_CreateFeed (feed_params f))) c = (r, c')"
    using assms(2) by (simp add: CreateFeed_def)
  note o = mapped_outcome [OF m clean_feed_stmts(1)]
  have "op_keeps wf_db (mapped (exec cx (sql_CreateFeed (feed_params f))))" by (intro wf_intros)
  then have wf: "wf_db (cn_db c')"
    using op_keeps_closed [of wf_db "mapped (exec cx (sql_CreateFeed (feed_params f)))" c] assms(1) m
    by (simp add: conn_ok_def)
  show ?thesis
  proof (cases r)
    case (Inl e)
    then show ?thesis using o wf assms(1) by (auto simp: conn_ok_def intro: feed_row_cong)
  next
    case (Inr i)
    then have run: "sql_CreateFeed (feed_params f) (cn_db c) = (Inr i, cn_db c')" using o by simp
    then have i: "i = max (feed_seq (cn_db c)) (max_id fr_ID (feeds (cn_db c))) + 1"
      and fs: "feeds (cn_db c') = feeds (cn_db c) @ [(feed_params f)\<lparr>fr_ID := i, fr_UserTitle := []\<rparr>]"
      using sql_CreateFeed_Inr [OF run] by simp_all
    have "feed_row c i = None"
      using max_id_ge [of _ "feeds (cn_db c)" fr_ID] i by (fastforce simp: feed_row_def find_None_iff_all)
    then have "feed_row c' = (feed_row c)(i \<mapsto> (feed_params f)\<lparr>fr_ID := i, fr_UserTitle := []\<rparr>)"
      using fs by (auto simp: feed_row_def find_append fun_eq_iff split: option.split)
    then show ?thesis using Inr \<open>feed_row c i = None\<close> wf o assms(1) by (simp add: conn_ok_def)
  qed
qed

lemma SetFeedFullContent_sqlite:
  assumes "conn_ok c" and "SetFeedFullContent cx uid fid on due c = (r, c')"
  shows "conn_ok c' \<and> feed_row c'
      = on_ok r (edit (feed_is fid uid) (fr_FetchFullContent_update (\<lambda>_. b2i on)) (feed_row c)) (feed_row c)"
proof -
  define tail where "tail n = (if n = (0 :: int) then throwE ErrNotFound
       else bindE (mapped (exec cx (if on then sql_MarkFeedEntriesPending (Some (toUnix due)) fid
                                       else sql_CancelFeedExtractions fid)))
            (\<lambda>_. bindE (mapped Commit) (\<lambda>_. returnE ())))" for n
  have def: "SetFeedFullContent cx uid fid on due
      = in_tx cx (bindE (mapped (exec cx (sql_SetFeedFullContent (b2i on) fid uid))) tail)"
    by (simp add: SetFeedFullContent_def tail_def [abs_def])
  have "op_keeps wf_db (SetFeedFullContent cx uid fid on due)"
    unfolding SetFeedFullContent_def by (intro wf_intros op_keeps_if) (auto intro!: sql_entry_updates_keep)
  then have wf: "wf_db (cn_db c')"
    using op_keeps_closed [of wf_db "SetFeedFullContent cx uid fid on due" c] assms by (simp add: conn_ok_def)
  have closed: "cn_saved c' = None"
    using in_tx_closed assms unfolding def conn_ok_def by (metis snd_conv)
  show ?thesis
  proof (cases r)
    case (Inl e)
    have "tx_safe (tail n)" for n
      unfolding tail_def
      using stays_tx_safe [OF stays_throwE] tx_safe_bindE [OF stays_mapped [OF stays_exec] tx_safe_Commit]
      by (cases "n = 0") (simp_all only: if_True if_False simp_thms)
    then have "tx_safe (bindE (mapped (exec cx (sql_SetFeedFullContent (b2i on) fid uid))) tail)"
      by (intro tx_safe_bindE stays_mapped stays_exec)
    from in_tx_atomic [OF this, of cx c e] have "cn_db c' = cn_db c"
      using assms(2) Inl unfolding def by simp
    then show ?thesis using Inl wf closed by (auto simp: on_ok_def conn_ok_def intro: feed_row_cong)
  next
    case (Inr x)
    from assms(2) [unfolded def Inr] obtain c1 c2 where c1: "cn_db c1 = cn_db c"
      and run: "bindE (mapped (exec cx (sql_SetFeedFullContent (b2i on) fid uid))) tail c1 = (Inr x, c2)"
      and c': "c' = Rollback c2" by (rule in_tx_Inr) auto
    from run obtain n c3 where s: "exec cx (sql_SetFeedFullContent (b2i on) fid uid) c1 = (Inr n, c3)"
      and t: "tail n c3 = (Inr x, c2)" by (auto simp: bindE_Inr mapped_Inr)
    have fs: "feeds (cn_db c3) = upd_where (feed_is fid uid) (fr_FetchFullContent_update (\<lambda>_. b2i on)) (feeds (cn_db c))"
      using exec_Inr(1) [OF s] feed_stmts_edit(3) [of fid uid "b2i on"] c1 by (simp add: edits_def)
    have keep: "keeps (\<lambda>d. feeds d = F) (if on then sql_MarkFeedEntriesPending (Some (toUnix due)) fid
                                       else sql_CancelFeedExtractions fid)" for F
      by (auto simp: keeps_def sql_MarkFeedEntriesPending_def sql_CancelFeedExtractions_def exec_only_def
          update_entries_def split: option.split)
    from t have n: "n \<noteq> 0" by (auto simp: tail_def)
    with t obtain u c4 where e: "exec cx (if on then sql_MarkFeedEntriesPending (Some (toUnix due)) fid
                                       else sql_CancelFeedExtractions fid) c3 = (Inr u, c4)"
      and k: "Commit c4 = (Inr (), c2)" by (auto simp: tail_def bindE_Inr mapped_Inr returnE_Inr)
    have "feeds (cn_db c4) = feeds (cn_db c3)"
      using keepsD [OF keep, of "cn_db c3" "feeds (cn_db c3)"] exec_Inr(1) [OF e] by simp
    moreover have "cn_db c2 = cn_db c4" "cn_saved c2 = None" using Commit_Inr [OF k] by auto
    ultimately have "feeds (cn_db c') = upd_where (feed_is fid uid) (fr_FetchFullContent_update (\<lambda>_. b2i on)) (feeds (cn_db c))"
      using fs c' by simp
    then show ?thesis using Inr wf closed by (simp add: on_ok_def conn_ok_def feed_row_upd)
  qed
qed

text \<open>Operations that write no feed row.\<close>

lemma read_only_sqlite:
  assumes "conn_ok c" and "op_keeps wf_db m" and "\<And>F. op_keeps (\<lambda>d. feeds d = F) m"
    and "cn_saved (snd (m c)) = None"
  shows "conn_ok (snd (m c)) \<and> feed_row (snd (m c)) = feed_row c"
proof -
  have sv: "cn_saved c = None" using assms(1) by (simp add: conn_ok_def)
  have same: "feeds (cn_db (snd (m c))) = feeds (cn_db c)"
    by (rule op_keeps_closed [OF assms(3) refl sv])
  moreover have "wf_db (cn_db (snd (m c)))"
    by (rule op_keeps_closed [OF assms(2) _ sv]) (use assms(1) in \<open>simp add: conn_ok_def\<close>)
  ultimately show ?thesis using assms(4) feed_row_cong [OF same] by (simp add: conn_ok_def)
qed

lemma reads_feeds:
  "reads s \<Longrightarrow> keeps (\<lambda>d. feeds d = F) s"
  by (rule reads_keeps)

lemma update_entries_feeds: "keeps (\<lambda>d. feeds d = F) (update_entries P f)"
  by (auto simp: keeps_def update_entries_def split: option.split)

lemma sql_InsertEntry_feeds: "keeps (\<lambda>d. feeds d = F) (sql_InsertEntry a)"
  by (auto simp: keeps_def sql_InsertEntry_def Let_def split: option.split)

lemma entry_stmts_feeds [wf_intros]:
  "keeps (\<lambda>d. feeds d = F) (sql_UpdateEntryMetadata a)" "keeps (\<lambda>d. feeds d = F) (sql_UpdateEntryContent a)"
  "keeps (\<lambda>d. feeds d = F) (sql_InsertEntry a)" "keeps (\<lambda>d. feeds d = F) (sql_SetEntryContent c t i)"
  "keeps (\<lambda>d. feeds d = F) (sql_UpdateExtractState st n nx er i)"
  by (auto simp: sql_UpdateEntryMetadata_def sql_UpdateEntryContent_def sql_SetEntryContent_def
      sql_UpdateExtractState_def intro!: exec_only_keeps update_entries_feeds sql_InsertEntry_feeds)

lemma upsert_one_keeps:
  assumes "\<And>a. keeps I (sql_UpdateEntryMetadata a)" "\<And>a. keeps I (sql_UpdateEntryContent a)"
    and "\<And>a. keeps I (sql_InsertEntry a)"
  shows "op_keeps I (upsert_one unesc cx fid ins acc e)"
  unfolding upsert_one_def if_no_rows_def
  by (intro wf_intros op_keeps_if) (auto split: prod.split intro!: wf_intros op_keeps_if assms)

lemma UpsertEntries_feeds: "op_keeps (\<lambda>d. feeds d = F) (UpsertEntries unesc cx k es)"
  unfolding UpsertEntries_def if_no_rows_def
  by (intro wf_intros op_keeps_if upsert_one_keeps)

lemma saved_stays: "stays m \<Longrightarrow> conn_ok c \<Longrightarrow> cn_saved (snd (m c)) = None"
  by (simp add: stays_def conn_ok_def)

lemma reads_sqlite:
  assumes "conn_ok c" and "stays m" and "\<And>I. op_keeps I m"
  shows "conn_ok (snd (m c)) \<and> feed_row (snd (m c)) = feed_row c"
  by (rule read_only_sqlite [OF assms(1,3,3) saved_stays [OF assms(2,1)]])

lemma reads_intros [wf_intros]: "keeps I (sql_guid_hashes k gs)" "keeps I (sql_guid_tombstones k gs)"
  by (simp_all add: keeps_def sql_guid_hashes_def sql_guid_tombstones_def)

lemma EntryDedup_reads: "stays (EntryDedup cx k gs)" "op_keeps I (EntryDedup cx k gs)"
proof -
  have "stays (dedup_batch cx k acc g)" "op_keeps I (dedup_batch cx k acc g)" for acc g
    unfolding dedup_batch_def by (auto split: prod.split intro!: wf_intros stays_intros)
  then show "stays (EntryDedup cx k gs)" "op_keeps I (EntryDedup cx k gs)"
    unfolding EntryDedup_def by (auto intro!: stays_foldE op_keeps_foldE)
qed

lemma GetFeed_reads: "stays (GetFeed cx uid k)" "op_keeps I (GetFeed cx uid k)"
  unfolding GetFeed_def by (intro wf_intros stays_intros)+

lemma GetCategory_reads: "stays (GetCategory cx uid k)" "op_keeps I (GetCategory cx uid k)"
  unfolding GetCategory_def by (intro wf_intros stays_intros)+

lemma WeeklyEntryCount_reads: "stays (WeeklyEntryCount cx k now)" "op_keeps I (WeeklyEntryCount cx k now)"
  unfolding WeeklyEntryCount_def by (intro wf_intros stays_intros)+

lemma GetFeed_sqlite:
  assumes "conn_ok c" and "GetFeed cx uid fid c = (gf, c')"
  shows "conn_ok c' \<and> feed_row c' = feed_row c
    \<and> (\<forall>f. gf = Inr f \<longrightarrow> (\<exists>r. feed_row c fid = Some r \<and> fr_UserID r = uid \<and> shown_as r f))"
proof -
  have "\<exists>r. feed_row c fid = Some r \<and> fr_UserID r = uid \<and> shown_as r f" if "gf = Inr f" for f
  proof -
    from assms(2) that obtain r c1 where e: "exec cx (sql_GetFeed fid uid) c = (Inr r, c1)" and f: "f = feedFromRow r"
      by (auto simp: GetFeed_def bindE_Inr mapped_Inr returnE_Inr)
    from exec_Inr(1) [OF e] have "find (feed_is fid uid) (feeds (cn_db c)) = Some r"
      by (auto simp: sql_GetFeed_def query_row_def split: option.splits)
    then have "r \<in> set (feeds (cn_db c))" "feed_is fid uid r" by (auto dest: find_SomeD)
    then show ?thesis
      using feed_row_mem [of c r] assms(1) f shown_as_feedFromRow [of r] by (auto simp: conn_ok_def feed_is_def)
  qed
  moreover have "conn_ok c' \<and> feed_row c' = feed_row c"
    using reads_sqlite [OF assms(1) GetFeed_reads] assms(2) by (metis snd_conv)
  ultimately show ?thesis by blast
qed

lemma SetFeedURL_sqlite:
  assumes "conn_ok c" and "SetFeedURL cx uid fid url now c = (r, c')"
  shows "conn_ok c' \<and> feed_row c' = on_ok r (edit (feed_is fid uid) (repoint url now) (feed_row c)) (feed_row c)"
  using SetFeedURL_edit [OF assms] by blast

lemma UpsertEntries_sqlite:
  assumes "conn_ok c"
  shows "conn_ok (snd (UpsertEntries unesc cx k es c)) \<and> feed_row (snd (UpsertEntries unesc cx k es c)) = feed_row c"
proof (rule read_only_sqlite [OF assms op_keeps_wf_upsert UpsertEntries_feeds])
  show "cn_saved (snd (UpsertEntries unesc cx k es c)) = None"
    unfolding UpsertEntries_def using assms by (intro in_tx_closed) (simp add: conn_ok_def)
qed

interpretation sqlite: feed_store "sqlite_ops unesc" conn_ok feed_row for unesc
  by (unfold_locales, unfold sqlite_ops_simps)
    (rule feed_row_keyed GetFeed_sqlite UpdateFeed_sqlite SetFeedURL_sqlite SetFeedURL_sqlite_live
      DeleteFeed_sqlite SetFeedCategory_sqlite SetFeedUserTitle_sqlite SetFeedFullContent_sqlite CreateFeed_sqlite
      reads_sqlite [OF _ WeeklyEntryCount_reads] reads_sqlite [OF _ EntryDedup_reads]
      UpsertEntries_sqlite reads_sqlite [OF _ GetCategory_reads]; assumption)+

end
