(* ===== verification/ScrapeService.thy ===== *)
theory ScrapeService
  imports Service
begin

text \<open>
  \<open>internal/core/scrape.go\<close>: fetching, extracting, sanitising and storing the full article of one
  entry, with retries. The entry \<open>e\<close> is the caller's snapshot, which the code only reads.
\<close>

record ScrapeServiceConfig =
  ss_cfg :: ScrapeConfig
  ss_Jitter :: jitter

text \<open>\<open>NewScrapeService\<close> fills in the defaults.\<close>

definition normalize_scrape :: "ScrapeServiceConfig \<Rightarrow> ScrapeServiceConfig" where
  "normalize_scrape cfg =
     (let g = ss_cfg cfg;
          g = (if sg_MaxAttempts g \<le> 0 then g\<lparr>sg_MaxAttempts := 3\<rparr> else g);
          g = (if sg_BaseBackoff g \<le> 0 then g\<lparr>sg_BaseBackoff := 10 * Minute\<rparr> else g);
          g = (if sg_MaxBackoff g \<le> 0 then g\<lparr>sg_MaxBackoff := 24 * Hour\<rparr> else g)
      in cfg\<lparr>ss_cfg := g\<rparr>)"

section \<open>Recording a failure\<close>

definition failEmit ::
  "'s store_ops \<Rightarrow> env \<Rightarrow> ScrapeServiceConfig \<Rightarrow> Entry \<Rightarrow> string \<Rightarrow> ScrapeResult \<Rightarrow> ErrorReason \<Rightarrow> bool
    \<Rightarrow> ('s, gerr option) svc" where
  "failEmit ops E cfg e msg result reason emit =
     (let attempts = e_ExtractAttempts e + 1 in
     bindS (if sg_MaxAttempts (ss_cfg cfg) \<le> attempts
            then storeC E (\<lambda>cx. so_UpdateExtractState ops cx (e_ID e) ExtractFailed attempts None msg)
            else bindS (clk_Now E) (\<lambda>now.
              let next = time_add now (ExtractBackoff (ss_cfg cfg) attempts (ss_Jitter cfg)) in
              storeC E (\<lambda>cx. so_UpdateExtractState ops cx (e_ID e) ExtractPending attempts (Some next) msg))) (\<lambda>werr.
     bindS (if emit then emitS [ScrapeDone result, ErrorObserved CompArticleScrape reason] else retS ()) (\<lambda>_.
     retS (err_of werr))))"

definition fail_scrape ::
  "'s store_ops \<Rightarrow> env \<Rightarrow> ScrapeServiceConfig \<Rightarrow> Entry \<Rightarrow> string \<Rightarrow> ScrapeResult \<Rightarrow> ErrorReason
    \<Rightarrow> ('s, gerr option) svc" where
  "fail_scrape ops E cfg e msg result reason = failEmit ops E cfg e msg result reason True"

text \<open>A transient failure: rescheduled without burning an attempt.\<close>

definition retryLater ::
  "'s store_ops \<Rightarrow> env \<Rightarrow> ScrapeServiceConfig \<Rightarrow> Entry \<Rightarrow> string \<Rightarrow> duration \<Rightarrow> ErrorReason
    \<Rightarrow> ('s, gerr option) svc" where
  "retryLater ops E cfg e msg retryAfter reason =
     bindS (clk_Now E) (\<lambda>now.
     let next = time_add now (min (max (sg_BaseBackoff (ss_cfg cfg)) retryAfter) (sg_MaxBackoff (ss_cfg cfg))) in
     bindS (storeC E (\<lambda>cx. so_UpdateExtractState ops cx (e_ID e) ExtractPending (e_ExtractAttempts e) (Some next) msg)) (\<lambda>werr.
     bindS (emitS [ScrapeDone ScrapeRetried, ErrorObserved CompArticleScrape reason]) (\<lambda>_.
     retS (err_of werr))))"

section \<open>Scraping\<close>

text \<open>The body between the deferred functions; the second component is \<open>counted\<close>.\<close>

definition scrape_pipeline ::
  "'s store_ops \<Rightarrow> env \<Rightarrow> ScrapeServiceConfig \<Rightarrow> Entry \<Rightarrow> ('s, gerr option \<times> bool) svc" where
  "scrape_pipeline ops E cfg e =
     (let counted = (\<lambda>m. bindS m (\<lambda>r. retS (r, True)));
          fail = (\<lambda>msg result reason. counted (fail_scrape ops E cfg e msg result reason)) in
     tryS (fetchS E \<lparr>rq_URL = e_URL e, rq_ETag = [], rq_LastModified = []\<rparr>)
       (\<lambda>err. bindS (ctx_Err E) (\<lambda>cerr.
          if ctxShutdownCanceled cerr err
          then bindS (failEmit ops E cfg e (''fetch: '' @ err_text err) ScrapeFetchError (ClassifyFetchError err) False)
                 (\<lambda>r. retS (r, False))
          else fail (''fetch: '' @ err_text err) ScrapeFetchError (ClassifyFetchError err)))
       (\<lambda>resp.
          if rs_Status resp \<noteq> 200 then
            (let reason = classifyHTTPStatus (rs_Status resp);
                 msg = ''status '' @ FormatInt (rs_Status resp)
             in if reason = ReasonRateLimited \<or> reason = ReasonHTTP5xx
                then counted (retryLater ops E cfg e msg (rs_RetryAfter resp) reason)
                else fail msg ScrapeHTTPError reason)
          else if \<not> isHTML (en_lib E) (rs_ContentType resp) then
            fail (''content-type '' @ Quote (en_lib E) (rs_ContentType resp)) ScrapeExtractError ReasonParse
          else
            (let pageURL = (if rs_FinalURL resp = [] then e_URL e else rs_FinalURL resp) in
             tryS (outcomeS (en_extract E pageURL (rs_Body resp) (rs_ContentType resp)))
               (\<lambda>err. fail (''extract: '' @ err_text err) ScrapeExtractError ReasonParse)
               (\<lambda>html.
                  if TrimSpace html = [] then fail ''extract: empty content'' ScrapeExtractError ReasonParse
                  else bindS (outcomeS (en_sanitize E html pageURL)) (\<lambda>safe.
                    if TrimSpace safe = [] then fail ''sanitised content empty'' ScrapeExtractError ReasonParse
                    else tryS (storeC E (\<lambda>cx. so_SetEntryContent ops cx (e_ID e) safe))
                      (\<lambda>err. fail (''persist: '' @ err_text err) ScrapeFailed ReasonInternal)
                      (\<lambda>_. counted (bindS (emitS [ScrapeDone ScrapeSuccess]) (\<lambda>_. retS None))))))))"

definition ScrapeEntry ::
  "'s store_ops \<Rightarrow> env \<Rightarrow> ScrapeServiceConfig \<Rightarrow> Entry \<Rightarrow> ('s, gerr option) svc" where
  "ScrapeEntry ops E cfg e =
     bindS (clk_Now E) (\<lambda>start.
     bindS (recoverS (scrape_pipeline ops E cfg e)
              (\<lambda>p. bindS (fail_scrape ops E cfg e (''panic: '' @ p) ScrapeFailed ReasonInternal)
                 (\<lambda>r. retS (r, True)))) (\<lambda>(err, counted).
     bindS (if counted
            then bindS (clk_Now E) (\<lambda>fin. emitS [ObserveArticleScrape (time_sub fin start)])
            else retS ()) (\<lambda>_.
     retS err)))"

end
