(* ===== verification/ScrapeMetrics.thy ===== *)
theory ScrapeMetrics
  imports ScrapeService Traces
begin

text \<open>
  The metrics of a scrape, over every store and every environment.
\<close>

text \<open>One outcome, and one error exactly when it is not the success.\<close>

definition scraped :: "metric list \<Rightarrow> bool" where
  "scraped ms \<longleftrightarrow> ms = [ScrapeDone ScrapeSuccess]
     \<or> (\<exists>r reason. r \<noteq> ScrapeSuccess \<and> ms = [ScrapeDone r, ErrorObserved CompArticleScrape reason])"

lemma scraped_fail: "r \<noteq> ScrapeSuccess \<Longrightarrow> scraped [ScrapeDone r, ErrorObserved CompArticleScrape reason]"
  by (simp add: scraped_def)

lemma failEmit_counts [trace_intros]:
  "r \<noteq> ScrapeSuccess \<Longrightarrow> counts scraped (failEmit ops E cfg e msg r reason True)"
  unfolding failEmit_def Let_def if_True by (auto intro!: trace_intros scraped_fail)

lemma failEmit_quiet [trace_intros]: "quiet (failEmit ops E cfg e msg r reason False)"
  unfolding failEmit_def Let_def by (auto intro!: trace_intros)

lemma failEmit_safe [trace_intros]: "safe (failEmit ops E cfg e msg r reason emit)"
  unfolding failEmit_def Let_def by (auto intro!: trace_intros)

lemma retryLater_counts [trace_intros]: "counts scraped (retryLater ops E cfg e msg ra reason)"
  unfolding retryLater_def Let_def by (auto intro!: trace_intros scraped_fail)

section \<open>The pipeline\<close>

definition scrape_request :: "Entry \<Rightarrow> FetchRequest" where
  "scrape_request e = \<lparr>rq_URL = e_URL e, rq_ETag = [], rq_LastModified = []\<rparr>"

text \<open>The clock is the first question, the fetch the second, the context the third.\<close>

definition scrape_cancelled :: "env \<Rightarrow> Entry \<Rightarrow> 's world \<Rightarrow> bool" where
  "scrape_cancelled E e w = (case en_fetch E (Suc (w_step w)) (scrape_request e) of
       Ret (Inl err) \<Rightarrow> ctxShutdownCanceled (en_ctx E (Suc (Suc (w_step w)))) err
     | _ \<Rightarrow> False)"

lemma scrape_pipeline_cancelled:
  assumes "en_fetch E (w_step w) (scrape_request e) = Ret (Inl err)"
    and "ctxShutdownCanceled (en_ctx E (Suc (w_step w))) err"
  shows "\<exists>r w'. scrape_pipeline ops E cfg e w = (Ret (r, False), w') \<and> w_trace w' = w_trace w"
proof -
  let ?w1 = "w\<lparr>w_step := Suc (Suc (w_step w))\<rparr>"
  let ?m = "failEmit ops E cfg e (''fetch: '' @ err_text err) ScrapeFetchError (ClassifyFetchError err) False"
  obtain r w' where m: "?m ?w1 = (Ret r, w')" using safe_run [OF failEmit_safe] by blast
  have "w_trace w' = w_trace w" using quietD [OF failEmit_quiet m] by simp
  moreover have "scrape_pipeline ops E cfg e w = (Ret (r, False), w')"
    using assms m
    by (simp add: scrape_pipeline_def bindS_def tryS_def fetchS_def askS_def outcomeS_def retS_def
        ctx_Err_def scrape_request_def Let_def)
  ultimately show ?thesis by blast
qed

lemma scrape_pipeline_counted:
  assumes "\<not> (\<exists>err. en_fetch E (w_step w) (scrape_request e) = Ret (Inl err)
      \<and> ctxShutdownCanceled (en_ctx E (Suc (w_step w))) err)"
  shows "case scrape_pipeline ops E cfg e w of
      (Ret (r, c), w') \<Rightarrow> c \<and> (\<exists>ms. scraped ms \<and> w_trace w' = w_trace w @ ms)
    | (Panic p, w') \<Rightarrow> w_trace w' = w_trace w"
proof -
  let ?w1 = "w\<lparr>w_step := Suc (w_step w)\<rparr>"
  note counted = always_counted_wrap always_counted_bindS
  note fetch = tryS_fetch [of E w "scrape_request e", unfolded scrape_request_def]
  show ?thesis
  proof (cases "en_fetch E (w_step w) (scrape_request e)")
    case (Panic p)
    then show ?thesis
      by (simp add: scrape_pipeline_def bindS_def tryS_def fetchS_def askS_def outcomeS_def
          panicS_def scrape_request_def Let_def)
  next
    case (Ret x)
    show ?thesis
    proof (cases x)
      case (Inl err)
      with assms Ret have nc: "\<not> ctxShutdownCanceled (en_ctx E (Suc (w_step w))) err" by simp
      let ?m = "bindS (fail_scrape ops E cfg e (''fetch: '' @ err_text err) ScrapeFetchError (ClassifyFetchError err))
          (\<lambda>r. retS (r, True))"
      have "scrape_pipeline ops E cfg e w = ?m (w\<lparr>w_step := Suc (Suc (w_step w))\<rparr>)"
        using Ret Inl nc
        by (simp add: scrape_pipeline_def bindS_def tryS_def fetchS_def askS_def outcomeS_def
            retS_def ctx_Err_def scrape_request_def Let_def)
      moreover have "always_counted scraped ?m" unfolding fail_scrape_def by (intro counted failEmit_counts) simp
      ultimately show ?thesis using always_counted_run [of scraped ?m "w\<lparr>w_step := Suc (Suc (w_step w))\<rparr>" w] by simp
    next
      case (Inr resp)
      with Ret have fetched: "en_fetch E (w_step w) \<lparr>rq_URL = e_URL e, rq_ETag = [], rq_LastModified = []\<rparr> = Ret (Inr resp)"
        by (simp add: scrape_request_def)
      have cs: "always_counted scraped (case r of Inl err \<Rightarrow> f err | Inr a \<Rightarrow> g a)"
        if "\<And>err. always_counted scraped (f err)" "\<And>a. always_counted scraped (g a)"
        for r :: "gerr + 'b" and f and g :: "'b \<Rightarrow> ('a, gerr option \<times> bool) svc"
        using that by (simp split: sum.split)
      show ?thesis
        unfolding scrape_pipeline_def Let_def fail_scrape_def tryS_fetch [OF fetched]
        by (rule always_counted_run [of scraped _ ?w1 w])
          (auto simp: tryS_def intro!: counted cs trace_intros counts_emit simp: scraped_def [of "[_]"])
    qed
  qed
qed

text \<open>Whatever the network, extractor, sanitizer, store and clock do, panics included, \<open>ScrapeEntry\<close>
  returns. A scrape cut off by the service's own shutdown emits no metric; any other emits exactly
  one outcome, an error if and only if the outcome is not the success, and then exactly one
  duration.\<close>

lemma scrape_metrics_paired:
  "\<exists>err w'. ScrapeEntry ops E cfg e w = (Ret err, w')
     \<and> (if scrape_cancelled E e w then w_trace w' = w_trace w
        else \<exists>ms d. scraped ms \<and> w_trace w' = w_trace w @ ms @ [ObserveArticleScrape d])"
proof -
  define start v where sv: "start = en_clock E (w_step w)" "v = w\<lparr>w_step := Suc (w_step w)\<rparr>"
  let ?p = "scrape_pipeline ops E cfg e"
  let ?h = "\<lambda>p. fail_scrape ops E cfg e (''panic: '' @ p) ScrapeFailed ReasonInternal"
  let ?q = "recoverS ?p (\<lambda>p. bindS (?h p) (\<lambda>r. retS (r, True)))"
  have run: "ScrapeEntry ops E cfg e w = (case ?q v of
      (Ret (err, c), u) \<Rightarrow> if c
        then (Ret err, u\<lparr>w_step := Suc (w_step u),
               w_trace := w_trace u @ [ObserveArticleScrape (time_sub (en_clock E (w_step u)) start)]\<rparr>)
        else (Ret err, u)
    | (Panic p, u) \<Rightarrow> (Panic p, u))"
    by (simp add: ScrapeEntry_def sv bindS_def clk_Now_def askS_def retS_def emitS_def
        split: prod.split outcome.split)
  have cancelled: "scrape_cancelled E e w \<longleftrightarrow> (\<exists>err. en_fetch E (w_step v) (scrape_request e) = Ret (Inl err)
      \<and> ctxShutdownCanceled (en_ctx E (Suc (w_step v))) err)"
    by (auto simp: scrape_cancelled_def sv split: outcome.split sum.split)
  have tr: "w_trace v = w_trace w" by (simp add: sv)
  show ?thesis
  proof (cases "scrape_cancelled E e w")
    case True
    then obtain err where "en_fetch E (w_step v) (scrape_request e) = Ret (Inl err)"
        "ctxShutdownCanceled (en_ctx E (Suc (w_step v))) err" unfolding cancelled by blast
    from scrape_pipeline_cancelled [OF this, of ops cfg]
    obtain r u where p: "?p v = (Ret (r, False), u)" and t: "w_trace u = w_trace v" by blast
    have "?q v = (Ret (r, False), u)" using p by (simp add: recoverS_Ret)
    then show ?thesis using t tr True by (simp add: run)
  next
    case False
    have "\<exists>r u ms. ?q v = (Ret (r, True), u) \<and> scraped ms \<and> w_trace u = w_trace v @ ms"
      by (rule recover_counted [where A = scraped and m = ?p and h = ?h],
          rule scrape_pipeline_counted [OF False [unfolded cancelled]])
        (auto simp: fail_scrape_def intro!: trace_intros)
    then show ?thesis using False tr by (auto simp: run)
  qed
qed

end
