(* ===== verification/ScrapeContract.thy ===== *)
theory ScrapeContract
  imports FeedContract ScrapeMetrics SqliteEntries
begin

text \<open>
  What \<open>ScrapeService\<close> relies on in a store, as a locale: an entry is seen as its stored columns, looked
  up by id. From it, what one scrape does to the entries.
\<close>

type_synonym entry_view = "ID \<Rightarrow> EntryRow option"

definition scraped_row :: "string \<Rightarrow> string \<Rightarrow> EntryRow \<Rightarrow> EntryRow" where
  "scraped_row content text r = r\<lparr>er_Content := content, er_ContentText := text, er_ExtractState := ''done'',
     er_NextExtractAt := None, er_ExtractError := []\<rparr>"

definition extract_row :: "ExtractState \<Rightarrow> int \<Rightarrow> time option \<Rightarrow> string \<Rightarrow> EntryRow \<Rightarrow> EntryRow" where
  "extract_row st n next reason r = r\<lparr>er_ExtractState := extract_str st, er_ExtractAttempts := n,
     er_NextExtractAt := nullUnix next, er_ExtractError := reason\<rparr>"

definition pending_is :: "ID \<Rightarrow> EntryRow \<Rightarrow> bool" where
  "pending_is i r \<longleftrightarrow> er_ID r = i \<and> er_ExtractState r = ''pending''"

text \<open>What one scrape may do to the entry's row: nothing, store a sanitised article in an entry that was
  still pending, fail it for good, or reschedule it, burning an attempt below the cap or none.\<close>

definition scrape_outcome :: "(string \<Rightarrow> string) \<Rightarrow> env \<Rightarrow> ScrapeServiceConfig \<Rightarrow> Entry \<Rightarrow> EntryRow \<Rightarrow> EntryRow \<Rightarrow> bool" where
  "scrape_outcome plain E cfg e r r' \<longleftrightarrow>
     r' = r
   \<or> (\<exists>art h u. er_ExtractState r = ''pending'' \<and> en_sanitize E h u = Ret art \<and> TrimSpace art \<noteq> []
        \<and> r' = scraped_row art (plain art) r)
   \<or> (\<exists>msg. sg_MaxAttempts (ss_cfg cfg) \<le> e_ExtractAttempts e + 1
        \<and> r' = extract_row ExtractFailed (e_ExtractAttempts e + 1) None msg r)
   \<or> (\<exists>now msg. e_ExtractAttempts e + 1 < sg_MaxAttempts (ss_cfg cfg)
        \<and> r' = extract_row ExtractPending (e_ExtractAttempts e + 1)
            (Some (time_add now (ExtractBackoff (ss_cfg cfg) (e_ExtractAttempts e + 1) (ss_Jitter cfg)))) msg r)
   \<or> (\<exists>now ra msg. r' = extract_row ExtractPending (e_ExtractAttempts e)
            (Some (time_add now (min (max (sg_BaseBackoff (ss_cfg cfg)) ra) (sg_MaxBackoff (ss_cfg cfg))))) msg r)"

lemma outcome_intros:
  "er_ExtractState r = ''pending'' \<Longrightarrow> en_sanitize E h u = Ret art \<Longrightarrow> TrimSpace art \<noteq> []
     \<Longrightarrow> scrape_outcome plain E cfg e r (scraped_row art (plain art) r)"
  "sg_MaxAttempts (ss_cfg cfg) \<le> e_ExtractAttempts e + 1
     \<Longrightarrow> scrape_outcome plain E cfg e r (extract_row ExtractFailed (e_ExtractAttempts e + 1) None msg r)"
  "\<not> sg_MaxAttempts (ss_cfg cfg) \<le> e_ExtractAttempts e + 1
     \<Longrightarrow> scrape_outcome plain E cfg e r (extract_row ExtractPending (e_ExtractAttempts e + 1)
       (Some (time_add now (ExtractBackoff (ss_cfg cfg) (e_ExtractAttempts e + 1) (ss_Jitter cfg)))) msg r)"
  "scrape_outcome plain E cfg e r (extract_row ExtractPending (e_ExtractAttempts e)
       (Some (time_add now (min (max (sg_BaseBackoff (ss_cfg cfg)) ra) (sg_MaxBackoff (ss_cfg cfg))))) msg r)"
  unfolding scrape_outcome_def not_le by blast+

lemma retryLater_safe [trace_intros]: "safe (retryLater ops E cfg e msg ra reason)"
  unfolding retryLater_def Let_def by (auto intro!: trace_intros)

locale entry_rows =
  fixes ops :: "'s store_ops" and inv :: "'s \<Rightarrow> bool" and erow :: "'s \<Rightarrow> entry_view"
    and plain :: "string \<Rightarrow> string"
  assumes erow_keyed: "inv s \<Longrightarrow> erow s i = Some r \<Longrightarrow> er_ID r = i"
    and SetEntryContent_law: "inv s \<Longrightarrow> so_SetEntryContent ops cx i content s = (x, s') \<Longrightarrow>
      inv s' \<and> erow s' = on_ok x (edit (pending_is i) (scraped_row content (plain content)) (erow s)) (erow s)"
    and UpdateExtractState_law: "inv s \<Longrightarrow> so_UpdateExtractState ops cx i st n next reason s = (x, s') \<Longrightarrow>
      inv s' \<and> erow s' = on_ok x (edit (\<lambda>r. er_ID r = i) (extract_row st n next reason) (erow s)) (erow s)"
begin

text \<open>The entries before the call; and after it.\<close>

definition etable :: "entry_view \<Rightarrow> 's \<Rightarrow> Feed \<Rightarrow> bool" where
  "etable R s f \<longleftrightarrow> inv s \<and> erow s = R"

definition outcome_ok :: "env \<Rightarrow> ScrapeServiceConfig \<Rightarrow> Entry \<Rightarrow> entry_view \<Rightarrow> gerr option \<Rightarrow> 's \<Rightarrow> Feed \<Rightarrow> bool" where
  "outcome_ok E cfg e R a s f \<longleftrightarrow> inv s \<and> (\<forall>i. i \<noteq> e_ID e \<longrightarrow> erow s i = R i)
     \<and> (case R (e_ID e) of None \<Rightarrow> erow s (e_ID e) = None
        | Some r \<Rightarrow> \<exists>r'. erow s (e_ID e) = Some r' \<and> scrape_outcome plain E cfg e r r')
     \<and> (a \<noteq> None \<longrightarrow> erow s = R)"

lemma outcome_same: "etable R s f \<Longrightarrow> outcome_ok E cfg e R a s f"
  by (auto simp: etable_def outcome_ok_def scrape_outcome_def split: option.split)

text \<open>A write to the row of one id.\<close>

lemma outcome_edit:
  assumes "inv s'" and "\<And>i r. R i = Some r \<Longrightarrow> er_ID r = i"
    and "erow s' = on_ok x (edit P u R) R" and "\<And>r. P r \<Longrightarrow> er_ID r = e_ID e"
    and "\<And>r. R (e_ID e) = Some r \<Longrightarrow> P r \<Longrightarrow> scrape_outcome plain E cfg e r (u r)"
  shows "outcome_ok E cfg e R (err_of x) s' f"
proof -
  have "edit P u R i = R i" if "i \<noteq> e_ID e" for i
    using that assms(2) [of i] assms(4) by (cases "R i") (auto simp: edit_def)
  moreover have "scrape_outcome plain E cfg e r r" for r by (simp add: scrape_outcome_def)
  ultimately show ?thesis
    using assms(1,3,5) by (cases x) (auto simp: outcome_ok_def on_ok_def err_of_def edit_def split: option.split)
qed

section \<open>The methods\<close>

lemma etable_keyed: "etable R s f \<Longrightarrow> R i = Some r \<Longrightarrow> er_ID r = i"
  unfolding etable_def using erow_keyed [of s i r] by simp

lemma update_outcome:
  assumes "\<And>r. R (e_ID e) = Some r \<Longrightarrow> scrape_outcome plain E cfg e r (extract_row st n next msg r)"
  shows "ends (etable R) (\<lambda>x. outcome_ok E cfg e R (err_of x))
    (storeC E (\<lambda>cx. so_UpdateExtractState ops cx (e_ID e) st n next msg))"
proof (rule ends_storeC)
  fix cx s f
  assume t: "etable R s f"
  then have i: "inv s" and R: "erow s = R" by (simp_all add: etable_def)
  obtain x s' where u: "so_UpdateExtractState ops cx (e_ID e) st n next msg s = (x, s')" by fastforce
  have "outcome_ok E cfg e R (err_of x) s' f"
    using UpdateExtractState_law [OF i u] etable_keyed [OF t] assms
    by (intro outcome_edit [where P = "\<lambda>r. er_ID r = e_ID e" and u = "extract_row st n next msg"]) (auto simp: R)
  then show "outcome_ok E cfg e R (err_of (fst (so_UpdateExtractState ops cx (e_ID e) st n next msg s)))
      (snd (so_UpdateExtractState ops cx (e_ID e) st n next msg s)) f" using u by simp
qed

lemma failEmit_outcome: "ends (etable R) (outcome_ok E cfg e R) (failEmit ops E cfg e msg result reason emit)"
proof -
  have fin: "ends (outcome_ok E cfg e R (err_of x)) (outcome_ok E cfg e R)
      (bindS (if emit then emitS ms else retS ()) (\<lambda>_. retS (err_of x)))" for x ms
    by (rule ends_keep) (auto intro!: hoare ends_retS)
  have "ends (etable R) (\<lambda>x. outcome_ok E cfg e R (err_of x))
      (storeC E (\<lambda>cx. so_UpdateExtractState ops cx (e_ID e) ExtractFailed (e_ExtractAttempts e + 1) None msg))"
    if "sg_MaxAttempts (ss_cfg cfg) \<le> e_ExtractAttempts e + 1"
    using that by (intro update_outcome outcome_intros)
  moreover have "ends (etable R) (\<lambda>x. outcome_ok E cfg e R (err_of x))
      (storeC E (\<lambda>cx. so_UpdateExtractState ops cx (e_ID e) ExtractPending (e_ExtractAttempts e + 1)
        (Some (time_add now (ExtractBackoff (ss_cfg cfg) (e_ExtractAttempts e + 1) (ss_Jitter cfg)))) msg))"
    if "\<not> sg_MaxAttempts (ss_cfg cfg) \<le> e_ExtractAttempts e + 1" for now
    using that by (intro update_outcome outcome_intros)
  ultimately show ?thesis
    unfolding failEmit_def Let_def
    by (intro ends_bindS [OF ends_if fin] ends_keep [OF holds_prims(4)])
qed

lemma retryLater_outcome: "ends (etable R) (outcome_ok E cfg e R) (retryLater ops E cfg e msg ra reason)"
proof -
  have fin: "ends (outcome_ok E cfg e R (err_of x)) (outcome_ok E cfg e R)
      (bindS (emitS ms) (\<lambda>_. retS (err_of x)))" for x ms
    by (rule ends_keep) (auto intro!: hoare ends_retS)
  have upd: "ends (etable R) (\<lambda>x. outcome_ok E cfg e R (err_of x))
      (storeC E (\<lambda>cx. so_UpdateExtractState ops cx (e_ID e) ExtractPending (e_ExtractAttempts e)
        (Some (time_add now (min (max (sg_BaseBackoff (ss_cfg cfg)) ra) (sg_MaxBackoff (ss_cfg cfg))))) msg))" for now
    by (intro update_outcome outcome_intros)
  show ?thesis
    unfolding retryLater_def Let_def
    by (intro ends_keep [OF holds_prims(4)] ends_bindS [OF upd fin])
qed

lemma SetEntryContent_outcome:
  assumes "en_sanitize E h u = Ret art" and "TrimSpace art \<noteq> []"
  shows "ends (etable R) (\<lambda>x s f. (if isl x then etable R s f else outcome_ok E cfg e R None s f))
    (storeC E (\<lambda>cx. so_SetEntryContent ops cx (e_ID e) art))"
proof (rule ends_storeC)
  fix cx s f
  assume t: "etable R s f"
  then have i: "inv s" and R: "erow s = R" by (simp_all add: etable_def)
  obtain x s' where c: "so_SetEntryContent ops cx (e_ID e) art s = (x, s')" by fastforce
  have "if isl x then etable R s' f else outcome_ok E cfg e R None s' f"
  proof (cases x)
    case (Inl err)
    then show ?thesis using SetEntryContent_law [OF i c] R by (simp add: etable_def on_ok_def)
  next
    case (Inr y)
    have "outcome_ok E cfg e R (err_of x) s' f"
      using SetEntryContent_law [OF i c] etable_keyed [OF t] assms
      by (intro outcome_edit [where P = "pending_is (e_ID e)" and u = "scraped_row art (plain art)"])
        (auto simp: R pending_is_def intro: outcome_intros)
    then show ?thesis using Inr by (simp add: err_of_def)
  qed
  then show "if isl (fst (so_SetEntryContent ops cx (e_ID e) art s))
      then etable R (snd (so_SetEntryContent ops cx (e_ID e) art s)) f
      else outcome_ok E cfg e R None (snd (so_SetEntryContent ops cx (e_ID e) art s)) f" using c by simp
qed

lemma ends_counted:
  "ends J (outcome_ok E cfg e R) m \<Longrightarrow> ends J (\<lambda>a. outcome_ok E cfg e R (fst a)) (bindS m (\<lambda>r. retS (r, b)))"
  by (erule ends_bindS) (auto intro!: ends_retS)

lemma store_outcome:
  assumes "en_sanitize E h u = Ret art" and "TrimSpace art \<noteq> []"
  shows "ends (etable R) (\<lambda>a. outcome_ok E cfg e R (fst a))
     (tryS (storeC E (\<lambda>cx. so_SetEntryContent ops cx (e_ID e) art))
        (\<lambda>err. bindS (failEmit ops E cfg e (''persist: '' @ err_text err) ScrapeFailed ReasonInternal True) (\<lambda>r. retS (r, True)))
        (\<lambda>_. bindS (bindS (emitS [ScrapeDone ScrapeSuccess]) (\<lambda>_. retS None)) (\<lambda>r. retS (r, True))))"
proof (rule ends_value [OF SetEntryContent_outcome [OF assms, of R cfg e]])
  show "ends (\<lambda>s f. if isl (Inl err) then etable R s f else outcome_ok E cfg e R None s f)
      (\<lambda>a. outcome_ok E cfg e R (fst a))
      (bindS (failEmit ops E cfg e (''persist: '' @ err_text err) ScrapeFailed ReasonInternal True) (\<lambda>r. retS (r, True)))" for err
    by (simp add: ends_counted failEmit_outcome)
  show "ends (\<lambda>s f. if isl (Inr a) then etable R s f else outcome_ok E cfg e R None s f)
      (\<lambda>a. outcome_ok E cfg e R (fst a))
      (bindS (bindS (emitS [ScrapeDone ScrapeSuccess]) (\<lambda>_. retS None)) (\<lambda>r. retS (r, True)))" for a
    by (simp, intro ends_counted ends_keep [OF holds_prims(7)] ends_retS)
qed

lemma scrape_pipeline_outcome:
  "trip (etable R) (\<lambda>a. outcome_ok E cfg e R (fst a)) (scrape_pipeline ops E cfg e)"
proof -
  let ?Q = "\<lambda>a. outcome_ok E cfg e R (fst a)"
  have fail: "trip (etable R) ?Q (bindS (failEmit ops E cfg e msg result reason emit) (\<lambda>r. retS (r, b)))" for msg result reason emit b
    by (intro trip_safe trace_intros ends_counted failEmit_outcome)
  have retry: "trip (etable R) ?Q (bindS (retryLater ops E cfg e msg ra reason) (\<lambda>r. retS (r, b)))" for msg ra reason b
    by (intro trip_safe trace_intros ends_counted retryLater_outcome)
  have put: "trip (etable R) ?Q (bindS (outcomeS (en_sanitize E h u)) (\<lambda>art.
      if TrimSpace art = [] then bindS (failEmit ops E cfg e msg ScrapeExtractError ReasonParse True) (\<lambda>r. retS (r, True))
      else tryS (storeC E (\<lambda>cx. so_SetEntryContent ops cx (e_ID e) art))
        (\<lambda>err. bindS (failEmit ops E cfg e (''persist: '' @ err_text err) ScrapeFailed ReasonInternal True) (\<lambda>r. retS (r, True)))
        (\<lambda>_. bindS (bindS (emitS [ScrapeDone ScrapeSuccess]) (\<lambda>_. retS None)) (\<lambda>r. retS (r, True)))))" for h u msg
  proof (cases "en_sanitize E h u")
    case (Panic p)
    then show ?thesis by (simp add: trip_def ends_def bindS_def outcomeS_def panicS_def)
  next
    case (Ret art)
    have run: "bindS (outcomeS (Ret art)) k = k art" for k :: "string \<Rightarrow> ('a, gerr option \<times> bool) svc"
      by (simp add: fun_eq_iff bindS_def outcomeS_def retS_def)
    show ?thesis
      unfolding Ret run
      by (intro trip_if fail trip_safe store_outcome [OF Ret]) (auto intro!: trace_intros)
  qed
  show ?thesis
    unfolding scrape_pipeline_def fail_scrape_def Let_def
    by (intro trip_tryS [OF holds_fetchS] trip_tryS [OF holds_prims(8)] trip_keep [OF holds_prims(5)] trip_if fail retry put)
qed

lemma ScrapeEntry_outcome: "ends (etable R) (outcome_ok E cfg e R) (ScrapeEntry ops E cfg e)"
proof -
  have rec: "ends (etable R) (\<lambda>a. outcome_ok E cfg e R (fst a)) (recoverS (scrape_pipeline ops E cfg e)
      (\<lambda>p. bindS (fail_scrape ops E cfg e (''panic: '' @ p) ScrapeFailed ReasonInternal) (\<lambda>r. retS (r, True))))"
    unfolding fail_scrape_def by (intro trip_recoverS scrape_pipeline_outcome ends_counted failEmit_outcome)
  show ?thesis
    unfolding ScrapeEntry_def
    by (rule ends_keep [OF holds_prims(4)], rule ends_bindS [OF rec])
      (auto split: prod.split intro!: ends_keep hoare holds_bindS ends_retS)
qed

end

end
