(* ===== verification/BodyContract.thy ===== *)
theory BodyContract
  imports ScrapeContract
begin

text \<open>
  Only sanitised HTML is stored: what the services rely on in a store for it, as a locale, and the
  invariant through a poll, a subscription's resolution and a scrape.
\<close>

text \<open>What the sanitizer may return.\<close>

definition clean_html :: "env \<Rightarrow> string set" where
  "clean_html E = {x. \<exists>h u. en_sanitize E h u = Ret x}"

definition entry_within :: "string set \<Rightarrow> Entry \<Rightarrow> bool" where
  "entry_within B e \<longleftrightarrow> e_Content e \<in> B \<and> e_Summary e \<in> B"

text \<open>\<open>stored_in B s\<close>: the content and summary of every stored entry are in \<open>B\<close>.\<close>

locale body_store =
  fixes ops :: "'s store_ops" and stored_in :: "string set \<Rightarrow> 's \<Rightarrow> bool"
  assumes stored_UpsertEntries: "stored_in B s \<Longrightarrow> (\<forall>e \<in> set es. entry_within B e)
      \<Longrightarrow> stored_in B (snd (so_UpsertEntries ops cx fid es s))"
    and stored_SetEntryContent: "stored_in B s \<Longrightarrow> content \<in> B \<Longrightarrow> stored_in B (snd (so_SetEntryContent ops cx i content s))"
    and stored_others:
      "stored_in B s \<Longrightarrow> stored_in B (snd (so_UpdateFeed ops cx f s))"
      "stored_in B s \<Longrightarrow> stored_in B (snd (so_SetFeedURL ops cx uid fid url now s))"
      "stored_in B s \<Longrightarrow> stored_in B (snd (so_DeleteFeed ops cx uid fid s))"
      "stored_in B s \<Longrightarrow> stored_in B (snd (so_WeeklyEntryCount ops cx fid now s))"
      "stored_in B s \<Longrightarrow> stored_in B (snd (so_EntryDedup ops cx fid gs s))"
      "stored_in B s \<Longrightarrow> stored_in B (snd (so_UpdateExtractState ops cx i st n next reason s))"
begin

definition inside :: "string set \<Rightarrow> 's \<Rightarrow> Feed \<Rightarrow> bool" where
  "inside B s f \<longleftrightarrow> stored_in B s"

lemma holds_feed_any: "(\<And>f. holds (inside B) (k f)) \<Longrightarrow> holds (inside B) (bindS feedS k)"
  by (rule holds_feed)

lemma inside_store:
  "(\<And>cx s. stored_in B s \<Longrightarrow> stored_in B (snd (m cx s))) \<Longrightarrow> holds (inside B) (storeC E m)"
  "(\<And>s. stored_in B s \<Longrightarrow> stored_in B (snd (m' s))) \<Longrightarrow> holds (inside B) (storeS m')"
  by (auto simp: inside_def intro!: holds_storeC holds_storeS)

lemma inside_setFeedS: "holds (inside B) (setFeedS g)"
  by (rule holds_setFeedS) (simp add: inside_def)

lemmas inside_rules = holds_bindS holds_tryS holds_feed_any inside_setFeedS inside_store stored_others

lemma recordErrorEmit_inside: "holds (inside B) (recordErrorEmit ops E cfg now msg ra res reason emit)"
  unfolding recordErrorEmit_def by (auto intro!: hoare inside_rules)

lemma recordPanic_inside: "holds (inside B) (recordPanic ops E cfg p)"
  unfolding recordPanic_def recordError_def by (intro holds_bindS hoare recordErrorEmit_inside)

lemma nextCheck_inside: "holds (inside B) (nextCheck ops E oob cfg now)"
  unfolding nextCheck_def by (auto intro!: hoare inside_rules)

section \<open>Ingest\<close>

text \<open>Every entry the loop builds is sanitised.\<close>

lemma sanitized_in: "clean_html E \<subseteq> B \<Longrightarrow> en_sanitize E h u = Ret x \<Longrightarrow> x \<in> B"
  unfolding clean_html_def by blast

lemma ingest_entry_within:
  "clean_html E \<subseteq> B \<Longrightarrow> ingest_entry E f now base pe w = (Ret e, w') \<Longrightarrow> entry_within B e"
  by (auto simp: ingest_entry_def bindS_Ret outcomeS_def retS_def panicS_def entry_within_def
      split: outcome.splits intro: sanitized_in)

lemma mapS_within:
  "clean_html E \<subseteq> B \<Longrightarrow> mapS (ingest_entry E f now base) pes w = (Ret es, w') \<Longrightarrow> e \<in> set es \<Longrightarrow> entry_within B e"
proof (induction pes arbitrary: w es)
  case Nil
  then show ?case by (simp add: retS_def)
next
  case (Cons pe pes)
  then show ?case by (auto simp: bindS_Ret retS_def dest: ingest_entry_within)
qed

lemma upsert_all_inside:
  assumes "clean_html E \<subseteq> B"
  shows "holds (inside B) (bindS (mapS (ingest_entry E f now base) pes) (\<lambda>es.
      tryS (storeC E (\<lambda>cx. so_UpsertEntries ops cx fid es)) (\<lambda>e. retS (Some e)) (\<lambda>_. retS None)))"
  unfolding holds_def
proof (intro allI impI)
  fix w :: "'s world"
  assume J: "inside B (w_store w) (w_feed w)"
  let ?k = "\<lambda>es. tryS (storeC E (\<lambda>cx. so_UpsertEntries ops cx fid es)) (\<lambda>e. retS (Some e)) (\<lambda>_. retS None)"
  obtain x w1 where m: "mapS (ingest_entry E f now base) pes w = (x, w1)" by (cases "mapS (ingest_entry E f now base) pes w")
  have "holds (inside B) (mapS (ingest_entry E f now base) pes)"
    unfolding ingest_entry_def Let_def by (auto intro!: hoare holds_bindS)
  from holdsD [OF this J m] have J1: "inside B (w_store w1) (w_feed w1)" .
  show "inside B (w_store (snd (bindS (mapS (ingest_entry E f now base) pes) ?k w)))
      (w_feed (snd (bindS (mapS (ingest_entry E f now base) pes) ?k w)))"
  proof (cases x)
    case (Ret es)
    have "holds (inside B) (?k es)"
      using mapS_within [OF assms m [unfolded Ret]]
      by (auto intro!: hoare inside_rules stored_UpsertEntries)
    then show ?thesis using J1 m Ret by (simp add: bindS_def holds_def)
  next
    case (Panic p)
    then show ?thesis using J1 m by (simp add: bindS_def)
  qed
qed

lemma ingest_inside: "clean_html E \<subseteq> B \<Longrightarrow> holds (inside B) (ingest ops E pf base)"
  unfolding ingest_def by (auto split: prod.split intro!: hoare inside_rules upsert_all_inside)

section \<open>The methods\<close>

lemma recordSuccess_inside: "clean_html E \<subseteq> B \<Longrightarrow> holds (inside B) (recordSuccess ops E oob cfg now resp pf)"
  unfolding recordSuccess_def recordError_def
  by (auto split: option.split intro!: hoare inside_rules ingest_inside nextCheck_inside recordErrorEmit_inside)

lemma resolveFeed_inside: "holds (inside B) (resolveFeed E url)"
  unfolding resolveFeed_def Let_def
  by (auto split: sum.split option.split list.split intro!: hoare holds_tryS holds_bindS)

lemma adopt_inside: "holds (inside B) (adoptPermanentRedirect ops E resp)"
  unfolding adoptPermanentRedirect_def by (auto intro!: hoare inside_rules)

lemma resolve_pipeline_inside: "clean_html E \<subseteq> B \<Longrightarrow> holds (inside B) (resolve_pipeline ops E oob cfg)"
  unfolding resolve_pipeline_def Let_def recordError_def
  by (auto split: prod.split intro!: hoare inside_rules resolveFeed_inside recordErrorEmit_inside recordSuccess_inside)

lemma resolveAndIngest_inside: "clean_html E \<subseteq> B \<Longrightarrow> holds (inside B) (resolveAndIngest ops E oob cfg)"
  unfolding resolveAndIngest_def by (intro hoare resolve_pipeline_inside recordPanic_inside)

lemma ResolveAndIngest_inside: "clean_html E \<subseteq> B \<Longrightarrow> holds (inside B) (ResolveAndIngest ops E oob cfg)"
  unfolding ResolveAndIngest_def by (intro hoare holds_bindS resolveAndIngest_inside)

lemma poll_pipeline_inside: "clean_html E \<subseteq> B \<Longrightarrow> holds (inside B) (poll_pipeline ops E oob cfg start)"
  unfolding poll_pipeline_def Let_def recordError_def
  by (auto split: sum.split intro!: hoare inside_rules adopt_inside
      recordErrorEmit_inside recordSuccess_inside resolveAndIngest_inside)

lemma PollFeed_inside: "clean_html E \<subseteq> B \<Longrightarrow> holds (inside B) (PollFeed ops E oob cfg)"
  unfolding PollFeed_def by (auto intro!: hoare holds_bindS poll_pipeline_inside recordPanic_inside)

text \<open>The article is stored only after the sanitizer returned it.\<close>

lemma sanitize_then_inside:
  assumes "clean_html E \<subseteq> B" and "\<And>art. art \<in> B \<Longrightarrow> holds (inside B) (k art)"
  shows "holds (inside B) (bindS (outcomeS (en_sanitize E h u)) k)"
proof (cases "en_sanitize E h u")
  case (Ret art)
  then have "art \<in> B" using assms(1) by (intro sanitized_in)
  then show ?thesis using Ret assms(2) by (simp add: holds_def bindS_def outcomeS_def retS_def)
next
  case (Panic p)
  then show ?thesis by (simp add: holds_def bindS_def outcomeS_def panicS_def)
qed

lemma failEmit_inside: "holds (inside B) (failEmit ops E cfg e msg result reason emit)"
  unfolding failEmit_def Let_def by (auto intro!: hoare inside_rules)

lemma retryLater_inside: "holds (inside B) (retryLater ops E cfg e msg ra reason)"
  unfolding retryLater_def Let_def by (auto intro!: hoare inside_rules)

lemma scrape_pipeline_inside:
  assumes "clean_html E \<subseteq> B"
  shows "holds (inside B) (scrape_pipeline ops E cfg e)"
proof -
  have fail: "holds (inside B) (bindS (failEmit ops E cfg e msg result reason emit) (\<lambda>r. retS (r, b)))" for msg result reason emit b
    by (intro holds_bindS failEmit_inside hoare)
  have retry: "holds (inside B) (bindS (retryLater ops E cfg e msg ra reason) (\<lambda>r. retS (r, b)))" for msg ra reason b
    by (intro holds_bindS retryLater_inside hoare)
  have put: "holds (inside B) (bindS (outcomeS (en_sanitize E h u)) (\<lambda>art.
      if TrimSpace art = [] then bindS (failEmit ops E cfg e msg ScrapeExtractError ReasonParse True) (\<lambda>r. retS (r, True))
      else tryS (storeC E (\<lambda>cx. so_SetEntryContent ops cx (e_ID e) art))
        (\<lambda>err. bindS (failEmit ops E cfg e (''persist: '' @ err_text err) ScrapeFailed ReasonInternal True) (\<lambda>r. retS (r, True)))
        (\<lambda>_. bindS (bindS (emitS [ScrapeDone ScrapeSuccess]) (\<lambda>_. retS None)) (\<lambda>r. retS (r, True)))))" for h u msg
    by (rule sanitize_then_inside [OF assms])
      (intro holds_if fail holds_tryS inside_store stored_SetEntryContent holds_bindS hoare; assumption)
  show ?thesis
    unfolding scrape_pipeline_def fail_scrape_def Let_def
    by (intro holds_tryS [OF holds_fetchS] holds_tryS [OF holds_prims(8)] holds_bindS [OF holds_prims(5)]
        holds_if fail retry put)
qed

lemma ScrapeEntry_inside: "clean_html E \<subseteq> B \<Longrightarrow> holds (inside B) (ScrapeEntry ops E cfg e)"
  unfolding ScrapeEntry_def fail_scrape_def
  by (auto split: prod.split intro!: hoare holds_bindS scrape_pipeline_inside failEmit_inside)

end

end
