(* ===== verification/SqliteScrape.thy ===== *)
theory SqliteScrape
  imports SqliteContract BodyContract
begin

text \<open>
  The SQLite store keeps the contracts of \<open>ScrapeContract\<close> and \<open>BodyContract\<close>: the view of the entries
  by id, and the set of HTML texts the entries hold.
\<close>

definition entry_row :: "conn \<Rightarrow> entry_view" where
  "entry_row c i = find (\<lambda>r. er_ID r = i) (entries (cn_db c))"

lemma entry_row_keyed: "entry_row c i = Some r \<Longrightarrow> er_ID r = i"
  by (auto simp: entry_row_def dest: find_SomeD)

lemma entry_row_mem: "wf_db (cn_db c) \<Longrightarrow> r \<in> set (entries (cn_db c)) \<Longrightarrow> entry_row c (er_ID r) = Some r"
  unfolding entry_row_def
  by (rule find_distinct_key [where k = er_ID]) (auto simp: wf_db_def wf_entries_def ids_ok_distinct)

lemma entry_row_upd:
  "entries (cn_db c') = upd_where P u (entries (cn_db c)) \<Longrightarrow> (\<And>r. P r \<Longrightarrow> er_ID (u r) = er_ID r)
   \<Longrightarrow> entry_row c' = edit P u (entry_row c)"
  by (auto simp: entry_row_def edit_def fun_eq_iff find_upd_where)

section \<open>One \<open>UPDATE\<close> of the entries\<close>

lemma entries_updated:
  "exec_only (update_entries P u) d = (Inr x, d') \<Longrightarrow> entries d' = upd_where P u (entries d)"
  by (auto simp: exec_only_def update_entries_def split: option.splits)

lemma update_entries_clean: "clean (exec_only (update_entries P u))"
  by (auto simp: clean_def exec_only_def update_entries_def split: option.splits)

lemma entry_update_sqlite:
  assumes "conn_ok c" and "mapped (exec cx (exec_only (update_entries P u))) c = (x, c')"
    and "keeps wf_db (exec_only (update_entries P u))" and "\<And>r. P r \<Longrightarrow> er_ID (u r) = er_ID r"
  shows "conn_ok c' \<and> entry_row c' = on_ok x (edit P u (entry_row c)) (entry_row c)"
proof -
  note o = mapped_outcome [OF assms(2) update_entries_clean]
  show ?thesis
  proof (cases x)
    case (Inl e)
    then show ?thesis using o assms(1) by (auto simp: on_ok_def conn_ok_def entry_row_def fun_eq_iff)
  next
    case (Inr a)
    then have run: "exec_only (update_entries P u) (cn_db c) = (Inr a, cn_db c')" using o by simp
    have "wf_db (cn_db c')" using keepsD [OF assms(3), of "cn_db c"] assms(1) run by (simp add: conn_ok_def)
    moreover have "entry_row c' = edit P u (entry_row c)"
      by (rule entry_row_upd [OF entries_updated [OF run] assms(4)])
    ultimately show ?thesis using Inr o assms(1) by (simp add: on_ok_def conn_ok_def)
  qed
qed

lemma SetEntryContent_sqlite:
  assumes "conn_ok c" and "SetEntryContent unesc cx i content c = (x, c')"
  shows "conn_ok c' \<and> entry_row c'
     = on_ok x (edit (pending_is i) (scraped_row content (PlainText unesc content)) (entry_row c)) (entry_row c)"
proof -
  have s: "sql_SetEntryContent content (PlainText unesc content) i
      = exec_only (update_entries (pending_is i) (scraped_row content (PlainText unesc content)))"
    by (simp add: sql_SetEntryContent_def pending_is_def [abs_def] scraped_row_def [abs_def])
  show ?thesis
  proof (rule entry_update_sqlite [OF assms(1)])
    show "mapped (exec cx (exec_only (update_entries (pending_is i) (scraped_row content (PlainText unesc content))))) c
        = (x, c')" using assms(2) unfolding SetEntryContent_def s .
    show "keeps wf_db (exec_only (update_entries (pending_is i) (scraped_row content (PlainText unesc content))))"
      unfolding s [symmetric] by (intro wf_intros sql_entry_updates_keep)
    show "er_ID (scraped_row content (PlainText unesc content) r) = er_ID r" for r
      by (simp add: scraped_row_def)
  qed
qed

lemma UpdateExtractState_sqlite:
  assumes "conn_ok c" and "UpdateExtractState cx i st n next reason c = (x, c')"
  shows "conn_ok c' \<and> entry_row c'
     = on_ok x (edit (\<lambda>r. er_ID r = i) (extract_row st n next reason) (entry_row c)) (entry_row c)"
proof -
  have s: "sql_UpdateExtractState (extract_str st) n (nullUnix next) reason i
      = exec_only (update_entries (\<lambda>r. er_ID r = i) (extract_row st n next reason))"
    by (simp add: sql_UpdateExtractState_def extract_row_def [abs_def])
  show ?thesis
  proof (rule entry_update_sqlite [OF assms(1)])
    show "mapped (exec cx (exec_only (update_entries (\<lambda>r. er_ID r = i) (extract_row st n next reason)))) c = (x, c')"
      using assms(2) unfolding UpdateExtractState_def s .
    show "keeps wf_db (exec_only (update_entries (\<lambda>r. er_ID r = i) (extract_row st n next reason)))"
      unfolding s [symmetric] by (intro wf_intros sql_entry_updates_keep)
    show "er_ID (extract_row st n next reason r) = er_ID r" for r
      by (simp add: extract_row_def)
  qed
qed

interpretation rows: entry_rows "sqlite_ops unesc" conn_ok entry_row "PlainText unesc" for unesc
  by (unfold_locales, unfold sqlite_ops_simps)
    (rule entry_row_keyed SetEntryContent_sqlite UpdateExtractState_sqlite; assumption)+

section \<open>The HTML texts of a database\<close>

definition bodies_in :: "string set \<Rightarrow> db \<Rightarrow> bool" where
  "bodies_in B d \<longleftrightarrow> (\<forall>r \<in> set (entries d). er_Content r \<in> B \<and> er_Summary r \<in> B)"

lemma update_bodies:
  assumes "\<And>r. er_Content r \<in> B \<Longrightarrow> er_Summary r \<in> B \<Longrightarrow> er_Content (u r) \<in> B \<and> er_Summary (u r) \<in> B"
  shows "keeps (bodies_in B) (exec_only (update_entries P u))"
  using assms
  by (auto simp: keeps_def bodies_in_def exec_only_def update_entries_def set_upd_where split: option.split)

lemma entries_kept_bodies: "(\<And>d. set (entries (snd (s d))) \<subseteq> set (entries d)) \<Longrightarrow> keeps (bodies_in B) s"
  unfolding keeps_def bodies_in_def by blast

lemma feed_stmts_bodies:
  "keeps (bodies_in B) (sql_UpdateFeed a)" "keeps (bodies_in B) (sql_SetFeedURL u nx i uid)"
  "keeps (bodies_in B) (sql_DeleteFeed i uid)"
  by (rule entries_kept_bodies, auto simp: sql_UpdateFeed_def sql_SetFeedURL_def sql_DeleteFeed_def Let_def)+

lemma op_keeps_foldE_in:
  "(\<And>x s. x \<in> set xs \<Longrightarrow> op_keeps I (f s x)) \<Longrightarrow> op_keeps I (foldE f s xs)"
proof (induction xs arbitrary: s)
  case Nil
  show ?case by (simp add: op_keeps_returnE)
next
  case (Cons x xs)
  then show ?case by (auto intro: op_keeps_bindE)
qed

lemma upsert_one_bodies:
  assumes "entry_within B e"
  shows "op_keeps (bodies_in B) (upsert_one unesc cx fid ins acc e)"
proof -
  have "keeps (bodies_in B) (sql_UpdateEntryMetadata (entry_params unesc i fid ins e))"
    "keeps (bodies_in B) (sql_UpdateEntryContent (entry_params unesc i fid ins e))" for i
    unfolding sql_UpdateEntryMetadata_def sql_UpdateEntryContent_def using assms
    by (auto simp: entry_within_def metadata_cols_def content_cols_def entry_params_def intro!: update_bodies)
  moreover have "keeps (bodies_in B) (sql_InsertEntry (entry_params unesc i fid ins e))" for i
    using assms
    by (auto simp: keeps_def bodies_in_def sql_InsertEntry_def Let_def entry_within_def entry_params_def split: option.split)
  ultimately show ?thesis
    unfolding upsert_one_def if_no_rows_def
    by (intro wf_intros op_keeps_if) (auto split: prod.split intro!: wf_intros op_keeps_if)
qed

lemma UpsertEntries_bodies:
  "\<forall>e \<in> set es. entry_within B e \<Longrightarrow> op_keeps (bodies_in B) (UpsertEntries unesc cx fid es)"
  unfolding UpsertEntries_def if_no_rows_def
  by (intro op_keeps_in_tx op_keeps_catchE op_keeps_exec op_keeps_if op_keeps_returnE op_keeps_throwE op_keeps_bindE
      op_keeps_foldE_in upsert_one_bodies op_keeps_mapped op_keeps_Commit reads_keeps sql_reads) auto

lemma entry_ops_bodies:
  "content \<in> B \<Longrightarrow> op_keeps (bodies_in B) (SetEntryContent unesc cx i content)"
  "op_keeps (bodies_in B) (UpdateExtractState cx i st n next reason)"
  unfolding SetEntryContent_def sql_SetEntryContent_def UpdateExtractState_def sql_UpdateExtractState_def
  by (intro op_keeps_mapped op_keeps_exec update_bodies; simp)+

lemma feed_ops_bodies:
  "op_keeps (bodies_in B) (UpdateFeed cx f)" "op_keeps (bodies_in B) (SetFeedURL cx uid fid url now)"
  "op_keeps (bodies_in B) (DeleteFeed cx uid fid)"
  unfolding UpdateFeed_def SetFeedURL_def DeleteFeed_def affected_def
  by (intro wf_intros op_keeps_if feed_stmts_bodies)+

interpretation bodies: body_store "sqlite_ops unesc" "\<lambda>B. conn_inv (bodies_in B)" for unesc
  by (unfold_locales, unfold sqlite_ops_simps)
    (erule op_keepsD [rotated], rule UpsertEntries_bodies entry_ops_bodies feed_ops_bodies
      WeeklyEntryCount_reads EntryDedup_reads, assumption?)+

end
