(* ===== verification/PollProps.thy ===== *)
theory PollProps
  imports SqliteContract
begin

text \<open>
  What a poll does to the feed table of the SQLite store, over every environment: the facts of
  \<open>PollContract\<close> and \<open>PollDue\<close> through the interpretation \<open>sqlite\<close>, and the failed poll of a service
  that is being shut down.
\<close>

section \<open>A sample world\<close>

text \<open>A library that takes every text for the path of one host.\<close>

definition sample_lib :: url_lib where
  "sample_lib = \<lparr>ul_Parse = (\<lambda>s. Some \<lparr>u_Scheme = ''http'', u_Opaque = [], u_User = None, u_Host = ''a'',
       u_Path = s, u_RawPath = [], u_OmitHost = False, u_ForceQuery = False, u_RawQuery = [],
       u_Fragment = [], u_RawFragment = []\<rparr>),
     ul_String = u_Path, ul_lower = (\<lambda>s. s), ul_quote = (\<lambda>s. s)\<rparr>"

text \<open>An environment whose fetches fail with a DNS error.\<close>

definition sample_env :: env where
  "sample_env = \<lparr>en_clock = (\<lambda>n. 1000 * Second + int n), en_ctx = (\<lambda>n. None),
     en_fetch = (\<lambda>n req. Ret (Inl (GErr (KDNS False) ''no such host'' []))),
     en_parse = (\<lambda>b c u. Panic ''parse''), en_discover = (\<lambda>b u. Panic ''discover''),
     en_sanitize = (\<lambda>h u. Ret h), en_extract = (\<lambda>u b c. Panic ''extract''), en_lib = sample_lib\<rparr>"

text \<open>The same, with the service shut down.\<close>

definition sample_env_down :: env where
  "sample_env_down = sample_env\<lparr>en_ctx := (\<lambda>n. Some Canceled), en_fetch := (\<lambda>n req. Ret (Inl Canceled))\<rparr>"

definition sample_cfg :: FeedServiceConfig where
  "sample_cfg = \<lparr>fc_Schedule = \<lparr>sc_MinInterval = 0, sc_MaxInterval = 0, sc_Factor = PInf\<rparr>,
     fc_Reschedule = \<lparr>rc_Interval = 0, rc_MaxBackoff = 0\<rparr>, fc_Jitter = None\<rparr>"

definition sample_world :: "conn world" where
  "sample_world = \<lparr>w_store = fresh_conn sample_db, w_feed = feedFromRow sample_feed, w_trace = [], w_step = 0\<rparr>"

lemma sample_world_simps [simp]:
  "w_store sample_world = fresh_conn sample_db" "w_feed sample_world = feedFromRow sample_feed"
  "w_trace sample_world = []" "w_step sample_world = 0"
  by (simp_all add: sample_world_def)

lemma sample_ok: "conn_ok (fresh_conn sample_db)"
  by (rule conn_ok_fresh [OF wf_sample_db])

lemma sample_feed_simps:
  "f_ID (feedFromRow sample_feed) = 1" "f_UserID (feedFromRow sample_feed) = 1"
  "f_ErrorCount (feedFromRow sample_feed) = 0"
  by (simp_all add: feedFromRow_def sample_feed_def feed_params_def zero_feed_def)

lemma sample_row: "feed_row (fresh_conn sample_db) 1 = Some sample_feed"
  by (simp add: feed_row_def fresh_conn_def sample_db_def sample_feed_def)

section \<open>A poll cut off by the shutdown\<close>

lemma UpdateFeed_reliable:
  "cn_faults c = [] \<Longrightarrow> UpdateFeed None f c = (Inr (), c\<lparr>cn_db := (cn_db c)\<lparr>feeds :=
      upd_where (feed_cas (feed_params f)) (update_feed_cols (feed_params f)) (feeds (cn_db c))\<rparr>\<rparr>)"
proof -
  assume c: "cn_faults c = []"
  have "fr_Disabled (feed_params f) \<in> {0, 1}" by (simp add: feed_params_def b2i_def)
  then show ?thesis
    using c by (simp only: UpdateFeed_def mapped_def exec_reliable sql_UpdateFeed_def) simp
qed

text \<open>The feed and the connection after the failure is recorded.\<close>

definition failed_feed :: "FeedServiceConfig \<Rightarrow> time \<Rightarrow> gerr \<Rightarrow> Feed \<Rightarrow> Feed" where
  "failed_feed cfg now e f = f\<lparr>f_ErrorCount := f_ErrorCount f + 1, f_LastError := err_text e,
      f_CheckedAt := Some now, f_UpdatedAt := now,
      f_NextCheckAt := PollReschedule now (fc_Reschedule cfg) (f_ErrorCount f + 1) 0 (fc_Jitter cfg)\<rparr>"

definition failed_conn :: "Feed \<Rightarrow> conn \<Rightarrow> conn" where
  "failed_conn g c = c\<lparr>cn_db := (cn_db c)\<lparr>feeds :=
      upd_where (feed_cas (feed_params g)) (update_feed_cols (feed_params g)) (feeds (cn_db c))\<rparr>\<rparr>"

lemma shutdown_run:
  assumes "cn_faults (w_store w) = []"
    and "en_fetch E (Suc (w_step w)) (poll_request (w_feed w)) = Ret (Inl e)" and "err_is SCanceled e"
    and "\<And>n. Suc (Suc (w_step w)) \<le> n \<Longrightarrow> en_ctx E n = Some Canceled"
    and "g = failed_feed cfg (en_clock E (w_step w)) e (w_feed w)"
  shows "PollFeed (sqlite_ops unesc) E oob cfg w = (Ret None, w\<lparr>w_store := failed_conn g (w_store w),
     w_feed := g, w_step := Suc (Suc (Suc (Suc (w_step w))))\<rparr>)"
proof -
  have ctx: "en_ctx E (Suc (Suc (w_step w))) = Some Canceled" "en_ctx E (Suc (Suc (Suc (w_step w)))) = Some Canceled"
    using assms(4) by simp_all
  show ?thesis
    using assms(2,3) [unfolded poll_request_def] ctx
    by (simp add: PollFeed_def poll_pipeline_def recordErrorEmit_def bindS_def recoverS_def tryS_def feedS_def fetchS_def
        askS_def clk_Now_def ctx_Err_def outcomeS_def retS_def setFeedS_def storeS_def Let_def
        UpdateFeed_reliable [OF assms(1)] err_of_def ctxShutdownCanceled_def assms(5) failed_feed_def failed_conn_def)
qed

lemma failed_row:
  assumes "feed_row c i = Some r" and "feed_cas (feed_params g) r"
  shows "feed_row (failed_conn g c) i = Some (update_feed_cols (feed_params g) r)"
  using assms by (simp add: feed_row_def find_upd_where update_feed_cols_def failed_conn_def)

text \<open>The sample world polled in a service that is shut down.\<close>

definition sample_poll :: "gerr option outcome \<times> conn world" where
  "sample_poll = PollFeed (sqlite_ops (\<lambda>s. s)) sample_env_down (\<lambda>_. 0) (normalize_cfg sample_cfg) sample_world"

lemma sample_poll_result:
  "fst sample_poll = Ret None" "f_FeedURL (w_feed (snd sample_poll)) = ''http://a/''"
  "\<exists>r. feed_row (w_store (snd sample_poll)) 1 = Some r \<and> fr_UserID r = 1 \<and> fr_FeedUrl r = ''http://a/''"
proof -
  let ?g = "failed_feed (normalize_cfg sample_cfg) (en_clock sample_env_down 0) Canceled (feedFromRow sample_feed)"
  have run: "sample_poll = (Ret None, sample_world\<lparr>w_store := failed_conn ?g (fresh_conn sample_db),
      w_feed := ?g, w_step := Suc (Suc (Suc (Suc 0)))\<rparr>)"
    unfolding sample_poll_def
    by (subst shutdown_run [where e = Canceled, OF _ _ _ _ refl]) (simp_all add: sample_env_down_def fresh_conn_def)
  have cas: "feed_cas (feed_params ?g) sample_feed"
    by (simp add: feed_cas_def feed_params_def failed_feed_def feedFromRow_def sample_feed_def)
  show "fst sample_poll = Ret None" "f_FeedURL (w_feed (snd sample_poll)) = ''http://a/''"
    unfolding run by (simp_all add: failed_feed_def feedFromRow_def sample_feed_def)
  show "\<exists>r. feed_row (w_store (snd sample_poll)) 1 = Some r \<and> fr_UserID r = 1 \<and> fr_FeedUrl r = ''http://a/''"
    unfolding run using failed_row [OF sample_row cas]
    by (simp add: update_feed_cols_def sample_feed_def)
qed

section \<open>What a poll may write\<close>

text \<open>C1. Whatever the network, the parser, the clock, the driver and the context do, a poll keeps the
  database's invariant, changes no other feed's row, and leaves the polled feed's row with the
  user's columns (id, owner, category, custom title, full-content switch, creation time) as they
  were, unless the row is gone.\<close>

theorem poll_keeps_user_columns:
  assumes "conn_ok (w_store w)"
  shows "conn_ok (w_store (snd (PollFeed (sqlite_ops unesc) E oob cfg w)))
    \<and> (\<forall>i. i \<noteq> f_ID (w_feed w) \<longrightarrow>
         feed_row (w_store (snd (PollFeed (sqlite_ops unesc) E oob cfg w))) i = feed_row (w_store w) i)
    \<and> (case feed_row (w_store (snd (PollFeed (sqlite_ops unesc) E oob cfg w))) (f_ID (w_feed w)) of
         None \<Rightarrow> True
       | Some r' \<Rightarrow> \<exists>r. feed_row (w_store w) (f_ID (w_feed w)) = Some r \<and> user_cols r' = user_cols r)"
  using sqlite.PollFeed_kept [OF assms surjective_pairing, of unesc E oob cfg]
  by (auto simp: kept_def map_option_case split: option.splits)

theorem poll_keeps_user_columns_witness:
  "user_cols (the (feed_row (w_store (snd sample_poll)) 1)) = user_cols sample_feed"
  using poll_keeps_user_columns [of sample_world "\<lambda>s. s" sample_env_down "\<lambda>_. 0" "normalize_cfg sample_cfg"]
    sample_poll_result sample_ok sample_row
  by (auto simp: sample_feed_simps sample_poll_def [symmetric] split: option.splits)





text \<open>A poll that is cut off by the shutdown of the service (its fetch fails with
  \<open>context.Canceled\<close> and the context is done from then on) is still recorded on the SQLite store:
  error count, error text and check time are in the feed's row, and no metric is emitted.\<close>

lemma shutdown_poll_recorded:
  assumes "cn_faults (w_store w) = []"
    and "feed_row (w_store w) (f_ID (w_feed w)) = Some r" and "feed_cas (feed_params (w_feed w)) r"
    and "en_fetch E (Suc (w_step w)) (poll_request (w_feed w)) = Ret (Inl e)" and "err_is SCanceled e"
    and "\<And>n. Suc (Suc (w_step w)) \<le> n \<Longrightarrow> en_ctx E n = Some Canceled"
  shows "\<exists>w' r'. PollFeed (sqlite_ops unesc) E oob cfg w = (Ret None, w') \<and> w_trace w' = w_trace w
     \<and> feed_row (w_store w') (f_ID (w_feed w)) = Some r'
     \<and> fr_ErrorCount r' = f_ErrorCount (w_feed w) + 1 \<and> fr_LastError r' = err_text e
     \<and> fr_CheckedAt r' = Some (toUnix (en_clock E (w_step w)))"
proof -
  have cas: "feed_cas (feed_params (failed_feed cfg now e (w_feed w))) r" for now
    using assms(3) by (simp add: feed_cas_def feed_params_def failed_feed_def)
  let ?g = "failed_feed cfg (en_clock E (w_step w)) e (w_feed w)"
  obtain w' where w': "PollFeed (sqlite_ops unesc) E oob cfg w = (Ret None, w')"
    "w_store w' = failed_conn ?g (w_store w)" "w_trace w' = w_trace w"
    using shutdown_run [OF assms(1,4-6) refl, of unesc oob cfg] by simp
  show ?thesis
    using w' failed_row [OF assms(2) cas]
    by (auto simp: update_feed_cols_def feed_params_def failed_feed_def nullUnix_def toUnix_def)
qed

end
