(* ===== verification/ScrapeProps.thy ===== *)
theory ScrapeProps
  imports SqliteScrape PollProps
begin

text \<open>
  What a scrape does to the entries of the SQLite store, over every environment, and that only
  sanitised HTML is stored: the facts of \<open>ScrapeContract\<close> and \<open>BodyContract\<close> through the
  interpretations \<open>rows\<close> and \<open>bodies\<close>.
\<close>

section \<open>A sample scrape\<close>

text \<open>An environment that serves one HTML page.\<close>

definition sample_page :: FetchResponse where
  "sample_page = \<lparr>rs_Status = 200, rs_NotModified = False, rs_Body = ''<p>x</p>'', rs_ContentType = ''text/html'', rs_ETag = [],
     rs_LastModified = [], rs_RetryAfter = 0, rs_FinalURL = [], rs_PermanentRedirect = False\<rparr>"

definition sample_web :: env where
  "sample_web = sample_env\<lparr>en_fetch := (\<lambda>n req. Ret (Inr sample_page)),
     en_extract := (\<lambda>u b c. Ret (Inr b)), en_sanitize := (\<lambda>h u. Ret ''x'')\<rparr>"

definition sample_scfg :: ScrapeServiceConfig where
  "sample_scfg = normalize_scrape \<lparr>ss_cfg = \<lparr>sg_MaxAttempts = 0, sg_BaseBackoff = 0, sg_MaxBackoff = 0\<rparr>, ss_Jitter = None\<rparr>"

definition sample_pending :: Entry where
  "sample_pending = entryFromRow (new_row (\<lambda>s. s) ExtractPending 1 sample_entry 1)"

definition scrape_world :: "conn world" where
  "scrape_world = \<lparr>w_store = fresh_conn sample_db1, w_feed = zero_feed, w_trace = [], w_step = 0\<rparr>"

lemma sample_db1_entries: "entries sample_db1 = [new_row (\<lambda>s. s) ExtractPending 1 sample_entry 1]"
  by code_simp

lemma sample_new_row: "er_ID (new_row (\<lambda>s. s) ExtractPending 1 sample_entry 1) = 1"
    "er_ExtractState (new_row (\<lambda>s. s) ExtractPending 1 sample_entry 1) = ''pending''"
  "er_ExtractAttempts (new_row (\<lambda>s. s) ExtractPending 1 sample_entry 1) = 0"
  by code_simp+

lemma scrape_world_simps [simp]:
  "w_store scrape_world = fresh_conn sample_db1" "w_step scrape_world = 0" "w_trace scrape_world = []"
  by (simp_all add: scrape_world_def)

lemma scrape_world_ok: "conn_ok (w_store scrape_world)"
  using sample_db1_inv by (simp add: conn_ok_fresh store_inv_def)

lemma scrape_world_row:
  "entry_row (w_store scrape_world) 1 = Some (new_row (\<lambda>s. s) ExtractPending 1 sample_entry 1)"
  by (simp add: entry_row_def fresh_conn_def sample_db1_entries sample_new_row)

lemma sample_pending_simps: "e_ID sample_pending = 1" "e_ExtractAttempts sample_pending = 0"
  by (simp_all add: sample_pending_def entryFromRow_def sample_new_row)

definition sample_scrape :: "gerr option outcome \<times> conn world" where
  "sample_scrape = ScrapeEntry (sqlite_ops (\<lambda>s. s)) sample_web sample_scfg sample_pending scrape_world"

lemma sample_scrape_run:
  "fst sample_scrape = Ret None"
  "er_Content (the (entry_row (w_store (snd sample_scrape)) 1)) = ''x''"
  unfolding sample_scrape_def by code_simp+

section \<open>The row of the scraped entry\<close>



definition tries_left :: "int \<Rightarrow> conn \<Rightarrow> bool" where
  "tries_left n c \<longleftrightarrow> (\<forall>i r. entry_row c i = Some r \<longrightarrow> er_ExtractState r = ''pending'' \<longrightarrow> er_ExtractAttempts r < n)"

text \<open>The attempt cap holds: as long as every pending entry has attempts left, and the scraped
  snapshot too, no scrape leaves an entry pending that has used up its attempts, so an article that
  keeps failing is given up.\<close>

lemma scrape_attempts_capped:
  assumes "conn_ok (w_store w)" and "ScrapeEntry (sqlite_ops unesc) E cfg e w = (Ret a, w')"
    and "tries_left (sg_MaxAttempts (ss_cfg cfg)) (w_store w)"
    and "e_ExtractAttempts e < sg_MaxAttempts (ss_cfg cfg)"
  shows "tries_left (sg_MaxAttempts (ss_cfg cfg)) (w_store w')"
proof -
  have "rows.etable (entry_row (w_store w)) (w_store w) (w_feed w)"
    using assms(1) by (simp add: rows.etable_def)
  note o = endsD [OF rows.ScrapeEntry_outcome this assms(2)]
  have "er_ExtractAttempts r' < sg_MaxAttempts (ss_cfg cfg)"
    if r': "entry_row (w_store w') i = Some r'" "er_ExtractState r' = ''pending''" for i r'
  proof (cases "i = e_ID e")
    case False
    then show ?thesis using o r' assms(3) by (auto simp: rows.outcome_ok_def tries_left_def)
  next
    case True
    then obtain r where r: "entry_row (w_store w) i = Some r" "scrape_outcome (PlainText unesc) E cfg e r r'"
      using o r' by (auto simp: rows.outcome_ok_def split: option.splits)
    have "er_ExtractState r = ''pending'' \<longrightarrow> er_ExtractAttempts r < sg_MaxAttempts (ss_cfg cfg)"
      using assms(3) r(1) by (auto simp: tries_left_def)
    then show ?thesis
      using r(2) r'(2) assms(4) unfolding scrape_outcome_def
      by (auto simp: scraped_row_def extract_row_def)
  qed
  then show ?thesis by (auto simp: tries_left_def)
qed

section \<open>Shutdown\<close>

text \<open>C30. A scrape cut off by the shutdown is not recorded, against the comment in \<open>ScrapeEntry\<close> ("persist
  the retry/backoff state as usual"): the write gets the context that is already done, so the database
  stays as it is and the error comes back. (A poll in the same position is recorded.)\<close>

theorem scrape_shutdown_not_recorded:
  assumes "en_fetch E (Suc (w_step w)) (scrape_request e) = Ret (Inl err)" and "err_is SCanceled err"
    and "\<And>n. Suc (Suc (w_step w)) \<le> n \<Longrightarrow> en_ctx E n = Some Canceled"
  shows "\<exists>w'. ScrapeEntry (sqlite_ops unesc) E cfg e w = (Ret (Some (mapErr Canceled)), w') \<and> w_store w' = w_store w
     \<and> w_trace w' = w_trace w"
proof -
  have ctx: "en_ctx E (Suc (Suc (w_step w))) = Some Canceled" "en_ctx E (Suc (Suc (Suc (w_step w)))) = Some Canceled"
    "en_ctx E (Suc (Suc (Suc (Suc (w_step w))))) = Some Canceled"
    using assms(3) by simp_all
  show ?thesis
    using assms(1,2) ctx
    by (simp add: ScrapeEntry_def scrape_pipeline_def scrape_request_def failEmit_def bindS_def recoverS_def tryS_def fetchS_def
        askS_def clk_Now_def ctx_Err_def outcomeS_def retS_def storeS_def storeC_def Let_def
        ctxShutdownCanceled_def UpdateExtractState_def mapped_def err_of_def)
qed

theorem scrape_shutdown_not_recorded_witness:
  "\<exists>w'. ScrapeEntry (sqlite_ops (\<lambda>s. s)) sample_env_down sample_scfg sample_pending scrape_world
      = (Ret (Some Canceled), w') \<and> w_store w' = fresh_conn sample_db1"
proof -
  have "mapErr Canceled = Canceled" by code_simp
  then show ?thesis
    using scrape_shutdown_not_recorded [of sample_env_down scrape_world sample_pending Canceled "\<lambda>s. s" sample_scfg]
    by (auto simp: sample_env_down_def Canceled_def)
qed

section \<open>Sanitised HTML\<close>

text \<open>The failure paths have no compare-and-swap: \<open>SetEntryContent\<close> writes only to a pending entry, but
  \<open>UpdateExtractState\<close> writes to any. When full content was switched off while a scrape ran, its failure puts
  the entry back into the queue.\<close>

definition switched_off :: conn where
  "switched_off = snd (SetFeedFullContent None 1 1 False 0 (fresh_conn sample_db1))"

lemma stale_failure_requeues:
  "er_ExtractState (the (entry_row switched_off 1)) = ''none''"
  "er_ExtractState (the (entry_row (snd (UpdateExtractState None 1 ExtractPending 1 (Some 0) ''fetch'' switched_off)) 1)) = ''pending''"
  "map e_ID (case fst (ListPendingExtractions None 0 9 (snd (UpdateExtractState None 1 ExtractPending 1 (Some 0) ''fetch'' switched_off)))
     of Inr es \<Rightarrow> es | Inl _ \<Rightarrow> []) = [1]"
  by code_simp+

text \<open>C3. Sanitise before persist: with any set \<open>B\<close> that holds all outputs of the sanitizer and the texts
  stored so far, a poll, the resolution of a new subscription and a scrape leave only texts of \<open>B\<close> in
  the content and summary of every entry. Nothing from the network reaches the table another way.\<close>

theorem only_sanitised_stored:
  assumes "clean_html E \<subseteq> B" and "conn_inv (bodies_in B) (w_store w)"
  shows "conn_inv (bodies_in B) (w_store (snd (PollFeed (sqlite_ops unesc) E oob cfg w)))
    \<and> conn_inv (bodies_in B) (w_store (snd (ResolveAndIngest (sqlite_ops unesc) E oob cfg w)))
    \<and> conn_inv (bodies_in B) (w_store (snd (ScrapeEntry (sqlite_ops unesc) E scfg e w)))"
proof -
  have i: "bodies.inside B (w_store w) (w_feed w)" using assms(2) by (simp add: bodies.inside_def)
  show ?thesis
    using holdsD [OF bodies.PollFeed_inside [OF assms(1)] i surjective_pairing]
      holdsD [OF bodies.ResolveAndIngest_inside [OF assms(1)] i surjective_pairing]
      holdsD [OF bodies.ScrapeEntry_inside [OF assms(1)] i surjective_pairing]
    by (simp add: bodies.inside_def)
qed

theorem only_sanitised_stored_witness:
  "conn_inv (bodies_in {[], ''x''}) (w_store (snd sample_scrape))"
proof -
  have "clean_html sample_web \<subseteq> {[], ''x''}" by (auto simp: clean_html_def sample_web_def)
  moreover have "conn_inv (bodies_in {[], ''x''}) (w_store scrape_world)"
    by (simp add: conn_inv_def bodies_in_def fresh_conn_def sample_db1_entries) code_simp
  ultimately show ?thesis
    using only_sanitised_stored [where e = sample_pending and scfg = sample_scfg and unesc = "\<lambda>s. s"]
    by (simp add: sample_scrape_def)
qed

end
