(* ===== verification/EditProps.thy ===== *)
theory EditProps
  imports PollProps
begin

text \<open>
  Editing and subscribing on the SQLite store: the facts of \<open>EditContract\<close> through the interpretation
  \<open>sqlite\<close>.
\<close>

section \<open>Editing\<close>

text \<open>C21. An edit that asks for the URL of another feed of the same user is refused and changes no feed
  row: title, category and full-content switch of the same form are not applied either, whatever
  the driver and the context do.\<close>

theorem edit_taken_url_changes_nothing:
  assumes "conn_ok (w_store w)"
    and "feed_row (w_store w) j = Some r" and "j \<noteq> fid" and "fr_UserID r = uid"
    and "fr_FeedUrl r = edit_url E inp" and "edit_url E inp \<noteq> []"
    and "\<And>r. feed_row (w_store w) fid = Some r \<Longrightarrow> fr_FeedUrl r \<noteq> edit_url E inp"
  shows "\<exists>e w'. EditFeed (sqlite_ops unesc) E uid fid inp w = (Ret (no_result, Some e), w')
     \<and> feed_row (w_store w') = feed_row (w_store w)"
proof -
  obtain a w' where run: "EditFeed (sqlite_ops unesc) E uid fid inp w = (Ret a, w')"
    using safe_run [OF EditFeed_safe] by blast
  have "sqlite.table (feed_row (w_store w)) (w_store w) (w_feed w)"
    using assms(1) by (simp add: sqlite.table_def)
  from endsD [OF sqlite.EditFeed_taken [where R = "feed_row (w_store w)" and j = j and r = r, OF assms(2-7)] this run]
  show ?thesis using run by (cases a) (auto simp: sqlite.refused_def sqlite.table_def)
qed

text \<open>Two feeds of one user; the first is to get the URL of the second.\<close>

definition sample_feed2 :: FeedRow where
  "sample_feed2 = sample_feed\<lparr>fr_ID := 2, fr_FeedUrl := ''http://b/''\<rparr>"

definition sample_db2 :: db where
  "sample_db2 = init_db\<lparr>feeds := [sample_feed, sample_feed2], feed_seq := 2\<rparr>"

definition sample_world2 :: "conn world" where
  "sample_world2 = sample_world\<lparr>w_store := fresh_conn sample_db2\<rparr>"

definition sample_edit :: "string \<Rightarrow> EditFeedInput" where
  "sample_edit u = \<lparr>ei_Title = ''mine'', ei_URL = u, ei_CategoryID = None, ei_FullContent = False\<rparr>"

lemma sample_ok2: "conn_ok (fresh_conn sample_db2)"
  by (rule conn_ok_fresh)
    (simp add: wf_db_def sample_db2_def sample_feed_def sample_feed2_def init_db_def wf_users_def wf_feeds_def
      wf_categories_def wf_entries_def wf_tombstones_def ids_ok_def feed_params_def zero_feed_def
      feed_checks_def feed_fk_def b2i_def nullID_def)

lemma sample_rows2:
  "feed_row (fresh_conn sample_db2) 1 = Some sample_feed" "feed_row (fresh_conn sample_db2) 2 = Some sample_feed2"
  by (simp_all add: feed_row_def fresh_conn_def sample_db2_def sample_feed_def sample_feed2_def)

lemma sample_edit_url: "edit_url sample_env (sample_edit '' http://b/ '') = ''http://b/''"
  "edit_url sample_env (sample_edit []) = []"
  by code_simp+

theorem edit_taken_url_changes_nothing_witness:
  "\<exists>e w'. EditFeed (sqlite_ops (\<lambda>s. s)) sample_env 1 1 (sample_edit '' http://b/ '') sample_world2
      = (Ret (no_result, Some e), w')
     \<and> feed_row (w_store w') = feed_row (fresh_conn sample_db2)"
  using edit_taken_url_changes_nothing [where w = sample_world2 and E = sample_env and j = 2 and r = sample_feed2
      and fid = 1 and uid = 1 and inp = "sample_edit '' http://b/ ''" and unesc = "\<lambda>s. s"]
  by (simp add: sample_world2_def sample_ok2 sample_rows2 sample_edit_url)
    (simp add: sample_feed2_def sample_feed_def)


lemma sample_edit_runs:
  "fst (EditFeed (sqlite_ops (\<lambda>s. s)) sample_env 1 1 (sample_edit []) sample_world2) = Ret (no_result, None)"
  by code_simp


section \<open>Subscribing\<close>

text \<open>C22. \<open>CreateSubscription\<close> returns on every path. On success the table has exactly one new row, under
  an id no row had, pending with the normalised URL (an \<open>http\<close> or \<open>https\<close> one) as its title and the
  first check \<open>MinInterval\<close> away; on an error (bad URL, foreign category, duplicate, driver) the
  table is as before.\<close>

theorem create_subscription_one_row:
  assumes "conn_ok (w_store w)"
  shows "\<exists>a w'. CreateSubscription (sqlite_ops unesc) E cfg uid raw cat full w = (Ret a, w')
     \<and> (case a of
          Inl e \<Rightarrow> feed_row (w_store w') = feed_row (w_store w)
        | Inr g \<Rightarrow> feed_row (w_store w) (f_ID g) = None
            \<and> feed_row (w_store w') = (feed_row (w_store w))(f_ID g \<mapsto> (feed_params g)\<lparr>fr_UserTitle := []\<rparr>)
            \<and> f_FeedURL g = normalizeFeedURL (en_lib E) raw \<and> httpURL (en_lib E) (f_FeedURL g) \<noteq> []
            \<and> f_UserID g = uid \<and> f_CategoryID g = cat \<and> f_FetchFullContent g = full \<and> f_ErrorCount g = 0
            \<and> f_Title g = f_FeedURL g \<and> f_CheckedAt g = None
            \<and> f_NextCheckAt g = time_add (f_CreatedAt g) (sc_MinInterval (fc_Schedule cfg)))"
proof -
  obtain a w' where run: "CreateSubscription (sqlite_ops unesc) E cfg uid raw cat full w = (Ret a, w')"
    using safe_run [OF CreateSubscription_safe] by blast
  have "sqlite.table (feed_row (w_store w)) (w_store w) (w_feed w)"
    using assms by (simp add: sqlite.table_def)
  from endsD [OF sqlite.CreateSubscription_created this run]
  show ?thesis using run by (auto simp: sqlite.created_def)
qed

theorem create_subscription_one_row_witness:
  "\<exists>a w'. CreateSubscription (sqlite_ops (\<lambda>s. s)) sample_env sample_cfg 1 ''http://b/'' None False sample_world = (Ret a, w')
     \<and> feed_row (w_store w') 1 = Some sample_feed"
proof -
  obtain a w' where run: "CreateSubscription (sqlite_ops (\<lambda>s. s)) sample_env sample_cfg 1 ''http://b/'' None False sample_world = (Ret a, w')"
    and tbl: "case a of Inl e \<Rightarrow> feed_row (w_store w') = feed_row (fresh_conn sample_db)
        | Inr g \<Rightarrow> feed_row (fresh_conn sample_db) (f_ID g) = None
            \<and> feed_row (w_store w') = (feed_row (fresh_conn sample_db))(f_ID g \<mapsto> (feed_params g)\<lparr>fr_UserTitle := []\<rparr>)"
    using create_subscription_one_row [of sample_world "\<lambda>s. s" sample_env sample_cfg 1 "''http://b/''" None False] sample_ok
    by (fastforce split: sum.splits)
  have "feed_row (w_store w') 1 = Some sample_feed"
    using tbl sample_row by (cases a) auto
  with run show ?thesis by blast
qed

end
