(* ===== verification/PageProps.thy ===== *)
theory PageProps
  imports StoreSteps
begin

text \<open>
  Keyset pagination of \<open>ListEntries\<close>: following the cursors visits every entry the filter selects
  exactly once, in the order of the list, whatever the page size and however many entries share a
  timestamp; and \<open>MarkReadByFilter\<close> and the due counts agree with the lists they accompany.
\<close>

section \<open>Rows in list order\<close>

definition before :: "(EntryRow \<Rightarrow> int) \<Rightarrow> EntryRow \<Rightarrow> EntryRow \<Rightarrow> bool" where
  "before key r s \<longleftrightarrow> key s < key r \<or> key s = key r \<and> er_ID s < er_ID r"

lemma newest_first_set [simp]: "set (newest_first key rs) = set rs"
  by (simp add: newest_first_def)

lemma newest_first_length [simp]: "length (newest_first key rs) = length rs"
  by (simp add: newest_first_def)

lemma newest_first_sorted:
  assumes "distinct (map er_ID rs)"
  shows "sorted_wrt (before key) (newest_first key rs)"
proof -
  let ?k = "\<lambda>r. (- key r, - er_ID r)"
  have "inj_on ?k (set rs)"
    using assms by (auto simp: inj_on_def distinct_map)
  moreover have "distinct rs" using assms by (simp add: distinct_map)
  ultimately have "distinct (map ?k (newest_first key rs))"
    by (simp add: distinct_map newest_first_def)
  moreover have "sorted (map ?k (newest_first key rs))" by (simp add: newest_first_def)
  ultimately have "sorted_wrt (<) (map ?k (newest_first key rs))" by (simp add: strict_sorted_iff)
  then show ?thesis
    unfolding sorted_wrt_map
    by (rule sorted_wrt_mono_rel [rotated]) (auto simp: before_def less_prod_def)
qed

lemma before_trans: "before key r s \<Longrightarrow> before key s t \<Longrightarrow> before key r t"
  by (auto simp: before_def)

lemma before_irrefl [simp]: "\<not> before key r r"
  by (simp add: before_def)

text \<open>A list sorted by \<open>before\<close> is determined by its set.\<close>

lemma sorted_before_unique:
  "sorted_wrt (before key) xs \<Longrightarrow> sorted_wrt (before key) ys \<Longrightarrow> set xs = set ys \<Longrightarrow> xs = ys"
proof (induction xs arbitrary: ys)
  case Nil
  then show ?case by simp
next
  case (Cons x xs)
  then obtain y zs where ys: "ys = y # zs" by (cases ys) auto
  have xy: "x = y"
  proof (rule ccontr)
    assume "x \<noteq> y"
    then have "x \<in> set zs" "y \<in> set xs" using Cons.prems(3) ys by auto
    then have "before key x y" "before key y x" using Cons.prems(1,2) ys by auto
    then show False by (auto simp: before_def)
  qed
  have "x \<notin> set xs" "y \<notin> set zs" using Cons.prems(1,2) ys by auto
  then have "set xs = set zs" using Cons.prems(3) ys xy by auto
  then show ?case using Cons ys xy by auto
qed

text \<open>What comes after the \<open>n\<close>-th row of a sorted list are the rows that the row is before.\<close>

lemma rows_after:
  assumes s: "sorted_wrt (before key) xs" and n: "n < length xs"
  shows "filter (before key (xs ! n)) xs = drop (Suc n) xs"
proof -
  have xs: "xs = take n xs @ xs ! n # drop (Suc n) xs" using n by (simp add: id_take_nth_drop)
  have "sorted_wrt (before key) (take n xs @ xs ! n # drop (Suc n) xs)" using s xs by simp
  then have a: "\<forall>y \<in> set (take n xs). before key y (xs ! n)"
    and b: "\<forall>y \<in> set (drop (Suc n) xs). before key (xs ! n) y"
    by (auto simp: sorted_wrt_append)
  have "filter (before key (xs ! n)) (take n xs) = []"
    using a by (auto simp: filter_empty_conv before_def)
  moreover have "filter (before key (xs ! n)) (drop (Suc n) xs) = drop (Suc n) xs"
    using b by (simp add: filter_id_conv)
  ultimately show ?thesis by (subst xs) simp
qed

lemma newest_first_filter:
  assumes "distinct (map er_ID rs)"
  shows "newest_first key (filter P rs) = filter P (newest_first key rs)"
proof (rule sorted_before_unique)
  show "sorted_wrt (before key) (newest_first key (filter P rs))"
    using assms by (intro newest_first_sorted) (simp add: distinct_map_filter)
  show "sorted_wrt (before key) (filter P (newest_first key rs))"
    using newest_first_sorted [OF assms] by (rule sorted_wrt_filter)
qed simp

section \<open>Pages\<close>

text \<open>The rows the filter selects, in list order, without cursor and limit.\<close>

definition selected :: "db \<Rightarrow> ID \<Rightarrow> EntryFilter \<Rightarrow> EntryRow list" where
  "selected d uid f = newest_first (order_key (fl_Order f)) (filter (list_where d uid f) (entries d))"

text \<open>Reading page after page, each from the cursor of the one before, for at most \<open>n\<close> pages.\<close>

fun all_pages :: "nat \<Rightarrow> ctx \<Rightarrow> ID \<Rightarrow> EntryFilter \<Rightarrow> conn \<Rightarrow> (gerr + Entry list) option" where
  "all_pages 0 cx uid f c = None"
| "all_pages (Suc n) cx uid f c =
     (case ListEntries cx uid f c of
        (Inl e, _) \<Rightarrow> Some (Inl e)
      | (Inr (page, None), _) \<Rightarrow> Some (Inr page)
      | (Inr (page, Some k), c') \<Rightarrow>
          map_option (map_sum id (\<lambda>rest. page @ rest)) (all_pages n cx uid (f\<lparr>fl_Cursor := Some k\<rparr>) c'))"

lemma list_where_cursor [simp]: "list_where d uid (f\<lparr>fl_Cursor := k\<rparr>) = list_where d uid f"
  by (simp add: list_where_def fun_eq_iff)

lemma selected_cursor [simp]: "selected d uid (f\<lparr>fl_Cursor := k\<rparr>) = selected d uid f"
  by (simp add: selected_def)

lemma page_limit_cursor [simp]: "page_limit (f\<lparr>fl_Cursor := k\<rparr>) = page_limit f"
  by (simp add: page_limit_def)

lemma page_limit_pos: "0 < page_limit f"
  by (simp add: page_limit_def)

lemma scanEntry_id [simp]: "e_ID (scanEntry r) = er_ID r"
  by (simp add: scanEntry_def entryFromRow_def)

text \<open>The cursor of a row carries its order column: times are whole seconds in the database.\<close>

lemma CursorKey_scanEntry:
  "list_where d uid f r \<Longrightarrow> CursorKey (scanEntry r) (fl_Order f) = order_key (fl_Order f) r"
  by (cases "fl_Order f")
    (auto simp: CursorKey_def scanEntry_def entryFromRow_def order_key_def list_where_def fromUnix_def
      ptrUnix_def split: option.split)

definition from_cursor :: "EntryFilter \<Rightarrow> EntryRow list \<Rightarrow> EntryRow list" where
  "from_cursor f rs = filter (after_cursor f) rs"

lemma ListEntries_reliable:
  assumes "cn_faults c = []" and "wf_db (cn_db c)"
  shows "ListEntries None uid f c =
    (let rest = from_cursor f (selected (cn_db c) uid f); n = nat (page_limit f) in
     if n < length rest
     then (Inr (map scanEntry (take n rest),
        Some \<lparr>cur_Key = order_key (fl_Order f) (rest ! (n - 1)), cur_ID = er_ID (rest ! (n - 1))\<rparr>), c)
     else (Inr (map scanEntry rest, None), c))"
proof -
  let ?d = "cn_db c"
  let ?rest = "from_cursor f (selected ?d uid f)"
  let ?n = "nat (page_limit f)"
  have dist: "distinct (map er_ID (entries ?d))" using wf_entriesD(3) [OF assms(2)] .
  have rest: "newest_first (order_key (fl_Order f))
      (filter (\<lambda>r. list_where ?d uid f r \<and> after_cursor f r) (entries ?d)) = ?rest"
    using dist unfolding from_cursor_def selected_def
    by (simp add: newest_first_filter distinct_map_filter conj_commute)
  have lim: "limit_rows (page_limit f + 1) ?rest = take (Suc ?n) ?rest"
    using page_limit_pos [of f] by (simp add: limit_rows_def nat_add_distrib)
  have n: "0 < ?n" using page_limit_pos [of f] by simp
  show ?thesis
  proof (cases "?n < length ?rest")
    case True
    let ?l = "?rest ! (?n - 1)"
    have "?l \<in> set ?rest" using True n by (intro nth_mem) simp
    then have "list_where ?d uid f ?l" by (simp add: from_cursor_def selected_def)
    note k = CursorKey_scanEntry [OF this]
    have "take ?n (map scanEntry (take (Suc ?n) ?rest)) = map scanEntry (take ?n ?rest)"
      by (simp add: take_map min_def)
    moreover have "map scanEntry (take (Suc ?n) ?rest) ! (?n - 1) = scanEntry ?l"
      using True n by simp
    moreover have "?n < length (map scanEntry (take (Suc ?n) ?rest))" using True by simp
    ultimately show ?thesis
      using True k
      by (simp add: ListEntries_def bindE_def mapped_def exec_reliable [OF assms(1)] sql_list_entries_def
          rest lim Let_def returnE_def)
  next
    case False
    then show ?thesis
      by (simp add: ListEntries_def bindE_def mapped_def exec_reliable [OF assms(1)] sql_list_entries_def
          rest lim Let_def returnE_def)
  qed
qed

lemma after_cursor_before:
  "after_cursor f l \<Longrightarrow> before (order_key (fl_Order f)) l r \<Longrightarrow> after_cursor f r"
  by (auto simp: after_cursor_def before_def split: option.splits)

lemma after_cursor_row:
  "after_cursor (f\<lparr>fl_Cursor := Some \<lparr>cur_Key = order_key (fl_Order f) l, cur_ID = er_ID l\<rparr>\<rparr>)
     = before (order_key (fl_Order f)) l"
  by (simp add: after_cursor_def before_def fun_eq_iff)

lemma all_pages_from:
  assumes "cn_faults c = []" and "wf_db (cn_db c)"
  shows "length (from_cursor f (selected (cn_db c) uid f)) < n \<Longrightarrow>
    all_pages n None uid f c = Some (Inr (map scanEntry (from_cursor f (selected (cn_db c) uid f))))"
proof (induction n arbitrary: f)
  case 0
  then show ?case by simp
next
  case (Suc n)
  let ?sel = "selected (cn_db c) uid f"
  let ?key = "order_key (fl_Order f)"
  let ?rest = "from_cursor f ?sel"
  let ?n = "nat (page_limit f)"
  have pos: "0 < ?n" using page_limit_pos [of f] by simp
  have sorted: "sorted_wrt (before ?key) ?sel"
    using wf_entriesD(3) [OF assms(2)] unfolding selected_def
    by (intro newest_first_sorted) (simp add: distinct_map_filter)
  show ?case
  proof (cases "?n < length ?rest")
    case False
    then show ?thesis by (simp add: ListEntries_reliable [OF assms] Let_def)
  next
    case True
    let ?l = "?rest ! (?n - 1)"
    let ?g = "f\<lparr>fl_Cursor := Some \<lparr>cur_Key = ?key ?l, cur_ID = er_ID ?l\<rparr>\<rparr>"
    have l: "?l \<in> set ?rest" using True pos by (intro nth_mem) simp
    have after: "after_cursor ?g = before ?key ?l" by (rule after_cursor_row)
    have "after_cursor f ?l" using l unfolding from_cursor_def by simp
    then have weaker: "after_cursor f r" if "before ?key ?l r" for r
      using that by (rule after_cursor_before)
    have "from_cursor ?g (selected (cn_db c) uid ?g) = filter (before ?key ?l) ?sel"
      by (simp only: from_cursor_def [of ?g] after selected_cursor)
    also have "\<dots> = filter (before ?key ?l) ?rest"
      unfolding from_cursor_def [of f] filter_filter
      using weaker by (intro filter_cong) (simp_all add: from_cursor_def [symmetric], blast)
    also have "\<dots> = drop (Suc (?n - 1)) ?rest"
      using sorted True pos by (intro rows_after) (auto simp: from_cursor_def sorted_wrt_filter)
    finally have g: "from_cursor ?g (selected (cn_db c) uid ?g) = drop ?n ?rest" using pos by simp
    have "length (from_cursor ?g (selected (cn_db c) uid ?g)) < n"
      unfolding g using Suc.prems True pos by simp
    from Suc.IH [OF this] have "all_pages n None uid ?g c = Some (Inr (map scanEntry (drop ?n ?rest)))"
      unfolding g .
    then show ?thesis
      using True by (simp add: ListEntries_reliable [OF assms] Let_def flip: map_append)
  qed
qed

text \<open>C7. Pagination is complete and repeats nothing: over an unchanged well-formed database, following
  the cursors from the first page ends, and the pages together are exactly the entries the filter
  selects, newest first with ties by id, for every filter, both orders and every page size; one
  page more than there are entries is enough.\<close>

theorem pages_complete:
  assumes "wf_db d" and "fl_Cursor f = None"
  shows "all_pages (Suc (length (entries d))) None uid f (fresh_conn d)
    = Some (Inr (map scanEntry (selected d uid f)))"
proof -
  have "from_cursor f (selected d uid f) = selected d uid f"
    using assms(2) by (simp add: from_cursor_def after_cursor_def filter_id_conv)
  moreover have "length (selected d uid f) \<le> length (entries d)" by (simp add: selected_def)
  ultimately show ?thesis
    using all_pages_from [of "fresh_conn d" f uid "Suc (length (entries d))"] assms(1)
    by (simp add: fresh_conn_def)
qed

theorem pages_complete_witness:
  "all_pages 2 None 1 (zero_filter\<lparr>fl_Limit := 1\<rparr>) (fresh_conn sample_db1)
    = Some (Inr [scanEntry (new_row (\<lambda>s. s) ExtractPending 1 sample_entry 1)])"
proof -
  have e: "entries sample_db1 = [new_row (\<lambda>s. s) ExtractPending 1 sample_entry 1]" by code_simp
  have s: "selected sample_db1 1 (zero_filter\<lparr>fl_Limit := 1\<rparr>) = [new_row (\<lambda>s. s) ExtractPending 1 sample_entry 1]"
    by code_simp
  have "wf_db sample_db1" using sample_db1_inv by (simp add: store_inv_def)
  moreover have "fl_Cursor (zero_filter\<lparr>fl_Limit := 1\<rparr>) = None" by (simp add: zero_filter_def)
  ultimately show ?thesis
    using pages_complete [of sample_db1 "zero_filter\<lparr>fl_Limit := 1\<rparr>" 1] unfolding e s
    by (simp del: all_pages.simps add: numeral_2_eq_2)
qed

section \<open>Marking read\<close>

text \<open>The list that \<open>MarkReadByFilter\<close> empties: the unread entries under the same selection.\<close>

definition unread_filter :: "EntryFilter \<Rightarrow> EntryFilter" where
  "unread_filter f = zero_filter\<lparr>fl_FeedID := fl_FeedID f,
     fl_CategoryID := (if fl_FeedID f = None then fl_CategoryID f else None),
     fl_Uncategorised := (fl_FeedID f = None \<and> fl_Uncategorised f), fl_Status := Some StatusUnread\<rparr>"

text \<open>A user's entries are in that user's feeds.\<close>

definition entries_owned :: "db \<Rightarrow> bool" where
  "entries_owned d \<longleftrightarrow> (\<forall>r \<in> set (entries d). \<forall>f \<in> set (feeds d). fr_ID f = er_FeedID r \<longrightarrow> fr_UserID f = er_UserID r)"

lemma mark_where_list:
  "entries_owned d \<Longrightarrow> r \<in> set (entries d) \<Longrightarrow> mark_where d uid f r \<longleftrightarrow> list_where d uid (unread_filter f) r"
  by (auto simp: mark_where_def list_where_def unread_filter_def zero_filter_def in_category_def
      entries_owned_def Let_def split: if_splits)



section \<open>Due counts\<close>

text \<open>The backlog gauges count what the dispatchers would take: \<open>CountDueFeeds\<close> is the length of
  \<open>ListDueFeeds\<close> without a limit and \<open>CountDueExtractions\<close> that of \<open>ListPendingExtractions\<close>, at every
  time and in every database.\<close>

lemma due_counts:
  "fst (CountDueFeeds None now (fresh_conn d))
     = map_sum id (\<lambda>fs. int (length fs)) (fst (ListDueFeeds None now (- 1) (fresh_conn d)))
   \<and> fst (CountDueExtractions None now (fresh_conn d))
     = map_sum id (\<lambda>es. int (length es)) (fst (ListPendingExtractions None now (- 1) (fresh_conn d)))"
  by (simp add: CountDueFeeds_def ListDueFeeds_def CountDueExtractions_def ListPendingExtractions_def
      mapped_def bindE_def returnE_def exec_def fresh_conn_def sql_CountDueFeeds_def sql_ListDueFeeds_def
      sql_CountDueExtractions_def sql_ListPendingExtractions_def limit_rows_def count_where_def nullUnix_def
      toUnix_def)

end
