(* ===== verification/FetchClient.thy ===== *)
theory FetchClient
  imports FeedUrl GoInt
begin

text \<open>
  \<open>Fetch\<close> and \<open>FetchStream\<close> of \<open>internal/fetch/fetch.go\<close>: the headers of the request, the redirect
  rule with its tracker, the reply. What \<open>net/http\<close> does is the argument \<open>hl_send\<close>, one round trip of
  the transport for the \<open>n\<close>-th request of the chain, and \<open>follow\<close>, the loop of \<open>Client.Do\<close> around it
  (a redirect status with a \<open>Location\<close> is followed when \<open>CheckRedirect\<close> allows). The per-host limiter
  is \<open>HostLimiter\<close>; here the calls keep the record of tokens taken and returned.
\<close>

section \<open>Configuration\<close>

record FetchConfig =
  ft_UserAgent :: string
  ft_HostConcurrency :: int
  ft_Timeout :: duration
  ft_MaxBytes :: int

text \<open>The defaults that \<open>New\<close> fills in.\<close>

definition normalize_fetch :: "FetchConfig \<Rightarrow> FetchConfig" where
  "normalize_fetch c =
     (let c = (if ft_HostConcurrency c \<le> 0 then c\<lparr>ft_HostConcurrency := 3\<rparr> else c);
          c = (if ft_MaxBytes c \<le> 0 then c\<lparr>ft_MaxBytes := 10 * 2 ^ 20\<rparr> else c)
      in if ft_Timeout c \<le> 0 then c\<lparr>ft_Timeout := 30 * Second\<rparr> else c)"

section \<open>Host keys\<close>

definition isDefaultPort :: "string \<Rightarrow> string \<Rightarrow> bool" where
  "isDefaultPort scheme port \<longleftrightarrow>
     scheme = ''http'' \<and> port = ''80'' \<or> scheme = ''https'' \<and> port = ''443''"

text \<open>\<open>net.JoinHostPort\<close>.\<close>

definition JoinHostPort :: "string \<Rightarrow> string \<Rightarrow> string" where
  "JoinHostPort host port =
     (if CHR '':'' \<in> set host then ''['' @ host @ '']:'' @ port else host @ '':'' @ port)"

definition hostKey :: "url_lib \<Rightarrow> URL \<Rightarrow> string" where
  "hostKey lib u =
     (let host = ToLower (ul_lower lib) (Hostname u); port = Port u
      in if port = [] \<or> isDefaultPort (u_Scheme u) port then host else JoinHostPort host port)"

section \<open>\<open>Retry-After\<close>\<close>

definition maxRetryAfter :: duration where "maxRetryAfter = 24 * Hour"

text \<open>\<open>http.ParseTime\<close> and the wall clock that \<open>time.Until\<close> reads are arguments.\<close>

definition parseRetryAfter :: "(string \<Rightarrow> time option) \<Rightarrow> time \<Rightarrow> string \<Rightarrow> duration" where
  "parseRetryAfter parse_time wall v =
     (if v = [] then 0
      else case ParseInt v of
        Some secs \<Rightarrow>
          if secs \<le> 0 then 0
          else if secs > maxRetryAfter div Second then maxRetryAfter
          else i64 (secs * Second)
      | None \<Rightarrow>
          (case parse_time v of
             Some t \<Rightarrow> (let d = time_sub t wall in if 0 < d then min d maxRetryAfter else 0)
           | None \<Rightarrow> 0))"

section \<open>Redirects\<close>

record redirectTracker =
  rt_hops :: int
  rt_permanent :: bool

text \<open>The hook that \<open>checkRedirect(n)\<close> returns: \<open>via\<close> requests were made, the last one was answered with
  \<open>status\<close>.\<close>

definition checkRedirect :: "nat \<Rightarrow> nat \<Rightarrow> int \<Rightarrow> redirectTracker \<Rightarrow> gerr + redirectTracker" where
  "checkRedirect n via status rt =
     (if n \<le> via then Inl (errors_New (''stopped after '' @ FormatInt (int n) @ '' redirects''))
      else Inr (let rt = rt\<lparr>rt_hops := rt_hops rt + 1\<rparr>
                in if status \<noteq> 301 \<and> status \<noteq> 308 then rt\<lparr>rt_permanent := False\<rparr> else rt))"

section \<open>One exchange\<close>

text \<open>A reply: the status, the first value of each header, the body as the bytes that arrive and the
  read error after them, if any.\<close>

record HttpReply =
  hr_Status :: int
  hr_Header :: "string \<Rightarrow> string"
  hr_Body :: "string \<times> gerr option"
  hr_ContentLength :: int

type_synonym headers = "(string \<times> string) list"

record http_lib =
  hl_url :: url_lib
  hl_send :: "nat \<Rightarrow> URL \<Rightarrow> headers \<Rightarrow> gerr + HttpReply"
  hl_resolve :: "URL \<Rightarrow> string \<Rightarrow> URL option"      \<comment> \<open>\<open>req.URL.Parse(loc)\<close>\<close>
  hl_show :: "URL \<Rightarrow> string"                        \<comment> \<open>the URL as error texts show it\<close>
  hl_parse_time :: "string \<Rightarrow> time option"
  hl_wall :: time

text \<open>\<open>Do\<close> wraps every error in a \<open>*url.Error\<close>, a \<open>net.Error\<close> whose \<open>Timeout\<close> is that of its cause.\<close>

definition url_error :: "http_lib \<Rightarrow> URL \<Rightarrow> gerr \<Rightarrow> gerr" where
  "url_error lib u e =
     GErr (KNet (net_error (err_kind e) = Some True))
       (''Get '' @ Quote (hl_url lib) (hl_show lib u) @ '': '' @ err_text e) [e]"

definition redirects :: "int \<Rightarrow> bool" where
  "redirects status \<longleftrightarrow> status \<in> {301, 302, 303, 307, 308}"

text \<open>\<open>Client.Do\<close>: after \<open>via\<close> requests, the next one. The limit \<open>n\<close> bounds the chain.\<close>

function follow ::
  "http_lib \<Rightarrow> nat \<Rightarrow> headers \<Rightarrow> nat \<Rightarrow> redirectTracker \<Rightarrow> URL \<Rightarrow> (gerr + HttpReply \<times> URL) \<times> redirectTracker" where
  "follow lib n hs via rt u =
     (case hl_send lib via u hs of
        Inl e \<Rightarrow> (Inl (url_error lib u e), rt)
      | Inr r \<Rightarrow>
          if \<not> redirects (hr_Status r) \<or> hr_Header r ''Location'' = [] then (Inr (r, u), rt)
          else (case hl_resolve lib u (hr_Header r ''Location'') of
              None \<Rightarrow> (Inl (url_error lib u (errors_New (''failed to parse Location header'' @
                  Quote (hl_url lib) (hr_Header r ''Location'')))), rt)
            | Some u' \<Rightarrow>
                (case checkRedirect n (Suc via) (hr_Status r) rt of
                   Inl e \<Rightarrow> (Inl (url_error lib u' e), rt)
                 | Inr rt' \<Rightarrow> follow lib n hs (Suc via) rt' u')))"
  by pat_completeness auto
termination
  by (relation "measure (\<lambda>(lib, n, hs, via, rt, u). n - via)") (auto simp: checkRedirect_def split: if_splits)

declare follow.simps [simp del]

text \<open>\<open>http.NewRequest\<close> drops an empty port.\<close>

definition request_url :: "URL \<Rightarrow> URL" where
  "request_url u = (if has_suffix (u_Host u) '':'' then u\<lparr>u_Host := butlast (u_Host u)\<rparr> else u)"

text \<open>\<open>io.ReadAll(io.LimitReader(body, k))\<close>.\<close>

definition read_limited :: "nat \<Rightarrow> string \<times> gerr option \<Rightarrow> gerr + string" where
  "read_limited k b =
     (if k \<le> length (fst b) then Inr (take k (fst b))
      else case snd b of None \<Rightarrow> Inr (fst b) | Some e \<Rightarrow> Inl e)"

section \<open>\<open>Fetch\<close>\<close>

text \<open>Tokens of the limiter.\<close>

datatype token = Taken string | Returned string

definition request_headers :: "FetchConfig \<Rightarrow> FetchRequest \<Rightarrow> headers" where
  "request_headers c req =
     [(''User-Agent'', ft_UserAgent c)]
     @ (if rq_ETag req \<noteq> [] then [(''If-None-Match'', rq_ETag req)] else [])
     @ (if rq_LastModified req \<noteq> [] then [(''If-Modified-Since'', rq_LastModified req)] else [])"

definition reply_response ::
  "http_lib \<Rightarrow> FetchConfig \<Rightarrow> HttpReply \<Rightarrow> URL \<Rightarrow> redirectTracker \<Rightarrow> gerr + FetchResponse" where
  "reply_response lib c r u rt =
     (let out = \<lparr>rs_Status = hr_Status r, rs_NotModified = False, rs_Body = [],
            rs_ContentType = hr_Header r ''Content-Type'', rs_ETag = hr_Header r ''ETag'',
            rs_LastModified = hr_Header r ''Last-Modified'',
            rs_RetryAfter = parseRetryAfter (hl_parse_time lib) (hl_wall lib) (hr_Header r ''Retry-After''),
            rs_FinalURL = ul_String (hl_url lib) u,
            rs_PermanentRedirect = (0 < rt_hops rt \<and> rt_permanent rt)\<rparr>
      in if hr_Status r = 304 then Inr (out\<lparr>rs_NotModified := True\<rparr>)
         else if hr_Status r = 200 then
           (case read_limited (nat (ft_MaxBytes c + 1)) (hr_Body r) of
              Inl e \<Rightarrow> Inl (Errorf (''read body: '' @ err_text e) [e])
            | Inr body \<Rightarrow>
                if ft_MaxBytes c < int (length body)
                then Inl (errors_New (''response body exceeds '' @ FormatInt (ft_MaxBytes c) @ '' bytes''))
                else Inr (out\<lparr>rs_Body := body\<rparr>))
         else Inr out)"

text \<open>\<open>acq\<close> is the error of \<open>acquire\<close>, if it returns one. The text of an error of \<open>url.Parse\<close> is not
  modelled.\<close>

definition Fetch ::
  "http_lib \<Rightarrow> FetchConfig \<Rightarrow> gerr option \<Rightarrow> FetchRequest \<Rightarrow> (gerr + FetchResponse) \<times> token list" where
  "Fetch lib c acq req =
     (case ul_Parse (hl_url lib) (rq_URL req) of
        None \<Rightarrow> (Inl (errors_New ''bad url''), [])
      | Some u \<Rightarrow>
          (let key = hostKey (hl_url lib) u in
           case acq of
             Some e \<Rightarrow> (Inl e, [])
           | None \<Rightarrow>
               (case follow lib 5 (request_headers c req) 0 \<lparr>rt_hops = 0, rt_permanent = True\<rparr> (request_url u) of
                  (Inl e, rt) \<Rightarrow> (Inl (Errorf (''http get: '' @ err_text e) [e]), [Taken key, Returned key])
                | (Inr (r, u'), rt) \<Rightarrow> (reply_response lib c r u' rt, [Taken key, Returned key]))))"

section \<open>\<open>FetchStream\<close>\<close>

text \<open>The body with its release; \<open>Close\<close> runs once.\<close>

record releaseReadCloser =
  rr_body :: "string \<times> gerr option"
  rr_key :: string
  rr_done :: bool

record StreamResponse =
  sr_Status :: int
  sr_ContentType :: string
  sr_ContentLength :: int
  sr_Body :: releaseReadCloser

definition FetchStream ::
  "http_lib \<Rightarrow> FetchConfig \<Rightarrow> gerr option \<Rightarrow> FetchRequest \<Rightarrow> (gerr + StreamResponse) \<times> token list" where
  "FetchStream lib c acq req =
     (case ul_Parse (hl_url lib) (rq_URL req) of
        None \<Rightarrow> (Inl (errors_New ''bad url''), [])
      | Some u \<Rightarrow>
          (let key = hostKey (hl_url lib) u in
           case acq of
             Some e \<Rightarrow> (Inl e, [])
           | None \<Rightarrow>
               (case follow lib 5 [(''User-Agent'', ft_UserAgent c)] 0 \<lparr>rt_hops = 0, rt_permanent = True\<rparr> (request_url u) of
                  (Inl e, rt) \<Rightarrow> (Inl (Errorf (''http get: '' @ err_text e) [e]), [Taken key, Returned key])
                | (Inr (r, u'), rt) \<Rightarrow>
                    (Inr \<lparr>sr_Status = hr_Status r, sr_ContentType = hr_Header r ''Content-Type'',
                          sr_ContentLength = hr_ContentLength r,
                          sr_Body = \<lparr>rr_body = hr_Body r, rr_key = key, rr_done = False\<rparr>\<rparr>, [Taken key]))))"

definition Close :: "releaseReadCloser \<Rightarrow> releaseReadCloser \<times> token list" where
  "Close b = (if rr_done b then (b, []) else (b\<lparr>rr_done := True\<rparr>, [Returned (rr_key b)]))"

end
