(* ===== verification/FetchProps.thy ===== *)
theory FetchProps
  imports FetchClient
begin

text \<open>
  What a fetch returns, over every transport: the chain of redirects it followed and what it says about
  it, the bounds on body and \<open>Retry-After\<close>, and that every path returns the host token it took.
\<close>

section \<open>Chains of redirects\<close>

text \<open>The statuses of the redirects from the \<open>via\<close>-th request on \<open>u\<close>, the URL that was read last and the
  reply it gave.\<close>

inductive chain :: "http_lib \<Rightarrow> headers \<Rightarrow> nat \<Rightarrow> URL \<Rightarrow> int list \<Rightarrow> URL \<Rightarrow> HttpReply \<Rightarrow> bool" for lib hs where
  stop: "hl_send lib via u hs = Inr r \<Longrightarrow> \<not> redirects (hr_Status r) \<or> hr_Header r ''Location'' = []
    \<Longrightarrow> chain lib hs via u [] u r"
| hop: "hl_send lib via u hs = Inr r \<Longrightarrow> redirects (hr_Status r) \<Longrightarrow> hr_Header r ''Location'' \<noteq> []
    \<Longrightarrow> hl_resolve lib u (hr_Header r ''Location'') = Some u' \<Longrightarrow> chain lib hs (Suc via) u' sts v r'
    \<Longrightarrow> chain lib hs via u (hr_Status r # sts) v r'"

inductive_simps chain_Nil: "chain lib hs via u [] v r"
inductive_simps chain_Cons: "chain lib hs via u (s # sts) v r"
inductive_cases chainE: "chain lib hs via u sts v r"

definition tracked :: "redirectTracker \<Rightarrow> int list \<Rightarrow> redirectTracker" where
  "tracked rt sts = rt\<lparr>rt_hops := rt_hops rt + int (length sts),
     rt_permanent := (rt_permanent rt \<and> set sts \<subseteq> {301, 308})\<rparr>"

text \<open>\<open>Do\<close> with \<open>CheckRedirect\<close> reads exactly the chains of fewer than \<open>n\<close> redirects.\<close>

lemma follow_chain:
  "via < n \<Longrightarrow> follow lib n hs via rt u = (Inr (r, v), rt') \<longleftrightarrow>
     (\<exists>sts. chain lib hs via u sts v r \<and> via + length sts < n \<and> rt' = tracked rt sts)"
proof (induction lib n hs via rt u rule: follow.induct)
  case (1 lib n hs via rt u)
  show ?case
  proof (cases "\<exists>q u'. hl_send lib via u hs = Inr q \<and> redirects (hr_Status q) \<and> hr_Header q ''Location'' \<noteq> []
      \<and> hl_resolve lib u (hr_Header q ''Location'') = Some u'")
    case True
    then obtain q u' where q: "hl_send lib via u hs = Inr q" "redirects (hr_Status q)" "hr_Header q ''Location'' \<noteq> []"
      "hl_resolve lib u (hr_Header q ''Location'') = Some u'" by blast
    have c: "chain lib hs via u sts v r \<longleftrightarrow> (\<exists>sts'. sts = hr_Status q # sts' \<and> chain lib hs (Suc via) u' sts' v r)" for sts
      using q by (cases sts) (auto simp: chain_Nil chain_Cons)
    show ?thesis
    proof (cases "Suc via < n")
      case True
      let ?rt = "tracked rt [hr_Status q]"
      have k: "checkRedirect n (Suc via) (hr_Status q) rt = Inr ?rt"
        using True by (simp add: checkRedirect_def tracked_def Let_def)
      have t: "tracked ?rt sts = tracked rt (hr_Status q # sts)" for sts by (simp add: tracked_def)
      have "follow lib n hs via rt u = follow lib n hs (Suc via) ?rt u'"
        using q k by (subst follow.simps) simp
      then show ?thesis
        using 1(1) [of q, of u' ?rt] q k True by (auto simp: c t)
    next
      case False
      then have "follow lib n hs via rt u \<noteq> (Inr (r, v), rt')"
        using q by (subst follow.simps) (simp add: checkRedirect_def)
      then show ?thesis using False by (auto simp: c)
    qed
  next
    case False
    then have c: "chain lib hs via u sts v r \<longleftrightarrow> sts = [] \<and> v = u \<and> hl_send lib via u hs = Inr r
        \<and> (\<not> redirects (hr_Status r) \<or> hr_Header r ''Location'' = [])" for sts
      by (cases sts) (auto simp: chain_Nil chain_Cons)
    have "tracked rt [] = rt" by (simp add: tracked_def)
    then show ?thesis
      using False 1(2) by (subst follow.simps) (auto simp: c split: sum.split option.split)
  qed
qed

section \<open>Bounds\<close>

lemma parseRetryAfter_bounds: "0 \<le> parseRetryAfter pt wall v" "parseRetryAfter pt wall v \<le> 24 * Hour"
proof -
  have m: "maxRetryAfter = 86400 * Second" by (simp add: maxRetryAfter_def Hour_def Minute_def Second_def)
  have "0 \<le> parseRetryAfter pt wall v \<and> parseRetryAfter pt wall v \<le> maxRetryAfter"
  proof (cases "ParseInt v")
    case None
    then show ?thesis by (auto simp: parseRetryAfter_def m Let_def Second_def split: option.split)
  next
    case (Some secs)
    have "i64 (secs * Second) = secs * Second" if "0 < secs" "secs \<le> 86400"
      using that by (intro i64_id) (auto simp: in_i64_def Second_def)
    then show ?thesis using Some by (auto simp: parseRetryAfter_def m Second_def)
  qed
  then show "0 \<le> parseRetryAfter pt wall v" "parseRetryAfter pt wall v \<le> 24 * Hour" by (simp_all add: maxRetryAfter_def)
qed

lemma read_limited_whole:
  "read_limited k b = Inr body \<Longrightarrow> length body < k \<Longrightarrow> b = (body, None)"
  by (cases b) (auto simp: read_limited_def split: if_splits option.splits)

lemma reply_response_Inr:
  assumes "reply_response lib c r v rt = Inr resp" and "0 < ft_MaxBytes c"
  shows "rs_Status resp = hr_Status r \<and> rs_FinalURL resp = ul_String (hl_url lib) v
    \<and> (rs_PermanentRedirect resp \<longleftrightarrow> 0 < rt_hops rt \<and> rt_permanent rt) \<and> (rs_NotModified resp \<longleftrightarrow> hr_Status r = 304)
    \<and> (if hr_Status r = 200 then hr_Body r = (rs_Body resp, None) \<and> int (length (rs_Body resp)) \<le> ft_MaxBytes c
       else rs_Body resp = [])
    \<and> 0 \<le> rs_RetryAfter resp \<and> rs_RetryAfter resp \<le> 24 * Hour"
  using assms read_limited_whole [of "nat (ft_MaxBytes c + 1)" "hr_Body r" "rs_Body resp"]
  by (auto simp: reply_response_def Let_def parseRetryAfter_bounds split: if_splits sum.splits)

section \<open>The response of a fetch\<close>

text \<open>C19. A response of \<open>Fetch\<close> is the truth about the exchange: it comes from the end of a chain of at
  most four redirects, \<open>FinalURL\<close> is the URL read last, \<open>PermanentRedirect\<close> says that there was a
  redirect and all were 301 or 308, a 200 carries the whole body and no more than \<open>MaxBytes\<close> (a body that
  was cut off or is too long is an error), every other status no body, and \<open>Retry-After\<close> is at most a day.\<close>

theorem fetch_response:
  assumes "Fetch lib c acq req = (Inr resp, tk)" and "0 < ft_MaxBytes c"
  shows "\<exists>u sts v r. ul_Parse (hl_url lib) (rq_URL req) = Some u
    \<and> chain lib (request_headers c req) 0 (request_url u) sts v r \<and> length sts \<le> 4
    \<and> rs_Status resp = hr_Status r \<and> rs_FinalURL resp = ul_String (hl_url lib) v
    \<and> (rs_PermanentRedirect resp \<longleftrightarrow> sts \<noteq> [] \<and> set sts \<subseteq> {301, 308}) \<and> (rs_NotModified resp \<longleftrightarrow> hr_Status r = 304)
    \<and> (if hr_Status r = 200 then hr_Body r = (rs_Body resp, None) \<and> int (length (rs_Body resp)) \<le> ft_MaxBytes c
       else rs_Body resp = [])
    \<and> 0 \<le> rs_RetryAfter resp \<and> rs_RetryAfter resp \<le> 24 * Hour"
proof -
  let ?rt = "\<lparr>rt_hops = 0, rt_permanent = True\<rparr>"
  from assms(1) obtain u r v rt where u: "ul_Parse (hl_url lib) (rq_URL req) = Some u"
    and f: "follow lib 5 (request_headers c req) 0 ?rt (request_url u) = (Inr (r, v), rt)"
    and resp: "reply_response lib c r v rt = Inr resp"
    by (auto simp: Fetch_def Let_def split: option.splits prod.splits sum.splits)
  from f obtain sts where c: "chain lib (request_headers c req) 0 (request_url u) sts v r"
    and n: "length sts < 5" and rt: "rt = tracked ?rt sts" by (auto simp: follow_chain)
  have "0 < rt_hops rt \<and> rt_permanent rt \<longleftrightarrow> sts \<noteq> [] \<and> set sts \<subseteq> {301, 308}" by (auto simp: rt tracked_def)
  with reply_response_Inr [OF resp assms(2)] u c n show ?thesis
    by (intro exI [of _ u] exI [of _ sts] exI [of _ v] exI [of _ r]) (simp add: less_Suc_eq_le [of _ 4, simplified])
qed

section \<open>Tokens\<close>

fun closes :: "nat \<Rightarrow> releaseReadCloser \<Rightarrow> releaseReadCloser \<times> token list" where
  "closes 0 b = (b, [])"
| "closes (Suc n) b = (let (b1, t1) = Close b; (b2, t2) = closes n b1 in (b2, t1 @ t2))"

lemma closes_done: "rr_done b \<Longrightarrow> closes n b = (b, [])"
  by (induction n) (simp_all add: Close_def)

text \<open>No path leaks a host token: \<open>Fetch\<close> and a failed \<open>FetchStream\<close> have returned what they took, and
  after a successful \<open>FetchStream\<close> the body's \<open>Close\<close> returns the token once, however often it is called.\<close>

lemma tokens_returned:
  "(snd (Fetch lib c acq req) = [] \<or> (\<exists>k. snd (Fetch lib c acq req) = [Taken k, Returned k]))
   \<and> (case FetchStream lib c acq req of
       (Inl e, tk) \<Rightarrow> tk = [] \<or> (\<exists>k. tk = [Taken k, Returned k])
     | (Inr s, tk) \<Rightarrow> tk = [Taken (rr_key (sr_Body s))]
         \<and> snd (closes n (sr_Body s)) = (if n = 0 then [] else [Returned (rr_key (sr_Body s))]))"
proof -
  have "snd (Fetch lib c acq req) = [] \<or> (\<exists>k. snd (Fetch lib c acq req) = [Taken k, Returned k])"
    by (auto simp: Fetch_def Let_def split: option.split prod.split sum.split)
  moreover have "snd (closes n b) = (if n = 0 then [] else [Returned (rr_key b)])" if "\<not> rr_done b" for b
    using that by (cases n) (auto simp: Close_def closes_done)
  ultimately show ?thesis
    by (auto simp: FetchStream_def Let_def split: option.split prod.split sum.split)
qed

section \<open>A sample fetch\<close>

text \<open>A host that answers \<open>/a\<close> with a permanent redirect to \<open>/b\<close>, and \<open>/b\<close> with a body.\<close>

definition path_url :: "string \<Rightarrow> URL" where
  "path_url p = \<lparr>u_Scheme = ''http'', u_Opaque = [], u_User = None, u_Host = ''h'', u_Path = p, u_RawPath = [],
     u_OmitHost = False, u_ForceQuery = False, u_RawQuery = [], u_Fragment = [], u_RawFragment = []\<rparr>"

definition moved_host :: http_lib where
  "moved_host = \<lparr>hl_url = \<lparr>ul_Parse = (\<lambda>s. Some (path_url s)), ul_String = u_Path, ul_lower = (\<lambda>s. s), ul_quote = (\<lambda>s. s)\<rparr>,
     hl_send = (\<lambda>n u hs. Inr (if u_Path u = ''/a''
         then \<lparr>hr_Status = 301, hr_Header = (\<lambda>_. []) (''Location'' := ''/b''), hr_Body = ([], None), hr_ContentLength = 0\<rparr>
         else \<lparr>hr_Status = 200, hr_Header = (\<lambda>_. []), hr_Body = (''x'', None), hr_ContentLength = 1\<rparr>)),
     hl_resolve = (\<lambda>u s. Some (path_url s)), hl_show = u_Path, hl_parse_time = (\<lambda>_. None), hl_wall = 0\<rparr>"

definition sample_fetch_cfg :: FetchConfig where
  "sample_fetch_cfg = normalize_fetch \<lparr>ft_UserAgent = ''b'', ft_HostConcurrency = 0, ft_Timeout = 0, ft_MaxBytes = 0\<rparr>"

definition path_request :: "string \<Rightarrow> FetchRequest" where
  "path_request p = \<lparr>rq_URL = p, rq_ETag = [], rq_LastModified = []\<rparr>"

definition sample_response :: FetchResponse where
  "sample_response = \<lparr>rs_Status = 200, rs_NotModified = False, rs_Body = ''x'', rs_ContentType = [], rs_ETag = [],
     rs_LastModified = [], rs_RetryAfter = 0, rs_FinalURL = ''/b'', rs_PermanentRedirect = True\<rparr>"

lemma moved_host_simps [simp]:
  "ul_Parse (hl_url moved_host) p = Some (path_url p)" "ul_String (hl_url moved_host) = u_Path"
  "hl_resolve moved_host u p = Some (path_url p)"
  "hl_send moved_host n (path_url ''/a'') hs = Inr
     \<lparr>hr_Status = 301, hr_Header = (\<lambda>_. []) (''Location'' := ''/b''), hr_Body = ([], None), hr_ContentLength = 0\<rparr>"
  "hl_send moved_host n (path_url ''/b'') hs = Inr
     \<lparr>hr_Status = 200, hr_Header = (\<lambda>_. []), hr_Body = (''x'', None), hr_ContentLength = 1\<rparr>"
  by (simp_all add: moved_host_def path_url_def)

lemma sample_fetch_run:
  "fst (Fetch moved_host sample_fetch_cfg None (path_request ''/a'')) = Inr sample_response"
proof -
  have u: "request_url (path_url p) = path_url p" "u_Path (path_url p) = p" for p
    by (simp_all add: request_url_def path_url_def has_suffix_def has_prefix_def)
  have m: "ft_MaxBytes sample_fetch_cfg = 10485760" by (simp add: sample_fetch_cfg_def normalize_fetch_def Let_def)
  have "follow moved_host 5 hs 0 \<lparr>rt_hops = 0, rt_permanent = True\<rparr> (path_url ''/a'')
      = (Inr (\<lparr>hr_Status = 200, hr_Header = (\<lambda>_. []), hr_Body = (''x'', None), hr_ContentLength = 1\<rparr>, path_url ''/b''),
         \<lparr>rt_hops = 1, rt_permanent = True\<rparr>)" for hs
    by (subst follow.simps, simp add: redirects_def checkRedirect_def Let_def, subst follow.simps, simp add: redirects_def)
  then show ?thesis
    by (simp add: Fetch_def Let_def path_request_def u reply_response_def read_limited_def m parseRetryAfter_def
        sample_response_def)
qed

theorem fetch_response_witness:
  "\<exists>sts v r. chain moved_host (request_headers sample_fetch_cfg (path_request ''/a'')) 0
      (request_url (path_url ''/a'')) sts v r \<and> sts \<noteq> [] \<and> set sts \<subseteq> {301, 308} \<and> hr_Body r = (''x'', None)"
proof -
  have f: "Fetch moved_host sample_fetch_cfg None (path_request ''/a'')
      = (Inr sample_response, snd (Fetch moved_host sample_fetch_cfg None (path_request ''/a'')))"
    using sample_fetch_run by (simp add: prod_eq_iff)
  have m: "0 < ft_MaxBytes sample_fetch_cfg" by (simp add: sample_fetch_cfg_def normalize_fetch_def Let_def)
  have p: "rq_URL (path_request ''/a'') = ''/a''" by (simp add: path_request_def)
  from fetch_response [OF f m] show ?thesis
    by (auto simp: p sample_response_def) (metis (full_types))
qed

end
