(* ===== verification/FetchGuard.thy ===== *)
theory FetchGuard
  imports GoErrors "HOL-Library.Word"
begin

text \<open>
  The SSRF guard of \<open>internal/fetch/fetch.go\<close>: \<open>isBlockedIP\<close> and the \<open>Control\<close> hook that \<open>guardDial\<close>
  returns. \<open>netip.Addr\<close> is an IPv4 address, an IPv6 address with its zone, or the zero value; the
  methods of \<open>netip\<close> the code uses are written out. The texts of addresses are parsed by the library
  (\<open>net.SplitHostPort\<close>, \<open>netip.ParseAddr\<close>), which is an argument.
\<close>

unbundle bit_operations_syntax

section \<open>\<open>netip\<close>\<close>

datatype Addr = NoAddr | Addr4 "32 word" | Addr6 "128 word" string

definition v4_byte :: "nat \<Rightarrow> 32 word \<Rightarrow> 32 word" where
  "v4_byte i a = drop_bit (24 - 8 * i) a AND 0xFF"

definition v6_byte :: "nat \<Rightarrow> 128 word \<Rightarrow> 128 word" where
  "v6_byte i a = drop_bit (120 - 8 * i) a AND 0xFF"

definition v6_u16 :: "nat \<Rightarrow> 128 word \<Rightarrow> 128 word" where
  "v6_u16 i a = drop_bit (112 - 16 * i) a AND 0xFFFF"

fun Unmap :: "Addr \<Rightarrow> Addr" where
  "Unmap (Addr6 a z) = (if drop_bit 32 a = 0xFFFF then Addr4 (ucast a) else Addr6 a z)"
| "Unmap ip = ip"

fun IsLoopback :: "Addr \<Rightarrow> bool" where
  "IsLoopback (Addr4 a) \<longleftrightarrow> v4_byte 0 a = 127"
| "IsLoopback (Addr6 a z) \<longleftrightarrow> a = 1"
| "IsLoopback NoAddr \<longleftrightarrow> False"

text \<open>\<open>IsUnspecified\<close> compares with \<open>0.0.0.0\<close> and \<open>::\<close> including the zone.\<close>

definition IsUnspecified :: "Addr \<Rightarrow> bool" where
  "IsUnspecified ip \<longleftrightarrow> ip = Addr4 0 \<or> ip = Addr6 0 []"

fun IsPrivate :: "Addr \<Rightarrow> bool" where
  "IsPrivate (Addr4 a) \<longleftrightarrow> v4_byte 0 a = 10 \<or> v4_byte 0 a = 172 \<and> v4_byte 1 a AND 0xF0 = 16
     \<or> v4_byte 0 a = 192 \<and> v4_byte 1 a = 168"
| "IsPrivate (Addr6 a z) \<longleftrightarrow> v6_byte 0 a AND 0xFE = 0xFC"
| "IsPrivate NoAddr \<longleftrightarrow> False"

fun IsLinkLocalUnicast :: "Addr \<Rightarrow> bool" where
  "IsLinkLocalUnicast (Addr4 a) \<longleftrightarrow> v4_byte 0 a = 169 \<and> v4_byte 1 a = 254"
| "IsLinkLocalUnicast (Addr6 a z) \<longleftrightarrow> v6_u16 0 a AND 0xFFC0 = 0xFE80"
| "IsLinkLocalUnicast NoAddr \<longleftrightarrow> False"

fun IsLinkLocalMulticast :: "Addr \<Rightarrow> bool" where
  "IsLinkLocalMulticast (Addr4 a) \<longleftrightarrow> v4_byte 0 a = 224 \<and> v4_byte 1 a = 0 \<and> v4_byte 2 a = 0"
| "IsLinkLocalMulticast (Addr6 a z) \<longleftrightarrow> v6_u16 0 a AND 0xFF0F = 0xFF02"
| "IsLinkLocalMulticast NoAddr \<longleftrightarrow> False"

fun IsMulticast :: "Addr \<Rightarrow> bool" where
  "IsMulticast (Addr4 a) \<longleftrightarrow> v4_byte 0 a AND 0xF0 = 0xE0"
| "IsMulticast (Addr6 a z) \<longleftrightarrow> v6_byte 0 a = 0xFF"
| "IsMulticast NoAddr \<longleftrightarrow> False"

fun IsInterfaceLocalMulticast :: "Addr \<Rightarrow> bool" where
  "IsInterfaceLocalMulticast (Addr6 a z) \<longleftrightarrow> v6_u16 0 a AND 0xFF0F = 0xFF01"
| "IsInterfaceLocalMulticast ip \<longleftrightarrow> False"

text \<open>A prefix has an address without a zone and a length that fits it. \<open>Contains\<close> is false for an
  address with a zone.\<close>

datatype Prefix = Prefix4 "32 word" nat | Prefix6 "128 word" nat

fun Contains :: "Prefix \<Rightarrow> Addr \<Rightarrow> bool" where
  "Contains (Prefix4 p n) (Addr4 a) \<longleftrightarrow> drop_bit (32 - n) (a XOR p) = 0"
| "Contains (Prefix6 p n) (Addr6 a z) \<longleftrightarrow> z = [] \<and> drop_bit (128 - n) (a XOR p) = 0"
| "Contains p ip \<longleftrightarrow> False"

section \<open>The guard\<close>

definition blockedPrefixes :: "Prefix list" where
  "blockedPrefixes =
     [Prefix4 0x64400000 10,    \<comment> \<open>\<open>100.64.0.0/10\<close>\<close>
      Prefix4 0x00000000 8,     \<comment> \<open>\<open>0.0.0.0/8\<close>\<close>
      Prefix4 0xF0000000 4,     \<comment> \<open>\<open>240.0.0.0/4\<close>\<close>
      Prefix4 0xC6120000 15,    \<comment> \<open>\<open>198.18.0.0/15\<close>\<close>
      Prefix4 0xC0000000 24,    \<comment> \<open>\<open>192.0.0.0/24\<close>\<close>
      Prefix4 0xC0586300 24,    \<comment> \<open>\<open>192.88.99.0/24\<close>\<close>
      Prefix6 (push_bit 112 0x2002) 16,
      Prefix6 (push_bit 96 0x0064FF9B) 96,
      Prefix6 (push_bit 112 0xFEC0) 10,
      Prefix6 (push_bit 112 0x2001) 32]"

definition isBlockedIP :: "Addr \<Rightarrow> bool" where
  "isBlockedIP ip =
     (let ip = Unmap ip in
      if ip = NoAddr \<or> IsLoopback ip \<or> IsUnspecified ip \<or> IsPrivate ip \<or> IsLinkLocalUnicast ip
         \<or> IsLinkLocalMulticast ip \<or> IsMulticast ip \<or> IsInterfaceLocalMulticast ip
      then True
      else \<exists>p \<in> set blockedPrefixes. Contains p ip)"

text \<open>The library's side: \<open>net.SplitHostPort\<close> (the host), \<open>netip.ParseAddr\<close>, the text of an address.\<close>

record net_lib =
  nl_host :: "string \<Rightarrow> gerr + string"
  nl_addr :: "string \<Rightarrow> gerr + Addr"
  nl_text :: "Addr \<Rightarrow> string"
  nl_quoted :: "string \<Rightarrow> string"

definition guardDial :: "net_lib \<Rightarrow> Prefix list \<Rightarrow> string \<Rightarrow> gerr option" where
  "guardDial lib allowed address =
     (case nl_host lib address of
        Inl e \<Rightarrow> Some (Errorf (''ssrf guard: bad address '' @ nl_quoted lib address @ '': '' @ err_text e) [e])
      | Inr host \<Rightarrow>
          (case nl_addr lib host of
             Inl e \<Rightarrow> Some (Errorf (''ssrf guard: unparseable ip '' @ nl_quoted lib host @ '': '' @ err_text e) [e])
           | Inr ip \<Rightarrow>
               (let ip = Unmap ip in
                if \<exists>p \<in> set allowed. Contains p ip then None
                else if isBlockedIP ip then Some (errors_New (''ssrf guard: blocked address '' @ nl_text lib ip))
                else None)))"

section \<open>Bit tests as ranges\<close>

lemma and_high:
  fixes n :: nat
  assumes "n < 2 ^ (k + j)"
  shows "n AND push_bit k (mask j) = 2 ^ k * (n div 2 ^ k)"
proof -
  have "n AND push_bit k (mask j) = push_bit k (drop_bit k n)"
  proof (rule bit_eqI)
    fix i
    have "bit n i \<Longrightarrow> i < k + j"
      using assms by (metis bit_take_bit_iff take_bit_nat_eq_self_iff)
    then show "bit (n AND push_bit k (mask j)) i \<longleftrightarrow> bit (push_bit k (drop_bit k n)) i"
      by (auto simp: bit_simps)
  qed
  then show ?thesis by (simp add: push_bit_eq_mult drop_bit_eq_div mult.commute)
qed

lemma xor_zero:
  fixes v w :: "'a::len word"
  shows "v XOR w = 0 \<longleftrightarrow> v = w"
proof -
  have "v = (v XOR w) XOR w" by (simp add: xor.assoc)
  then show ?thesis by auto
qed

lemma prefix_iff:
  fixes a p :: "'a::len word"
  shows "drop_bit k (a XOR p) = 0 \<longleftrightarrow> unat a div 2 ^ k = unat p div 2 ^ k"
proof -
  have "drop_bit k (a XOR p) = 0 \<longleftrightarrow> drop_bit k a XOR drop_bit k p = 0" by simp
  also have "\<dots> \<longleftrightarrow> drop_bit k a = drop_bit k p"
    by (rule xor_zero)
  also have "\<dots> \<longleftrightarrow> unat (drop_bit k a) = unat (drop_bit k p)" by (simp only: word_unat_eq_iff)
  also have "\<dots> \<longleftrightarrow> unat a div 2 ^ k = unat p div 2 ^ k" by (simp only: unat_drop_bit_eq) (simp add: drop_bit_eq_div)
  finally show ?thesis .
qed

lemma field_unat:
  fixes a :: "'a::len word"
  shows "unat (drop_bit k a AND mask j) = unat a div 2 ^ k mod 2 ^ j"
proof -
  have "unat (take_bit j (drop_bit k a)) = unat a div 2 ^ k mod 2 ^ j"
    by (simp only: unsigned_take_bit_eq unat_drop_bit_eq) (simp add: take_bit_eq_mod drop_bit_eq_div)
  then show ?thesis by (simp only: take_bit_eq_mask)
qed

lemma masks: "(0xFF :: 'a::len word) = mask 8" "(0xFFFF :: 'a::len word) = mask 16"
  by (simp_all add: mask_eq_exp_minus_1)

lemma bytes_unat:
  "unat (v4_byte 0 a) = unat a div 2 ^ 24" "unat (v4_byte 1 a) = unat a div 2 ^ 16 mod 256"
  "unat (v4_byte 2 a) = unat a div 2 ^ 8 mod 256"
  "unat (v6_byte 0 b) = unat b div 2 ^ 120" "unat (v6_u16 0 b) = unat b div 2 ^ 112"
proof -
  have "unat a < 2 ^ 32" "unat b < 2 ^ 128" using unsigned_less [of a, where ?'a = nat] unsigned_less [of b, where ?'a = nat] by simp_all
  then have "unat a div 2 ^ 24 < 2 ^ 8" "unat b div 2 ^ 120 < 2 ^ 8" "unat b div 2 ^ 112 < 2 ^ 16"
    by (simp_all add: div_less_iff_less_mult)
  then show "unat (v4_byte 0 a) = unat a div 2 ^ 24" "unat (v4_byte 1 a) = unat a div 2 ^ 16 mod 256"
    "unat (v4_byte 2 a) = unat a div 2 ^ 8 mod 256"
    "unat (v6_byte 0 b) = unat b div 2 ^ 120" "unat (v6_u16 0 b) = unat b div 2 ^ 112"
    unfolding v4_byte_def v6_byte_def v6_u16_def masks by (simp_all add: field_unat del: of_nat_numeral)
qed

lemma div_range: "0 < k \<Longrightarrow> (n :: nat) div k = c \<longleftrightarrow> c * k \<le> n \<and> n < c * k + k"
proof -
  assume "0 < k"
  then have "c \<le> n div k \<longleftrightarrow> c * k \<le> n" "n div k < Suc c \<longleftrightarrow> n < Suc c * k"
    by (simp_all only: less_eq_div_iff_mult_less_eq div_less_iff_less_mult)
  then show ?thesis by (auto simp: add.commute)
qed

lemma subfield: "d < m \<Longrightarrow> (x :: nat) div m = c \<and> x mod m = d \<longleftrightarrow> x = c * m + d"
  by (auto simp: div_mult_mod_eq [symmetric] add.commute)

lemma word_num: "(w :: 'a::len word) = numeral b \<longleftrightarrow> unat w = unat (numeral b :: 'a word)"
  by (rule word_unat_eq_iff)

section \<open>The reserved ranges\<close>

text \<open>The special-purpose blocks of the IANA registries that the guard refuses, first address and first
  address after the block.\<close>

definition reserved4 :: "(nat \<times> nat) list" where
  "reserved4 =
     [(0x00000000, 0x01000000),    \<comment> \<open>this network\<close>
      (0x0A000000, 0x0B000000),    \<comment> \<open>private use, 10/8\<close>
      (0x64400000, 0x64800000),    \<comment> \<open>shared address space\<close>
      (0x7F000000, 0x80000000),    \<comment> \<open>loopback\<close>
      (0xA9FE0000, 0xA9FF0000),    \<comment> \<open>link local\<close>
      (0xAC100000, 0xAC200000),    \<comment> \<open>private use, 172.16/12\<close>
      (0xC0000000, 0xC0000100),    \<comment> \<open>IETF protocol assignments\<close>
      (0xC0586300, 0xC0586400),    \<comment> \<open>6to4 relay anycast\<close>
      (0xC0A80000, 0xC0A90000),    \<comment> \<open>private use, 192.168/16\<close>
      (0xC6120000, 0xC6140000),    \<comment> \<open>benchmarking\<close>
      (0xE0000000, 0xF0000000),    \<comment> \<open>multicast\<close>
      (0xF0000000, 0x100000000)]   \<comment> \<open>reserved\<close>"

definition reserved6 :: "(nat \<times> nat) list" where
  "reserved6 =
     [(0, 1), (1, 2),              \<comment> \<open>unspecified, loopback\<close>
      (0x0064FF9B * 2 ^ 96, 0x0064FF9B * 2 ^ 96 + 2 ^ 32),    \<comment> \<open>NAT64\<close>
      (0x2001 * 2 ^ 112, 0x2001 * 2 ^ 112 + 2 ^ 96),          \<comment> \<open>Teredo\<close>
      (0x2002 * 2 ^ 112, 0x2003 * 2 ^ 112),                   \<comment> \<open>6to4\<close>
      (0xFC * 2 ^ 120, 0xFE * 2 ^ 120),                       \<comment> \<open>unique local\<close>
      (0xFE80 * 2 ^ 112, 0xFEC0 * 2 ^ 112),                   \<comment> \<open>link local\<close>
      (0xFEC0 * 2 ^ 112, 0xFF00 * 2 ^ 112),                   \<comment> \<open>site local\<close>
      (0xFF * 2 ^ 120, 2 ^ 128)]                              \<comment> \<open>multicast\<close>"

definition within_any :: "(nat \<times> nat) list \<Rightarrow> nat \<Rightarrow> bool" where
  "within_any rs n \<longleftrightarrow> (\<exists>(lo, hi) \<in> set rs. lo \<le> n \<and> n < hi)"

lemma within_any_simps [simp]:
  "within_any [] n \<longleftrightarrow> False" "within_any ((lo, hi) # rs) n \<longleftrightarrow> lo \<le> n \<and> n < hi \<or> within_any rs n"
  by (simp_all add: within_any_def)

lemma and_high_nat:
  fixes x :: nat
  shows "x < 256 \<Longrightarrow> x AND 0xF0 = 16 * (x div 16)" "x < 256 \<Longrightarrow> x AND 0xFE = 2 * (x div 2)"
    "x < 65536 \<Longrightarrow> x AND 0xFFC0 = 64 * (x div 64)"
  using and_high [of x 4 4] and_high [of x 1 7] and_high [of x 6 10]
  by (simp_all add: push_bit_eq_mult mask_eq_exp_minus_1)

lemma unat_nums:
  "unat (numeral k :: 32 word) = numeral k mod 2 ^ 32" "unat (numeral k :: 128 word) = numeral k mod 2 ^ 128"
  by (simp_all add: unsigned_numeral take_bit_eq_mod)

lemma v4_ranges:
  "v4_byte 0 a = 127 \<longleftrightarrow> 0x7F000000 \<le> unat a \<and> unat a < 0x80000000"
  "v4_byte 0 a = 10 \<longleftrightarrow> 0x0A000000 \<le> unat a \<and> unat a < 0x0B000000"
  "v4_byte 0 a = 172 \<and> v4_byte 1 a AND 0xF0 = 16 \<longleftrightarrow> 0xAC100000 \<le> unat a \<and> unat a < 0xAC200000"
  "v4_byte 0 a = 192 \<and> v4_byte 1 a = 168 \<longleftrightarrow> 0xC0A80000 \<le> unat a \<and> unat a < 0xC0A90000"
  "v4_byte 0 a = 169 \<and> v4_byte 1 a = 254 \<longleftrightarrow> 0xA9FE0000 \<le> unat a \<and> unat a < 0xA9FF0000"
  "v4_byte 0 a AND 0xF0 = 0xE0 \<longleftrightarrow> 0xE0000000 \<le> unat a \<and> unat a < 0xF0000000"
proof -
  define n where "n = unat a"
  define x where "x = n div 2 ^ 16"
  have "n < 2 ^ 32" using unsigned_less [of a, where ?'a = nat] by (simp add: n_def)
  then have top: "x div 256 < 256" by (simp add: x_def div_mult2_eq [symmetric] div_less_iff_less_mult)
  have b0: "unat (v4_byte 0 a) = x div 256" by (simp add: bytes_unat n_def x_def div_mult2_eq [symmetric])
  have b1: "unat (v4_byte 1 a) = x mod 256" by (simp add: bytes_unat n_def x_def del: One_nat_def)
  have m1: "unat (v4_byte 1 a AND 0xF0) = 16 * (x mod 256 div 16)"
    by (simp add: unsigned_and_eq b1 unat_nums and_high_nat del: One_nat_def)
  have m0: "unat (v4_byte 0 a AND 0xF0) = 16 * (x div 256 div 16)"
    using top by (simp add: unsigned_and_eq b0 unat_nums and_high_nat)
  have r: "x div 256 = c \<longleftrightarrow> c * 2 ^ 24 \<le> n \<and> n < c * 2 ^ 24 + 2 ^ 24" for c
    by (simp add: x_def div_mult2_eq [symmetric] div_range)
  have r': "x = c \<longleftrightarrow> c * 2 ^ 16 \<le> n \<and> n < c * 2 ^ 16 + 2 ^ 16" for c
    by (simp add: x_def div_range)
  show "v4_byte 0 a = 127 \<longleftrightarrow> 0x7F000000 \<le> unat a \<and> unat a < 0x80000000"
    "v4_byte 0 a = 10 \<longleftrightarrow> 0x0A000000 \<le> unat a \<and> unat a < 0x0B000000"
    by (simp_all add: word_unat_eq_iff b0 unat_nums r flip: n_def)
  have "x mod 256 div 16 = x div 16 mod 16" using mod_mult2_eq [of x 16 16] by simp
  then have "x div 256 = 172 \<and> 16 * (x mod 256 div 16) = 16 \<longleftrightarrow> x div 16 div 16 = 172 \<and> x div 16 mod 16 = 1"
    by (simp add: div_mult2_eq [symmetric])
  also have "\<dots> \<longleftrightarrow> x div 16 = 2753" by (subst subfield) simp_all
  also have "\<dots> \<longleftrightarrow> 0xAC100000 \<le> n \<and> n < 0xAC200000"
    by (simp add: x_def div_mult2_eq [symmetric] div_range)
  finally show "v4_byte 0 a = 172 \<and> v4_byte 1 a AND 0xF0 = 16 \<longleftrightarrow> 0xAC100000 \<le> unat a \<and> unat a < 0xAC200000"
    by (simp add: word_unat_eq_iff b0 m1 unat_nums del: One_nat_def flip: n_def)
  show "v4_byte 0 a = 192 \<and> v4_byte 1 a = 168 \<longleftrightarrow> 0xC0A80000 \<le> unat a \<and> unat a < 0xC0A90000"
    using subfield [of 168 256 x 192] r' [of 49320] by (simp add: word_unat_eq_iff b0 b1 unat_nums del: One_nat_def flip: n_def)
  show "v4_byte 0 a = 169 \<and> v4_byte 1 a = 254 \<longleftrightarrow> 0xA9FE0000 \<le> unat a \<and> unat a < 0xA9FF0000"
    using subfield [of 254 256 x 169] r' [of 43518] by (simp add: word_unat_eq_iff b0 b1 unat_nums del: One_nat_def flip: n_def)
  have "16 * (x div 256 div 16) = 224 \<longleftrightarrow> x div 4096 = 14" by (simp add: div_mult2_eq [symmetric])
  also have "\<dots> \<longleftrightarrow> 0xE0000000 \<le> n \<and> n < 0xF0000000"
    by (simp add: x_def div_mult2_eq [symmetric] div_range)
  finally show "v4_byte 0 a AND 0xF0 = 0xE0 \<longleftrightarrow> 0xE0000000 \<le> unat a \<and> unat a < 0xF0000000"
    by (simp add: word_unat_eq_iff m0 unat_nums flip: n_def)
qed

lemma v6_ranges:
  "v6_byte 0 a AND 0xFE = 0xFC \<longleftrightarrow> 0xFC * 2 ^ 120 \<le> unat a \<and> unat a < 0xFE * 2 ^ 120"
  "v6_byte 0 a = 0xFF \<longleftrightarrow> 0xFF * 2 ^ 120 \<le> unat a \<and> unat a < 2 ^ 128"
  "v6_u16 0 a AND 0xFFC0 = 0xFE80 \<longleftrightarrow> 0xFE80 * 2 ^ 112 \<le> unat a \<and> unat a < 0xFEC0 * 2 ^ 112"
proof -
  define n where "n = unat a"
  define x where "x = n div 2 ^ 112"
  have "n < 2 ^ 128" using unsigned_less [of a, where ?'a = nat] by (simp add: n_def)
  then have top: "x < 65536" "x div 256 < 256"
    by (simp_all add: x_def div_mult2_eq [symmetric] div_less_iff_less_mult)
  have b0: "unat (v6_byte 0 a) = x div 256" by (simp add: bytes_unat n_def x_def div_mult2_eq [symmetric])
  have u0: "unat (v6_u16 0 a) = x" by (simp add: bytes_unat n_def x_def)
  have mp: "unat (v6_byte 0 a AND 0xFE) = 2 * (x div 256 div 2)"
    using top by (simp add: unsigned_and_eq b0 unat_nums and_high_nat)
  have ml: "unat (v6_u16 0 a AND 0xFFC0) = 64 * (x div 64)"
    using top by (simp add: unsigned_and_eq u0 unat_nums and_high_nat)
  have "2 * (x div 256 div 2) = 252 \<longleftrightarrow> x div 512 = 126" by (simp add: div_mult2_eq [symmetric])
  also have "\<dots> \<longleftrightarrow> 0xFC * 2 ^ 120 \<le> n \<and> n < 0xFE * 2 ^ 120"
    by (simp add: x_def div_mult2_eq [symmetric] div_range)
  finally show "v6_byte 0 a AND 0xFE = 0xFC \<longleftrightarrow> 0xFC * 2 ^ 120 \<le> unat a \<and> unat a < 0xFE * 2 ^ 120"
    by (simp add: word_unat_eq_iff mp unat_nums flip: n_def)
  have "x div 256 = 255 \<longleftrightarrow> 0xFF * 2 ^ 120 \<le> n \<and> n < 2 ^ 128"
    by (simp add: x_def div_mult2_eq [symmetric] div_range)
  then show "v6_byte 0 a = 0xFF \<longleftrightarrow> 0xFF * 2 ^ 120 \<le> unat a \<and> unat a < 2 ^ 128"
    by (simp add: word_unat_eq_iff b0 unat_nums flip: n_def)
  have "64 * (x div 64) = 65152 \<longleftrightarrow> x div 64 = 1018" by simp
  also have "\<dots> \<longleftrightarrow> 0xFE80 * 2 ^ 112 \<le> n \<and> n < 0xFEC0 * 2 ^ 112"
    by (simp add: x_def div_mult2_eq [symmetric] div_range)
  finally show "v6_u16 0 a AND 0xFFC0 = 0xFE80 \<longleftrightarrow> 0xFE80 * 2 ^ 112 \<le> unat a \<and> unat a < 0xFEC0 * 2 ^ 112"
    by (simp add: word_unat_eq_iff ml unat_nums flip: n_def)
qed

lemma prefix4_range:
  "n \<le> 32 \<Longrightarrow> Contains (Prefix4 p n) (Addr4 a) \<longleftrightarrow>
     unat p div 2 ^ (32 - n) * 2 ^ (32 - n) \<le> unat a \<and> unat a < unat p div 2 ^ (32 - n) * 2 ^ (32 - n) + 2 ^ (32 - n)"
  unfolding Contains.simps prefix_iff by (subst div_range) simp_all

lemma prefix6_range:
  "Contains (Prefix6 p n) (Addr6 a []) \<longleftrightarrow>
     unat p div 2 ^ (128 - n) * 2 ^ (128 - n) \<le> unat a \<and> unat a < unat p div 2 ^ (128 - n) * 2 ^ (128 - n) + 2 ^ (128 - n)"
  unfolding Contains.simps prefix_iff by (subst div_range) simp_all

text \<open>The link-local and interface-local multicast tests are covered by the test for multicast.\<close>

lemma multicast_cases:
  "IsLinkLocalMulticast ip \<Longrightarrow> IsMulticast ip" "IsInterfaceLocalMulticast ip \<Longrightarrow> IsMulticast ip"
proof -
  have v6: "v6_byte 0 a = 0xFF" if "v6_u16 0 a AND 0xFF0F = w" "w = 0xFF02 \<or> w = 0xFF01" for a w
  proof -
    have b: "v6_byte 0 a = drop_bit 8 (v6_u16 0 a)"
      unfolding v6_byte_def v6_u16_def masks
      by (rule bit_word_eqI) (auto simp: bit_simps)
    have "drop_bit 8 (v6_u16 0 a AND 0xFF0F) = drop_bit 8 (v6_u16 0 a) AND 0xFF" by simp
    also have "drop_bit 8 (v6_u16 0 a) AND 0xFF = v6_byte 0 a"
      unfolding b v6_u16_def masks by (rule bit_word_eqI) (auto simp: bit_simps)
    finally show ?thesis using that by auto
  qed
  have v4: "v4_byte 0 a AND 0xF0 = 0xE0" if "v4_byte 0 a = 224" for a using that by simp
  show "IsLinkLocalMulticast ip \<Longrightarrow> IsMulticast ip" "IsInterfaceLocalMulticast ip \<Longrightarrow> IsMulticast ip"
    using v4 v6 by (cases ip; auto)+
qed

lemma within_any_append: "within_any (rs @ qs) n \<longleftrightarrow> within_any rs n \<or> within_any qs n"
  by (auto simp: within_any_def)

lemma within_any_set: "set rs = set qs \<Longrightarrow> within_any rs n = within_any qs n"
  by (simp add: within_any_def)

lemma prefixes4:
  "(\<exists>p \<in> set blockedPrefixes. Contains p (Addr4 a)) \<longleftrightarrow>
     within_any [(0x64400000, 0x64800000), (0, 0x01000000), (0xF0000000, 0x100000000), (0xC6120000, 0xC6140000),
       (0xC0000000, 0xC0000100), (0xC0586300, 0xC0586400)] (unat a)"
proof -
  have u: "unat (numeral k :: 32 word) = numeral k mod 2 ^ 32" for k by (simp only: unat_nums)
  have c: "Contains (Prefix4 0x64400000 10) (Addr4 a) \<longleftrightarrow> 0x64400000 \<le> unat a \<and> unat a < 0x64800000"
    "Contains (Prefix4 0 8) (Addr4 a) \<longleftrightarrow> 0 \<le> unat a \<and> unat a < 0x01000000"
    "Contains (Prefix4 0xF0000000 4) (Addr4 a) \<longleftrightarrow> 0xF0000000 \<le> unat a \<and> unat a < 0x100000000"
    "Contains (Prefix4 0xC6120000 15) (Addr4 a) \<longleftrightarrow> 0xC6120000 \<le> unat a \<and> unat a < 0xC6140000"
    "Contains (Prefix4 0xC0000000 24) (Addr4 a) \<longleftrightarrow> 0xC0000000 \<le> unat a \<and> unat a < 0xC0000100"
    "Contains (Prefix4 0xC0586300 24) (Addr4 a) \<longleftrightarrow> 0xC0586300 \<le> unat a \<and> unat a < 0xC0586400"
    by (subst prefix4_range; simp add: u del: Contains.simps)+
  have f: "Contains (Prefix6 p n) (Addr4 a) = False" for p n by simp
  show ?thesis
    unfolding blockedPrefixes_def within_any_simps list.set bex_simps c f simp_thms ..
qed

lemma prefixes6:
  "(\<exists>p \<in> set blockedPrefixes. Contains p (Addr6 a [])) \<longleftrightarrow>
     within_any [(0x2002 * 2 ^ 112, 0x2003 * 2 ^ 112), (0x0064FF9B * 2 ^ 96, 0x0064FF9B * 2 ^ 96 + 2 ^ 32),
       (0xFEC0 * 2 ^ 112, 0xFF00 * 2 ^ 112), (0x2001 * 2 ^ 112, 0x2001 * 2 ^ 112 + 2 ^ 96)] (unat a)"
proof -
  have u: "unat (numeral k :: 128 word) = numeral k mod 2 ^ 128" for k by (simp only: unat_nums)
  have c: "Contains (Prefix6 (push_bit 112 0x2002) 16) (Addr6 a []) \<longleftrightarrow> 0x2002 * 2 ^ 112 \<le> unat a \<and> unat a < 0x2003 * 2 ^ 112"
    "Contains (Prefix6 (push_bit 96 0x0064FF9B) 96) (Addr6 a []) \<longleftrightarrow>
       0x0064FF9B * 2 ^ 96 \<le> unat a \<and> unat a < 0x0064FF9B * 2 ^ 96 + 2 ^ 32"
    "Contains (Prefix6 (push_bit 112 0xFEC0) 10) (Addr6 a []) \<longleftrightarrow> 0xFEC0 * 2 ^ 112 \<le> unat a \<and> unat a < 0xFF00 * 2 ^ 112"
    "Contains (Prefix6 (push_bit 112 0x2001) 32) (Addr6 a []) \<longleftrightarrow> 0x2001 * 2 ^ 112 \<le> unat a \<and> unat a < 0x2001 * 2 ^ 112 + 2 ^ 96"
    by (subst prefix6_range; simp add: u del: Contains.simps)+
  have f: "Contains (Prefix4 p n) (Addr6 a []) = False" for p n by simp
  show ?thesis
    unfolding blockedPrefixes_def within_any_simps list.set bex_simps c f simp_thms ..
qed

lemma isBlocked_cases:
  "isBlockedIP ip \<longleftrightarrow> Unmap ip = NoAddr \<or> IsLoopback (Unmap ip) \<or> IsUnspecified (Unmap ip) \<or> IsPrivate (Unmap ip)
     \<or> IsLinkLocalUnicast (Unmap ip) \<or> IsMulticast (Unmap ip) \<or> (\<exists>p \<in> set blockedPrefixes. Contains p (Unmap ip))"
  unfolding isBlockedIP_def Let_def using multicast_cases [of "Unmap ip"] by argo

lemma tests4:
  "IsLoopback (Addr4 a) \<longleftrightarrow> within_any [(0x7F000000, 0x80000000)] (unat a)"
  "IsPrivate (Addr4 a) \<longleftrightarrow> within_any [(0x0A000000, 0x0B000000), (0xAC100000, 0xAC200000), (0xC0A80000, 0xC0A90000)] (unat a)"
  "IsLinkLocalUnicast (Addr4 a) \<longleftrightarrow> within_any [(0xA9FE0000, 0xA9FF0000)] (unat a)"
  "IsMulticast (Addr4 a) \<longleftrightarrow> within_any [(0xE0000000, 0xF0000000)] (unat a)"
  by (simp_all only: IsLoopback.simps IsPrivate.simps IsLinkLocalUnicast.simps IsMulticast.simps v4_ranges
      within_any_simps simp_thms)

lemma blocked4: "isBlockedIP (Addr4 a) \<longleftrightarrow> within_any reserved4 (unat a)"
proof -
  have u: "IsUnspecified (Addr4 a) \<longrightarrow> 0 \<le> unat a \<and> unat a < 0x01000000" by (simp add: IsUnspecified_def)
  have "isBlockedIP (Addr4 a) \<longleftrightarrow> IsLoopback (Addr4 a) \<or> IsPrivate (Addr4 a) \<or> IsLinkLocalUnicast (Addr4 a)
      \<or> IsMulticast (Addr4 a) \<or> (IsUnspecified (Addr4 a) \<or> within_any [(0, 0x01000000)] (unat a)) \<or> within_any
       [(0x64400000, 0x64800000), (0xF0000000, 0x100000000), (0xC6120000, 0xC6140000),
       (0xC0000000, 0xC0000100), (0xC0586300, 0xC0586400)] (unat a)"
    unfolding isBlocked_cases Unmap.simps prefixes4 within_any_simps using Addr.distinct(2) [of a] by argo
  then show ?thesis unfolding tests4 within_any_simps reserved4_def using u by argo
qed

lemma tests6:
  "IsLoopback (Addr6 a z) \<longleftrightarrow> within_any [(1, 2)] (unat a)"
  "IsUnspecified (Addr6 a []) \<longleftrightarrow> within_any [(0, 1)] (unat a)"
  "IsPrivate (Addr6 a z) \<longleftrightarrow> within_any [(0xFC * 2 ^ 120, 0xFE * 2 ^ 120)] (unat a)"
  "IsLinkLocalUnicast (Addr6 a z) \<longleftrightarrow> within_any [(0xFE80 * 2 ^ 112, 0xFEC0 * 2 ^ 112)] (unat a)"
  "IsMulticast (Addr6 a z) \<longleftrightarrow> within_any [(0xFF * 2 ^ 120, 2 ^ 128)] (unat a)"
proof -
  have "unat a = 1 \<longleftrightarrow> 1 \<le> unat a \<and> unat a < 2" "unat a = 0 \<longleftrightarrow> 0 \<le> unat a \<and> unat a < 1" by linarith+
  then show "IsLoopback (Addr6 a z) \<longleftrightarrow> within_any [(1, 2)] (unat a)"
    "IsUnspecified (Addr6 a []) \<longleftrightarrow> within_any [(0, 1)] (unat a)"
    by (simp_all add: IsUnspecified_def word_unat_eq_iff)
qed (simp_all only: IsPrivate.simps IsLinkLocalUnicast.simps IsMulticast.simps v6_ranges within_any_simps simp_thms)

lemma blocked6:
  assumes "drop_bit 32 a \<noteq> 0xFFFF"
  shows "isBlockedIP (Addr6 a []) \<longleftrightarrow> within_any reserved6 (unat a)"
proof -
  have m: "Unmap (Addr6 a []) = Addr6 a []" using assms by simp
  show ?thesis
    unfolding isBlocked_cases m prefixes6 tests6 reserved6_def within_any_simps using Addr.distinct(4) [of a "[]"] by argo
qed

section \<open>What the guard lets through\<close>

text \<open>The address a dial goes to, and whether it is public: neither the zero value nor in a reserved block;
  an IPv4 address mapped into IPv6 counts as the IPv4 address.\<close>

fun public :: "Addr \<Rightarrow> bool" where
  "public NoAddr \<longleftrightarrow> False"
| "public (Addr4 a) \<longleftrightarrow> \<not> within_any reserved4 (unat a)"
| "public (Addr6 a z) \<longleftrightarrow> (if unat a div 2 ^ 32 = 0xFFFF then \<not> within_any reserved4 (unat a mod 2 ^ 32)
     else \<not> within_any reserved6 (unat a))"

fun zone :: "Addr \<Rightarrow> string" where
  "zone (Addr6 a z) = z"
| "zone _ = []"

lemma mapped_iff: "drop_bit 32 a = (0xFFFF :: 128 word) \<longleftrightarrow> unat a div 2 ^ 32 = 0xFFFF"
  by (simp only: word_unat_eq_iff unat_drop_bit_eq) (simp add: drop_bit_eq_div unat_nums)

lemma blocked_public:
  assumes "zone ip = []"
  shows "isBlockedIP ip \<longleftrightarrow> \<not> public ip"
proof (cases ip)
  case NoAddr
  then show ?thesis by (simp add: isBlockedIP_def)
next
  case (Addr4 a)
  then show ?thesis by (simp add: blocked4)
next
  case (Addr6 a z)
  then have ip: "ip = Addr6 a []" using assms by simp
  show ?thesis
  proof (cases "drop_bit 32 a = 0xFFFF")
    case True
    have "isBlockedIP ip = isBlockedIP (Addr4 (ucast a))" using ip True by (simp add: isBlockedIP_def)
    also have "\<dots> = within_any reserved4 (unat a mod 2 ^ 32)"
      unfolding blocked4 by (simp add: unsigned_ucast_eq take_bit_eq_mod)
    finally show ?thesis using ip True by (simp add: mapped_iff)
  next
    case False
    then show ?thesis using ip blocked6 [OF False] by (simp add: mapped_iff)
  qed
qed

text \<open>C20. The SSRF guard, for an address text without a zone: a dial is refused exactly when the text is
  not an address, or the address is neither in a CIDR the operator allowed nor public. So with no
  exemption no private, loopback, link-local, multicast or otherwise reserved address is ever
  connected to, mapped IPv4 included, and every other address is.\<close>

theorem guard_blocks_reserved:
  assumes "nl_host lib address = Inr host" and "nl_addr lib host = Inr ip" and "zone ip = []"
  shows "guardDial lib allowed address = None \<longleftrightarrow> (\<exists>p \<in> set allowed. Contains p (Unmap ip)) \<or> public ip"
proof -
  have "zone (Unmap ip) = []" using assms(3) by (cases ip) auto
  then have "isBlockedIP (Unmap ip) \<longleftrightarrow> \<not> public (Unmap ip)" by (rule blocked_public)
  moreover have "Unmap (Unmap ip) = Unmap ip" by (cases ip) auto
  then have "isBlockedIP (Unmap ip) = isBlockedIP ip" by (simp add: isBlockedIP_def)
  ultimately show ?thesis using blocked_public [OF assms(3)] assms(1,2) by (auto simp: guardDial_def Let_def)
qed

definition sample_net :: "Addr \<Rightarrow> net_lib" where
  "sample_net ip = \<lparr>nl_host = (\<lambda>s. Inr s), nl_addr = (\<lambda>s. Inr ip), nl_text = (\<lambda>_. ''ip''), nl_quoted = (\<lambda>s. s)\<rparr>"

theorem guard_blocks_reserved_witness:
  "guardDial (sample_net (Addr4 0xA9FEA9FE)) [] ''169.254.169.254'' \<noteq> None
   \<and> guardDial (sample_net (Addr6 0xFFFF08080808 [])) [] ''8.8.8.8'' = None"
  using guard_blocks_reserved [of "sample_net (Addr4 0xA9FEA9FE)" "''169.254.169.254''" "''169.254.169.254''" "Addr4 0xA9FEA9FE" "[]"]
    guard_blocks_reserved [of "sample_net (Addr6 0xFFFF08080808 [])" "''8.8.8.8''" "''8.8.8.8''" "Addr6 0xFFFF08080808 []" "[]"]
  by (simp add: sample_net_def reserved4_def)

text \<open>The IPv6 blocks that only \<open>blockedPrefixes\<close> and \<open>IsUnspecified\<close> cover.\<close>

definition zone_blocks :: "(nat \<times> nat) list" where
  "zone_blocks =
     [(0, 1), (0x0064FF9B * 2 ^ 96, 0x0064FF9B * 2 ^ 96 + 2 ^ 32),
      (0x2001 * 2 ^ 112, 0x2001 * 2 ^ 112 + 2 ^ 96), (0x2002 * 2 ^ 112, 0x2003 * 2 ^ 112),
      (0xFEC0 * 2 ^ 112, 0xFF00 * 2 ^ 112)]"

lemma zone_blocks_apart:
  assumes "within_any zone_blocks n"
  shows "\<not> (1 \<le> n \<and> n < 2)" "\<not> (0xFC * 2 ^ 120 \<le> n \<and> n < 0xFE * 2 ^ 120)" "\<not> (0xFE80 * 2 ^ 112 \<le> n \<and> n < 0xFEC0 * 2 ^ 112)"
    "\<not> (0xFF * 2 ^ 120 \<le> n \<and> n < 2 ^ 128)" "n div 2 ^ 32 \<noteq> 0xFFFF"
  using assms div_range [of "2 ^ 32" n "0xFFFF"] by (auto simp: zone_blocks_def)



end
