(* ===== verification/HostLimiter.thy ===== *)
theory HostLimiter
  imports Prelude
begin

text \<open>
  The per-host concurrency limiter of \<open>internal/fetch/fetch.go\<close>: \<open>acquire\<close>, the release function it
  returns, and \<open>unref\<close>, run by any number of goroutines in any interleaving. A \<open>*hostSem\<close> is an index
  into a heap, since a goroutine keeps its pointer while the map entry may be replaced. The steps are
  the critical sections under \<open>c.mu\<close> and the channel operations, which Go makes atomic.
\<close>

record hostSem =
  hs_tokens :: nat      \<comment> \<open>tokens in the channel \<open>ch\<close>\<close>
  hs_refs :: int

text \<open>Where a goroutine is: outside; at the \<open>select\<close> of \<open>acquire\<close>; between \<open>acquire\<close> and its release
  function; before \<open>unref\<close>.\<close>

datatype place = Outside | Waiting string nat | Holding string nat | Leaving string nat

record limiter =
  lm_sems :: "string \<Rightarrow> nat option"
  lm_heap :: "hostSem list"
  lm_threads :: "place list"

section \<open>The critical sections\<close>

definition acquire_ref :: "string \<Rightarrow> limiter \<Rightarrow> nat \<times> limiter" where
  "acquire_ref key st =
     (case lm_sems st key of
        Some p \<Rightarrow> (p, st\<lparr>lm_heap := (lm_heap st)[p := (lm_heap st ! p)\<lparr>hs_refs := hs_refs (lm_heap st ! p) + 1\<rparr>]\<rparr>)
      | None \<Rightarrow> (length (lm_heap st),
          st\<lparr>lm_sems := (lm_sems st)(key \<mapsto> length (lm_heap st)),
             lm_heap := lm_heap st @ [\<lparr>hs_tokens = 0, hs_refs = 1\<rparr>]\<rparr>))"

definition put_token :: "nat \<Rightarrow> limiter \<Rightarrow> limiter" where
  "put_token p st = st\<lparr>lm_heap := (lm_heap st)[p := (lm_heap st ! p)\<lparr>hs_tokens := hs_tokens (lm_heap st ! p) + 1\<rparr>]\<rparr>"

definition drain_token :: "nat \<Rightarrow> limiter \<Rightarrow> limiter" where
  "drain_token p st = st\<lparr>lm_heap := (lm_heap st)[p := (lm_heap st ! p)\<lparr>hs_tokens := hs_tokens (lm_heap st ! p) - 1\<rparr>]\<rparr>"

definition unref :: "string \<Rightarrow> nat \<Rightarrow> limiter \<Rightarrow> limiter" where
  "unref key p st =
     (let refs = hs_refs (lm_heap st ! p) - 1;
          st = st\<lparr>lm_heap := (lm_heap st)[p := (lm_heap st ! p)\<lparr>hs_refs := refs\<rparr>]\<rparr>
      in if refs = 0 then st\<lparr>lm_sems := (lm_sems st)(key := None)\<rparr> else st)"

definition move :: "nat \<Rightarrow> place \<Rightarrow> limiter \<Rightarrow> limiter" where
  "move t pl st = st\<lparr>lm_threads := (lm_threads st)[t := pl]\<rparr>"

section \<open>The steps\<close>

text \<open>The channel has room for \<open>n\<close> tokens (\<open>cfg.HostConcurrency\<close>). At the \<open>select\<close> a goroutine may take
  a token if there is room, or leave when its context is done, which may be any time.\<close>

inductive lim_step :: "nat \<Rightarrow> limiter \<Rightarrow> limiter \<Rightarrow> bool" for n where
  enter: "t < length (lm_threads st) \<Longrightarrow> lm_threads st ! t = Outside \<Longrightarrow> acquire_ref key st = (p, st')
    \<Longrightarrow> lim_step n st (move t (Waiting key p) st')"
| take: "t < length (lm_threads st) \<Longrightarrow> lm_threads st ! t = Waiting key p \<Longrightarrow> hs_tokens (lm_heap st ! p) < n
    \<Longrightarrow> lim_step n st (move t (Holding key p) (put_token p st))"
| cancel: "t < length (lm_threads st) \<Longrightarrow> lm_threads st ! t = Waiting key p
    \<Longrightarrow> lim_step n st (move t (Leaving key p) st)"
| release: "t < length (lm_threads st) \<Longrightarrow> lm_threads st ! t = Holding key p \<Longrightarrow> 0 < hs_tokens (lm_heap st ! p)
    \<Longrightarrow> lim_step n st (move t (Leaving key p) (drain_token p st))"
| leave: "t < length (lm_threads st) \<Longrightarrow> lm_threads st ! t = Leaving key p
    \<Longrightarrow> lim_step n st (move t Outside (unref key p st))"

definition lim_init :: "nat \<Rightarrow> limiter" where
  "lim_init k = \<lparr>lm_sems = (\<lambda>_. None), lm_heap = [], lm_threads = replicate k Outside\<rparr>"

inductive_cases lim_stepE: "lim_step n st st'"

section \<open>The invariant\<close>

fun on :: "nat \<Rightarrow> place \<Rightarrow> bool" where
  "on p Outside \<longleftrightarrow> False"
| "on p (Waiting k q) \<longleftrightarrow> q = p"
| "on p (Holding k q) \<longleftrightarrow> q = p"
| "on p (Leaving k q) \<longleftrightarrow> q = p"

fun holds_on :: "nat \<Rightarrow> place \<Rightarrow> bool" where
  "holds_on p (Holding k q) \<longleftrightarrow> q = p"
| "holds_on p _ \<longleftrightarrow> False"

fun site :: "place \<Rightarrow> (string \<times> nat) option" where
  "site Outside = None"
| "site (Waiting k p) = Some (k, p)"
| "site (Holding k p) = Some (k, p)"
| "site (Leaving k p) = Some (k, p)"

text \<open>The counts of every semaphore are those of the goroutines on it, no more than \<open>n\<close> tokens are out, and
  the map has an entry for exactly the keys some goroutine is on, each with a semaphore of its own.\<close>

definition counts_ok :: "nat \<Rightarrow> limiter \<Rightarrow> bool" where
  "counts_ok n st \<longleftrightarrow> (\<forall>p < length (lm_heap st).
     int (hs_tokens (lm_heap st ! p)) = count_where (holds_on p) (lm_threads st)
     \<and> hs_refs (lm_heap st ! p) = count_where (on p) (lm_threads st) \<and> hs_tokens (lm_heap st ! p) \<le> n)"

definition sited :: "limiter \<Rightarrow> string \<Rightarrow> nat \<Rightarrow> bool" where
  "sited st k p \<longleftrightarrow> (\<exists>i < length (lm_threads st). site (lm_threads st ! i) = Some (k, p))"

definition map_ok :: "limiter \<Rightarrow> bool" where
  "map_ok st \<longleftrightarrow> (\<forall>k p. (lm_sems st k = Some p \<longleftrightarrow> sited st k p) \<and> (lm_sems st k = Some p \<longrightarrow> p < length (lm_heap st))
     \<and> (\<forall>k'. lm_sems st k = Some p \<longrightarrow> lm_sems st k' = Some p \<longrightarrow> k = k'))"

lemma on_site: "on p pl \<longleftrightarrow> (\<exists>k. site pl = Some (k, p))"
  by (cases pl) auto

lemma holds_on_site: "holds_on p pl \<Longrightarrow> on p pl"
  by (cases pl) auto

lemma count_where_update:
  "i < length xs \<Longrightarrow> count_where P (xs[i := x]) = count_where P xs - of_bool (P (xs ! i)) + of_bool (P x)"
proof (induction xs arbitrary: i)
  case Nil
  then show ?case by simp
next
  case (Cons y ys)
  then show ?case by (cases i) (auto simp: count_where_def)
qed

lemma count_where_nth_pos: "i < length xs \<Longrightarrow> P (xs ! i) \<Longrightarrow> 0 < count_where P xs"
  unfolding count_where_pos using nth_mem by blast

lemma move_simps [simp]:
  "lm_sems (move t pl st) = lm_sems st" "lm_heap (move t pl st) = lm_heap st"
  "lm_threads (move t pl st) = (lm_threads st)[t := pl]"
  by (simp_all add: move_def)

lemma token_simps [simp]:
  "lm_sems (put_token p st) = lm_sems st" "lm_threads (put_token p st) = lm_threads st"
  "length (lm_heap (put_token p st)) = length (lm_heap st)"
  "lm_sems (drain_token p st) = lm_sems st" "lm_threads (drain_token p st) = lm_threads st"
  "length (lm_heap (drain_token p st)) = length (lm_heap st)"
  "lm_threads (unref key p st) = lm_threads st" "length (lm_heap (unref key p st)) = length (lm_heap st)"
  by (simp_all add: put_token_def drain_token_def unref_def Let_def)

lemma unref_simps [simp]:
  "lm_heap (unref key p st) = (lm_heap st)[p := (lm_heap st ! p)\<lparr>hs_refs := hs_refs (lm_heap st ! p) - 1\<rparr>]"
  "lm_sems (unref key p st) = (if hs_refs (lm_heap st ! p) = 1 then (lm_sems st)(key := None) else lm_sems st)"
  by (simp_all add: unref_def Let_def)

text \<open>A goroutine that stays on its semaphore leaves the map as it was.\<close>

lemma sited_stays:
  assumes "site (lm_threads st ! t) = site pl" and "lm_threads st' = (lm_threads st)[t := pl]"
  shows "sited st' k p = sited st k p"
proof -
  have "site (lm_threads st' ! i) = site (lm_threads st ! i)" if "i < length (lm_threads st)" for i
    using that assms by (cases "i = t") auto
  then show ?thesis using assms(2) by (auto simp: sited_def)
qed

lemma map_ok_stays:
  assumes "map_ok st" and "site (lm_threads st ! t) = site pl"
    and "lm_threads st' = (lm_threads st)[t := pl]" and "lm_sems st' = lm_sems st"
    and "length (lm_heap st') = length (lm_heap st)"
  shows "map_ok st'"
  using assms(1) unfolding map_ok_def sited_stays [OF assms(2,3)] assms(4,5) .

lemma on_heap:
  assumes "map_ok st" and "t < length (lm_threads st)" and "site (lm_threads st ! t) = Some (k, p)"
  shows "p < length (lm_heap st)" "lm_sems st k = Some p"
  using assms unfolding map_ok_def sited_def by blast+

lemma acquire_ref_None:
  "lm_sems st key = None \<Longrightarrow> acquire_ref key st = (p, st') \<longleftrightarrow> p = length (lm_heap st) \<and>
     st' = st\<lparr>lm_sems := (lm_sems st)(key \<mapsto> p), lm_heap := lm_heap st @ [\<lparr>hs_tokens = 0, hs_refs = 1\<rparr>]\<rparr>"
  by (auto simp: acquire_ref_def)

lemma acquire_ref_Some:
  "lm_sems st key = Some q \<Longrightarrow> acquire_ref key st = (p, st') \<longleftrightarrow> p = q \<and>
     st' = st\<lparr>lm_heap := (lm_heap st)[q := (lm_heap st ! q)\<lparr>hs_refs := hs_refs (lm_heap st ! q) + 1\<rparr>]\<rparr>"
  by (auto simp: acquire_ref_def)

lemma counts_okI:
  assumes "\<And>p. p < length (lm_heap st) \<Longrightarrow> int (hs_tokens (lm_heap st ! p)) = count_where (holds_on p) (lm_threads st)
     \<and> hs_refs (lm_heap st ! p) = count_where (on p) (lm_threads st) \<and> hs_tokens (lm_heap st ! p) \<le> n"
  shows "counts_ok n st"
  using assms by (simp add: counts_ok_def)

lemma counts_okD:
  assumes "counts_ok n st" and "p < length (lm_heap st)"
  shows "int (hs_tokens (lm_heap st ! p)) = count_where (holds_on p) (lm_threads st)"
    "hs_refs (lm_heap st ! p) = count_where (on p) (lm_threads st)" "hs_tokens (lm_heap st ! p) \<le> n"
  using assms by (simp_all add: counts_ok_def)

lemma step_counts:
  assumes "lim_step n st st'" and "counts_ok n st" and "map_ok st"
  shows "counts_ok n st'"
  using assms(1)
proof cases
  case (enter t key p st1)
  show ?thesis
  proof (cases "lm_sems st key")
    case None
    have f: "count_where (on (length (lm_heap st))) (lm_threads st) = 0"
      using on_heap(1) [OF assms(3)] unfolding count_where_zero by (metis in_set_conv_nth less_irrefl on_site)
    then have "count_where (holds_on (length (lm_heap st))) (lm_threads st) = 0"
      unfolding count_where_zero using holds_on_site by blast
    with f show ?thesis
      using enter None counts_okD [OF assms(2)] unfolding enter(1) acquire_ref_None [OF None]
      by (intro counts_okI) (auto simp: count_where_update nth_append less_Suc_eq)
  next
    case (Some q)
    then show ?thesis
      using enter counts_okD [OF assms(2)] unfolding enter(1) acquire_ref_Some [OF Some]
      by (intro counts_okI) (auto simp: count_where_update nth_list_update)
  qed
next
  case (take t key p)
  then show ?thesis
    using counts_okD [OF assms(2)]
    by (intro counts_okI) (auto simp: put_token_def count_where_update nth_list_update)
next
  case (cancel t key p)
  then show ?thesis using counts_okD [OF assms(2)] by (intro counts_okI) (auto simp: count_where_update)
next
  case (release t key p)
  then show ?thesis
    using counts_okD [OF assms(2)]
    by (intro counts_okI) (auto simp: drain_token_def count_where_update nth_list_update intro: order_trans [OF diff_le_self])
next
  case (leave t key p)
  then show ?thesis
    using counts_okD [OF assms(2)]
    by (intro counts_okI) (auto simp: count_where_update nth_list_update)
qed

text \<open>Entering and leaving change the map.\<close>

lemma sited_enter:
  assumes "t < length (lm_threads st)" and "lm_threads st ! t = Outside" and "lm_threads st' = lm_threads st"
  shows "sited (move t (Waiting key p) st') k q \<longleftrightarrow> sited st k q \<or> (k, q) = (key, p)"
proof
  assume "sited (move t (Waiting key p) st') k q"
  then show "sited st k q \<or> (k, q) = (key, p)"
    using assms by (auto simp: sited_def nth_list_update split: if_splits)
next
  assume "sited st k q \<or> (k, q) = (key, p)"
  then show "sited (move t (Waiting key p) st') k q"
  proof
    assume "sited st k q"
    then obtain i where i: "i < length (lm_threads st)" "site (lm_threads st ! i) = Some (k, q)" by (auto simp: sited_def)
    then have "i \<noteq> t" using assms(2) by auto
    then show ?thesis using i assms(3) by (auto simp: sited_def intro!: exI [of _ i])
  next
    assume "(k, q) = (key, p)"
    then show ?thesis using assms(1,3) by (auto simp: sited_def intro!: exI [of _ t])
  qed
qed

lemma no_one_on: "count_where (on p) (lm_threads st) = 0 \<longleftrightarrow> (\<forall>k. \<not> sited st k p)"
  unfolding count_where_zero on_site sited_def by (metis in_set_conv_nth)

lemma sited_leave:
  assumes "t < length (lm_threads st)" and "lm_threads st ! t = Leaving key p" and "lm_threads st' = lm_threads st"
  shows "sited (move t Outside st') k q \<longleftrightarrow> (\<exists>i < length (lm_threads st). i \<noteq> t \<and> site (lm_threads st ! i) = Some (k, q))"
  using assms by (auto simp: sited_def nth_list_update)

lemma step_map:
  assumes "lim_step n st st'" and "counts_ok n st" and "map_ok st"
  shows "map_ok st'"
  using assms(1)
proof cases
  case (enter t key p st1)
  have none: "\<not> sited st key q" if "lm_sems st key = None" for q using that assms(3) unfolding map_ok_def by (metis option.distinct(1))
  have th: "lm_threads st1 = lm_threads st" using enter(4) by (auto simp: acquire_ref_def split: option.splits)
  note s = sited_enter [OF enter(2,3) th]
  show ?thesis
  proof (cases "lm_sems st key")
    case None
    then show ?thesis
      using enter(4) assms(3) none [OF None] unfolding enter(1) map_ok_def s acquire_ref_None [OF None]
      by (auto simp: less_Suc_eq)
  next
    case (Some q)
    then show ?thesis
      using enter(4) assms(3) unfolding enter(1) map_ok_def s acquire_ref_Some [OF Some] by auto
  qed
next
  case (take t key p)
  then show ?thesis by (intro map_ok_stays [OF assms(3), of t]) auto
next
  case (cancel t key p)
  then show ?thesis by (intro map_ok_stays [OF assms(3), of t]) auto
next
  case (release t key p)
  then show ?thesis by (intro map_ok_stays [OF assms(3), of t]) auto
next
  case (leave t key p)
  have th: "lm_threads (unref key p st) = lm_threads st" by simp
  let ?st' = "move t Outside (unref key p st)"
  note s = sited_leave [OF leave(2,3) th]
  have sem: "lm_sems st key = Some p" "p < length (lm_heap st)"
    using on_heap [OF assms(3) leave(2)] leave(3) by auto
  have old: "sited ?st' k q \<Longrightarrow> sited st k q" for k q unfolding s by (auto simp: sited_def)
  have new: "sited st k q \<Longrightarrow> (k, q) \<noteq> (key, p) \<Longrightarrow> sited ?st' k q" for k q
    unfolding s using leave(3) by (force simp: sited_def)
  have "count_where (on p) (lm_threads ?st') = hs_refs (lm_heap st ! p) - 1"
    using leave(2,3) counts_okD(2) [OF assms(2) sem(2)] by (simp add: count_where_update)
  then have gone: "hs_refs (lm_heap st ! p) = 1 \<longleftrightarrow> (\<forall>k. \<not> sited ?st' k p)"
    unfolding no_one_on [symmetric] by linarith
  have sems: "lm_sems st k = Some q \<longleftrightarrow> sited st k q" for k q using assms(3) by (simp add: map_ok_def)
  have inj: "sited st k p \<Longrightarrow> k = key" for k using assms(3) sem(1) sems by (metis map_ok_def)
  have "lm_sems ?st' k = Some q \<longleftrightarrow> sited ?st' k q" for k q
  proof (cases "hs_refs (lm_heap st ! p) = 1")
    case True
    have "\<not> sited ?st' key q" using gone True old [of key q] sems [of key q] sem(1) by auto
    then show ?thesis using True sem(1) sems [of k q] old [of k q] new [of k q] by (cases "k = key") auto
  next
    case False
    then have "sited ?st' key p" using gone old inj by blast
    then show ?thesis using False sems old new by (cases "(k, q) = (key, p)") auto
  qed
  moreover have "lm_sems ?st' k = Some q \<Longrightarrow> lm_sems st k = Some q" for k q by (auto split: if_splits)
  ultimately show ?thesis using assms(3) unfolding leave(1) map_ok_def by (metis length_list_update move_simps(2) unref_simps(1))
qed

lemma lim_reachable:
  assumes "(lim_step n)\<^sup>*\<^sup>* (lim_init k) st"
  shows "counts_ok n st \<and> map_ok st"
  using assms
proof (induction rule: rtranclp_induct)
  case base
  show ?case by (auto simp: lim_init_def counts_ok_def map_ok_def sited_def)
next
  case (step st st')
  then show ?case using step_counts step_map by blast
qed

section \<open>What the limiter guarantees\<close>

fun holds_key :: "string \<Rightarrow> place \<Rightarrow> bool" where
  "holds_key k (Holding k' p) \<longleftrightarrow> k' = k"
| "holds_key k _ \<longleftrightarrow> False"

lemma holders_of_key:
  assumes "counts_ok n st" and "map_ok st"
  shows "count_where (holds_key k) (lm_threads st) \<le> int n"
proof (cases "\<exists>pl \<in> set (lm_threads st). holds_key k pl")
  case True
  then obtain p i where i: "i < length (lm_threads st)" "site (lm_threads st ! i) = Some (k, p)"
    by (metis holds_key.elims(2) in_set_conv_nth site.simps(3))
  note p = on_heap [OF assms(2) i]
  have "q = p" if "pl \<in> set (lm_threads st)" "pl = Holding k q" for pl q
    using that on_heap(2) [OF assms(2)] p(2) by (metis in_set_conv_nth option.inject site.simps(3))
  then have "filter (holds_key k) (lm_threads st) = filter (\<lambda>pl. holds_key k pl \<and> holds_on p pl) (lm_threads st)"
    by (intro filter_cong [OF refl]) (metis holds_key.elims(2) holds_on.simps(1))
  moreover have "length (filter (\<lambda>pl. holds_key k pl \<and> holds_on p pl) (lm_threads st))
      \<le> length (filter (holds_on p) (lm_threads st))"
    unfolding filter_filter [symmetric] by (metis (no_types, lifting) filter_filter length_filter_le conj_commute filter_cong)
  ultimately have "count_where (holds_key k) (lm_threads st) \<le> count_where (holds_on p) (lm_threads st)"
    by (simp add: count_where_def)
  then show ?thesis using counts_okD(1,3) [OF assms(1) p(1)] by linarith
next
  case False
  then have "count_where (holds_key k) (lm_threads st) = 0" unfolding count_where_zero by blast
  then show ?thesis by simp
qed

text \<open>C18. The per-host limit holds in every interleaving of any number of fetches: no more than
  \<open>HostConcurrency\<close> goroutines hold a token of the same host key at once, also across the eviction and
  re-creation of the key's semaphore; and the map has entries for exactly the hosts some goroutine is
  waiting for, holding or leaving, so it is empty whenever no fetch is under way.\<close>

theorem host_limit:
  assumes "(lim_step n)\<^sup>*\<^sup>* (lim_init k) st"
  shows "count_where (holds_key key) (lm_threads st) \<le> int n
    \<and> (lm_sems st key \<noteq> None \<longleftrightarrow> (\<exists>pl \<in> set (lm_threads st). \<exists>p. site pl = Some (key, p)))"
proof -
  have i: "counts_ok n st" "map_ok st" using lim_reachable [OF assms] by simp_all
  moreover have "lm_sems st key \<noteq> None \<longleftrightarrow> (\<exists>pl \<in> set (lm_threads st). \<exists>p. site pl = Some (key, p))"
    using i(2) unfolding map_ok_def sited_def by (metis in_set_conv_nth not_None_eq)
  ultimately show ?thesis using holders_of_key [OF i] by blast
qed

text \<open>The next place of a goroutine whose context stays live.\<close>

fun onward :: "place \<Rightarrow> place" where
  "onward Outside = Outside"
| "onward (Waiting k p) = Holding k p"
| "onward (Holding k p) = Leaving k p"
| "onward (Leaving k p) = Outside"

fun ahead :: "place \<Rightarrow> nat" where
  "ahead Outside = 0"
| "ahead (Waiting k p) = 3"
| "ahead (Holding k p) = 2"
| "ahead (Leaving k p) = 1"

lemma limiter_progress:
  assumes "counts_ok n st" and "map_ok st" and "0 < n" and "i < length (lm_threads st)" and "lm_threads st ! i \<noteq> Outside"
  shows "\<exists>t < length (lm_threads st). lm_threads st ! t \<noteq> Outside
    \<and> (\<exists>st'. lim_step n st st' \<and> lm_threads st' = (lm_threads st)[t := onward (lm_threads st ! t)])"
proof -
  have tokens: "int (hs_tokens (lm_heap st ! p)) = count_where (holds_on p) (lm_threads st)"
    if "t < length (lm_threads st)" "site (lm_threads st ! t) = Some (k, p)" for t k p
    using counts_okD(1) [OF assms(1)] on_heap(1) [OF assms(2) that] by simp
  show ?thesis
  proof (cases "\<exists>t k p. t < length (lm_threads st) \<and> lm_threads st ! t = Holding k p")
    case True
    then obtain t k p where t: "t < length (lm_threads st)" "lm_threads st ! t = Holding k p" by blast
    then have "0 < hs_tokens (lm_heap st ! p)"
      using tokens [of t k p] count_where_nth_pos [of t "lm_threads st" "holds_on p"] by simp
    from lim_step.release [OF t this] show ?thesis using t by (intro exI [of _ t]) fastforce
  next
    case False
    show ?thesis
    proof (cases "lm_threads st ! i")
      case (Waiting k p)
      have "count_where (holds_on p) (lm_threads st) = 0"
        unfolding count_where_zero using False by (metis holds_on.elims(2) in_set_conv_nth)
      then have "hs_tokens (lm_heap st ! p) < n" using tokens [OF assms(4), of k p] Waiting assms(3) by simp
      from lim_step.take [OF assms(4) Waiting this] show ?thesis
        using assms(4) Waiting by (intro exI [of _ i]) fastforce
    next
      case (Leaving k p)
      from lim_step.leave [OF assms(4) Leaving] show ?thesis
        using assms(4) Leaving by (intro exI [of _ i]) fastforce
    qed (use assms(4,5) False in auto)
  qed
qed

lemma ahead_onward: "pl \<noteq> Outside \<Longrightarrow> ahead (onward pl) < ahead pl"
  by (cases pl) auto

text \<open>The limiter never deadlocks and leaks nothing: from every state it can reach, with a limit of
  at least one token, there is a run without new arrivals or cancellations after which every fetch has
  left and the map is empty again.\<close>

lemma limiter_drains:
  assumes "(lim_step n)\<^sup>*\<^sup>* (lim_init k) st" and "0 < n"
  shows "\<exists>st'. (lim_step n)\<^sup>*\<^sup>* st st' \<and> set (lm_threads st') \<subseteq> {Outside} \<and> lm_sems st' = (\<lambda>_. None)"
  using assms(1)
proof (induction "sum_list (map ahead (lm_threads st))" arbitrary: st rule: less_induct)
  case less
  note inv = lim_reachable [OF less.prems]
  show ?case
  proof (cases "set (lm_threads st) \<subseteq> {Outside}")
    case True
    then have "\<not> sited st key p" for key p by (auto simp: sited_def dest: nth_mem)
    then have "lm_sems st = (\<lambda>_. None)" using inv by (auto simp: map_ok_def fun_eq_iff) (metis not_None_eq)
    then show ?thesis using True by blast
  next
    case False
    then obtain i where "i < length (lm_threads st)" "lm_threads st ! i \<noteq> Outside" by (auto simp: set_conv_nth)
    with limiter_progress [of n st i] inv assms(2) obtain t st1 where t: "t < length (lm_threads st)"
      "lm_threads st ! t \<noteq> Outside" and s: "lim_step n st st1"
      and th: "lm_threads st1 = (lm_threads st)[t := onward (lm_threads st ! t)]" by blast
    have "sum_list (map ahead (lm_threads st1)) < sum_list (map ahead (lm_threads st))"
      using t ahead_onward [OF t(2)] elem_le_sum_list [of t "map ahead (lm_threads st)"]
      by (simp add: th map_update sum_list_update)
    from less.hyps [OF this rtranclp.rtrancl_into_rtrancl [OF less.prems s]] obtain st' where
      "(lim_step n)\<^sup>*\<^sup>* st1 st'" "set (lm_threads st') \<subseteq> {Outside}" "lm_sems st' = (\<lambda>_. None)" by blast
    then show ?thesis using s by (blast intro: converse_rtranclp_into_rtranclp)
  qed
qed

section \<open>A sample run\<close>

text \<open>Two fetches of one host with one token: the second waits while the first holds it.\<close>

definition busy :: limiter where
  "busy = \<lparr>lm_sems = [''h'' \<mapsto> 0], lm_heap = [\<lparr>hs_tokens = 1, hs_refs = 2\<rparr>],
     lm_threads = [Holding ''h'' 0, Waiting ''h'' 0]\<rparr>"

lemma busy_reachable: "(lim_step 1)\<^sup>*\<^sup>* (lim_init 2) busy"
proof -
  let ?a = "\<lparr>lm_sems = [''h'' \<mapsto> 0], lm_heap = [\<lparr>hs_tokens = 0, hs_refs = 1\<rparr>], lm_threads = [Waiting ''h'' 0, Outside]\<rparr>"
  let ?b = "\<lparr>lm_sems = [''h'' \<mapsto> 0], lm_heap = [\<lparr>hs_tokens = 0, hs_refs = 2\<rparr>], lm_threads = [Waiting ''h'' 0, Waiting ''h'' 0]\<rparr>"
  have "lim_step 1 (lim_init 2) ?a"
    using lim_step.enter [of 0 "lim_init 2" "''h''" 0 _ 1] by (simp add: lim_init_def acquire_ref_def move_def numeral_2_eq_2)
  moreover have "lim_step 1 ?a ?b"
    using lim_step.enter [of 1 ?a "''h''" 0 _ 1] by (simp add: acquire_ref_def move_def)
  moreover have "lim_step 1 ?b busy"
    using lim_step.take [of 0 ?b "''h''" 0 1] by (simp add: put_token_def move_def busy_def)
  ultimately show ?thesis by (meson rtranclp.rtrancl_into_rtrancl rtranclp.rtrancl_refl)
qed

theorem host_limit_witness: "count_where (holds_key ''h'') (lm_threads busy) \<le> 1 \<and> lm_sems busy ''x'' = None"
  using host_limit [OF busy_reachable, of "''h''"] host_limit [OF busy_reachable, of "''x''"]
  by (auto simp: busy_def)

end
