(* ===== verification/WorkerPool.thy ===== *)
theory WorkerPool
  imports Metrics GoInt "HOL-Library.Multiset"
begin

text \<open>
  \<open>internal/core/poller.go\<close> and \<open>scraper.go\<close>: \<open>Run\<close>, \<open>dispatch\<close> and \<open>pollOne\<close>/\<open>scrapeOne\<close>, as a step
  relation over the goroutines. The two files are the same program over feeds and over entries; what
  differs is in the record \<open>names\<close>. The jobs channel is unbuffered, so a send is one step with a worker
  at its receive. The steps of the program are apart from those of its environment: a tick, the
  cancellation of the context, the reply of the list query and the outcome of a job are any.
\<close>

section \<open>Configuration\<close>

record PoolConfig =
  pc_Tick :: duration
  pc_Batch :: int
  pc_Workers :: int

definition normalize_poller :: "PoolConfig \<Rightarrow> PoolConfig" where
  "normalize_poller c =
     (let c = (if pc_Workers c \<le> 0 then c\<lparr>pc_Workers := 20\<rparr> else c);
          c = (if pc_Batch c \<le> 0 then c\<lparr>pc_Batch := 100\<rparr> else c)
      in if pc_Tick c \<le> 0 then c\<lparr>pc_Tick := Minute\<rparr> else c)"

definition normalize_scraper :: "PoolConfig \<Rightarrow> PoolConfig" where
  "normalize_scraper c =
     (let c = (if pc_Workers c \<le> 0 then c\<lparr>pc_Workers := 20\<rparr> else c);
          c = (if pc_Batch c \<le> 0 then c\<lparr>pc_Batch := 50\<rparr> else c)
      in if pc_Tick c \<le> 0 then c\<lparr>pc_Tick := Minute\<rparr> else c)"

text \<open>The metrics a pool emits: of a tick, of a change of the in-flight gauge.\<close>

record names =
  nm_ticked :: "time \<Rightarrow> metric"
  nm_inflight :: "int \<Rightarrow> metric"

definition poller_names :: names where
  "poller_names = \<lparr>nm_ticked = PollerTicked, nm_inflight = AddPollInflight\<rparr>"

definition scraper_names :: names where
  "scraper_names = \<lparr>nm_ticked = ScraperTicked, nm_inflight = AddScrapeInflight\<rparr>"

section \<open>State\<close>

text \<open>Where the goroutine of \<open>Run\<close> is: before the list query of \<open>dispatch\<close>, sending, at the outer
  \<open>select\<close>, at \<open>wg.Wait\<close>, returned.\<close>

datatype 'j main = Listing | Sending "'j list" | Selecting | Waiting | Returned

text \<open>A worker: at its receive, in \<open>pollOne\<close> before the gauge, in the job, gone.\<close>

datatype 'j worker = Idle | Got 'j | Busy 'j | Gone

record 'j pool =
  pl_main :: "'j main"
  pl_workers :: "'j worker list"
  pl_done :: bool                \<comment> \<open>the context is cancelled\<close>
  pl_tick :: bool                \<comment> \<open>a tick is in the ticker's channel\<close>
  pl_closed :: bool              \<comment> \<open>\<open>jobs\<close> is closed\<close>
  pl_crashed :: bool             \<comment> \<open>a panic left a goroutine\<close>
  pl_trace :: "metric list"
  pl_sent :: "'j list"           \<comment> \<open>jobs handed to a worker, oldest first\<close>
  pl_finished :: "'j list"

definition run_init :: "nat \<Rightarrow> 'j pool" where
  "run_init n = \<lparr>pl_main = Listing, pl_workers = replicate n Idle, pl_done = False, pl_tick = False,
     pl_closed = False, pl_crashed = False, pl_trace = [], pl_sent = [], pl_finished = []\<rparr>"

section \<open>Operations\<close>

text \<open>\<open>dispatch\<close> up to its loop: the events, and the jobs to send (none on an error).\<close>

definition dispatch_list :: "names \<Rightarrow> time \<Rightarrow> gerr + 'j list \<Rightarrow> metric list \<times> 'j main" where
  "dispatch_list nm now reply =
     (case reply of
        Inr due \<Rightarrow> ([nm_ticked nm now], Sending due)
      | Inl e \<Rightarrow> (nm_ticked nm now # (if err_is SCanceled e then [] else [ErrorObserved CompDB ReasonInternal]), Selecting))"

definition RecoverGuard :: "unit outcome \<Rightarrow> unit outcome" where
  "RecoverGuard r = (case r of Ret u \<Rightarrow> Ret () | Panic p \<Rightarrow> Ret ())"

text \<open>\<open>pollOne\<close> after the gauge went up: the deferred gauge change, then the guard; an error of the job is
  logged.\<close>

definition job_end :: "names \<Rightarrow> gerr option outcome \<Rightarrow> metric list \<times> unit outcome" where
  "job_end nm r = ([nm_inflight nm (- 1)], RecoverGuard (case r of Ret e \<Rightarrow> Ret () | Panic p \<Rightarrow> Panic p))"

definition set_worker :: "nat \<Rightarrow> 'j worker \<Rightarrow> 'j pool \<Rightarrow> 'j pool" where
  "set_worker i x st = st\<lparr>pl_workers := (pl_workers st)[i := x]\<rparr>"

definition emits :: "metric list \<Rightarrow> 'j pool \<Rightarrow> 'j pool" where
  "emits ms st = st\<lparr>pl_trace := pl_trace st @ ms\<rparr>"

definition is_worker :: "nat \<Rightarrow> 'j worker \<Rightarrow> 'j pool \<Rightarrow> bool" where
  "is_worker i x st \<longleftrightarrow> i < length (pl_workers st) \<and> pl_workers st ! i = x"

section \<open>Steps\<close>

inductive run_step :: "names \<Rightarrow> 'j pool \<Rightarrow> 'j pool \<Rightarrow> bool" for nm where
  lists: "pl_main st = Listing \<Longrightarrow> dispatch_list nm now reply = (ms, m)
    \<Longrightarrow> run_step nm st (emits ms (st\<lparr>pl_main := m\<rparr>))"
| sends: "pl_main st = Sending (j # js) \<Longrightarrow> is_worker i Idle st
    \<Longrightarrow> run_step nm st (set_worker i (Got j) (st\<lparr>pl_main := Sending js, pl_sent := pl_sent st @ [j]\<rparr>))"
| abandons: "pl_main st = Sending (j # js) \<Longrightarrow> pl_done st \<Longrightarrow> run_step nm st (st\<lparr>pl_main := Selecting\<rparr>)"
| dispatched: "pl_main st = Sending [] \<Longrightarrow> run_step nm st (st\<lparr>pl_main := Selecting\<rparr>)"
| wakes: "pl_main st = Selecting \<Longrightarrow> pl_tick st \<Longrightarrow> run_step nm st (st\<lparr>pl_main := Listing, pl_tick := False\<rparr>)"
| closes: "pl_main st = Selecting \<Longrightarrow> pl_done st \<Longrightarrow> run_step nm st (st\<lparr>pl_main := Waiting, pl_closed := True\<rparr>)"
| begins: "is_worker i (Got j) st \<Longrightarrow> run_step nm st (emits [nm_inflight nm 1] (set_worker i (Busy j) st))"
| ends: "is_worker i (Busy j) st \<Longrightarrow> job_end nm r = (ms, v)
    \<Longrightarrow> run_step nm st (emits ms (set_worker i Idle (st\<lparr>pl_finished := pl_finished st @ [j], pl_crashed := (pl_crashed st \<or> v \<noteq> Ret ())\<rparr>)))"
| exits: "is_worker i Idle st \<Longrightarrow> pl_closed st \<Longrightarrow> run_step nm st (set_worker i Gone st)"
| returns: "pl_main st = Waiting \<Longrightarrow> set (pl_workers st) \<subseteq> {Gone} \<Longrightarrow> run_step nm st (st\<lparr>pl_main := Returned\<rparr>)"

text \<open>The environment: the ticker (which drops a tick nobody took), the cancellation.\<close>

inductive env_step :: "'j pool \<Rightarrow> 'j pool \<Rightarrow> bool" where
  tick: "env_step st (st\<lparr>pl_tick := True\<rparr>)"
| cancel: "env_step st (st\<lparr>pl_done := True\<rparr>)"

definition pool_step :: "names \<Rightarrow> 'j pool \<Rightarrow> 'j pool \<Rightarrow> bool" where
  "pool_step nm st st' \<longleftrightarrow> run_step nm st st' \<or> env_step st st'"

section \<open>The invariant\<close>

text \<open>The value of the in-flight gauge after the events.\<close>

fun delta :: "metric \<Rightarrow> int" where
  "delta (AddPollInflight d) = d"
| "delta (AddScrapeInflight d) = d"
| "delta _ = 0"

definition gauge :: "metric list \<Rightarrow> int" where
  "gauge ms = sum_list (map delta ms)"

fun busy :: "'j worker \<Rightarrow> bool" where
  "busy (Busy j) \<longleftrightarrow> True"
| "busy _ \<longleftrightarrow> False"

fun job_of :: "'j worker \<Rightarrow> 'j multiset" where
  "job_of (Got j) = {#j#}"
| "job_of (Busy j) = {#j#}"
| "job_of _ = {#}"

definition at_work :: "'j pool \<Rightarrow> 'j multiset" where
  "at_work st = sum_list (map job_of (pl_workers st))"

definition pool_inv :: "nat \<Rightarrow> 'j pool \<Rightarrow> bool" where
  "pool_inv n st \<longleftrightarrow> length (pl_workers st) = n \<and> \<not> pl_crashed st
     \<and> gauge (pl_trace st) = int (length (filter busy (pl_workers st)))
     \<and> mset (pl_sent st) = mset (pl_finished st) + at_work st
     \<and> (pl_closed st \<longleftrightarrow> pl_main st = Waiting \<or> pl_main st = Returned)
     \<and> (pl_main st = Returned \<longrightarrow> set (pl_workers st) \<subseteq> {Gone})
     \<and> (Gone \<in> set (pl_workers st) \<longrightarrow> pl_closed st)"

definition pool_names :: "names \<Rightarrow> bool" where
  "pool_names nm \<longleftrightarrow> nm = poller_names \<or> nm = scraper_names"

lemma gauge_simps [simp]: "gauge [] = 0" "gauge (m # ms) = delta m + gauge ms" "gauge (ms @ ms') = gauge ms + gauge ms'"
  by (simp_all add: gauge_def)

lemma delta_names: "pool_names nm \<Longrightarrow> delta (nm_inflight nm d) = d" "pool_names nm \<Longrightarrow> delta (nm_ticked nm t) = 0"
  by (auto simp: pool_names_def poller_names_def scraper_names_def)

lemma pool_simps [simp]:
  "pl_main (set_worker i x st) = pl_main st" "pl_workers (set_worker i x st) = (pl_workers st)[i := x]"
  "pl_done (set_worker i x st) = pl_done st" "pl_tick (set_worker i x st) = pl_tick st"
  "pl_closed (set_worker i x st) = pl_closed st" "pl_crashed (set_worker i x st) = pl_crashed st"
  "pl_trace (set_worker i x st) = pl_trace st" "pl_sent (set_worker i x st) = pl_sent st"
  "pl_finished (set_worker i x st) = pl_finished st"
  "pl_main (emits ms st) = pl_main st" "pl_workers (emits ms st) = pl_workers st"
  "pl_done (emits ms st) = pl_done st" "pl_tick (emits ms st) = pl_tick st"
  "pl_closed (emits ms st) = pl_closed st" "pl_crashed (emits ms st) = pl_crashed st"
  "pl_trace (emits ms st) = pl_trace st @ ms" "pl_sent (emits ms st) = pl_sent st"
  "pl_finished (emits ms st) = pl_finished st"
  by (simp_all add: set_worker_def emits_def)

text \<open>One worker changes.\<close>

lemma sum_job_update:
  "i < length ws \<Longrightarrow> sum_list (map job_of (ws[i := x])) + job_of (ws ! i) = sum_list (map job_of ws) + job_of x"
proof (induction ws arbitrary: i)
  case Nil
  then show ?case by simp
next
  case (Cons y ys)
  then show ?case by (cases i) (auto simp: ac_simps)
qed

lemma busy_update:
  "i < length ws \<Longrightarrow> int (length (filter busy (ws[i := x]))) = int (length (filter busy ws)) - of_bool (busy (ws ! i)) + of_bool (busy x)"
proof (induction ws arbitrary: i)
  case Nil
  then show ?case by simp
next
  case (Cons y ys)
  then show ?case by (cases i) auto
qed

lemma gone_update: "i < length ws \<Longrightarrow> Gone \<in> set (ws[i := x]) \<Longrightarrow> Gone \<in> set ws \<or> x = Gone"
  using set_update_subset_insert [of ws i x] by auto

lemma at_work_set_worker:
  "is_worker i x st \<Longrightarrow> at_work (set_worker i y st) + job_of x = at_work st + job_of y"
  using sum_job_update [of i "pl_workers st" y] by (auto simp: at_work_def is_worker_def)

lemma busy_set_worker:
  "is_worker i x st \<Longrightarrow> int (length (filter busy (pl_workers (set_worker i y st))))
     = int (length (filter busy (pl_workers st))) - of_bool (busy x) + of_bool (busy y)"
  using busy_update [of i "pl_workers st" y] by (auto simp: is_worker_def)

lemma at_work_cong: "pl_workers st = pl_workers st' \<Longrightarrow> at_work st = at_work st'"
  by (simp add: at_work_def)

text \<open>A worker that changes keeps its place; only a worker that exits becomes \<open>Gone\<close>.\<close>

lemma inv_set_worker:
  assumes "pool_inv n st" and "is_worker i x st" and "x \<noteq> Gone" and "y = Gone \<longrightarrow> pl_closed st"
    and "pl_workers st' = (pl_workers st)[i := y]" and "pl_closed st' = pl_closed st" and "\<not> pl_crashed st'"
    and "pl_main st' = pl_main st \<or> (\<exists>js js'. pl_main st = Sending js \<and> pl_main st' = Sending js')"
    and "gauge (pl_trace st') = gauge (pl_trace st) - of_bool (busy x) + of_bool (busy y)"
    and "mset (pl_sent st') + mset (pl_finished st) + job_of x = mset (pl_finished st') + mset (pl_sent st) + job_of y"
  shows "pool_inv n st'"
proof -
  have i: "i < length (pl_workers st)" "pl_workers st ! i = x" using assms(2) by (simp_all add: is_worker_def)
  have "mset (pl_sent st') + mset (pl_finished st) + job_of x + at_work st
      = mset (pl_finished st') + mset (pl_sent st) + job_of y + at_work st" using assms(10) by simp
  also have "\<dots> = mset (pl_finished st') + mset (pl_sent st) + (at_work st' + job_of x)"
    using sum_job_update [OF i(1), of y] i(2) by (simp add: at_work_def assms(5) ac_simps)
  finally have "mset (pl_sent st') = mset (pl_finished st') + at_work st'"
    using assms(1) by (simp add: pool_inv_def ac_simps)
  moreover have "gauge (pl_trace st') = int (length (filter busy (pl_workers st')))"
    using assms(1,9) busy_update [OF i(1), of y] i(2) by (simp add: pool_inv_def assms(5))
  moreover have "pl_main st \<noteq> Returned"
    using assms(1,3) i unfolding pool_inv_def by (metis nth_mem singletonD subsetD)
  then have "pl_main st' \<noteq> Returned" using assms(8) by auto
  moreover have "Gone \<in> set (pl_workers st') \<Longrightarrow> pl_closed st'"
    using gone_update [OF i(1), of y] assms(1,4) by (auto simp: assms(5,6) pool_inv_def)
  ultimately show ?thesis using assms(1,5-8) by (auto simp: pool_inv_def)
qed

lemma inv_main:
  assumes "pool_inv n st" and "pl_workers st' = pl_workers st" and "pl_crashed st' = pl_crashed st"
    and "gauge (pl_trace st') = gauge (pl_trace st)" and "pl_sent st' = pl_sent st" and "pl_finished st' = pl_finished st"
    and "pl_closed st' \<longleftrightarrow> pl_main st' = Waiting \<or> pl_main st' = Returned" and "pl_closed st \<longrightarrow> pl_closed st'"
    and "pl_main st' = Returned \<longrightarrow> set (pl_workers st) \<subseteq> {Gone}"
  shows "pool_inv n st'"
  using assms by (auto simp: pool_inv_def at_work_def)

lemma run_step_inv:
  assumes "run_step nm st st'" and "pool_inv n st" and "pool_names nm"
  shows "pool_inv n st'"
  using assms(1)
proof cases
  case (lists now reply ms m)
  then have "gauge ms = 0" "m \<noteq> Waiting" "m \<noteq> Returned"
    using delta_names(2) [OF assms(3)] by (auto simp: dispatch_list_def split: sum.splits)
  with lists show ?thesis using assms(2) by (intro inv_main [OF assms(2)]) (auto simp: pool_inv_def)
next
  case (sends j js i)
  then show ?thesis using assms(2)
    by (intro inv_set_worker [OF assms(2), of i Idle "Got j"]) (auto simp: pool_inv_def)
next
  case (begins i j)
  then show ?thesis using assms(2) delta_names(1) [OF assms(3)]
    by (intro inv_set_worker [OF assms(2), of i "Got j" "Busy j"]) (auto simp: pool_inv_def)
next
  case (ends i j r ms v)
  then have "v = Ret ()" "gauge ms = - 1"
    using delta_names(1) [OF assms(3)] by (auto simp: job_end_def RecoverGuard_def split: outcome.splits)
  with ends show ?thesis using assms(2)
    by (intro inv_set_worker [OF assms(2), of i "Busy j" Idle]) (auto simp: pool_inv_def)
next
  case (exits i)
  then show ?thesis using assms(2)
    by (intro inv_set_worker [OF assms(2), of i Idle Gone]) (auto simp: pool_inv_def)
qed (use assms(2) in \<open>auto intro!: inv_main [OF assms(2)] simp: pool_inv_def at_work_def\<close>)

lemma pool_reachable:
  assumes "(pool_step nm)\<^sup>*\<^sup>* (run_init n) st" and "pool_names nm"
  shows "pool_inv n st"
  using assms(1)
proof (induction rule: rtranclp_induct)
  case base
  have "sum_list (map job_of (replicate n Idle)) = {#}" by (induction n) auto
  then show ?case by (auto simp: run_init_def pool_inv_def at_work_def)
next
  case (step st st')
  then have "run_step nm st st' \<or> env_step st st'" by (simp add: pool_step_def)
  then show ?case
  proof
    assume "run_step nm st st'"
    then show ?case using step.IH assms(2) by (rule run_step_inv)
  next
    assume "env_step st st'"
    then show ?case using step.IH by cases (auto simp: pool_inv_def at_work_def)
  qed
qed

lemma job_of_gone: "sum_list (map job_of (replicate k Gone)) = {#}"
  by (induction k) auto

section \<open>Safety\<close>

text \<open>C16. In every interleaving of dispatcher, workers, ticks and shutdown, with any jobs that return,
  fail or panic: the in-flight gauge is the number of jobs running and never above the number of
  workers, no panic leaves a worker, nothing is sent on the closed channel, and when \<open>Run\<close> returns every
  worker is gone, the gauge is zero and exactly the jobs that were handed out have finished.\<close>

theorem pool_safe:
  assumes "(pool_step nm)\<^sup>*\<^sup>* (run_init n) st" and "pool_names nm"
  shows "gauge (pl_trace st) = int (length (filter busy (pl_workers st))) \<and> gauge (pl_trace st) \<le> int n
    \<and> \<not> pl_crashed st \<and> (pl_closed st \<longrightarrow> pl_main st = Waiting \<or> pl_main st = Returned)
    \<and> (pl_main st = Returned \<longrightarrow> set (pl_workers st) \<subseteq> {Gone} \<and> gauge (pl_trace st) = 0
         \<and> mset (pl_sent st) = mset (pl_finished st))"
proof -
  have i: "pool_inv n st" by (rule pool_reachable [OF assms])
  have "length (filter busy (pl_workers st)) \<le> n" using i by (auto simp: pool_inv_def)
  moreover have "filter busy (pl_workers st) = [] \<and> at_work st = {#}" if "set (pl_workers st) \<subseteq> {Gone}"
  proof -
    have "pl_workers st = replicate (length (pl_workers st)) Gone" using that by (intro replicate_eqI) auto
    then obtain k where k: "pl_workers st = replicate k Gone" by blast
    show ?thesis unfolding at_work_def k by (simp add: job_of_gone del: map_replicate)
  qed
  ultimately show ?thesis using i by (auto simp: pool_inv_def)
qed

section \<open>Shutdown\<close>

text \<open>Every step of the program brings it nearer to rest: a measure on the tick, the place of \<open>Run\<close>, the
  jobs still to send and the places of the workers.\<close>

fun main_rank :: "'j main \<Rightarrow> nat" where
  "main_rank Listing = 4"
| "main_rank (Sending js) = 3"
| "main_rank Selecting = 2"
| "main_rank Waiting = 1"
| "main_rank Returned = 0"

fun to_send :: "'j main \<Rightarrow> nat" where
  "to_send (Sending js) = length js"
| "to_send _ = 0"

fun worker_rank :: "'j worker \<Rightarrow> nat" where
  "worker_rank (Got j) = 3"
| "worker_rank (Busy j) = 2"
| "worker_rank Idle = 1"
| "worker_rank Gone = 0"

definition distance :: "'j pool \<Rightarrow> nat \<times> nat \<times> nat \<times> nat" where
  "distance st = (of_bool (pl_tick st), main_rank (pl_main st), to_send (pl_main st),
     sum_list (map worker_rank (pl_workers st)))"

definition nearer :: "('j pool \<times> 'j pool) set" where
  "nearer = inv_image (less_than <*lex*> less_than <*lex*> less_than <*lex*> less_than) distance"

lemma wf_nearer: "wf nearer"
  by (simp add: nearer_def wf_inv_image wf_lex_prod)

lemma worker_rank_update:
  "is_worker i x st \<Longrightarrow> worker_rank y < worker_rank x \<Longrightarrow>
     sum_list (map worker_rank ((pl_workers st)[i := y])) < sum_list (map worker_rank (pl_workers st))"
  using elem_le_sum_list [of i "map worker_rank (pl_workers st)"]
  by (auto simp: is_worker_def map_update sum_list_update)

lemma run_step_nearer: "run_step nm st st' \<Longrightarrow> (st', st) \<in> nearer"
proof (induction rule: run_step.induct)
  case (lists st now reply ms m)
  then show ?case by (auto simp: nearer_def distance_def dispatch_list_def split: sum.splits)
qed (auto simp: nearer_def distance_def worker_rank_update)

text \<open>A pool that is done and has not returned can go on.\<close>

lemma done_progress:
  assumes "pool_inv n st" and "pl_done st" and "pl_main st \<noteq> Returned"
  shows "\<exists>st'. run_step nm (st :: 'a pool) st'"
proof (cases "pl_main st")
  case Listing
  obtain ms and m :: "'a main" where d: "dispatch_list nm 0 (Inr ([] :: 'a list)) = (ms, m)" by fastforce
  show ?thesis using run_step.lists [OF Listing d] by blast
next
  case (Sending js)
  show ?thesis
  proof (cases js)
    case Nil
    show ?thesis by (rule exI, rule run_step.dispatched) (simp add: Sending Nil)
  next
    case (Cons j js')
    show ?thesis by (rule exI, rule run_step.abandons [of st j js']) (simp_all add: Sending Cons assms(2))
  qed
next
  case Selecting
  then show ?thesis using assms(2) run_step.closes by blast
next
  case Waiting
  have c: "pl_closed st" using assms(1) Waiting by (simp add: pool_inv_def)
  show ?thesis
  proof (cases "set (pl_workers st) \<subseteq> {Gone}")
    case True
    then show ?thesis using run_step.returns [OF Waiting] by blast
  next
    case False
    then obtain i where i: "i < length (pl_workers st)" "pl_workers st ! i \<noteq> Gone" by (auto simp: set_conv_nth)
    show ?thesis
    proof (cases "pl_workers st ! i")
      case Idle
      then show ?thesis using run_step.exits [of i st] i c by (auto simp: is_worker_def)
    next
      case (Got j)
      then show ?thesis using run_step.begins [of i j st] i by (auto simp: is_worker_def)
    next
      case (Busy j)
      obtain ms v where e: "job_end nm (Ret None) = (ms, v)" by fastforce
      have "is_worker i (Busy j) st" using Busy i by (simp add: is_worker_def)
      from run_step.ends [OF this e] show ?thesis by blast
    qed (use i in simp)
  qed
qed (use assms(3) in simp)

lemma run_step_done: "run_step nm st st' \<Longrightarrow> pl_done st' = pl_done st"
  by (induction rule: run_step.induct) auto

text \<open>C17. \<open>Run\<close> stops: between two events of the environment a pool takes finitely many steps (there is
  no infinite run of the program's own steps), and once the context is cancelled it cannot get stuck
  before it returned; so after the cancellation every run without further ticks ends with \<open>Run\<close>
  returned, whatever the jobs under way do.\<close>

theorem pool_stops:
  fixes st :: "'a pool"
  assumes "(pool_step nm)\<^sup>*\<^sup>* (run_init n) st" and "pool_names nm" and "pl_done st"
  shows "wfP (\<lambda>s' s :: 'a pool. run_step nm s s')
    \<and> (\<forall>s. (run_step nm)\<^sup>*\<^sup>* st s \<longrightarrow> pl_main s \<noteq> Returned \<longrightarrow> (\<exists>s'. run_step nm s s'))
    \<and> (\<exists>s. (run_step nm)\<^sup>*\<^sup>* st s \<and> pl_main s = Returned)"
proof -
  have w: "wfP (\<lambda>s' s :: 'a pool. run_step nm s s')"
    proof (unfold wfp_def, rule wf_subset [OF wf_nearer], rule subsetI)
    fix p :: "'a pool \<times> 'a pool"
    assume "p \<in> {(s', s). run_step nm s s'}"
    then obtain s' s where "p = (s', s)" "run_step nm s s'" by blast
    then show "p \<in> nearer" using run_step_nearer by blast
  qed
  have reach: "pool_inv n s \<and> pl_done s" if "(run_step nm)\<^sup>*\<^sup>* st s" for s
    using that
  proof (induction rule: rtranclp_induct)
    case base
    show ?case using pool_reachable [OF assms(1,2)] assms(3) by simp
  next
    case (step s s')
    then show ?case using run_step_inv [OF step.hyps(2) _ assms(2)] run_step_done by blast
  qed
  have go: "\<exists>s'. run_step nm s s'" if "(run_step nm)\<^sup>*\<^sup>* st s" "pl_main s \<noteq> Returned" for s
    using done_progress reach [OF that(1)] that(2) by blast
  have "\<exists>s'. (run_step nm)\<^sup>*\<^sup>* s s' \<and> pl_main s' = Returned" if "(run_step nm)\<^sup>*\<^sup>* st s" for s
    using w that
  proof (induction s rule: wfp_induct_rule)
    case (less s)
    show ?case
    proof (cases "pl_main s = Returned")
      case False
      then obtain s' where s': "run_step nm s s'" using go less.prems by blast
      then have "(run_step nm)\<^sup>*\<^sup>* st s'" using less.prems by simp
      from less.IH [OF s' this] obtain t where "(run_step nm)\<^sup>*\<^sup>* s' t" "pl_main t = Returned" by blast
      then show ?thesis using converse_rtranclp_into_rtranclp [of "run_step nm", OF s'] by blast
    qed blast
  qed
  from this [OF rtranclp.rtrancl_refl] have "\<exists>s'. (run_step nm)\<^sup>*\<^sup>* st s' \<and> pl_main s' = Returned" .
  with w go show ?thesis by simp
qed

section \<open>A sample run\<close>

text \<open>One worker takes a feed; then the context is cancelled.\<close>

definition cancelled_pool :: "nat pool" where
  "cancelled_pool = \<lparr>pl_main = Sending [], pl_workers = [Got 7], pl_done = True, pl_tick = False,
     pl_closed = False, pl_crashed = False, pl_trace = [PollerTicked 0], pl_sent = [7], pl_finished = []\<rparr>"

lemma cancelled_pool_reachable: "(pool_step poller_names)\<^sup>*\<^sup>* (run_init 1) cancelled_pool"
proof -
  let ?a = "\<lparr>pl_main = Sending [7], pl_workers = [Idle], pl_done = False, pl_tick = False, pl_closed = False,
     pl_crashed = False, pl_trace = [PollerTicked 0], pl_sent = [], pl_finished = []\<rparr> :: nat pool"
  let ?b = "\<lparr>pl_main = Sending [], pl_workers = [Got 7], pl_done = False, pl_tick = False, pl_closed = False,
     pl_crashed = False, pl_trace = [PollerTicked 0], pl_sent = [7], pl_finished = []\<rparr> :: nat pool"
  have "pool_step poller_names (run_init 1) ?a"
    using run_step.lists [of "run_init 1" poller_names 0 "Inr [7]" "[PollerTicked 0]" "Sending [7 :: nat]"]
    by (simp add: pool_step_def run_init_def dispatch_list_def poller_names_def emits_def)
  moreover have "pool_step poller_names ?a ?b"
    using run_step.sends [of ?a 7 "[]" 0 poller_names] by (simp add: pool_step_def is_worker_def set_worker_def)
  moreover have "pool_step poller_names ?b cancelled_pool"
    using env_step.cancel [of ?b] by (simp add: pool_step_def cancelled_pool_def)
  ultimately show ?thesis by (meson rtranclp.rtrancl_into_rtrancl rtranclp.rtrancl_refl)
qed

theorem pool_safe_witness: "gauge (pl_trace cancelled_pool) = 0 \<and> gauge (pl_trace cancelled_pool) \<le> 1"
  using pool_safe [OF cancelled_pool_reachable] by (simp add: pool_names_def cancelled_pool_def)

theorem pool_stops_witness: "\<exists>s. (run_step poller_names)\<^sup>*\<^sup>* cancelled_pool s \<and> pl_main s = Returned"
proof -
  have "pool_names poller_names" "pl_done cancelled_pool" by (simp_all add: pool_names_def cancelled_pool_def)
  from pool_stops [OF cancelled_pool_reachable this] show ?thesis by blast
qed

end
