(* ===== verification/GoBytes.thy ===== *)
theory GoBytes
  imports FeedUrl
begin

text \<open>
  What the code uses of \<open>encoding/hex\<close>, \<open>unicode/utf8\<close> and \<open>strings.Index\<close>, on byte strings. A
  reader is the bytes that arrive and the error after them, if any.
\<close>

type_synonym reader = "string \<times> gerr option"

section \<open>\<open>encoding/hex\<close>\<close>

definition hex_encode :: "string \<Rightarrow> string" where
  "hex_encode s = concat (map (\<lambda>c. let n = (of_char c :: nat) in [hex_digit (n div 16), hex_digit (n mod 16)]) s)"

definition hex_val :: "char \<Rightarrow> nat option" where
  "hex_val c = (let n = (of_char c :: nat) in
     if 48 \<le> n \<and> n \<le> 57 then Some (n - 48)
     else if 97 \<le> n \<and> n \<le> 102 then Some (n - 87)
     else if 65 \<le> n \<and> n \<le> 70 then Some (n - 55) else None)"

text \<open>\<open>hex.DecodeString\<close>; \<open>None\<close> is an error (a bad digit or an odd length).\<close>

fun hex_decode :: "string \<Rightarrow> string option" where
  "hex_decode [] = Some []"
| "hex_decode [c] = None"
| "hex_decode (c # d # s) =
     (case (hex_val c, hex_val d) of
        (Some a, Some b) \<Rightarrow> map_option ((#) (char_of (16 * a + b))) (hex_decode s)
      | _ \<Rightarrow> None)"

lemma hex_val_digit: "n < 16 \<Longrightarrow> hex_val (hex_digit n) = Some n"
proof -
  assume "n < 16"
  then have "n \<in> set [0..<16]" by simp
  then show ?thesis by (simp add: upt_rec hex_digit_def hex_val_def) (elim disjE; simp)
qed

lemma hex_decode_encode [simp]: "hex_decode (hex_encode s) = Some s"
proof (induction s)
  case Nil
  then show ?case by (simp add: hex_encode_def)
next
  case (Cons c s)
  have "(of_char c :: nat) < 256" by (rule nat_of_char_less_256)
  then have "(of_char c :: nat) div 16 < 16" by (simp only: div_less_iff_less_mult)
  moreover have "(of_char c :: nat) mod 16 < 16" by simp
  ultimately show ?case using Cons by (simp add: hex_encode_def Let_def hex_val_digit)
qed

lemma hex_encode_inj [simp]: "hex_encode s = hex_encode t \<longleftrightarrow> s = t"
  by (metis hex_decode_encode option.inject)

section \<open>\<open>unicode/utf8\<close>\<close>

definition byte_in :: "nat \<Rightarrow> nat \<Rightarrow> char \<Rightarrow> bool" where
  "byte_in lo hi c \<longleftrightarrow> lo \<le> (of_char c :: nat) \<and> (of_char c :: nat) \<le> hi"

definition cont_byte :: "char \<Rightarrow> bool" where "cont_byte = byte_in 0x80 0xBF"

text \<open>The length of the well-formed encoding a string starts with, 0 for none (the table of
  \<open>utf8.first\<close> and its accept ranges).\<close>

fun rune_len :: "string \<Rightarrow> nat" where
  "rune_len [] = 0"
| "rune_len (a # s) =
     (if byte_in 0 0x7F a then 1
      else if byte_in 0xC2 0xDF a then (case s of b # _ \<Rightarrow> if cont_byte b then 2 else 0 | _ \<Rightarrow> 0)
      else if byte_in 0xE0 0xEF a then
        (case s of
           b # c # _ \<Rightarrow>
             if (if a = CHR 0xE0 then byte_in 0xA0 0xBF b else if a = CHR 0xED then byte_in 0x80 0x9F b else cont_byte b)
               \<and> cont_byte c then 3 else 0
         | _ \<Rightarrow> 0)
      else if byte_in 0xF0 0xF4 a then
        (case s of
           b # c # d # _ \<Rightarrow>
             if (if a = CHR 0xF0 then byte_in 0x90 0xBF b else if a = CHR 0xF4 then byte_in 0x80 0x8F b else cont_byte b)
               \<and> cont_byte c \<and> cont_byte d then 4 else 0
         | _ \<Rightarrow> 0)
      else 0)"

lemma rune_len_le: "rune_len s \<le> length s"
  by (cases s) (auto split: list.splits)

text \<open>\<open>utf8.Valid\<close>.\<close>

function utf8_valid :: "string \<Rightarrow> bool" where
  "utf8_valid s =
     (if s = [] then True else if rune_len s = 0 then False else utf8_valid (drop (rune_len s) s))"
  by pat_completeness auto
termination
  by (relation "measure length") auto

declare utf8_valid.simps [simp del]

text \<open>The runes of a string; a byte that starts no well-formed encoding is a rune (U+FFFD) by itself.\<close>

function runes_of :: "string \<Rightarrow> string list" where
  "runes_of s = (if s = [] then [] else let n = max 1 (rune_len s) in take n s # runes_of (drop n s))"
  by pat_completeness auto
termination
  by (relation "measure length") auto

declare runes_of.simps [simp del]

lemma concat_runes_of: "concat (runes_of s) = s"
proof (induction s rule: runes_of.induct)
  case (1 s)
  then show ?case by (subst runes_of.simps) (auto simp: Let_def)
qed

section \<open>\<open>strings.Index\<close>\<close>

text \<open>The text before the first occurrence of \<open>sub\<close>.\<close>

fun before :: "string \<Rightarrow> string \<Rightarrow> string option" where
  "before sub s =
     (if has_prefix s sub then Some []
      else case s of [] \<Rightarrow> None | c # t \<Rightarrow> map_option ((#) c) (before sub t))"

declare before.simps [simp del]

lemma before_split: "before sub s = Some a \<Longrightarrow> \<exists>b. s = a @ sub @ b"
proof (induction s arbitrary: a)
  case Nil
  then show ?case by (auto simp: before.simps [of sub "[]"] has_prefix_iff split: if_splits)
next
  case (Cons c t)
  then show ?case by (auto simp: before.simps [of sub "c # t"] has_prefix_iff split: if_splits)
qed

end
