(* ===== verification/Parse.thy ===== *)
theory Parse
  imports GoBytes SqliteEntries
begin

text \<open>
  \<open>internal/parse/parse.go\<close> and \<open>translator.go\<close>. The parsers of \<open>gofeed\<close>, \<open>encoding/xml\<close> and
  \<open>x/net/html\<close>, the charset sniffer and SHA-256 are the argument \<open>lib\<close>; what they return are the records
  of the fields the code reads.
\<close>

section \<open>What the libraries return\<close>

text \<open>\<open>gofeed.Item\<close> and \<open>gofeed.Feed\<close>; \<open>gf_sy\<close> are the values of the \<open>sy\<close> extension elements by name.\<close>

record GItem =
  gi_GUID :: string
  gi_Link :: string
  gi_Title :: string
  gi_Description :: string
  gi_Content :: string
  gi_Author :: "string option"
  gi_Published :: "time option"
  gi_Updated :: "time option"
  gi_Custom :: "string \<Rightarrow> string option"

record GFeed =
  gf_Type :: string
  gf_Title :: string
  gf_Description :: string
  gf_Link :: string
  gf_Items :: "GItem list"
  gf_sy :: "(string \<Rightarrow> string list) option"

text \<open>A document before the translation: an RSS feed with the \<open>Comments\<close> of its raw items and what the
  default translator makes of it, or a feed of another kind, which has its own translator.\<close>

datatype raw_feed = RawRSS "string list" "gerr + GFeed" | RawOther "gerr + GFeed"

text \<open>An \<open>xml.StartElement\<close> with its name space and the text \<open>DecodeElement\<close> gives (\<open>None\<close>: an error), or
  any other token.\<close>

datatype xml_token = StartElement string string "string option" | OtherToken

text \<open>An \<open>html.Node\<close>: an element with its name, attributes and children, or another kind of node.\<close>

datatype html_node = Element string "(string \<times> string) list" "html_node list" | OtherNode "html_node list"

record parse_lib =
  pl_url :: url_lib
  pl_resolve :: "URL \<Rightarrow> URL \<Rightarrow> URL"                     \<comment> \<open>\<open>ResolveReference\<close>\<close>
  pl_gofeed :: "reader \<Rightarrow> gerr + raw_feed"
  pl_charset :: "string \<Rightarrow> string \<Rightarrow> (string \<Rightarrow> reader) \<times> bool"  \<comment> \<open>\<open>DetermineEncoding\<close>: decoder, certain\<close>
  pl_tokens :: "string \<Rightarrow> xml_token list"
  pl_html :: "string \<Rightarrow> gerr + html_node"
  pl_sha256 :: "string \<Rightarrow> string"
  pl_unescape :: "string \<Rightarrow> string"                       \<comment> \<open>\<open>html.UnescapeString\<close>\<close>

section \<open>Hashes\<close>

definition hashStr :: "parse_lib \<Rightarrow> string \<Rightarrow> string" where
  "hashStr lib s = hex_encode (pl_sha256 lib s)"

fun joinFields :: "string list \<Rightarrow> string" where
  "joinFields [] = []"
| "joinFields (p # ps) = FormatInt (int (length p)) @ '':'' @ p @ joinFields ps"

definition EntryHash :: "parse_lib \<Rightarrow> string \<Rightarrow> string \<Rightarrow> string \<Rightarrow> string" where
  "EntryHash lib title content summary = hashStr lib (joinFields [title, content, summary])"

section \<open>The character set\<close>

definition hasXMLEncodingDecl :: "string \<Rightarrow> bool" where
  "hasXMLEncodingDecl data =
     (let data = (if 512 < length data then take 512 data else data);
          s = strip_lead [[CHR 0xEF, CHR 0xBB, CHR 0xBF], [CHR 0x20], [CHR 0x09], [CHR 0x0D], [CHR 0x0A]] data
      in if \<not> has_prefix s ''<?xml'' then False
         else case before ''?>'' s of
             None \<Rightarrow> False
           | Some decl \<Rightarrow> str_contains decl ''encoding='')"

definition decodeReader :: "parse_lib \<Rightarrow> string \<Rightarrow> string \<Rightarrow> reader" where
  "decodeReader lib data contentType =
     (if hasXMLEncodingDecl data then (data, None)
      else let (dec, certain) = pl_charset lib data contentType
           in if certain \<or> \<not> utf8_valid data then dec data else (data, None))"

section \<open>URLs\<close>

definition resolve :: "parse_lib \<Rightarrow> URL option \<Rightarrow> string \<Rightarrow> string" where
  "resolve lib base ref =
     (case base of
        None \<Rightarrow> ref
      | Some b \<Rightarrow>
          if ref = [] then ref
          else case ul_Parse (pl_url lib) ref of
              None \<Rightarrow> ref
            | Some u \<Rightarrow> ul_String (pl_url lib) (pl_resolve lib b u))"

definition commentsURL :: "parse_lib \<Rightarrow> URL option \<Rightarrow> string \<Rightarrow> string" where
  "commentsURL lib base raw =
     (let raw = TrimSpace raw in
      if raw = [] then []
      else case ul_Parse (pl_url lib) raw of
          None \<Rightarrow> []
        | Some u \<Rightarrow>
            if u_Scheme u \<noteq> [] then raw
            else if list_ex (has_prefix raw) [''/'', ''./'', ''../'', ''#'', ''?''] then resolve lib base raw
            else [])"

section \<open>The publisher's interval\<close>

fun rssTTLMinutes :: "xml_token list \<Rightarrow> int" where
  "rssTTLMinutes [] = 0"
| "rssTTLMinutes (OtherToken # ts) = rssTTLMinutes ts"
| "rssTTLMinutes (StartElement space local v # ts) =
     (if local = ''item'' \<or> local = ''entry'' then 0
      else if local = ''ttl'' \<and> space = [] then
        (case v of
           None \<Rightarrow> 0
         | Some v \<Rightarrow> (case ParseInt (TrimSpace v) of Some n \<Rightarrow> if 0 < n then n else 0 | None \<Rightarrow> 0))
      else rssTTLMinutes ts)"

definition extValue :: "(string \<Rightarrow> string list) \<Rightarrow> string \<Rightarrow> string" where
  "extValue m key = (case m key of [] \<Rightarrow> [] | v # _ \<Rightarrow> v)"

definition period_base :: "string \<Rightarrow> duration option" where
  "period_base period =
     (if period = ''hourly'' then Some Hour
      else if period = ''daily'' then Some (24 * Hour)
      else if period = ''weekly'' then Some (7 * 24 * Hour)
      else if period = ''monthly'' then Some (30 * 24 * Hour)
      else if period = ''yearly'' then Some (365 * 24 * Hour)
      else None)"

definition sy_freq :: "string \<Rightarrow> int" where
  "sy_freq fs =
     (if fs \<noteq> [] then (case ParseInt (TrimSpace fs) of Some n \<Rightarrow> if 0 < n then n else 1 | None \<Rightarrow> 1) else 1)"

definition syInterval :: "parse_lib \<Rightarrow> GFeed \<Rightarrow> duration" where
  "syInterval lib f =
     (case gf_sy f of
        None \<Rightarrow> 0
      | Some sy \<Rightarrow>
          if extValue sy ''updatePeriod'' = [] then 0
          else case period_base (ToLower (ul_lower (pl_url lib)) (TrimSpace (extValue sy ''updatePeriod''))) of
              None \<Rightarrow> 0
            | Some base \<Rightarrow> go_div base (sy_freq (extValue sy ''updateFrequency'')))"

definition feedTTL :: "parse_lib \<Rightarrow> GFeed \<Rightarrow> string \<Rightarrow> duration" where
  "feedTTL lib f data =
     (let ttl = (if gf_Type f = ''rss''
                 then let m = rssTTLMinutes (pl_tokens lib data) in if 0 < m then i64 (m * Minute) else 0
                 else 0);
          sy = syInterval lib f
      in if ttl < sy then sy else ttl)"

section \<open>The translator\<close>

definition commentsCustomKey :: string where "commentsCustomKey = ''comments''"

definition carry_comments :: "string \<Rightarrow> GItem \<Rightarrow> GItem" where
  "carry_comments comments it =
     (if comments = [] then it else it\<lparr>gi_Custom := (gi_Custom it)(commentsCustomKey \<mapsto> comments)\<rparr>)"

definition Translate :: "string list \<Rightarrow> gerr + GFeed \<Rightarrow> gerr + GFeed" where
  "Translate comments inner =
     (case inner of
        Inl e \<Rightarrow> Inl e
      | Inr f \<Rightarrow>
          if length comments \<noteq> length (gf_Items f) then Inr f
          else Inr (f\<lparr>gf_Items := map2 carry_comments comments (gf_Items f)\<rparr>))"

definition gofeed_Parse :: "parse_lib \<Rightarrow> reader \<Rightarrow> gerr + GFeed" where
  "gofeed_Parse lib r =
     (case pl_gofeed lib r of
        Inl e \<Rightarrow> Inl e
      | Inr (RawRSS comments inner) \<Rightarrow> Translate comments inner
      | Inr (RawOther f) \<Rightarrow> f)"

section \<open>\<open>Parse\<close>\<close>

definition item_guid :: "parse_lib \<Rightarrow> string \<Rightarrow> nat \<Rightarrow> GItem \<Rightarrow> string" where
  "item_guid lib link i it =
     (if gi_GUID it = []
      then let parts = [link, gi_Title it];
               parts = (if link = [] \<and> gi_Title it = [] then parts @ [FormatInt (int i)] else parts)
           in hashStr lib (joinFields parts)
      else gi_GUID it)"

definition parse_item :: "parse_lib \<Rightarrow> URL option \<Rightarrow> nat \<Rightarrow> GItem \<Rightarrow> ParsedEntry" where
  "parse_item lib base i it =
     (let link = resolve lib base (gi_Link it);
          guid = item_guid lib link i it;
          pub = (case gi_Published it of Some t \<Rightarrow> t
                 | None \<Rightarrow> (case gi_Updated it of Some t \<Rightarrow> t | None \<Rightarrow> zero_time));
          author = (case gi_Author it of Some a \<Rightarrow> PlainText (pl_unescape lib) a | None \<Rightarrow> []);
          title = PlainText (pl_unescape lib) (gi_Title it);
          content = gi_Content it;
          summary = gi_Description it
      in \<lparr>pe_GUID = guid, pe_URL = link, pe_Title = title, pe_Author = author, pe_Content = content,
          pe_Summary = summary,
          pe_CommentsURL = commentsURL lib base (case gi_Custom it commentsCustomKey of Some c \<Rightarrow> c | None \<Rightarrow> []),
          pe_PublishedAt = pub, pe_Hash = EntryHash lib title content summary\<rparr>)"

definition Parse :: "parse_lib \<Rightarrow> string \<Rightarrow> string \<Rightarrow> string \<Rightarrow> gerr + ParsedFeed" where
  "Parse lib data contentType feedURL =
     (case gofeed_Parse lib (decodeReader lib data contentType) of
        Inl e \<Rightarrow> Inl (Errorf (''gofeed parse: '' @ err_text e) [e])
      | Inr f \<Rightarrow>
          (let base = ul_Parse (pl_url lib) feedURL
           in Inr \<lparr>pf_Title = PlainText (pl_unescape lib) (gf_Title f), pf_SiteURL = resolve lib base (gf_Link f),
                pf_Description = PlainText (pl_unescape lib) (gf_Description f), pf_TTL = feedTTL lib f data,
                pf_Entries = map (\<lambda>(i, it). parse_item lib base i it) (enumerate 0 (gf_Items f))\<rparr>))"

section \<open>\<open>Discover\<close>\<close>

text \<open>The attributes of a \<open>link\<close> element: \<open>rel\<close>, \<open>type\<close> and \<open>href\<close>, the last of each name.\<close>

definition last_attr :: "parse_lib \<Rightarrow> string \<Rightarrow> (string \<times> string) list \<Rightarrow> string" where
  "last_attr lib key attrs =
     fold (\<lambda>(k, v) acc. if ToLower (ul_lower (pl_url lib)) k = key then v else acc) attrs []"

definition feed_types :: "string list" where
  "feed_types = [''application/rss+xml'', ''application/atom+xml'', ''application/json'', ''application/feed+json'']"

fun discover_node :: "parse_lib \<Rightarrow> URL option \<Rightarrow> html_node \<Rightarrow> string list"
  and discover_all :: "parse_lib \<Rightarrow> URL option \<Rightarrow> html_node list \<Rightarrow> string list" where
  "discover_node lib base (Element name attrs children) =
     (let lower = ToLower (ul_lower (pl_url lib)); href = last_attr lib ''href'' attrs
      in if name = ''link'' \<and> lower (last_attr lib ''rel'' attrs) = ''alternate'' \<and> href \<noteq> []
            \<and> lower (last_attr lib ''type'' attrs) \<in> set feed_types
         then [resolve lib base href] else [])
     @ discover_all lib base children"
| "discover_node lib base (OtherNode children) = discover_all lib base children"
| "discover_all lib base [] = []"
| "discover_all lib base (n # ns) = discover_node lib base n @ discover_all lib base ns"

definition Discover :: "parse_lib \<Rightarrow> string \<Rightarrow> string \<Rightarrow> gerr + string list" where
  "Discover lib data pageURL =
     (case pl_html lib data of
        Inl e \<Rightarrow> Inl (Errorf (''html parse: '' @ err_text e) [e])
      | Inr doc \<Rightarrow> Inr (discover_node lib (ul_Parse (pl_url lib) pageURL) doc))"

end
