(* ===== verification/ParseProps.thy ===== *)
theory ParseProps
  imports Parse
begin

text \<open>
  The identity keys of entries (\<open>joinFields\<close>, the hashes, the derived GUIDs) and the publisher's
  interval of a parsed feed.
\<close>

section \<open>\<open>joinFields\<close> is a length-prefixed code\<close>

text \<open>The decoder: a decimal length, a colon, that many bytes, and so on.\<close>

function splitFields :: "string \<Rightarrow> string list option" where
  "splitFields s =
     (if s = [] then Some []
      else let len = takeWhile (\<lambda>c. c \<noteq> CHR '':'') s; rest = drop (Suc (length len)) s
           in case parse_digits 0 len of
               None \<Rightarrow> None
             | Some n \<Rightarrow> map_option ((#) (take n rest)) (splitFields (drop n rest)))"
  by pat_completeness auto
termination
  by (relation "measure length") auto

declare splitFields.simps [simp del]

lemma takeWhile_colon: "takeWhile (\<lambda>c. c \<noteq> CHR '':'') (FormatInt x @ '':'' @ s) = FormatInt x"
  using FormatInt_no_colon [of x] by (subst takeWhile_append2) auto

lemma splitFields_joinFields: "splitFields (joinFields ps) = Some ps"
proof (induction ps)
  case Nil
  show ?case by (simp add: splitFields.simps)
next
  case (Cons p ps)
  have "parse_digits 0 (FormatInt (int (length p))) = Some (length p)"
    by (simp add: FormatInt_def parse_digits_nat_str)
  then show ?case
    using Cons takeWhile_colon [of "int (length p)" "p @ joinFields ps"]
    by (subst splitFields.simps) (simp add: Let_def)
qed

lemma joinFields_inj [simp]: "joinFields ps = joinFields qs \<longleftrightarrow> ps = qs"
  by (metis splitFields_joinFields option.inject)

text \<open>Two different lists of fields on whose encodings SHA-256 collides.\<close>

definition collides :: "parse_lib \<Rightarrow> string list \<Rightarrow> string list \<Rightarrow> bool" where
  "collides lib ps qs \<longleftrightarrow> ps \<noteq> qs \<and> pl_sha256 lib (joinFields ps) = pl_sha256 lib (joinFields qs)"

lemma hash_eq: "hashStr lib (joinFields ps) = hashStr lib (joinFields qs) \<longleftrightarrow> ps = qs \<or> collides lib ps qs"
  by (auto simp: hashStr_def collides_def)

lemma FormatInt_nat_inj [simp]: "FormatInt (int i) = FormatInt (int j) \<longleftrightarrow> i = j"
  by (metis parse_digits_nat_str FormatInt_def nat_int of_nat_less_0_iff option.inject)

text \<open>What the derived GUID of an item stands for.\<close>

definition identity :: "string \<Rightarrow> nat \<Rightarrow> GItem \<Rightarrow> string list" where
  "identity link i it = [link, gi_Title it] @ (if link = [] \<and> gi_Title it = [] then [FormatInt (int i)] else [])"

lemma item_guid_derived: "item_guid lib link i (it\<lparr>gi_GUID := []\<rparr>) = hashStr lib (joinFields (identity link i it))"
  by (simp add: item_guid_def identity_def Let_def del: joinFields.simps)

text \<open>C34. The content hash of an entry and the GUID derived for an item that has none are collision free
  up to SHA-256: the fields can be read back from the hashed text, so two entries have the same hash
  exactly when title, content and summary agree, or SHA-256 collides on two different texts; and two
  items have the same derived GUID exactly when link and title agree (and the position, when both are
  empty), with the same exception.\<close>

theorem identity_keys:
  "splitFields (joinFields ps) = Some ps
   \<and> (EntryHash lib t c s = EntryHash lib t' c' s'
        \<longleftrightarrow> (t, c, s) = (t', c', s') \<or> collides lib [t, c, s] [t', c', s'])
   \<and> (item_guid lib l i (it\<lparr>gi_GUID := []\<rparr>) = item_guid lib l' i' (it'\<lparr>gi_GUID := []\<rparr>)
        \<longleftrightarrow> (l, gi_Title it, if l = [] \<and> gi_Title it = [] then i else 0)
              = (l', gi_Title it', if l' = [] \<and> gi_Title it' = [] then i' else 0)
          \<or> collides lib (identity l i it) (identity l' i' it'))"
proof -
  have "identity l i it = identity l' i' it'
    \<longleftrightarrow> (l, gi_Title it, if l = [] \<and> gi_Title it = [] then i else 0)
        = (l', gi_Title it', if l' = [] \<and> gi_Title it' = [] then i' else 0)"
    by (auto simp: identity_def)
  then show ?thesis
    unfolding item_guid_derived hash_eq EntryHash_def by (simp add: splitFields_joinFields del: joinFields.simps)
qed

section \<open>Entries keep their identity\<close>

lemma parse_item_index:
  "gi_GUID it \<noteq> [] \<or> resolve lib base (gi_Link it) \<noteq> [] \<or> gi_Title it \<noteq> [] \<Longrightarrow>
     parse_item lib base i it = parse_item lib base j it"
  by (auto simp: parse_item_def item_guid_def Let_def)

lemma parse_items_shift:
  "(\<And>it. it \<in> set its \<Longrightarrow> gi_GUID it \<noteq> [] \<or> resolve lib base (gi_Link it) \<noteq> [] \<or> gi_Title it \<noteq> []) \<Longrightarrow>
     map (\<lambda>(i, it). parse_item lib base i it) (enumerate m its) = map (\<lambda>(i, it). parse_item lib base i it) (enumerate n its)"
proof (induction its arbitrary: m n)
  case (Cons it its)
  then show ?case using parse_item_index [of it lib base m n] Cons.IH [of "Suc m" "Suc n"] by simp
qed simp

text \<open>A feed that puts new items before the old ones and leaves those as they are gives the old entries
  again, GUID and hash included, when every old item has a GUID, a link or a title: so the next poll
  finds the stored rows and inserts only the new entries.\<close>

lemma guids_stable:
  assumes "gofeed_Parse lib (decodeReader lib data ct) = Inr f"
    and "gofeed_Parse lib (decodeReader lib data' ct') = Inr f'"
    and "gf_Items f' = new @ gf_Items f"
    and "\<forall>it \<in> set (gf_Items f). gi_GUID it \<noteq> [] \<or> resolve lib (ul_Parse (pl_url lib) url) (gi_Link it) \<noteq> [] \<or> gi_Title it \<noteq> []"
  shows "\<exists>p p' es. Parse lib data ct url = Inr p \<and> Parse lib data' ct' url = Inr p'
    \<and> pf_Entries p' = es @ pf_Entries p \<and> length es = length new"
proof -
  let ?b = "ul_Parse (pl_url lib) url"
  let ?es = "\<lambda>n its. map (\<lambda>(i, it). parse_item lib ?b i it) (enumerate n its)"
  have "?es (length new) (gf_Items f) = ?es 0 (gf_Items f)" using assms(4) by (intro parse_items_shift) blast
  then have "?es 0 (gf_Items f') = ?es 0 new @ ?es 0 (gf_Items f)"
    by (simp add: assms(3) enumerate_append_eq)
  then show ?thesis using assms(1,2) by (auto simp: Parse_def Let_def intro!: exI [of _ "?es 0 new"])
qed

section \<open>The publisher's interval\<close>

lemma go_div_bounds: "0 \<le> a \<Longrightarrow> 0 < b \<Longrightarrow> 0 \<le> go_div a b \<and> go_div a b \<le> a"
proof -
  assume a: "0 \<le> a" "0 < b"
  then have "a div b \<le> a div 1" by (intro zdiv_mono2) auto
  with a show ?thesis by (simp add: go_div_nonneg pos_imp_zdiv_nonneg_iff)
qed

lemma period_base_bounds: "period_base p = Some b \<Longrightarrow> 0 \<le> b \<and> b \<le> 365 * 24 * Hour"
  by (auto simp: period_base_def Hour_def Minute_def Second_def split: if_splits)

lemma sy_freq_pos: "0 < sy_freq fs"
  by (simp add: sy_freq_def split: option.split)

lemma syInterval_bounds: "0 \<le> syInterval lib f \<and> syInterval lib f \<le> 365 * 24 * Hour"
proof -
  have z: "0 \<le> 365 * 24 * Hour" by (simp add: Hour_def Minute_def Second_def)
  have "0 \<le> go_div b (sy_freq fs) \<and> go_div b (sy_freq fs) \<le> 365 * 24 * Hour" if "period_base p = Some b" for p b fs
    using period_base_bounds [OF that] go_div_bounds [of b "sy_freq fs"] sy_freq_pos [of fs] by linarith
  with z show ?thesis by (simp add: syInterval_def split: option.split)
qed

lemma rssTTLMinutes_nonneg: "0 \<le> rssTTLMinutes ts"
  by (induction ts rule: rssTTLMinutes.induct) (auto split: option.splits)

lemma minute_pos: "0 < Minute"
  by (simp add: Minute_def)

text \<open>The minimum interval a feed asks for is never negative and, as long as \<open>ttl\<close> minutes are a
  duration at all, it is the larger of the \<open>ttl\<close> element and the syndication period, which is at most
  a year.\<close>

lemma feed_ttl_exact:
  assumes "rssTTLMinutes (pl_tokens lib data) * Minute < 2 ^ 63"
  shows "feedTTL lib f data
      = max (if gf_Type f = ''rss'' then rssTTLMinutes (pl_tokens lib data) * Minute else 0) (syInterval lib f)
    \<and> 0 \<le> feedTTL lib f data \<and> 0 \<le> syInterval lib f \<and> syInterval lib f \<le> 365 * 24 * Hour"
proof -
  let ?m = "rssTTLMinutes (pl_tokens lib data)"
  have "0 \<le> ?m * Minute" using rssTTLMinutes_nonneg minute_pos by (simp add: mult_nonneg_nonneg)
  then have "i64 (?m * Minute) = ?m * Minute" using assms by (intro i64_id) (simp add: in_i64_def)
  moreover have "\<not> 0 < ?m \<Longrightarrow> ?m = 0" using rssTTLMinutes_nonneg [of "pl_tokens lib data"] by simp
  ultimately show ?thesis
    using syInterval_bounds [of lib f] by (auto simp: feedTTL_def Let_def)
qed

text \<open>A larger \<open>ttl\<close> wraps: 307445735 minutes (584 years) are taken for 26 seconds.\<close>

lemma ttl_wraps:
  assumes "rssTTLMinutes (pl_tokens lib data) = 307445735" and "gf_Type f = ''rss''" and "gf_sy f = None"
  shows "0 < feedTTL lib f data \<and> feedTTL lib f data < 27 * Second"
  using assms by (simp add: feedTTL_def syInterval_def i64_def Minute_def Second_def)

section \<open>A sample feed\<close>

definition sample_item :: "string \<Rightarrow> GItem" where
  "sample_item t = \<lparr>gi_GUID = [], gi_Link = [], gi_Title = t, gi_Description = [], gi_Content = ''text'', gi_Author = None,
     gi_Published = None, gi_Updated = None, gi_Custom = (\<lambda>_. None)\<rparr>"

definition sample_gfeed :: "GItem list \<Rightarrow> GFeed" where
  "sample_gfeed its = \<lparr>gf_Type = ''rss'', gf_Title = ''feed'', gf_Description = [], gf_Link = [], gf_Items = its, gf_sy = None\<rparr>"

text \<open>A library whose feeds have an item per byte, titled with it, and a \<open>ttl\<close> of an hour.\<close>

definition sample_plib :: parse_lib where
  "sample_plib = \<lparr>pl_url = \<lparr>ul_Parse = (\<lambda>_. None), ul_String = u_Path, ul_lower = (\<lambda>s. s), ul_quote = (\<lambda>s. s)\<rparr>,
     pl_resolve = (\<lambda>_ u. u), pl_gofeed = (\<lambda>r. Inr (RawOther (Inr (sample_gfeed (map (\<lambda>c. sample_item [c]) (fst r)))))),
     pl_charset = (\<lambda>_ _. (\<lambda>d. (d, None), False)), pl_tokens = (\<lambda>_. [StartElement [] ''ttl'' (Some ''60'')]),
     pl_html = (\<lambda>_. Inr (OtherNode [])), pl_sha256 = (\<lambda>s. s), pl_unescape = (\<lambda>s. s)\<rparr>"

lemma sample_gofeed:
  "gofeed_Parse sample_plib (d, None) = Inr (sample_gfeed (map (\<lambda>c. sample_item [c]) d))"
  by (simp add: gofeed_Parse_def sample_plib_def)

lemma sample_simps [simp]: "gf_Items (sample_gfeed its) = its" "gi_Title (sample_item t) = t"
  by (simp_all add: sample_gfeed_def sample_item_def)

lemma sample_reader: "decodeReader sample_plib d [] = (d, None)"
  by (simp add: decodeReader_def sample_plib_def)

lemma sample_ttl: "rssTTLMinutes (pl_tokens sample_plib d) = 60"
proof -
  have "ParseInt (TrimSpace ''60'') = Some 60" by code_simp
  then show ?thesis by (simp add: sample_plib_def)
qed

end
