(* ===== verification/GoQuery.thy ===== *)
theory GoQuery
  imports GoBytes
begin

text \<open>
  The query strings of \<open>net/url\<close>: \<open>QueryEscape\<close>, \<open>QueryUnescape\<close>, \<open>ParseQuery\<close> (which drops the
  pairs it cannot parse, as \<open>URL.Query\<close> does) and \<open>Values.Get\<close>.
\<close>

definition unreserved :: "char \<Rightarrow> bool" where
  "unreserved c \<longleftrightarrow> byte_in 48 57 c \<or> byte_in 65 90 c \<or> byte_in 97 122 c \<or> c \<in> set ''-_.~''"

definition upper_hex :: "nat \<Rightarrow> char" where "upper_hex n = ''0123456789ABCDEF'' ! n"

definition escape_char :: "char \<Rightarrow> string" where
  "escape_char c =
     (if unreserved c then [c] else if c = CHR '' '' then ''+''
      else let n = (of_char c :: nat) in [CHR ''%'', upper_hex (n div 16), upper_hex (n mod 16)])"

definition QueryEscape :: "string \<Rightarrow> string" where
  "QueryEscape s = concat (map escape_char s)"

fun QueryUnescape :: "string \<Rightarrow> string option" where
  "QueryUnescape [] = Some []"
| "QueryUnescape (c # s) =
     (if c = CHR ''%'' then
        (case s of
           a # b # t \<Rightarrow>
             (case (hex_val a, hex_val b) of
                (Some x, Some y) \<Rightarrow> map_option ((#) (char_of (16 * x + y))) (QueryUnescape t)
              | _ \<Rightarrow> None)
         | _ \<Rightarrow> None)
      else map_option ((#) (if c = CHR ''+'' then CHR '' '' else c)) (QueryUnescape s))"

text \<open>\<open>strings.Cut\<close> at a byte.\<close>

definition cut_at :: "char \<Rightarrow> string \<Rightarrow> string \<times> string" where
  "cut_at c s = (takeWhile (\<lambda>x. x \<noteq> c) s, tl (dropWhile (\<lambda>x. x \<noteq> c) s))"

lemma length_cut_at: "s \<noteq> [] \<Longrightarrow> length (snd (cut_at c s)) < length s"
  by (cases s) (auto simp: cut_at_def intro: le_less_trans [OF _ lessI] length_dropWhile_le le_trans [OF diff_le_self])

function ParseQuery :: "string \<Rightarrow> (string \<times> string) list" where
  "ParseQuery q =
     (if q = [] then []
      else let pair = fst (cut_at (CHR ''&'') q); rest = ParseQuery (snd (cut_at (CHR ''&'') q)) in
        if CHR '';'' \<in> set pair \<or> pair = [] then rest
        else case (QueryUnescape (fst (cut_at (CHR ''='') pair)), QueryUnescape (snd (cut_at (CHR ''='') pair))) of
            (Some k, Some v) \<Rightarrow> (k, v) # rest
          | _ \<Rightarrow> rest)"
  by pat_completeness auto
termination
  by (relation "measure length") (auto dest: length_cut_at)

declare ParseQuery.simps [simp del]

definition Get :: "(string \<times> string) list \<Rightarrow> string \<Rightarrow> string" where
  "Get q key = (case map_of q key of Some v \<Rightarrow> v | None \<Rightarrow> [])"

section \<open>Round trip\<close>

lemma hex_val_upper: "n < 16 \<Longrightarrow> hex_val (upper_hex n) = Some n"
proof -
  assume "n < 16"
  then have "n \<in> set [0..<16]" by simp
  then show ?thesis by (simp add: upt_rec upper_hex_def hex_val_def) (elim disjE; simp)
qed

lemma byte_split: "(of_char c :: nat) div 16 < 16" "(of_char c :: nat) mod 16 < 16"
  "char_of (16 * ((of_char c :: nat) div 16) + of_char c mod 16) = c"
proof -
  have "(of_char c :: nat) < 256" by (rule nat_of_char_less_256)
  then show "(of_char c :: nat) div 16 < 16" by (simp only: div_less_iff_less_mult)
  show "(of_char c :: nat) mod 16 < 16" by simp
  have "16 * ((of_char c :: nat) div 16) + of_char c mod 16 = of_char c" by simp
  then show "char_of (16 * ((of_char c :: nat) div 16) + of_char c mod 16) = c" by simp
qed

lemma unreserved_not: "\<not> unreserved (CHR ''%'')" "\<not> unreserved (CHR ''+'')" "\<not> unreserved (CHR ''&'')"
  "\<not> unreserved (CHR '';'')" "\<not> unreserved (CHR ''='')"
  by (simp_all add: unreserved_def byte_in_def)

lemma unescape_escape_char: "QueryUnescape (escape_char c @ s) = map_option ((#) c) (QueryUnescape s)"
proof -
  have "c \<noteq> CHR ''%'' \<and> c \<noteq> CHR ''+''" if "unreserved c" using that unreserved_not by auto
  then show ?thesis using byte_split [of c] by (simp add: escape_char_def Let_def hex_val_upper)
qed

lemma unescape_escape_append: "QueryUnescape (QueryEscape s @ t) = map_option ((@) s) (QueryUnescape t)"
proof (induction s)
  case Nil
  then show ?case by (simp add: QueryEscape_def option.map_ident)
next
  case (Cons c s)
  then show ?case
    by (simp add: QueryEscape_def unescape_escape_char option.map_comp comp_def)
qed

lemma QueryUnescape_Escape [simp]: "QueryUnescape (QueryEscape s) = Some s"
  using unescape_escape_append [of s "[]"] by simp

text \<open>An escaped string has no separators.\<close>

lemma upper_hex_plain: "n < 16 \<Longrightarrow> unreserved (upper_hex n)"
proof -
  assume "n < 16"
  then have "n \<in> set [0..<16]" by simp
  then show ?thesis by (simp add: upt_rec upper_hex_def unreserved_def byte_in_def) (elim disjE; simp)
qed

lemma QueryEscape_chars: "c \<in> set (QueryEscape s) \<Longrightarrow> unreserved c \<or> c = CHR ''%'' \<or> c = CHR ''+''"
  using byte_split upper_hex_plain by (auto simp: QueryEscape_def escape_char_def Let_def split: if_splits)

lemma QueryEscape_no_sep: "CHR ''&'' \<notin> set (QueryEscape s)" "CHR '';'' \<notin> set (QueryEscape s)" "CHR ''='' \<notin> set (QueryEscape s)"
  using QueryEscape_chars [of _ s] unreserved_not by fastforce+

text \<open>A string of unreserved characters is its own escape.\<close>

lemma QueryEscape_plain: "(\<And>c. c \<in> set s \<Longrightarrow> unreserved c) \<Longrightarrow> QueryEscape s = s"
  by (induction s) (auto simp: QueryEscape_def escape_char_def)

lemma hex_encode_plain: "c \<in> set (hex_encode s) \<Longrightarrow> unreserved c"
proof -
  have h: "unreserved (hex_digit n)" if "n < 16" for n
  proof -
    have "n \<in> set [0..<16]" using that by simp
    then show ?thesis by (simp add: upt_rec hex_digit_def unreserved_def byte_in_def) (elim disjE; simp)
  qed
  assume "c \<in> set (hex_encode s)"
  then show ?thesis using byte_split h by (auto simp: hex_encode_def Let_def)
qed

lemma cut_at_split: "c \<notin> set a \<Longrightarrow> cut_at c (a @ c # b) = (a, b)"
  by (induction a) (auto simp: cut_at_def)

lemma cut_at_none: "c \<notin> set a \<Longrightarrow> cut_at c a = (a, [])"
  by (induction a) (auto simp: cut_at_def)

text \<open>The pair of an escaped key and value, alone or before others.\<close>

definition pair :: "string \<Rightarrow> string \<Rightarrow> string" where
  "pair k v = QueryEscape k @ CHR ''='' # QueryEscape v"

lemma pair_no_sep: "CHR ''&'' \<notin> set (pair k v)" "CHR '';'' \<notin> set (pair k v)"
  by (simp_all add: pair_def QueryEscape_no_sep)

lemma pair_parts: "cut_at (CHR ''='') (pair k v) = (QueryEscape k, QueryEscape v)"
  by (simp add: pair_def cut_at_split QueryEscape_no_sep)

lemma ParseQuery_pair: "ParseQuery (pair k v) = [(k, v)]"
  using pair_no_sep [of k v]
  by (subst ParseQuery.simps) (simp add: cut_at_none pair_parts Let_def, simp add: pair_def ParseQuery.simps)

lemma ParseQuery_pair_Cons: "ParseQuery (pair k v @ CHR ''&'' # q) = (k, v) # ParseQuery q"
  using pair_no_sep [of k v]
  by (subst ParseQuery.simps) (simp add: cut_at_split pair_parts Let_def, simp add: pair_def)

end
