(* ===== verification/ImgProxy.thy ===== *)
theory ImgProxy
  imports FetchClient GoQuery SqliteStore
begin

text \<open>
  \<open>internal/imgproxy\<close>: the \<open>Signer\<close>, \<open>Handler.ServeHTTP\<close> on top of the fetch client, and
  \<open>ResolveSecret\<close> on top of the settings of the store. HMAC-SHA256 is the argument \<open>hmac\<close>.
\<close>

section \<open>\<open>signer.go\<close>\<close>

record Signer =
  sg_hmac :: "string \<Rightarrow> string \<Rightarrow> string"
  sg_secret :: string

definition Sign :: "Signer \<Rightarrow> string \<Rightarrow> string" where
  "Sign s rawURL = hex_encode (sg_hmac s (sg_secret s) rawURL)"

definition Verify :: "Signer \<Rightarrow> string \<Rightarrow> string \<Rightarrow> bool" where
  "Verify s rawURL sig =
     (case hex_decode sig of None \<Rightarrow> False | Some want \<Rightarrow> want = sg_hmac s (sg_secret s) rawURL)"

definition ProxyURL :: "Signer \<Rightarrow> string \<Rightarrow> string" where
  "ProxyURL s rawURL = ''/img?u='' @ QueryEscape rawURL @ ''&s='' @ Sign s rawURL"

section \<open>\<open>handler.go\<close>\<close>

definition maxImageBytes :: int where "maxImageBytes = 10 * 2 ^ 20"

text \<open>What the client gets: an error of \<open>http.Error\<close>, or headers and body; \<open>ig_aborted\<close> when the handler
  panics with \<open>ErrAbortHandler\<close>, which cuts the connection.\<close>

datatype img_reply =
    ImgError int string
  | Image (ig_headers: "(string \<times> string) list") (ig_body: string) (ig_aborted: bool)

definition image_headers :: "StreamResponse \<Rightarrow> (string \<times> string) list" where
  "image_headers resp =
     [(''Content-Type'', sr_ContentType resp), (''Cache-Control'', ''public, max-age=31536000, immutable''),
      (''X-Content-Type-Options'', ''nosniff''), (''Content-Security-Policy'', ''default-src 'none'; sandbox'')]
     @ (if 0 \<le> sr_ContentLength resp then [(''Content-Length'', FormatInt (sr_ContentLength resp))] else [])"

text \<open>\<open>io.Copy\<close> of a limited reader: the bytes written, and whether it failed.\<close>

definition copy_limited :: "nat \<Rightarrow> string \<times> gerr option \<Rightarrow> string \<times> bool" where
  "copy_limited k b = (if k \<le> length (fst b) then (take k (fst b), False) else (fst b, snd b \<noteq> None))"

definition send_image :: "StreamResponse \<Rightarrow> img_reply" where
  "send_image resp =
     (let (out, failed) = copy_limited (nat (maxImageBytes + 1)) (rr_body (sr_Body resp))
      in Image (image_headers resp) out (failed \<or> maxImageBytes < int (length out)))"

definition serve_stream :: "url_lib \<Rightarrow> StreamResponse \<Rightarrow> img_reply" where
  "serve_stream lib resp =
     (if sr_Status resp \<noteq> 200 then ImgError 502 ''upstream status''
      else if \<not> has_prefix (ToLower (ul_lower lib) (sr_ContentType resp)) ''image/'' then ImgError 502 ''not an image''
      else if maxImageBytes < sr_ContentLength resp then ImgError 502 ''image too large''
      else send_image resp)"

text \<open>With the tokens of the host limiter that the fetch and the deferred \<open>Close\<close> move.\<close>

definition ServeHTTP ::
  "http_lib \<Rightarrow> FetchConfig \<Rightarrow> gerr option \<Rightarrow> Signer \<Rightarrow> string \<Rightarrow> img_reply \<times> token list" where
  "ServeHTTP lib c acq s rawQuery =
     (let q = ParseQuery rawQuery; raw = Get q ''u''; sig = Get q ''s''
      in if raw = [] \<or> sig = [] then (ImgError 400 ''missing params'', [])
         else if \<not> Verify s raw sig then (ImgError 403 ''bad signature'', [])
         else case ul_Parse (hl_url lib) raw of
             None \<Rightarrow> (ImgError 400 ''bad url'', [])
           | Some u \<Rightarrow>
               if u_Scheme u \<noteq> ''http'' \<and> u_Scheme u \<noteq> ''https'' then (ImgError 400 ''bad url'', [])
               else (case FetchStream lib c acq \<lparr>rq_URL = raw, rq_ETag = [], rq_LastModified = []\<rparr> of
                   (Inl e, ts) \<Rightarrow> (ImgError 502 ''fetch failed'', ts)
                 | (Inr resp, ts) \<Rightarrow> (serve_stream (hl_url lib) resp, ts @ snd (Close (sr_Body resp)))))"

section \<open>\<open>secret.go\<close>\<close>

definition settingKey :: string where "settingKey = ''image_proxy_secret''"

text \<open>\<open>rand\<close> is what \<open>rand.Read\<close> fills the 32 bytes with, or its error.\<close>

definition ResolveSecret :: "ctx \<Rightarrow> gerr + string \<Rightarrow> string \<Rightarrow> string op" where
  "ResolveSecret cx rand envSecret =
     (if envSecret \<noteq> [] then returnE envSecret
      else catchE (GetSetting cx settingKey)
        (\<lambda>e. if err_is SNotFound e then
               (case rand of
                  Inl re \<Rightarrow> throwE (Errorf (''generate image proxy secret: '' @ err_text re) [re])
                | Inr key \<Rightarrow>
                    catchE (PutSetting cx settingKey (hex_encode key))
                      (\<lambda>pe. throwE (Errorf (''persist image proxy secret: '' @ err_text pe) [pe]))
                      (\<lambda>_. returnE key))
             else throwE (Errorf (''read image proxy secret: '' @ err_text e) [e]))
        (\<lambda>v. case hex_decode v of
            None \<Rightarrow> throwE (errors_New ''decode stored image proxy secret'')
          | Some key \<Rightarrow> returnE key))"

end
