(* ===== verification/ImgProps.thy ===== *)
theory ImgProps
  imports ImgProxy
begin

text \<open>
  The image proxy: what a served image is, that the URLs the page gets are the ones the proxy accepts,
  and that the signing key survives a restart.
\<close>

section \<open>Served images\<close>

lemma send_image_ok:
  "send_image resp = Image hs b False \<longleftrightarrow>
     hs = image_headers resp \<and> rr_body (sr_Body resp) = (b, None) \<and> int (length b) \<le> maxImageBytes"
  by (cases "rr_body (sr_Body resp)")
    (auto simp: send_image_def copy_limited_def maxImageBytes_def min_def not_le Let_def split: if_splits)

lemma FetchStream_tokens:
  "FetchStream lib c acq req = (Inl e, ts) \<Longrightarrow> ts = [] \<or> (\<exists>k. ts = [Taken k, Returned k])"
  "FetchStream lib c acq req = (Inr resp, ts) \<Longrightarrow> \<exists>k. ts @ snd (Close (sr_Body resp)) = [Taken k, Returned k]"
  by (auto simp: FetchStream_def Close_def Let_def split: option.splits sum.splits prod.splits)

lemma ServeHTTP_cases:
  assumes "ServeHTTP lib c acq s q = (r, ts)"
  obtains n msg where "r = ImgError n msg" "400 \<le> n" "ts = [] \<or> (\<exists>k. ts = [Taken k, Returned k])"
  | resp ts' where "Verify s (Get (ParseQuery q) ''u'') (Get (ParseQuery q) ''s'')"
      "FetchStream lib c acq \<lparr>rq_URL = Get (ParseQuery q) ''u'', rq_ETag = [], rq_LastModified = []\<rparr> = (Inr resp, ts')"
      "r = serve_stream (hl_url lib) resp" "\<exists>k. ts = [Taken k, Returned k]"
  using assms FetchStream_tokens [of lib c acq "\<lparr>rq_URL = Get (ParseQuery q) ''u'', rq_ETag = [], rq_LastModified = []\<rparr>"]
  by (fastforce simp: ServeHTTP_def Let_def split: if_splits option.splits prod.splits sum.splits)

text \<open>C25. The proxy is no open relay and never completes a reply it should not: a completed image has the
  signature of its URL, comes from an upstream reply with status 200 and an image type, is the whole
  body of that reply and at most 10 MB, and carries the headers that keep it inert; every other request
  gets an error or a cut connection. On every path the host token is given back.\<close>

theorem img_serves:
  assumes "ServeHTTP lib c acq s q = (r, ts)"
  shows "(ts = [] \<or> (\<exists>k. ts = [Taken k, Returned k]))
    \<and> (case r of
        ImgError n msg \<Rightarrow> 400 \<le> n
      | Image hs b aborted \<Rightarrow> aborted
          \<or> (\<exists>resp ts'. hex_decode (Get (ParseQuery q) ''s'') = Some (sg_hmac s (sg_secret s) (Get (ParseQuery q) ''u''))
             \<and> FetchStream lib c acq \<lparr>rq_URL = Get (ParseQuery q) ''u'', rq_ETag = [], rq_LastModified = []\<rparr> = (Inr resp, ts')
             \<and> sr_Status resp = 200 \<and> has_prefix (ToLower (ul_lower (hl_url lib)) (sr_ContentType resp)) ''image/''
             \<and> rr_body (sr_Body resp) = (b, None) \<and> int (length b) \<le> maxImageBytes
             \<and> (''Content-Security-Policy'', ''default-src 'none'; sandbox'') \<in> set hs
             \<and> (''X-Content-Type-Options'', ''nosniff'') \<in> set hs))"
  using assms
proof (cases rule: ServeHTTP_cases)
  case (1 n msg)
  then show ?thesis by auto
next
  case (2 resp ts')
  show ?thesis
  proof (cases "serve_stream (hl_url lib) resp")
    case (ImgError n msg)
    then show ?thesis using 2 by (auto simp: serve_stream_def send_image_def split: if_splits prod.splits)
  next
    case (Image hs b aborted)
    then have s: "sr_Status resp = 200" "has_prefix (ToLower (ul_lower (hl_url lib)) (sr_ContentType resp)) ''image/''"
      "send_image resp = Image hs b aborted" by (auto simp: serve_stream_def split: if_splits)
    then show ?thesis using 2 Image send_image_ok [of resp hs b]
      by (cases aborted) (auto simp: Verify_def image_headers_def split: option.splits)
  qed
qed

section \<open>Minted URLs\<close>

lemma ProxyURL_pairs: "ProxyURL s raw = ''/img?'' @ pair ''u'' raw @ CHR ''&'' # pair ''s'' (Sign s raw)"
proof -
  have "QueryEscape (Sign s raw) = Sign s raw" unfolding Sign_def by (intro QueryEscape_plain hex_encode_plain)
  moreover have "QueryEscape ''u'' = ''u''" "QueryEscape ''s'' = ''s''"
    by (auto intro!: QueryEscape_plain simp: unreserved_def byte_in_def)
  ultimately show ?thesis by (simp add: ProxyURL_def pair_def)
qed

text \<open>The URLs the page gets are accepted: the proxy reads back from a minted URL the very image URL,
  whatever bytes it has, and a signature that it verifies; so it never answers that the parameters are
  missing or the signature is bad.\<close>

lemma proxy_url_accepted:
  assumes "raw \<noteq> []" and "sg_hmac s (sg_secret s) raw \<noteq> []"
  shows "\<exists>q. ProxyURL s raw = ''/img?'' @ q \<and> Get (ParseQuery q) ''u'' = raw \<and> Verify s raw (Get (ParseQuery q) ''s'')
    \<and> fst (ServeHTTP lib c acq s q) \<notin> {ImgError 400 ''missing params'', ImgError 403 ''bad signature''}"
proof -
  let ?q = "pair ''u'' raw @ CHR ''&'' # pair ''s'' (Sign s raw)"
  have q: "Get (ParseQuery ?q) ''u'' = raw" "Get (ParseQuery ?q) ''s'' = Sign s raw"
    by (simp_all add: ParseQuery_pair_Cons ParseQuery_pair Get_def)
  have v: "Verify s raw (Sign s raw)" by (simp add: Verify_def Sign_def)
  have "Sign s raw \<noteq> []" using assms(2) by (cases "sg_hmac s (sg_secret s) raw") (simp_all add: Sign_def hex_encode_def Let_def)
  then have "fst (ServeHTTP lib c acq s ?q) \<notin> {ImgError 400 ''missing params'', ImgError 403 ''bad signature''}"
    using assms(1) v unfolding ServeHTTP_def q Let_def
    by (auto simp: serve_stream_def send_image_def split: option.splits prod.splits sum.splits if_splits)
  then show ?thesis using q v by (intro exI [of _ ?q]) (simp add: ProxyURL_pairs)
qed

section \<open>The signing key\<close>

lemma GetSetting_ok: "settings (cn_db c) k = Some v \<Longrightarrow> cn_faults c = [] \<Longrightarrow> GetSetting None k c = (Inr v, c)"
  by (simp add: GetSetting_def mapped_def exec_def sql_GetAppSetting_def query_row_def)

text \<open>An error from outside the program: not one of those the database layer uses for a missing row.\<close>

definition foreign :: "gerr \<Rightarrow> bool" where
  "foreign e \<longleftrightarrow> \<not> err_is SNoRows e \<and> \<not> err_is SNotFound e"

lemma foreign_mapErr: "foreign e \<Longrightarrow> \<not> err_is SNotFound (mapErr e)"
  by (simp add: foreign_def mapErr_def)

lemma GetSetting_not_found:
  assumes "GetSetting cx k c = (Inl e, c1)" and "err_is SNotFound e"
    and "\<forall>e. cx = Some e \<or> Some e \<in> set (cn_faults c) \<longrightarrow> foreign e"
  shows "settings (cn_db c) k = None \<and> cn_db c1 = cn_db c"
  using assms foreign_mapErr
  by (auto simp: GetSetting_def mapped_def exec_def sql_GetAppSetting_def query_row_def Let_def
      split: option.splits list.splits prod.splits)

text \<open>The signing key is stable: whenever \<open>ResolveSecret\<close> returns a key without an operator's one, that
  key is in the settings, which changed in nothing else and only if they had none; every later start
  on that database returns the same key and writes nothing. So URLs signed before a restart verify
  after it.\<close>

lemma secret_stable:
  assumes "ResolveSecret cx rand [] c = (Inr key, c')"
    and "\<forall>e. cx = Some e \<or> Some e \<in> set (cn_faults c) \<longrightarrow> foreign e"
  shows "(cn_db c' = cn_db c \<or> settings (cn_db c) settingKey = None
        \<and> cn_db c' = (cn_db c)\<lparr>settings := (settings (cn_db c))(settingKey \<mapsto> hex_encode key)\<rparr>)
    \<and> ResolveSecret None rand' [] (fresh_conn (cn_db c')) = (Inr key, fresh_conn (cn_db c'))"
proof -
  have again: "ResolveSecret None rand' [] (fresh_conn d) = (Inr key, fresh_conn d)"
    if "settings d settingKey = Some v" "hex_decode v = Some key" for d v
    using that by (simp add: ResolveSecret_def catchE_def GetSetting_ok fresh_conn_def returnE_def)
  show ?thesis
  proof (cases "fst (GetSetting cx settingKey c)")
    case (Inr v)
    then obtain c1 where g: "GetSetting cx settingKey c = (Inr v, c1)" by (cases "GetSetting cx settingKey c") auto
    then have "cn_db c1 = cn_db c" "settings (cn_db c) settingKey = Some v"
      by (auto simp: GetSetting_def mapped_def exec_def sql_GetAppSetting_def query_row_def Let_def
          split: option.splits list.splits prod.splits)
    moreover have "hex_decode v = Some key" "c' = c1"
      using assms g by (auto simp: ResolveSecret_def catchE_def returnE_def throwE_def split: option.splits)
    ultimately show ?thesis using again by simp
  next
    case (Inl e)
    then obtain c1 where g: "GetSetting cx settingKey c = (Inl e, c1)" by (cases "GetSetting cx settingKey c") auto
    then have n: "err_is SNotFound e" and p: "rand = Inr key"
        "PutSetting cx settingKey (hex_encode key) c1 = (Inr (), c')"
      using assms(1) by (auto simp: ResolveSecret_def catchE_def returnE_def throwE_def split: option.splits sum.splits prod.splits if_splits)
    have a: "settings (cn_db c) settingKey = None" "cn_db c1 = cn_db c" using GetSetting_not_found [OF g n assms(2)] by auto
    then have "cn_db c' = (cn_db c)\<lparr>settings := (settings (cn_db c))(settingKey \<mapsto> hex_encode key)\<rparr>"
      using p(2) by (auto simp: PutSetting_def mapped_def exec_def sql_PutAppSetting_def Let_def
          split: option.splits list.splits prod.splits)
    then show ?thesis using a again by simp
  qed
qed

section \<open>A sample image\<close>

definition sample_signer :: Signer where
  "sample_signer = \<lparr>sg_hmac = (\<lambda>k m. k), sg_secret = ''key''\<rparr>"

definition web_url :: "string \<Rightarrow> URL" where
  "web_url p = \<lparr>u_Scheme = ''http'', u_Opaque = [], u_User = None, u_Host = ''h'', u_Path = p, u_RawPath = [],
     u_OmitHost = False, u_ForceQuery = False, u_RawQuery = [], u_Fragment = [], u_RawFragment = []\<rparr>"

definition image_host :: http_lib where
  "image_host = \<lparr>hl_url = \<lparr>ul_Parse = (\<lambda>s. Some (web_url s)), ul_String = u_Path, ul_lower = (\<lambda>s. s), ul_quote = (\<lambda>s. s)\<rparr>,
     hl_send = (\<lambda>_ _ _. Inr \<lparr>hr_Status = 200, hr_Header = (\<lambda>h. if h = ''Content-Type'' then ''image/png'' else []),
        hr_Body = (''PNG'', None), hr_ContentLength = 3\<rparr>),
     hl_resolve = (\<lambda>_ _. None), hl_show = u_Path, hl_parse_time = (\<lambda>_. None), hl_wall = 0\<rparr>"

definition image_cfg :: FetchConfig where
  "image_cfg = \<lparr>ft_UserAgent = ''bfeed'', ft_HostConcurrency = 3, ft_Timeout = 30 * Second, ft_MaxBytes = 10 * 2 ^ 20\<rparr>"

lemma image_query: "ParseQuery ''u=%2Fa&s=6b6579'' = [(''u'', ''/a''), (''s'', ''6b6579'')]"
  by code_simp

lemma image_stream:
  "FetchStream image_host image_cfg None \<lparr>rq_URL = u, rq_ETag = [], rq_LastModified = []\<rparr> =
     (Inr \<lparr>sr_Status = 200, sr_ContentType = ''image/png'', sr_ContentLength = 3,
        sr_Body = \<lparr>rr_body = (''PNG'', None), rr_key = ''h'', rr_done = False\<rparr>\<rparr>, [Taken ''h''])"
proof -
  have "hostKey (hl_url image_host) (web_url u) = ''h''"
    by (simp add: hostKey_def Hostname_def Port_def splitHostPort_def cut_last_colon_def has_prefix_def has_suffix_def
        web_url_def image_host_def ToLower_def is_ascii_def ascii_lower_def)
  then show ?thesis
    by (simp add: FetchStream_def image_host_def follow.simps [of _ _ _ 0] redirects_def Let_def)
qed

lemma image_served:
  "ServeHTTP image_host image_cfg None sample_signer ''u=%2Fa&s=6b6579'' =
     (Image [(''Content-Type'', ''image/png''), (''Cache-Control'', ''public, max-age=31536000, immutable''),
        (''X-Content-Type-Options'', ''nosniff''), (''Content-Security-Policy'', ''default-src 'none'; sandbox''),
        (''Content-Length'', ''3'')] ''PNG'' False, [Taken ''h'', Returned ''h''])"
proof -
  have "hex_decode ''6b6579'' = Some ''key''" by code_simp
  then have v: "Verify sample_signer ''/a'' ''6b6579''" by (simp add: Verify_def sample_signer_def)
  have l: "has_prefix (ToLower (ul_lower (hl_url image_host)) ''image/png'') ''image/''" by code_simp
  have f: "FormatInt 3 = ''3''" by code_simp
  have p: "ul_Parse (hl_url image_host) ''/a'' = Some (web_url ''/a'')" by (simp add: image_host_def)
  have w: "u_Scheme (web_url x) = ''http''" for x by (simp add: web_url_def)
  show ?thesis
    unfolding ServeHTTP_def image_query Let_def Get_def
    by (simp add: v p w image_stream serve_stream_def l send_image_def copy_limited_def maxImageBytes_def image_headers_def f Close_def)
qed

theorem img_serves_witness:
  "\<exists>resp ts'. hex_decode ''6b6579'' = Some ''key''
     \<and> FetchStream image_host image_cfg None \<lparr>rq_URL = ''/a'', rq_ETag = [], rq_LastModified = []\<rparr> = (Inr resp, ts')
     \<and> rr_body (sr_Body resp) = (''PNG'', None)"
  using img_serves [OF image_served] by (auto simp: image_query Get_def sample_signer_def)

end
