(* ===== verification/Search.thy ===== *)
theory Search
  imports SqliteEntries GoBytes
begin

text \<open>
  Full-text search: \<open>internal/store/sqlite/search.go\<close> and \<open>internal/core/search.go\<close>. The FTS5 index is
  the argument \<open>fts\<close>: for a match expression the row ids of the matching entries in rank order, or an
  error. The Unicode classes beyond ASCII are the argument \<open>wide\<close>.
\<close>

section \<open>The match expression\<close>

definition hasIndexable :: "(string \<Rightarrow> bool) \<Rightarrow> string \<Rightarrow> bool" where
  "hasIndexable wide s = list_ex (\<lambda>r. case r of
       [c] \<Rightarrow> byte_in 48 57 c \<or> byte_in 65 90 c \<or> byte_in 97 122 c
     | _ \<Rightarrow> wide r) (runes_of s)"

definition dquote :: char where "dquote = CHR 0x22"

text \<open>\<open>strings.ReplaceAll\<close> of a quote by two, between quotes.\<close>

definition quote_token :: "string \<Rightarrow> string" where
  "quote_token tok = dquote # concat (map (\<lambda>c. if c = dquote then [dquote, dquote] else [c]) tok) @ [dquote]"

definition buildMatch :: "(string \<Rightarrow> bool) \<Rightarrow> string \<Rightarrow> string" where
  "buildMatch wide raw =
     (let quoted = map quote_token (filter (hasIndexable wide) (Fields raw))
      in if quoted = [] then [] else join_with '' '' (butlast quoted @ [last quoted @ ''*'']))"

section \<open>The query\<close>

text \<open>The join of the index with the user's rows, in rank order, at most 50.\<close>

definition sql_search :: "(db \<Rightarrow> string \<Rightarrow> gerr + int list) \<Rightarrow> ID \<Rightarrow> string \<Rightarrow> EntryRow list stmt" where
  "sql_search fts uid match d =
     (case fts d match of
        Inl e \<Rightarrow> (Inl e, d)
      | Inr ids \<Rightarrow>
          (Inr (limit_rows 50 (concat (map (\<lambda>i. filter (\<lambda>r. er_ID r = i \<and> er_UserID r = uid) (entries d)) ids))), d))"

definition Search :: "(string \<Rightarrow> bool) \<Rightarrow> (db \<Rightarrow> string \<Rightarrow> gerr + int list) \<Rightarrow> ctx \<Rightarrow> ID \<Rightarrow> string \<Rightarrow> Entry list op" where
  "Search wide fts cx uid query =
     (let match = buildMatch wide query
      in if match = [] then returnE []
         else bindE (mapped (exec cx (sql_search fts uid match))) (\<lambda>rs. returnE (map scanEntry rs)))"

text \<open>\<open>SearchService.Search\<close>.\<close>

definition ss_Search :: "(string \<Rightarrow> bool) \<Rightarrow> (db \<Rightarrow> string \<Rightarrow> gerr + int list) \<Rightarrow> ctx \<Rightarrow> ID \<Rightarrow> string \<Rightarrow> Entry list op" where
  "ss_Search wide fts cx uid query =
     (let query = TrimSpace query in if query = [] then returnE [] else Search wide fts cx uid query)"

section \<open>Reading a match expression\<close>

text \<open>FTS5's syntax for strings: a quoted text in which a doubled quote stands for a quote; \<open>None\<close> without
  a closing quote. An expression of strings apart by blanks is their conjunction, and a \<open>*\<close> after the
  last makes it a prefix query; anything else is an operator or a bare word.\<close>

fun fts_string :: "string \<Rightarrow> (string \<times> string) option" where
  "fts_string [] = None"
| "fts_string (c # s) =
     (if c = dquote then
        (case s of
           d # t \<Rightarrow> if d = dquote then map_option (\<lambda>(a, r). (dquote # a, r)) (fts_string t) else Some ([], s)
         | [] \<Rightarrow> Some ([], []))
      else map_option (\<lambda>(a, r). (c # a, r)) (fts_string s))"

lemma fts_string_shorter: "fts_string s = Some (a, r) \<Longrightarrow> length r < length s"
  by (induction s arbitrary: a r rule: fts_string.induct) (fastforce split: if_splits list.splits)+

function fts_query :: "string \<Rightarrow> (string list \<times> bool) option" where
  "fts_query s =
     (case s of
        c # t \<Rightarrow>
          if c \<noteq> dquote then None
          else (case fts_string t of
              None \<Rightarrow> None
            | Some (a, r) \<Rightarrow>
                if r = [] then Some ([a], False)
                else if r = ''*'' then Some ([a], True)
                else if hd r = CHR '' '' then map_option (\<lambda>(as, p). (a # as, p)) (fts_query (tl r))
                else None)
      | [] \<Rightarrow> None)"
  by pat_completeness auto
termination
proof (relation "measure length")
  fix s c t p a r
  assume "s = c # t" "fts_string t = Some p" "(a, r) = p"
  then have "length r < length t" by (auto dest: fts_string_shorter)
  then show "(tl r, s) \<in> measure length" using \<open>s = c # t\<close> by simp
qed simp

declare fts_query.simps [simp del]

lemma fts_string_quoted:
  "r = [] \<or> hd r \<noteq> dquote \<Longrightarrow>
   fts_string (concat (map (\<lambda>c. if c = dquote then [dquote, dquote] else [c]) tok) @ dquote # r) = Some (tok, r)"
  by (induction tok) (auto split: list.split)

lemma fts_query_quoted:
  "r = [] \<or> hd r \<noteq> dquote \<Longrightarrow> fts_query (quote_token tok @ r) =
     (if r = [] then Some ([tok], False) else if r = ''*'' then Some ([tok], True)
      else if hd r = CHR '' '' then map_option (\<lambda>(as, p). (tok # as, p)) (fts_query (tl r)) else None)"
  using fts_string_quoted [of r tok] by (subst fts_query.simps) (simp add: quote_token_def)

lemma fts_query_join:
  "fts_query (join_with '' '' (map quote_token toks @ [quote_token tok @ ''*''])) = Some (toks @ [tok], True)"
proof (induction toks)
  case Nil
  show ?case using fts_query_quoted [of "''*''" tok] by (simp add: dquote_def)
next
  case (Cons t toks)
  let ?rest = "join_with '' '' (map quote_token toks @ [quote_token tok @ ''*''])"
  have "join_with '' '' (map quote_token (t # toks) @ [quote_token tok @ ''*'']) = quote_token t @ CHR '' '' # ?rest"
    by (cases toks) simp_all
  then show ?case using Cons fts_query_quoted [of "CHR '' '' # ?rest" t] by (simp add: dquote_def)
qed


end
