(* ===== verification/Services.thy ===== *)
theory Services
  imports SqliteStore Search FeedUrl
begin

text \<open>
  \<open>internal/core/category.go\<close> and \<open>entry.go\<close>: the services the web layer calls for categories and
  entries, on the SQLite store, and the methods of \<open>FeedService\<close> that only count. \<open>wall\<close> is the clock the store reads.
\<close>

section \<open>\<open>CategoryService\<close>\<close>

definition title_required :: gerr where
  "title_required = Errorf (err_text ErrValidation @ '': category title required'') [ErrValidation]"

definition cs_Create :: "ctx \<Rightarrow> ID \<Rightarrow> string \<Rightarrow> Category op" where
  "cs_Create cx uid title =
     (let title = TrimSpace title in
      if title = [] then throwE title_required
      else let c = \<lparr>c_ID = 0, c_UserID = uid, c_Title = title\<rparr>
           in bindE (CreateCategory cx c) (\<lambda>i. returnE (c\<lparr>c_ID := i\<rparr>)))"

definition cs_List :: "ctx \<Rightarrow> ID \<Rightarrow> Category list op" where "cs_List = ListCategories"
definition cs_Get :: "ctx \<Rightarrow> ID \<Rightarrow> ID \<Rightarrow> Category op" where "cs_Get = GetCategory"

definition cs_Rename :: "ctx \<Rightarrow> ID \<Rightarrow> ID \<Rightarrow> string \<Rightarrow> unit op" where
  "cs_Rename cx uid i title =
     (let title = TrimSpace title in
      if title = [] then throwE title_required
      else UpdateCategory cx \<lparr>c_ID = i, c_UserID = uid, c_Title = title\<rparr>)"

definition cs_Delete :: "ctx \<Rightarrow> ID \<Rightarrow> ID \<Rightarrow> unit op" where "cs_Delete = DeleteCategory"

definition cs_UnreadCounts :: "ctx \<Rightarrow> ID \<Rightarrow> ((ID \<Rightarrow> int option) \<times> int) op" where
  "cs_UnreadCounts = UnreadCountsByCategory"

section \<open>\<open>EntryService\<close>\<close>

definition es_List :: "ctx \<Rightarrow> ID \<Rightarrow> EntryFilter \<Rightarrow> (Entry list \<times> Cursor option) op" where "es_List = ListEntries"
definition es_Get :: "ctx \<Rightarrow> ID \<Rightarrow> ID \<Rightarrow> Entry op" where "es_Get = GetEntry"

definition es_MarkRead :: "time \<Rightarrow> ctx \<Rightarrow> ID \<Rightarrow> ID list \<Rightarrow> bool \<Rightarrow> unit op" where
  "es_MarkRead wall cx uid ids read = SetStatus wall cx uid ids (if read then StatusRead else StatusUnread)"

definition es_MarkAllRead :: "time \<Rightarrow> ctx \<Rightarrow> ID \<Rightarrow> EntryFilter \<Rightarrow> int op" where "es_MarkAllRead = MarkReadByFilter"
definition es_Star :: "ctx \<Rightarrow> ID \<Rightarrow> ID list \<Rightarrow> bool \<Rightarrow> unit op" where "es_Star = SetStarred"
definition es_Delete :: "time \<Rightarrow> ctx \<Rightarrow> ID \<Rightarrow> ID \<Rightarrow> unit op" where "es_Delete = DeleteEntry"

section \<open>The counts of \<open>FeedService\<close>\<close>

definition fs_EntryStats :: "ctx \<Rightarrow> ID \<Rightarrow> (ID \<Rightarrow> FeedEntryStats option) op" where "fs_EntryStats = EntryStatsByFeed"
definition fs_UnreadCount :: "ctx \<Rightarrow> ID \<Rightarrow> int op" where "fs_UnreadCount = UnreadCount"
definition fs_FeedStats :: "ctx \<Rightarrow> ID \<Rightarrow> ID \<Rightarrow> FeedEntryStats op" where "fs_FeedStats = FeedEntryStatsByID"

end
