(* ===== verification/Opml.thy ===== *)
theory Opml
  imports SqliteStore FeedUrl "HOL-Library.Multiset"
begin

text \<open>
  \<open>internal/core/opml.go\<close>: the OPML document of the subscriptions. Printing a document as XML is
  \<open>xml.MarshalIndent\<close>, the argument \<open>marshal\<close>.
\<close>

record opmlFeed =
  of_Text :: string
  of_XMLURL :: string
  of_HTMLURL :: string

text \<open>An outline is a feed (\<open>type="rss"\<close>; text and title are the same) or a category with its feeds.\<close>

datatype opmlOutline = FeedOutline opmlFeed | CategoryOutline string "opmlFeed list"

definition opmlURL :: "url_lib \<Rightarrow> string \<Rightarrow> string" where
  "opmlURL lib raw =
     (case ul_Parse lib raw of
        None \<Rightarrow> []
      | Some u \<Rightarrow>
          if u_Host u = [] \<or> u_Scheme u \<noteq> ''http'' \<and> u_Scheme u \<noteq> ''https'' then []
          else if u_User u = None then raw
          else ul_String lib (u\<lparr>u_User := None\<rparr>))"

definition feed_outline :: "url_lib \<Rightarrow> Feed \<Rightarrow> opmlFeed" where
  "feed_outline lib f =
     \<lparr>of_Text = DisplayTitle f, of_XMLURL = opmlURL lib (f_FeedURL f), of_HTMLURL = opmlURL lib (f_SiteURL f)\<rparr>"

text \<open>The loop over the feeds: \<open>byCategory\<close> and \<open>uncategorised\<close>.\<close>

definition opml_add ::
  "url_lib \<Rightarrow> (ID \<Rightarrow> bool) \<Rightarrow> (ID \<Rightarrow> opmlFeed list) \<times> opmlFeed list \<Rightarrow> Feed \<Rightarrow> (ID \<Rightarrow> opmlFeed list) \<times> opmlFeed list" where
  "opml_add lib known acc f =
     (case acc of (byCat, uncat) \<Rightarrow>
        let outline = feed_outline lib f in
        case f_CategoryID f of
          Some k \<Rightarrow> if known k then (byCat(k := byCat k @ [outline]), uncat) else (byCat, uncat @ [outline])
        | None \<Rightarrow> (byCat, uncat @ [outline]))"

definition opml_body :: "url_lib \<Rightarrow> Feed list \<Rightarrow> Category list \<Rightarrow> opmlOutline list" where
  "opml_body lib fs cats =
     (let known = (\<lambda>k. k \<in> c_ID ` set cats);
          (byCat, uncat) = foldl (opml_add lib known) (\<lambda>_. [], []) fs
      in map (\<lambda>c. CategoryOutline (c_Title c) (byCat (c_ID c))) cats @ map FeedOutline uncat)"

definition MarshalOPML :: "(opmlOutline list \<Rightarrow> gerr + string) \<Rightarrow> url_lib \<Rightarrow> Feed list \<Rightarrow> Category list \<Rightarrow> gerr + string" where
  "MarshalOPML marshal lib fs cats =
     (case marshal (opml_body lib fs cats) of
        Inl e \<Rightarrow> Inl e
      | Inr data \<Rightarrow> Inr (''<?xml version='' @ [CHR 0x22] @ ''1.0'' @ [CHR 0x22] @ '' encoding='' @ [CHR 0x22]
          @ ''UTF-8'' @ [CHR 0x22] @ ''?>'' @ [CHR 0x0A] @ data @ [CHR 0x0A]))"

section \<open>Every subscription, once, in its place\<close>

fun outline_feeds :: "opmlOutline \<Rightarrow> opmlFeed list" where
  "outline_feeds (FeedOutline f) = [f]"
| "outline_feeds (CategoryOutline t fs) = fs"

lemma opml_fold:
  "foldl (opml_add lib known) (byCat, uncat) fs =
     (\<lambda>k. byCat k @ map (feed_outline lib) (filter (\<lambda>f. f_CategoryID f = Some k \<and> known k) fs),
      uncat @ map (feed_outline lib) (filter (\<lambda>f. case f_CategoryID f of None \<Rightarrow> True | Some k \<Rightarrow> \<not> known k) fs))"
  by (induction fs arbitrary: byCat uncat) (auto simp: opml_add_def Let_def fun_eq_iff split: option.splits)

lemma opml_body_eq:
  "opml_body lib fs cats =
     map (\<lambda>c. CategoryOutline (c_Title c) (map (feed_outline lib) (filter (\<lambda>f. f_CategoryID f = Some (c_ID c)) fs))) cats
     @ map FeedOutline (map (feed_outline lib)
         (filter (\<lambda>f. case f_CategoryID f of None \<Rightarrow> True | Some k \<Rightarrow> k \<notin> c_ID ` set cats) fs))"
  by (simp add: opml_body_def opml_fold cong: filter_cong)

lemma mset_filter_disj:
  "(\<And>x. P x \<Longrightarrow> \<not> Q x) \<Longrightarrow> mset (filter (\<lambda>x. P x \<or> Q x) xs) = mset (filter P xs) + mset (filter Q xs)"
  by (induction xs) auto

lemma mset_by_category:
  fixes fs :: "Feed list"
  shows "distinct (map c_ID cats) \<Longrightarrow>
   sum_list (map (\<lambda>c. mset (filter (\<lambda>f. f_CategoryID f = Some (c_ID c)) fs)) cats)
     = mset (filter (\<lambda>f. \<exists>c \<in> set cats. f_CategoryID f = Some (c_ID c)) fs)"
proof (induction cats)
  case (Cons c cats)
  have "mset (filter (\<lambda>f. \<exists>c \<in> set (c # cats). f_CategoryID f = Some (c_ID c)) fs)
      = mset (filter (\<lambda>f. f_CategoryID f = Some (c_ID c) \<or> (\<exists>c \<in> set cats. f_CategoryID f = Some (c_ID c))) fs)" by simp
  also have "\<dots> = mset (filter (\<lambda>f. f_CategoryID f = Some (c_ID c)) fs)
      + mset (filter (\<lambda>f. \<exists>c \<in> set cats. f_CategoryID f = Some (c_ID c)) fs)"
    using Cons.prems by (intro mset_filter_disj) (auto simp: image_iff)
  finally show ?case using Cons by simp
qed simp

lemma sum_image: "sum_list (map (\<lambda>c. image_mset g (h c)) cs) = image_mset g (sum_list (map h cs))"
  by (induction cs) auto

text \<open>C36. The export is complete: in the document of a store's feeds and categories every subscription is
  listed exactly once; a category has its feeds, in their order, and the feeds outside every category
  stand at the end.\<close>

theorem opml_complete:
  assumes "distinct (map c_ID cats)"
  shows "mset (concat (map outline_feeds (opml_body lib fs cats))) = image_mset (feed_outline lib) (mset fs)
    \<and> take (length cats) (opml_body lib fs cats)
        = map (\<lambda>c. CategoryOutline (c_Title c) (map (feed_outline lib) (filter (\<lambda>f. f_CategoryID f = Some (c_ID c)) fs))) cats
    \<and> (\<forall>x \<in> set (drop (length cats) (opml_body lib fs cats)). \<exists>f \<in> set fs. x = FeedOutline (feed_outline lib f)
          \<and> (\<forall>c \<in> set cats. f_CategoryID f \<noteq> Some (c_ID c)))"
proof (intro conjI)
  let ?P = "\<lambda>f. \<exists>c \<in> set cats. f_CategoryID f = Some (c_ID c)"
  have n: "(case f_CategoryID f of None \<Rightarrow> True | Some k \<Rightarrow> k \<notin> c_ID ` set cats) \<longleftrightarrow> \<not> ?P f" for f
    by (auto split: option.split)
  have "mset (concat (map outline_feeds (opml_body lib fs cats)))
      = sum_list (map (\<lambda>c. image_mset (feed_outline lib) (mset (filter (\<lambda>f. f_CategoryID f = Some (c_ID c)) fs))) cats)
        + image_mset (feed_outline lib) (mset (filter (\<lambda>f. \<not> ?P f) fs))"
    by (simp add: opml_body_eq n comp_def mset_concat concat_map_singleton)
  also have "\<dots> = image_mset (feed_outline lib) (mset (filter ?P fs) + mset (filter (\<lambda>f. \<not> ?P f) fs))"
    by (simp only: mset_by_category [OF assms, symmetric] sum_image image_mset_union)
  also have "mset (filter ?P fs) + mset (filter (\<lambda>f. \<not> ?P f) fs) = mset fs"
    by (simp only: mset_filter multiset_partition [symmetric])
  finally show "mset (concat (map outline_feeds (opml_body lib fs cats))) = image_mset (feed_outline lib) (mset fs)" .
  show "\<forall>x \<in> set (drop (length cats) (opml_body lib fs cats)). \<exists>f \<in> set fs. x = FeedOutline (feed_outline lib f)
      \<and> (\<forall>c \<in> set cats. f_CategoryID f \<noteq> Some (c_ID c))"
    unfolding opml_body_eq n by auto
qed (simp add: opml_body_eq)

section \<open>A sample export\<close>

definition opml_lib :: url_lib where
  "opml_lib = \<lparr>ul_Parse = (\<lambda>_. None), ul_String = u_Path, ul_lower = (\<lambda>s. s), ul_quote = (\<lambda>s. s)\<rparr>"

theorem opml_complete_witness:
  "mset (concat (map outline_feeds (opml_body opml_lib
      [zero_feed\<lparr>f_Title := ''a'', f_CategoryID := Some 1\<rparr>, zero_feed\<lparr>f_Title := ''b''\<rparr>] [\<lparr>c_ID = 1, c_UserID = 1, c_Title = ''c''\<rparr>])))
    = image_mset (feed_outline opml_lib) {#zero_feed\<lparr>f_Title := ''a'', f_CategoryID := Some 1\<rparr>, zero_feed\<lparr>f_Title := ''b''\<rparr>#}"
  using opml_complete [of "[\<lparr>c_ID = 1, c_UserID = 1, c_Title = ''c''\<rparr>]" opml_lib
      "[zero_feed\<lparr>f_Title := ''a'', f_CategoryID := Some 1\<rparr>, zero_feed\<lparr>f_Title := ''b''\<rparr>]"] by simp

end
