(* ===== verification/Config.thy ===== *)
theory Config
  imports FetchGuard FeedUrl Schedule
begin

text \<open>
  \<open>internal/config/config.go\<close>: reading and checking the environment. The environment and the parsers of
  numbers, durations and prefixes are the argument \<open>sys\<close>.
\<close>

record sys_lib =
  sy_Getenv :: "string \<Rightarrow> string"
  sy_ParseFloat :: "string \<Rightarrow> f64 option"
  sy_ParseDuration :: "string \<Rightarrow> duration option"
  sy_ParsePrefix :: "string \<Rightarrow> gerr + Prefix"
  sy_Masked :: "Prefix \<Rightarrow> Prefix"
  sy_url :: url_lib

record Config =
  cf_ListenAddr :: string
  cf_BaseURL :: string
  cf_DatabasePath :: string
  cf_LogLevel :: string
  cf_LogFormat :: string
  cf_PollTick :: duration
  cf_SchedMinInterval :: duration
  cf_SchedMaxInterval :: duration
  cf_SchedFactor :: f64
  cf_FeedErrorLimit :: int
  cf_MaxBackoff :: duration
  cf_FeedWorkers :: int
  cf_BatchSize :: int
  cf_HostConcurrency :: int
  cf_ScrapeWorkers :: int
  cf_ScrapeTick :: duration
  cf_ScrapeBatch :: int
  cf_ScrapeMaxAttempts :: int
  cf_ImageProxy :: bool
  cf_ImageProxySecret :: string
  cf_BlockPrivateNetworks :: bool
  cf_AllowPrivateCIDRs :: "Prefix list"
  cf_MetricsAddr :: string

section \<open>The typed lookups\<close>

definition env_or :: "sys_lib \<Rightarrow> string \<Rightarrow> string \<Rightarrow> string" where
  "env_or sys k def0 = (let v = sy_Getenv sys k in if v \<noteq> [] then v else def0)"

text \<open>A lookup appends to the errors so far.\<close>

type_synonym 'a lookup = "gerr list \<Rightarrow> 'a \<times> gerr list"

definition bad :: "sys_lib \<Rightarrow> string \<Rightarrow> string \<Rightarrow> string \<Rightarrow> string \<Rightarrow> gerr" where
  "bad sys k what v hint = errors_New (k @ '': invalid '' @ what @ '' '' @ Quote (sy_url sys) v @ hint)"

definition lookup_with ::
  "sys_lib \<Rightarrow> (string \<Rightarrow> 'a option) \<Rightarrow> string \<Rightarrow> string \<Rightarrow> string \<Rightarrow> 'a \<Rightarrow> 'a lookup" where
  "lookup_with sys parse what hint k def0 errs =
     (let v = sy_Getenv sys k in
      if v = [] then (def0, errs)
      else case parse v of Some a \<Rightarrow> (a, errs) | None \<Rightarrow> (def0, errs @ [bad sys k what v hint]))"

definition l_int :: "sys_lib \<Rightarrow> string \<Rightarrow> int \<Rightarrow> int lookup" where
  "l_int sys = lookup_with sys ParseInt ''integer'' []"

definition l_float :: "sys_lib \<Rightarrow> string \<Rightarrow> f64 \<Rightarrow> f64 lookup" where
  "l_float sys = lookup_with sys (sy_ParseFloat sys) ''number'' []"

definition l_dur :: "sys_lib \<Rightarrow> string \<Rightarrow> duration \<Rightarrow> duration lookup" where
  "l_dur sys = lookup_with sys (sy_ParseDuration sys) ''duration'' '' (want e.g. 30s, 15m, 24h)''"

definition bool_word :: "sys_lib \<Rightarrow> string \<Rightarrow> bool option" where
  "bool_word sys raw =
     (let w = ToLower (ul_lower (sy_url sys)) (TrimSpace raw)
      in if w \<in> set [''1'', ''true'', ''on'', ''yes''] then Some True
         else if w \<in> set [''0'', ''false'', ''off'', ''no''] then Some False else None)"

definition l_boolean :: "sys_lib \<Rightarrow> string \<Rightarrow> bool \<Rightarrow> bool lookup" where
  "l_boolean sys = lookup_with sys (bool_word sys) ''boolean'' '' (want true/false/on/off/1/0)''"

text \<open>\<open>strings.Split\<close> at commas.\<close>

fun split_comma :: "string \<Rightarrow> string list" where
  "split_comma [] = [[]]"
| "split_comma (c # s) =
     (if c = CHR '','' then [] # split_comma s
      else case split_comma s of [] \<Rightarrow> [[c]] | p # ps \<Rightarrow> (c # p) # ps)"

fun parse_parts :: "sys_lib \<Rightarrow> string list \<Rightarrow> gerr + Prefix list" where
  "parse_parts sys [] = Inr []"
| "parse_parts sys (part # parts) =
     (let part = TrimSpace part in
      if part = [] then parse_parts sys parts
      else case sy_ParsePrefix sys part of
          Inl e \<Rightarrow> Inl (Errorf (''invalid CIDR '' @ Quote (sy_url sys) part @ '': '' @ err_text e) [e])
        | Inr p \<Rightarrow> map_sum id ((#) (sy_Masked sys p)) (parse_parts sys parts))"

definition parseCIDRs :: "sys_lib \<Rightarrow> string \<Rightarrow> gerr + Prefix list" where
  "parseCIDRs sys v = (let v = TrimSpace v in if v = [] then Inr [] else parse_parts sys (split_comma v))"

section \<open>\<open>Load\<close>\<close>

definition read_env :: "sys_lib \<Rightarrow> Config lookup" where
  "read_env sys errs =
     (let (pollTick, errs) = l_dur sys ''BFEED_POLL_TICK'' Minute errs;
          (minI, errs) = l_dur sys ''BFEED_SCHED_MIN_INTERVAL'' (5 * Minute) errs;
          (maxI, errs) = l_dur sys ''BFEED_SCHED_MAX_INTERVAL'' (24 * Hour) errs;
          (factor, errs) = l_float sys ''BFEED_SCHED_FACTOR'' (Fin 1) errs;
          (errorLimit, errs) = l_int sys ''BFEED_FEED_ERROR_LIMIT'' 20 errs;
          (maxBackoff, errs) = l_dur sys ''BFEED_MAX_BACKOFF'' (24 * Hour) errs;
          (feedWorkers, errs) = l_int sys ''BFEED_FEED_WORKERS'' 20 errs;
          (batch, errs) = l_int sys ''BFEED_BATCH_SIZE'' 100 errs;
          (hostConc, errs) = l_int sys ''BFEED_HOST_CONCURRENCY'' 3 errs;
          (scrapeWorkers, errs) = l_int sys ''BFEED_SCRAPE_WORKERS'' 20 errs;
          (scrapeTick, errs) = l_dur sys ''BFEED_SCRAPE_TICK'' Minute errs;
          (scrapeBatch, errs) = l_int sys ''BFEED_SCRAPE_BATCH'' 50 errs;
          (scrapeMax, errs) = l_int sys ''BFEED_SCRAPE_MAX_ATTEMPTS'' 3 errs;
          (imageProxy, errs) = l_boolean sys ''BFEED_IMAGE_PROXY'' True errs;
          (block, errs) = l_boolean sys ''BFEED_BLOCK_PRIVATE_NETWORKS'' True errs
      in (\<lparr>cf_ListenAddr = env_or sys ''BFEED_LISTEN_ADDR'' '':8080'', cf_BaseURL = env_or sys ''BFEED_BASE_URL'' [],
           cf_DatabasePath = env_or sys ''BFEED_DATABASE_PATH'' ''./bfeed.db'', cf_LogLevel = env_or sys ''BFEED_LOG_LEVEL'' ''info'',
           cf_LogFormat = env_or sys ''BFEED_LOG_FORMAT'' ''json'', cf_PollTick = pollTick, cf_SchedMinInterval = minI,
           cf_SchedMaxInterval = maxI, cf_SchedFactor = factor, cf_FeedErrorLimit = errorLimit, cf_MaxBackoff = maxBackoff,
           cf_FeedWorkers = feedWorkers, cf_BatchSize = batch, cf_HostConcurrency = hostConc, cf_ScrapeWorkers = scrapeWorkers,
           cf_ScrapeTick = scrapeTick, cf_ScrapeBatch = scrapeBatch, cf_ScrapeMaxAttempts = scrapeMax, cf_ImageProxy = imageProxy,
           cf_ImageProxySecret = env_or sys ''BFEED_IMAGE_PROXY_SECRET'' [], cf_BlockPrivateNetworks = block,
           cf_AllowPrivateCIDRs = [], cf_MetricsAddr = env_or sys ''BFEED_METRICS_ADDR'' []\<rparr>, errs))"

text \<open>\<open>errors.Join\<close>.\<close>

definition errors_Join :: "gerr list \<Rightarrow> gerr option" where
  "errors_Join es = (if es = [] then None else Some (Errorf (join_with [CHR 0x0A] (map err_text es)) es))"

definition base_url_ok :: "sys_lib \<Rightarrow> string \<Rightarrow> bool" where
  "base_url_ok sys s =
     (case ul_Parse (sy_url sys) s of
        None \<Rightarrow> False
      | Some u \<Rightarrow> u_Host u \<noteq> [] \<and> (u_Scheme u = ''http'' \<or> u_Scheme u = ''https''))"

text \<open>\<open>x > 0\<close>, false for a NaN.\<close>

fun f64_pos :: "f64 \<Rightarrow> bool" where
  "f64_pos (Fin q) = (0 < q)"
| "f64_pos PInf = True"
| "f64_pos NInf = False"
| "f64_pos NaN = False"

definition Load :: "sys_lib \<Rightarrow> gerr + Config" where
  "Load sys =
     (let (c, errs) = read_env sys [] in
      case errors_Join errs of Some e \<Rightarrow> Inl e | None \<Rightarrow>
      if cf_BaseURL c = [] then Inl (errors_New ''BFEED_BASE_URL is required'')
      else if \<not> base_url_ok sys (cf_BaseURL c) then
        Inl (errors_New ''BFEED_BASE_URL must be an absolute http(s) URL with a host (e.g. https://bfeed.example)'')
      else if cf_FeedWorkers c < 1 \<or> cf_HostConcurrency c < 1 then Inl (errors_New ''worker/host-concurrency must be >= 1'')
      else if cf_SchedMinInterval c \<le> 0 \<or> cf_SchedMaxInterval c \<le> cf_SchedMinInterval c then
        Inl (errors_New ''BFEED_SCHED_MIN_INTERVAL must be > 0 and < BFEED_SCHED_MAX_INTERVAL'')
      else if \<not> f64_pos (cf_SchedFactor c) \<or> cf_SchedFactor c = PInf \<or> cf_SchedFactor c = NInf then
        Inl (errors_New ''BFEED_SCHED_FACTOR must be a finite number > 0'')
      else if cf_FeedErrorLimit c < 1 then Inl (errors_New ''BFEED_FEED_ERROR_LIMIT must be >= 1'')
      else case parseCIDRs sys (sy_Getenv sys ''BFEED_ALLOW_PRIVATE_CIDRS'') of
          Inl e \<Rightarrow> Inl (Errorf (''BFEED_ALLOW_PRIVATE_CIDRS: '' @ err_text e) [e])
        | Inr cidrs \<Rightarrow> Inr (c\<lparr>cf_AllowPrivateCIDRs := cidrs\<rparr>))"

text \<open>The settings of the subcommands that do not serve.\<close>

definition LoadMinimal :: "sys_lib \<Rightarrow> string \<times> string \<times> string \<times> string" where
  "LoadMinimal sys =
     (env_or sys ''BFEED_LISTEN_ADDR'' '':8080'', env_or sys ''BFEED_DATABASE_PATH'' ''./bfeed.db'',
      env_or sys ''BFEED_LOG_LEVEL'' ''info'', env_or sys ''BFEED_LOG_FORMAT'' ''json'')"

section \<open>What a loaded configuration is\<close>

text \<open>A setting is its default when the variable is unset, and what the text says otherwise.\<close>

definition setting :: "sys_lib \<Rightarrow> (string \<Rightarrow> 'a option) \<Rightarrow> string \<Rightarrow> 'a \<Rightarrow> 'a \<Rightarrow> bool" where
  "setting sys parse k def0 a \<longleftrightarrow> (if sy_Getenv sys k = [] then a = def0 else parse (sy_Getenv sys k) = Some a)"

definition reads_env :: "sys_lib \<Rightarrow> Config \<Rightarrow> bool" where
  "reads_env sys c \<longleftrightarrow>
     setting sys (sy_ParseDuration sys) ''BFEED_POLL_TICK'' Minute (cf_PollTick c)
     \<and> setting sys (sy_ParseDuration sys) ''BFEED_SCHED_MIN_INTERVAL'' (5 * Minute) (cf_SchedMinInterval c)
     \<and> setting sys (sy_ParseDuration sys) ''BFEED_SCHED_MAX_INTERVAL'' (24 * Hour) (cf_SchedMaxInterval c)
     \<and> setting sys (sy_ParseFloat sys) ''BFEED_SCHED_FACTOR'' (Fin 1) (cf_SchedFactor c)
     \<and> setting sys ParseInt ''BFEED_FEED_ERROR_LIMIT'' 20 (cf_FeedErrorLimit c)
     \<and> setting sys (sy_ParseDuration sys) ''BFEED_MAX_BACKOFF'' (24 * Hour) (cf_MaxBackoff c)
     \<and> setting sys ParseInt ''BFEED_FEED_WORKERS'' 20 (cf_FeedWorkers c)
     \<and> setting sys ParseInt ''BFEED_BATCH_SIZE'' 100 (cf_BatchSize c)
     \<and> setting sys ParseInt ''BFEED_HOST_CONCURRENCY'' 3 (cf_HostConcurrency c)
     \<and> setting sys ParseInt ''BFEED_SCRAPE_WORKERS'' 20 (cf_ScrapeWorkers c)
     \<and> setting sys (sy_ParseDuration sys) ''BFEED_SCRAPE_TICK'' Minute (cf_ScrapeTick c)
     \<and> setting sys ParseInt ''BFEED_SCRAPE_BATCH'' 50 (cf_ScrapeBatch c)
     \<and> setting sys ParseInt ''BFEED_SCRAPE_MAX_ATTEMPTS'' 3 (cf_ScrapeMaxAttempts c)
     \<and> setting sys (bool_word sys) ''BFEED_IMAGE_PROXY'' True (cf_ImageProxy c)
     \<and> setting sys (bool_word sys) ''BFEED_BLOCK_PRIVATE_NETWORKS'' True (cf_BlockPrivateNetworks c)"

lemma lookup_with_ok:
  "lookup_with sys parse what hint k def0 errs = (a, es) \<Longrightarrow> es = [] \<Longrightarrow> errs = [] \<and> setting sys parse k def0 a"
  by (auto simp: lookup_with_def setting_def Let_def split: if_splits option.splits)

lemma lookup_ok:
  "l_int sys k n errs = (i, []) \<Longrightarrow> errs = [] \<and> setting sys ParseInt k n i"
  "l_float sys k x errs = (f, []) \<Longrightarrow> errs = [] \<and> setting sys (sy_ParseFloat sys) k x f"
  "l_dur sys k d errs = (t, []) \<Longrightarrow> errs = [] \<and> setting sys (sy_ParseDuration sys) k d t"
  "l_boolean sys k b errs = (v, []) \<Longrightarrow> errs = [] \<and> setting sys (bool_word sys) k b v"
  by (auto simp: l_int_def l_float_def l_dur_def l_boolean_def dest: lookup_with_ok)

lemma read_env_ok: "read_env sys [] = (c, []) \<Longrightarrow> reads_env sys c"
  unfolding read_env_def Let_def reads_env_def
  by (clarsimp split: prod.splits; (drule lookup_ok, clarsimp)+; simp)


definition sample_sys :: sys_lib where
  "sample_sys = \<lparr>sy_Getenv = (\<lambda>k. if k = ''BFEED_BASE_URL'' then ''http://h'' else if k = ''BFEED_FEED_WORKERS'' then ''4'' else []),
     sy_ParseFloat = (\<lambda>_. None), sy_ParseDuration = (\<lambda>_. None), sy_ParsePrefix = (\<lambda>_. Inl Canceled), sy_Masked = (\<lambda>p. p),
     sy_url = \<lparr>ul_Parse = (\<lambda>_. Some \<lparr>u_Scheme = ''http'', u_Opaque = [], u_User = None, u_Host = ''h'', u_Path = [], u_RawPath = [],
       u_OmitHost = False, u_ForceQuery = False, u_RawQuery = [], u_Fragment = [], u_RawFragment = []\<rparr>),
       ul_String = u_Path, ul_lower = (\<lambda>s. s), ul_quote = (\<lambda>s. s)\<rparr>\<rparr>"

lemma sample_loads: "\<exists>c. Load sample_sys = Inr c \<and> cf_FeedWorkers c = 4"
proof -
  have "ParseInt ''4'' = Some 4" by code_simp
  then show ?thesis
    by (simp add: Load_def read_env_def l_int_def l_float_def l_dur_def l_boolean_def lookup_with_def sample_sys_def
        env_or_def errors_Join_def base_url_ok_def parseCIDRs_def Minute_def Hour_def Second_def)
qed


end
