(* ===== verification/Dom.thy ===== *)
theory Dom
  imports ImgProxy "HOL-Library.Char_ord" "HOL-Library.List_Lexorder" "HOL-Library.Multiset"
begin

text \<open>
  HTML trees and the two passes over them: \<open>internal/web/transform.go\<close> (the reader's render-time
  transforms) and \<open>preprocess\<close> of \<open>internal/sanitize/sanitize.go\<close>. Parsing and rendering HTML
  (\<open>x/net/html\<close>) and the allowlist of \<open>bluemonday\<close> are arguments.
\<close>

type_synonym attrs = "(string \<times> string) list"

text \<open>\<open>Other\<close> is any other kind of node (a document, a doctype).\<close>

datatype dom =
    El (el_name: string) (el_attrs: attrs) (el_children: "dom list")
  | Txt string
  | Comment string
  | Other "dom list"

section \<open>\<open>transform.go\<close>\<close>

fun blank_node :: "dom \<Rightarrow> bool" where
  "blank_node (Txt s) = (TrimSpace s = [])"
| "blank_node (Comment s) = True"
| "blank_node _ = False"

fun is_el :: "dom \<Rightarrow> bool" where
  "is_el (El n a cs) = True"
| "is_el _ = False"

text \<open>\<open>isImageOnly\<close>: blank text, comments and exactly one element, an image or (once) a link that is
  image only.\<close>

fun isImageOnly :: "nat \<Rightarrow> dom list \<Rightarrow> bool" where
  "isImageOnly links cs =
     (list_all (\<lambda>c. blank_node c \<or> is_el c) cs
      \<and> (case filter is_el cs of
           [El n a ds] \<Rightarrow> n = ''img'' \<or> (case links of 0 \<Rightarrow> False | Suc k \<Rightarrow> n = ''a'' \<and> isImageOnly k ds)
         | _ \<Rightarrow> False))"

definition remote_src :: "string \<times> string \<Rightarrow> bool" where
  "remote_src a \<longleftrightarrow> fst a = ''src'' \<and> (has_prefix (snd a) ''http://'' \<or> has_prefix (snd a) ''https://'')"

definition rewrite_attrs :: "(string \<Rightarrow> string) \<Rightarrow> attrs \<Rightarrow> attrs" where
  "rewrite_attrs rw as = map (\<lambda>a. if remote_src a then (fst a, rw (snd a)) else a) as"

fun transformWalk :: "(string \<Rightarrow> string) option \<Rightarrow> dom \<Rightarrow> dom" where
  "transformWalk rw (El n as cs) =
     El (if n = ''p'' \<and> isImageOnly 1 cs then ''figure'' else n)
        (if n = ''img'' then (case rw of Some f \<Rightarrow> rewrite_attrs f as | None \<Rightarrow> as) else as)
        (map (transformWalk rw) cs)"
| "transformWalk rw (Other cs) = Other (map (transformWalk rw) cs)"
| "transformWalk rw d = d"

record html_lib =
  ht_fragment :: "string \<Rightarrow> dom list option"    \<comment> \<open>\<open>ParseFragment\<close> as a body; \<open>None\<close>: an error\<close>
  ht_document :: "string \<Rightarrow> dom option"
  ht_render :: "dom \<Rightarrow> string \<times> bool"          \<comment> \<open>what is written, and whether it failed\<close>
  ht_policy :: "string \<Rightarrow> string"                \<comment> \<open>\<open>policy.Sanitize\<close>\<close>

fun render_all :: "html_lib \<Rightarrow> dom list \<Rightarrow> string option" where
  "render_all lib [] = Some []"
| "render_all lib (d # ds) =
     (case ht_render lib d of (s, failed) \<Rightarrow> if failed then None else map_option ((@) s) (render_all lib ds))"

definition transformContent :: "html_lib \<Rightarrow> (string \<Rightarrow> string) option \<Rightarrow> string \<Rightarrow> string" where
  "transformContent lib rw s =
     (case ht_fragment lib s of
        None \<Rightarrow> s
      | Some nodes \<Rightarrow> (case render_all lib (map (transformWalk rw) nodes) of None \<Rightarrow> s | Some t \<Rightarrow> t))"

section \<open>\<open>preprocess\<close>\<close>

definition trackingParams :: "string list" where
  "trackingParams = [''fbclid'', ''gclid'', ''mc_eid'', ''igshid'']"

definition isTrackingParam :: "string \<Rightarrow> bool" where
  "isTrackingParam k \<longleftrightarrow> k \<in> set trackingParams \<or> has_prefix k ''utm_''"

text \<open>\<open>Values.Encode\<close>: by key, the values of a key in their order.\<close>

definition sorted_keys :: "(string \<times> string) list \<Rightarrow> string list" where
  "sorted_keys q = sort (remdups (map fst q))"

definition Encode :: "(string \<times> string) list \<Rightarrow> string" where
  "Encode q = join_with ''&'' (concat (map (\<lambda>k. map (\<lambda>p. pair (fst p) (snd p)) (filter (\<lambda>p. fst p = k) q)) (sorted_keys q)))"

record san_lib =
  sn_url :: url_lib
  sn_resolve :: "URL \<Rightarrow> URL \<Rightarrow> URL"
  sn_html :: html_lib

definition cleanURL :: "san_lib \<Rightarrow> URL option \<Rightarrow> string \<Rightarrow> string" where
  "cleanURL lib base raw =
     (if raw = [] then raw
      else case ul_Parse (sn_url lib) raw of
          None \<Rightarrow> raw
        | Some u \<Rightarrow>
            (let u = u\<lparr>u_RawQuery := Encode (filter (\<lambda>p. \<not> isTrackingParam (fst p)) (ParseQuery (u_RawQuery u)))\<rparr>;
                 u = (case base of None \<Rightarrow> u | Some b \<Rightarrow> sn_resolve lib b u)
             in ul_String (sn_url lib) u))"

definition resolveURL :: "san_lib \<Rightarrow> URL option \<Rightarrow> string \<Rightarrow> string" where
  "resolveURL lib base raw =
     (case (ul_Parse (sn_url lib) raw, base) of
        (Some u, Some b) \<Rightarrow> ul_String (sn_url lib) (sn_resolve lib b u)
      | _ \<Rightarrow> raw)"

definition attr :: "attrs \<Rightarrow> string \<Rightarrow> string" where
  "attr as key = (case map_of as key of Some v \<Rightarrow> v | None \<Rightarrow> [])"

text \<open>\<open>setAttr\<close> changes the first attribute of the name or appends one.\<close>

fun setAttr :: "string \<Rightarrow> string \<Rightarrow> attrs \<Rightarrow> attrs" where
  "setAttr key val [] = [(key, val)]"
| "setAttr key val ((k, v) # as) = (if k = key then (k, val) # as else (k, v) # setAttr key val as)"

fun keep :: "dom \<Rightarrow> bool" where
  "keep (El n as cs) \<longleftrightarrow> \<not> (n = ''img'' \<and> attr as ''width'' = ''1'' \<and> attr as ''height'' = ''1'')"
| "keep _ \<longleftrightarrow> True"

definition clean_attrs :: "san_lib \<Rightarrow> URL option \<Rightarrow> string \<Rightarrow> attrs \<Rightarrow> attrs" where
  "clean_attrs lib base n as =
     (if n = ''a'' then setAttr ''href'' (cleanURL lib base (attr as ''href'')) as
      else if n = ''img'' \<and> attr as ''src'' \<noteq> [] then setAttr ''src'' (resolveURL lib base (attr as ''src'')) as
      else as)"

text \<open>\<open>clean\<close> works on the children of a node; the root itself is a document.\<close>

fun clean_child :: "san_lib \<Rightarrow> URL option \<Rightarrow> dom \<Rightarrow> dom" where
  "clean_child lib base (El n as cs) = El n (clean_attrs lib base n as) (map (clean_child lib base) (filter keep cs))"
| "clean_child lib base (Other cs) = Other (map (clean_child lib base) (filter keep cs))"
| "clean_child lib base d = d"

text \<open>The root of a parsed document is no element of the page, so only its children are cleaned.\<close>

fun clean_root :: "san_lib \<Rightarrow> URL option \<Rightarrow> dom \<Rightarrow> dom" where
  "clean_root lib base (El n as cs) = El n as (map (clean_child lib base) (filter keep cs))"
| "clean_root lib base (Other cs) = Other (map (clean_child lib base) (filter keep cs))"
| "clean_root lib base d = d"

definition preprocess :: "san_lib \<Rightarrow> string \<Rightarrow> string \<Rightarrow> string" where
  "preprocess lib s baseURL =
     (case ht_document (sn_html lib) s of
        None \<Rightarrow> s
      | Some doc \<Rightarrow> fst (ht_render (sn_html lib) (clean_root lib (ul_Parse (sn_url lib) baseURL) doc)))"

definition Sanitize :: "san_lib \<Rightarrow> string \<Rightarrow> string \<Rightarrow> string" where
  "Sanitize lib s baseURL = ht_policy (sn_html lib) (preprocess lib s baseURL)"

section \<open>What the reader loads\<close>

text \<open>The \<open>src\<close> values of the images and the texts of a tree, in document order.\<close>

fun img_srcs :: "dom \<Rightarrow> string list" where
  "img_srcs (El n as cs) =
     (if n = ''img'' then map snd (filter (\<lambda>a. fst a = ''src'') as) else []) @ concat (map img_srcs cs)"
| "img_srcs (Other cs) = concat (map img_srcs cs)"
| "img_srcs _ = []"

fun texts :: "dom \<Rightarrow> string list" where
  "texts (El n as cs) = concat (map texts cs)"
| "texts (Other cs) = concat (map texts cs)"
| "texts (Txt s) = [s]"
| "texts (Comment s) = []"

definition remote :: "string \<Rightarrow> bool" where
  "remote s \<longleftrightarrow> has_prefix s ''http://'' \<or> has_prefix s ''https://''"

lemma rewrite_attrs_srcs:
  "map snd (filter (\<lambda>a. fst a = ''src'') (rewrite_attrs f as))
     = map (\<lambda>s. if remote s then f s else s) (map snd (filter (\<lambda>a. fst a = ''src'') as))"
  by (induction as) (auto simp: rewrite_attrs_def remote_src_def remote_def)

lemma transform_srcs: "img_srcs (transformWalk (Some f) d) = map (\<lambda>s. if remote s then f s else s) (img_srcs d)"
proof (induction d)
  case (El n as cs)
  then have "concat (map (img_srcs \<circ> transformWalk (Some f)) cs)
      = map (\<lambda>s. if remote s then f s else s) (concat (map img_srcs cs))"
    by (induction cs) auto
  then show ?case by (auto simp: rewrite_attrs_srcs)
next
  case (Other cs)
  then show ?case by (induction cs) auto
qed auto

lemma transform_texts: "texts (transformWalk rw d) = texts d"
proof (induction d)
  case (El n as cs)
  then show ?case by (induction cs) auto
next
  case (Other cs)
  then show ?case by (induction cs) auto
qed auto

lemma ProxyURL_not_remote: "\<not> remote (ProxyURL s u)"
  by (simp add: remote_def ProxyURL_def has_prefix_def)


section \<open>What the sanitizer is given\<close>

fun below :: "dom \<Rightarrow> dom list" where
  "below (El n as cs) = cs @ concat (map below cs)"
| "below (Other cs) = cs @ concat (map below cs)"
| "below _ = []"

lemma attr_setAttr: "attr (setAttr k v as) k' = (if k' = k then v else attr as k')"
proof (induction as)
  case (Cons a as)
  obtain k0 v0 where a: "a = (k0, v0)" by (cases a)
  show ?case
    using Cons by (cases "k0 = k"; cases "k' = k0"; simp add: a attr_def)
qed (simp add: attr_def)

lemma keep_clean_child: "keep (clean_child lib base d) = keep d"
  by (cases d) (auto simp: clean_attrs_def attr_setAttr)

lemma below_clean_child: "list_all keep (below (clean_child lib base d))"
proof (induction d)
  case (El n as cs)
  then show ?case by (auto simp: list_all_iff keep_clean_child)
next
  case (Other cs)
  then show ?case by (auto simp: list_all_iff keep_clean_child)
qed auto

lemma below_clean_root: "list_all keep (below (clean_root lib base d))"
  by (cases d) (use below_clean_child [of lib base] in \<open>auto simp: list_all_iff keep_clean_child\<close>)

text \<open>The query string of a cleaned link.\<close>

lemma ParseQuery_join: "ParseQuery (join_with ''&'' (map (\<lambda>p. pair (fst p) (snd p)) ps)) = ps"
proof (induction ps)
  case Nil
  then show ?case by (simp add: ParseQuery.simps)
next
  case (Cons p ps)
  then show ?case by (cases ps) (simp_all add: ParseQuery_pair ParseQuery_pair_Cons)
qed

lemma Encode_join: "Encode q = join_with ''&'' (map (\<lambda>p. pair (fst p) (snd p)) (concat (map (\<lambda>k. filter (\<lambda>p. fst p = k) q) (sorted_keys q))))"
  by (simp add: Encode_def map_concat comp_def)

lemma mset_by_key:
  "distinct ks \<Longrightarrow> mset (concat (map (\<lambda>k. filter (\<lambda>p. fst p = k) q) ks)) = mset (filter (\<lambda>p. fst p \<in> set ks) q)"
proof (induction ks)
  case (Cons k ks)
  have "mset (filter (\<lambda>p. fst p \<in> set (k # ks)) q) = mset (filter (\<lambda>p. fst p = k) q) + mset (filter (\<lambda>p. fst p \<in> set ks) q)"
    using Cons.prems by (induction q) auto
  then show ?case using Cons by simp
qed simp

lemma ParseQuery_Encode: "mset (ParseQuery (Encode q)) = mset q"
proof -
  have "mset (ParseQuery (Encode q)) = mset (filter (\<lambda>p. fst p \<in> set (sorted_keys q)) q)"
    unfolding Encode_join ParseQuery_join by (rule mset_by_key) (simp add: sorted_keys_def)
  also have "filter (\<lambda>p. fst p \<in> set (sorted_keys q)) q = q"
    by (rule filter_True) (simp add: sorted_keys_def)
  finally show ?thesis .
qed


end
