(* ===== verification/MemStore.thy ===== *)
theory MemStore
  imports SqliteEntries GoBytes Service
begin

text \<open>
  \<open>internal/core/coretest/memstore.go\<close>: the second implementation of \<open>core.Store\<close>, which the tests of
  the services and of the web layer run on, one definition per method.

  A map from ids to feeds, entries or categories has each value under its own id, so it is the list of
  its values, in the order the next \<open>range\<close> visits them; Go leaves that order open, and the facts about
  the store hold for every one of them. \<open>sort.Slice\<close> is not stable, which is the same freedom. The
  contexts are ignored, the mutex makes each method one step, the clock of \<open>time.Now()\<close> is \<open>wall\<close>. The
  id counter is an \<open>int64\<close> that would take 2^63 inserts to wrap.
\<close>

record mem =
  mm_feeds :: "Feed list"
  mm_entries :: "Entry list"
  mm_tombstones :: "string set"
  mm_categories :: "Category list"
  mm_nextExtract :: "ID \<Rightarrow> time option"
  mm_settings :: "string \<Rightarrow> string option"
  mm_nextID :: ID

definition NewMemStore :: mem where
  "NewMemStore = \<lparr>mm_feeds = [], mm_entries = [], mm_tombstones = {}, mm_categories = [],
     mm_nextExtract = (\<lambda>_. None), mm_settings = (\<lambda>_. None), mm_nextID = 1\<rparr>"

type_synonym 'a mem_op = "mem \<Rightarrow> (gerr + 'a) \<times> mem"

definition tkey :: "ID \<Rightarrow> string \<Rightarrow> string" where
  "tkey f g = FormatInt f @ ''|'' @ g"

abbreviation feed_at :: "ID \<Rightarrow> Feed \<Rightarrow> bool" where "feed_at i \<equiv> \<lambda>f. f_ID f = i"
abbreviation entry_id :: "ID \<Rightarrow> Entry \<Rightarrow> bool" where "entry_id i \<equiv> \<lambda>e. e_ID e = i"
abbreviation category_at :: "ID \<Rightarrow> Category \<Rightarrow> bool" where "category_at i \<equiv> \<lambda>c. c_ID c = i"

text \<open>\<open>f, ok := s.feeds[id]; if !ok || f.UserID != u { return ErrNotFound }\<close>.\<close>

definition with_feed :: "ID \<Rightarrow> ID \<Rightarrow> (Feed \<Rightarrow> 'a mem_op) \<Rightarrow> 'a mem_op" where
  "with_feed u i k m =
     (case find (feed_at i) (mm_feeds m) of
        None \<Rightarrow> (Inl ErrNotFound, m)
      | Some f \<Rightarrow> if f_UserID f \<noteq> u then (Inl ErrNotFound, m) else k f m)"

definition with_entry :: "ID \<Rightarrow> ID \<Rightarrow> (Entry \<Rightarrow> 'a mem_op) \<Rightarrow> 'a mem_op" where
  "with_entry u i k m =
     (case find (entry_id i) (mm_entries m) of
        None \<Rightarrow> (Inl ErrNotFound, m)
      | Some e \<Rightarrow> if e_UserID e \<noteq> u then (Inl ErrNotFound, m) else k e m)"

definition with_category :: "ID \<Rightarrow> ID \<Rightarrow> (Category \<Rightarrow> 'a mem_op) \<Rightarrow> 'a mem_op" where
  "with_category u i k m =
     (case find (category_at i) (mm_categories m) of
        None \<Rightarrow> (Inl ErrNotFound, m)
      | Some c \<Rightarrow> if c_UserID c \<noteq> u then (Inl ErrNotFound, m) else k c m)"

definition set_feed :: "ID \<Rightarrow> (Feed \<Rightarrow> Feed) \<Rightarrow> mem \<Rightarrow> mem" where
  "set_feed i g m = m\<lparr>mm_feeds := upd_where (feed_at i) g (mm_feeds m)\<rparr>"

definition set_entry :: "ID \<Rightarrow> (Entry \<Rightarrow> Entry) \<Rightarrow> mem \<Rightarrow> mem" where
  "set_entry i g m = m\<lparr>mm_entries := upd_where (entry_id i) g (mm_entries m)\<rparr>"

section \<open>Feeds\<close>

definition mem_CreateFeed :: "ctx \<Rightarrow> Feed \<Rightarrow> ID mem_op" where
  "mem_CreateFeed cx f m =
     (if list_ex (\<lambda>ex. f_UserID ex = f_UserID f \<and> f_FeedURL ex = f_FeedURL f) (mm_feeds m)
      then (Inl ErrConflict, m)
      else let i = mm_nextID m in
        (Inr i, m\<lparr>mm_nextID := i + 1, mm_feeds := mm_feeds m @ [f\<lparr>f_ID := i\<rparr>]\<rparr>))"

definition mem_GetFeed :: "ctx \<Rightarrow> ID \<Rightarrow> ID \<Rightarrow> Feed mem_op" where
  "mem_GetFeed cx u i = with_feed u i (\<lambda>f m. (Inr f, m))"

definition mem_ListFeeds :: "(string \<Rightarrow> string) \<Rightarrow> ctx \<Rightarrow> ID \<Rightarrow> Feed list mem_op" where
  "mem_ListFeeds um cx u m =
     (Inr (sort_key (\<lambda>f. ToLower um (f_Title f)) (filter (\<lambda>f. f_UserID f = u) (mm_feeds m))), m)"

text \<open>\<open>if limit > 0 && len(out) > limit { out = out[:limit] }\<close>.\<close>

definition cut_at :: "int \<Rightarrow> 'a list \<Rightarrow> 'a list" where
  "cut_at n xs = (if 0 < n \<and> n < int (length xs) then take (nat n) xs else xs)"

definition mem_ListDueFeeds :: "ctx \<Rightarrow> time \<Rightarrow> int \<Rightarrow> Feed list mem_op" where
  "mem_ListDueFeeds cx now limit m =
     (Inr (cut_at limit (filter (\<lambda>f. \<not> f_Disabled f \<and> \<not> now < f_NextCheckAt f) (mm_feeds m))), m)"

definition mem_WeeklyEntryCount :: "ctx \<Rightarrow> ID \<Rightarrow> time \<Rightarrow> int mem_op" where
  "mem_WeeklyEntryCount cx fid now m =
     (let start = time_add now (- Week);
          eff = (\<lambda>e. if time_unix (e_PublishedAt e) \<le> 0 then e_CreatedAt e else e_PublishedAt e)
      in (Inr (count_where (\<lambda>e. e_FeedID e = fid \<and> \<not> eff e < start \<and> \<not> now < eff e) (mm_entries m)), m))"

text \<open>The fields a poll owns. A feed that is gone, another user's, or at another URL by now is left
  alone without an error.\<close>

definition poll_fields :: "Feed \<Rightarrow> Feed \<Rightarrow> Feed" where
  "poll_fields f ex = ex\<lparr>f_SiteURL := f_SiteURL f, f_Title := f_Title f, f_Description := f_Description f,
     f_ETag := f_ETag f, f_LastModified := f_LastModified f, f_Disabled := f_Disabled f,
     f_CheckedAt := f_CheckedAt f, f_NextCheckAt := f_NextCheckAt f, f_ErrorCount := f_ErrorCount f,
     f_LastError := f_LastError f, f_UpdatedAt := f_UpdatedAt f, f_TTL := f_TTL f\<rparr>"

definition mem_UpdateFeed :: "ctx \<Rightarrow> Feed \<Rightarrow> unit mem_op" where
  "mem_UpdateFeed cx f m =
     (case find (feed_at (f_ID f)) (mm_feeds m) of
        None \<Rightarrow> (Inr (), m)
      | Some ex \<Rightarrow>
          if f_UserID ex \<noteq> f_UserID f \<or> f_FeedURL ex \<noteq> f_FeedURL f then (Inr (), m)
          else (Inr (), set_feed (f_ID f) (poll_fields f) m))"

definition mem_DeleteFeed :: "ctx \<Rightarrow> ID \<Rightarrow> ID \<Rightarrow> unit mem_op" where
  "mem_DeleteFeed cx u i = with_feed u i (\<lambda>f m.
     (let gone = map e_ID (filter (\<lambda>e. e_FeedID e = i) (mm_entries m));
          prefix = FormatInt i @ ''|''
      in (Inr (), m\<lparr>mm_entries := filter (\<lambda>e. e_FeedID e \<noteq> i) (mm_entries m),
            mm_nextExtract := (\<lambda>k. if k \<in> set gone then None else mm_nextExtract m k),
            mm_tombstones := {t \<in> mm_tombstones m. \<not> has_prefix t prefix},
            mm_feeds := filter (\<lambda>f. f_ID f \<noteq> i) (mm_feeds m)\<rparr>)))"

definition mem_SetFeedUserTitle :: "ctx \<Rightarrow> ID \<Rightarrow> ID \<Rightarrow> string \<Rightarrow> unit mem_op" where
  "mem_SetFeedUserTitle cx u i title = with_feed u i (\<lambda>f m. (Inr (), set_feed i (f_UserTitle_update (\<lambda>_. title)) m))"

definition mem_SetFeedURL :: "ctx \<Rightarrow> ID \<Rightarrow> ID \<Rightarrow> string \<Rightarrow> time \<Rightarrow> unit mem_op" where
  "mem_SetFeedURL cx u i url now = with_feed u i (\<lambda>f m.
     (if list_ex (\<lambda>other. f_UserID other = u \<and> f_FeedURL other = url \<and> f_ID other \<noteq> i) (mm_feeds m)
      then (Inl ErrConflict, m)
      else (Inr (), set_feed i (\<lambda>f. f\<lparr>f_FeedURL := url, f_ETag := [], f_LastModified := [], f_NextCheckAt := now\<rparr>) m)))"

definition mem_SetFeedCategory :: "ctx \<Rightarrow> ID \<Rightarrow> ID \<Rightarrow> ID option \<Rightarrow> unit mem_op" where
  "mem_SetFeedCategory cx u i cat = with_feed u i (\<lambda>f m. (Inr (), set_feed i (f_CategoryID_update (\<lambda>_. cat)) m))"

text \<open>The flag and the backlog: what an entry becomes, and the schedule of the entries.\<close>

definition queue_entry :: "bool \<Rightarrow> Entry \<Rightarrow> Entry" where
  "queue_entry on e =
     (if on then e\<lparr>e_ExtractState := ExtractPending, e_ExtractAttempts := 0, e_ExtractError := []\<rparr>
      else e\<lparr>e_ExtractState := ExtractNone, e_ExtractError := []\<rparr>)"

definition requeued :: "ID \<Rightarrow> bool \<Rightarrow> Entry \<Rightarrow> bool" where
  "requeued fid on e \<longleftrightarrow> e_FeedID e = fid
     \<and> extract_str (e_ExtractState e) \<in> (if on then {''none'', ''failed''} else {''pending'', ''failed''})"

definition mem_SetFeedFullContent :: "ctx \<Rightarrow> ID \<Rightarrow> ID \<Rightarrow> bool \<Rightarrow> time \<Rightarrow> unit mem_op" where
  "mem_SetFeedFullContent cx u i on due = with_feed u i (\<lambda>f m.
     (let m' = set_feed i (f_FetchFullContent_update (\<lambda>_. on)) m;
          hit = map e_ID (filter (requeued i on) (mm_entries m))
      in (Inr (), m'\<lparr>mm_entries := upd_where (requeued i on) (queue_entry on) (mm_entries m),
            mm_nextExtract := (\<lambda>k. if k \<in> set hit then (if on then Some due else None) else mm_nextExtract m k)\<rparr>)))"

section \<open>Ingest\<close>

definition mem_EntryDedup ::
  "ctx \<Rightarrow> ID \<Rightarrow> string list \<Rightarrow> ((string \<Rightarrow> string option) \<times> (string \<Rightarrow> bool)) mem_op" where
  "mem_EntryDedup cx fid guids m =
     (Inr (foldl (\<lambda>ex e. if e_FeedID e = fid \<and> e_GUID e \<in> set guids then ex(e_GUID e \<mapsto> e_Hash e) else ex)
             Map.empty (mm_entries m),
           \<lambda>g. g \<in> set guids \<and> tkey fid g \<in> mm_tombstones m), m)"

definition refresh_fields :: "Entry \<Rightarrow> Entry \<Rightarrow> Entry" where
  "refresh_fields e ex = ex\<lparr>e_Title := e_Title e, e_Author := e_Author e,
     e_Content := (if extract_str (e_ExtractState ex) = ''done'' then e_Content ex else e_Content e),
     e_Summary := e_Summary e, e_PublishedAt := e_PublishedAt e, e_URL := e_URL e, e_Hash := e_Hash e,
     e_CommentsURL := e_CommentsURL e\<rparr>"

definition mem_key :: "ID \<Rightarrow> string \<Rightarrow> Entry \<Rightarrow> bool" where
  "mem_key fid g e \<longleftrightarrow> e_FeedID e = fid \<and> e_GUID e = g"

text \<open>The body of the loop; the accumulator is the store with the ids inserted so far.\<close>

definition mem_upsert_one :: "ID \<Rightarrow> ExtractState \<Rightarrow> mem \<times> ID list \<Rightarrow> Entry \<Rightarrow> mem \<times> ID list" where
  "mem_upsert_one fid ins acc e = (case acc of (m, is) \<Rightarrow>
     if tkey fid (e_GUID e) \<in> mm_tombstones m then (m, is)
     else case find (mem_key fid (e_GUID e)) (mm_entries m) of
       Some ex \<Rightarrow>
         if e_Hash ex \<noteq> e_Hash e then (set_entry (e_ID ex) (refresh_fields e) m, is) else (m, is)
     | None \<Rightarrow>
         let i = mm_nextID m in
         (m\<lparr>mm_nextID := i + 1,
            mm_nextExtract := (if ins = ExtractPending then (mm_nextExtract m)(i \<mapsto> e_CreatedAt e) else mm_nextExtract m),
            mm_entries := mm_entries m @ [e\<lparr>e_ID := i, e_FeedID := fid, e_ExtractState := ins\<rparr>]\<rparr>, is @ [i]))"

text \<open>The returned pointers are those in the map: a later entry of the batch with the same guid shows
  through them.\<close>

definition mem_UpsertEntries :: "ctx \<Rightarrow> ID \<Rightarrow> Entry list \<Rightarrow> Entry list mem_op" where
  "mem_UpsertEntries cx fid es m =
     (case find (feed_at fid) (mm_feeds m) of
        None \<Rightarrow> (Inr [], m)
      | Some f \<Rightarrow>
          (case foldl (mem_upsert_one fid (if f_FetchFullContent f then ExtractPending else ExtractNone)) (m, []) es of
             (m', is) \<Rightarrow> (Inr (map (\<lambda>i. the (find (entry_id i) (mm_entries m'))) is), m')))"

definition mem_SeedEntry :: "Entry \<Rightarrow> mem \<Rightarrow> ID \<times> mem" where
  "mem_SeedEntry e m =
     (let i = mm_nextID m;
          st = (if extract_str (e_ExtractState e) = [] then ExtractNone else e_ExtractState e)
      in (i, m\<lparr>mm_nextID := i + 1,
            mm_nextExtract := (if extract_str st = ''pending'' then (mm_nextExtract m)(i \<mapsto> e_CreatedAt e) else mm_nextExtract m),
            mm_entries := mm_entries m @ [e\<lparr>e_ID := i, e_ExtractState := st\<rparr>]\<rparr>))"

section \<open>Entries\<close>

text \<open>\<open>string(r[:n])\<close>: a byte that starts no rune comes back as U+FFFD.\<close>

definition rune_text :: "string \<Rightarrow> string" where
  "rune_text r = (if rune_len r = 0 then [CHR 0xEF, CHR 0xBF, CHR 0xBD] else r)"

definition truncRunes :: "string \<Rightarrow> nat \<Rightarrow> string" where
  "truncRunes s n = (let r = runes_of s in if n < length r then concat (map rune_text (take n r)) else s)"

definition previewEntry :: "Entry \<Rightarrow> Entry" where
  "previewEntry e = e\<lparr>e_Content := truncRunes (e_Content e) 2048, e_Summary := truncRunes (e_Summary e) 2048\<rparr>"

definition mem_GetEntry :: "ctx \<Rightarrow> ID \<Rightarrow> ID \<Rightarrow> Entry mem_op" where
  "mem_GetEntry cx u i = with_entry u i (\<lambda>e m. (Inr e, m))"

definition mem_in_category :: "mem \<Rightarrow> EntryFilter \<Rightarrow> Entry \<Rightarrow> bool" where
  "mem_in_category m f e \<longleftrightarrow>
     (case find (feed_at (e_FeedID e)) (mm_feeds m) of
        None \<Rightarrow> False
      | Some fd \<Rightarrow> (fl_Uncategorised f \<longrightarrow> f_CategoryID fd = None)
          \<and> (fl_CategoryID f \<noteq> None \<longrightarrow> f_CategoryID fd = fl_CategoryID f))"

definition mem_where :: "mem \<Rightarrow> ID \<Rightarrow> EntryFilter \<Rightarrow> Entry \<Rightarrow> bool" where
  "mem_where m u f e \<longleftrightarrow> e_UserID e = u
     \<and> (case fl_Status f of None \<Rightarrow> True | Some st \<Rightarrow> status_str (e_Status e) = status_str st)
     \<and> (case fl_FeedID f of None \<Rightarrow> True | Some i \<Rightarrow> e_FeedID e = i)
     \<and> (case fl_Starred f of None \<Rightarrow> True | Some b \<Rightarrow> e_Starred e = b)
     \<and> (fl_CategoryID f \<noteq> None \<or> fl_Uncategorised f \<longrightarrow> mem_in_category m f e)
     \<and> \<not> (fl_Order f = OrderReadAtDesc \<and> e_ReadAt e = None)"

definition mem_after :: "EntryFilter \<Rightarrow> Entry \<Rightarrow> bool" where
  "mem_after f e \<longleftrightarrow> (case fl_Cursor f of None \<Rightarrow> True
     | Some c \<Rightarrow> (let k = CursorKey e (fl_Order f) in k < cur_Key c \<or> k = cur_Key c \<and> e_ID e < cur_ID c))"

definition mem_ListEntries :: "ctx \<Rightarrow> ID \<Rightarrow> EntryFilter \<Rightarrow> (Entry list \<times> Cursor option) mem_op" where
  "mem_ListEntries cx u f m =
     (let out = sort_key (\<lambda>e. (- CursorKey e (fl_Order f), - e_ID e))
                  (map previewEntry (filter (mem_where m u f) (mm_entries m)));
          after = filter (mem_after f) out;
          limit = nat (if fl_Limit f \<le> 0 \<or> 200 < fl_Limit f then 50 else fl_Limit f)
      in (Inr (if limit < length after
               then (let last = after ! (limit - 1) in
                     (take limit after, Some \<lparr>cur_Key = CursorKey last (fl_Order f), cur_ID = e_ID last\<rparr>))
               else (after, None)), m))"

definition read_mark :: "time \<Rightarrow> EntryStatus \<Rightarrow> Entry \<Rightarrow> Entry" where
  "read_mark now st e = e\<lparr>e_Status := st,
     e_ReadAt := (if status_str st = ''read'' then Some now else None)\<rparr>"

text \<open>The clock is read once for each entry that is marked read.\<close>

definition mem_SetStatus :: "(nat \<Rightarrow> time) \<Rightarrow> ctx \<Rightarrow> ID \<Rightarrow> ID list \<Rightarrow> EntryStatus \<Rightarrow> unit mem_op" where
  "mem_SetStatus wall cx u is st m =
     (Inr (), foldl (\<lambda>m (n, i). m\<lparr>mm_entries := upd_where (\<lambda>e. e_ID e = i \<and> e_UserID e = u)
                       (read_mark (wall n) st) (mm_entries m)\<rparr>) m (enumerate 0 is))"

definition mem_mark_where :: "mem \<Rightarrow> ID \<Rightarrow> EntryFilter \<Rightarrow> Entry \<Rightarrow> bool" where
  "mem_mark_where m u f e \<longleftrightarrow> e_UserID e = u \<and> status_str (e_Status e) = ''unread''
     \<and> (let cat = map_option f_CategoryID (find (feed_at (e_FeedID e)) (mm_feeds m)) in
        if fl_FeedID f \<noteq> None then fl_FeedID f = Some (e_FeedID e)
        else if fl_CategoryID f \<noteq> None then cat = Some (fl_CategoryID f)
        else fl_Uncategorised f \<longrightarrow> cat = Some None)"

definition mem_MarkReadByFilter :: "time \<Rightarrow> ctx \<Rightarrow> ID \<Rightarrow> EntryFilter \<Rightarrow> int mem_op" where
  "mem_MarkReadByFilter now cx u f m =
     (Inr (count_where (mem_mark_where m u f) (mm_entries m)),
      m\<lparr>mm_entries := upd_where (mem_mark_where m u f)
          (\<lambda>e. e\<lparr>e_Status := StatusRead, e_ReadAt := Some now\<rparr>) (mm_entries m)\<rparr>)"

definition mem_SetStarred :: "ctx \<Rightarrow> ID \<Rightarrow> ID list \<Rightarrow> bool \<Rightarrow> unit mem_op" where
  "mem_SetStarred cx u is v m =
     (Inr (), foldl (\<lambda>m i. m\<lparr>mm_entries := upd_where (\<lambda>e. e_ID e = i \<and> e_UserID e = u)
                       (e_Starred_update (\<lambda>_. v)) (mm_entries m)\<rparr>) m is)"

definition mem_DeleteEntry :: "ctx \<Rightarrow> ID \<Rightarrow> ID \<Rightarrow> unit mem_op" where
  "mem_DeleteEntry cx u i = with_entry u i (\<lambda>e m.
     (Inr (), m\<lparr>mm_tombstones := insert (tkey (e_FeedID e) (e_GUID e)) (mm_tombstones m),
                mm_entries := filter (\<lambda>e. e_ID e \<noteq> i) (mm_entries m)\<rparr>))"

text \<open>Terms joined by AND, over the visible text.\<close>

definition mem_matches :: "(string \<Rightarrow> string) \<Rightarrow> (string \<Rightarrow> string) \<Rightarrow> string list \<Rightarrow> Entry \<Rightarrow> bool" where
  "mem_matches um unesc terms e =
     (let hay = ToLower um (e_Title e @ '' '' @ PlainText unesc (e_Content e) @ '' '' @ PlainText unesc (e_Summary e))
      in list_all (str_contains hay) terms)"

definition mem_Search ::
  "(string \<Rightarrow> string) \<Rightarrow> (string \<Rightarrow> string) \<Rightarrow> ctx \<Rightarrow> ID \<Rightarrow> string \<Rightarrow> (Entry list \<times> Cursor option) mem_op" where
  "mem_Search um unesc cx u query m =
     (let terms = Fields (ToLower um query) in
      if terms = [] then (Inr ([], None), m)
      else (Inr (take 50 (sort_key (\<lambda>e. (- e_PublishedAt e, - e_ID e))
              (map previewEntry (filter (\<lambda>e. e_UserID e = u \<and> mem_matches um unesc terms e) (mm_entries m)))), None), m))"

section \<open>Extraction\<close>

definition mem_pending :: "mem \<Rightarrow> time \<Rightarrow> Entry \<Rightarrow> bool" where
  "mem_pending m now e \<longleftrightarrow> extract_str (e_ExtractState e) = ''pending''
     \<and> (case mm_nextExtract m (e_ID e) of None \<Rightarrow> True | Some t \<Rightarrow> \<not> now < t)"

definition mem_ListPendingExtractions :: "ctx \<Rightarrow> time \<Rightarrow> int \<Rightarrow> Entry list mem_op" where
  "mem_ListPendingExtractions cx now limit m =
     (Inr (cut_at limit (sort_key (\<lambda>e. (- e_PublishedAt e, - e_ID e)) (filter (mem_pending m now) (mm_entries m)))), m)"

definition mem_SetEntryContent :: "ctx \<Rightarrow> ID \<Rightarrow> string \<Rightarrow> unit mem_op" where
  "mem_SetEntryContent cx i content m =
     (case find (entry_id i) (mm_entries m) of
        None \<Rightarrow> (Inl ErrNotFound, m)
      | Some e \<Rightarrow>
          if extract_str (e_ExtractState e) \<noteq> ''pending'' then (Inr (), m)
          else (Inr (), (set_entry i (\<lambda>e. e\<lparr>e_Content := content, e_ExtractState := ExtractDone, e_ExtractError := []\<rparr>) m)
                  \<lparr>mm_nextExtract := (mm_nextExtract m)(i := None)\<rparr>))"

definition mem_UpdateExtractState ::
  "ctx \<Rightarrow> ID \<Rightarrow> ExtractState \<Rightarrow> int \<Rightarrow> time option \<Rightarrow> string \<Rightarrow> unit mem_op" where
  "mem_UpdateExtractState cx i st n next reason m =
     (if find (entry_id i) (mm_entries m) = None then (Inl ErrNotFound, m)
      else (Inr (), (set_entry i (\<lambda>e. e\<lparr>e_ExtractState := st, e_ExtractAttempts := n, e_ExtractError := reason\<rparr>) m)
              \<lparr>mm_nextExtract := (mm_nextExtract m)(i := next)\<rparr>))"

section \<open>Categories\<close>

definition mem_CreateCategory :: "ctx \<Rightarrow> Category \<Rightarrow> ID mem_op" where
  "mem_CreateCategory cx c m =
     (if list_ex (\<lambda>ex. c_UserID ex = c_UserID c \<and> c_Title ex = c_Title c) (mm_categories m)
      then (Inl ErrConflict, m)
      else let i = mm_nextID m in
        (Inr i, m\<lparr>mm_nextID := i + 1, mm_categories := mm_categories m @ [c\<lparr>c_ID := i\<rparr>]\<rparr>))"

definition mem_GetCategory :: "ctx \<Rightarrow> ID \<Rightarrow> ID \<Rightarrow> Category mem_op" where
  "mem_GetCategory cx u i = with_category u i (\<lambda>c m. (Inr c, m))"

definition mem_ListCategories :: "(string \<Rightarrow> string) \<Rightarrow> ctx \<Rightarrow> ID \<Rightarrow> Category list mem_op" where
  "mem_ListCategories um cx u m =
     (Inr (sort_key (\<lambda>c. ToLower um (c_Title c)) (filter (\<lambda>c. c_UserID c = u) (mm_categories m))), m)"

definition mem_UpdateCategory :: "ctx \<Rightarrow> Category \<Rightarrow> unit mem_op" where
  "mem_UpdateCategory cx c = with_category (c_UserID c) (c_ID c) (\<lambda>ex m.
     (if list_ex (\<lambda>other. c_UserID other = c_UserID c \<and> c_Title other = c_Title c \<and> c_ID other \<noteq> c_ID c) (mm_categories m)
      then (Inl ErrConflict, m)
      else (Inr (), m\<lparr>mm_categories := upd_where (category_at (c_ID c)) (c_Title_update (\<lambda>_. c_Title c)) (mm_categories m)\<rparr>)))"

definition mem_DeleteCategory :: "ctx \<Rightarrow> ID \<Rightarrow> ID \<Rightarrow> unit mem_op" where
  "mem_DeleteCategory cx u i = with_category u i (\<lambda>c m.
     (Inr (), m\<lparr>mm_feeds := upd_where (\<lambda>f. f_CategoryID f = Some i) (f_CategoryID_update (\<lambda>_. None)) (mm_feeds m),
                mm_categories := filter (\<lambda>c. c_ID c \<noteq> i) (mm_categories m)\<rparr>))"

section \<open>Counts and settings\<close>

definition unread_of :: "ID \<Rightarrow> Entry \<Rightarrow> bool" where
  "unread_of u e \<longleftrightarrow> e_UserID e = u \<and> status_str (e_Status e) = ''unread''"

definition mem_EntryStatsByFeed :: "ctx \<Rightarrow> ID \<Rightarrow> (ID \<Rightarrow> FeedEntryStats option) mem_op" where
  "mem_EntryStatsByFeed cx u m =
     (Inr (foldl (\<lambda>out e.
        let st = (case out (e_FeedID e) of None \<Rightarrow> \<lparr>st_Total = 0, st_Unread = 0\<rparr> | Some st \<Rightarrow> st);
            st = st\<lparr>st_Total := st_Total st + 1\<rparr>;
            st = (if status_str (e_Status e) = ''unread'' then st\<lparr>st_Unread := st_Unread st + 1\<rparr> else st)
        in out(e_FeedID e \<mapsto> st)) Map.empty (filter (\<lambda>e. e_UserID e = u) (mm_entries m))), m)"

definition mem_UnreadCount :: "ctx \<Rightarrow> ID \<Rightarrow> int mem_op" where
  "mem_UnreadCount cx u m = (Inr (count_where (unread_of u) (mm_entries m)), m)"

definition mem_FeedEntryStatsByID :: "ctx \<Rightarrow> ID \<Rightarrow> ID \<Rightarrow> FeedEntryStats mem_op" where
  "mem_FeedEntryStatsByID cx u fid m =
     (Inr \<lparr>st_Total = count_where (\<lambda>e. e_UserID e = u \<and> e_FeedID e = fid) (mm_entries m),
           st_Unread = count_where (\<lambda>e. unread_of u e \<and> e_FeedID e = fid) (mm_entries m)\<rparr>, m)"

definition mem_GetSetting :: "ctx \<Rightarrow> string \<Rightarrow> string mem_op" where
  "mem_GetSetting cx key m = ((case mm_settings m key of None \<Rightarrow> Inl ErrNotFound | Some v \<Rightarrow> Inr v), m)"

definition mem_PutSetting :: "ctx \<Rightarrow> string \<Rightarrow> string \<Rightarrow> unit mem_op" where
  "mem_PutSetting cx key v m = (Inr (), m\<lparr>mm_settings := (mm_settings m)(key \<mapsto> v)\<rparr>)"

definition mem_UnreadCountsByCategory :: "ctx \<Rightarrow> ID \<Rightarrow> ((ID \<Rightarrow> int option) \<times> int) mem_op" where
  "mem_UnreadCountsByCategory cx u m =
     (Inr (foldl (\<lambda>(per, uncat) e.
        case find (feed_at (e_FeedID e)) (mm_feeds m) of
          None \<Rightarrow> (per, uncat)
        | Some f \<Rightarrow> (case f_CategoryID f of
            None \<Rightarrow> (per, uncat + 1)
          | Some c \<Rightarrow> (per(c \<mapsto> (case per c of None \<Rightarrow> 0 | Some n \<Rightarrow> n) + 1), uncat)))
        (Map.empty, 0) (filter (unread_of u) (mm_entries m))), m)"

text \<open>The store as the services see it.\<close>

definition mem_ops :: "(string \<Rightarrow> string) \<Rightarrow> mem store_ops" where
  "mem_ops um = \<lparr>so_CreateFeed = mem_CreateFeed, so_GetFeed = mem_GetFeed, so_ListFeeds = mem_ListFeeds um,
     so_UpdateFeed = mem_UpdateFeed, so_DeleteFeed = mem_DeleteFeed, so_SetFeedCategory = mem_SetFeedCategory,
     so_SetFeedFullContent = mem_SetFeedFullContent, so_SetFeedUserTitle = mem_SetFeedUserTitle,
     so_SetFeedURL = mem_SetFeedURL, so_WeeklyEntryCount = mem_WeeklyEntryCount,
     so_UpsertEntries = mem_UpsertEntries, so_EntryDedup = mem_EntryDedup, so_GetCategory = mem_GetCategory,
     so_SetEntryContent = mem_SetEntryContent, so_UpdateExtractState = mem_UpdateExtractState\<rparr>"

end
