(* ===== verification/KeptContract.thy ===== *)
theory KeptContract
  imports SqliteContract
begin

text \<open>
  Invariants of a store through the service of feeds: what every operation keeps is kept by polls,
  resolutions, subscriptions and edits (a locale over any store), and the operations of the SQLite
  store keep their database well formed, leave no transaction open and only use up faults of the driver.
\<close>

section \<open>Any invariant of the operations\<close>

locale kept_store =
  fixes ops :: "'s store_ops" and I :: "'s \<Rightarrow> bool"
  assumes kept_ops:
      "I s \<Longrightarrow> I (snd (so_CreateFeed ops cx f s))" "I s \<Longrightarrow> I (snd (so_GetFeed ops cx u k s))"
      "I s \<Longrightarrow> I (snd (so_ListFeeds ops cx u s))" "I s \<Longrightarrow> I (snd (so_UpdateFeed ops cx f s))"
      "I s \<Longrightarrow> I (snd (so_DeleteFeed ops cx u k s))" "I s \<Longrightarrow> I (snd (so_SetFeedCategory ops cx u k cat s))"
      "I s \<Longrightarrow> I (snd (so_SetFeedFullContent ops cx u k on t s))" "I s \<Longrightarrow> I (snd (so_SetFeedUserTitle ops cx u k x s))"
      "I s \<Longrightarrow> I (snd (so_SetFeedURL ops cx u k x t s))" "I s \<Longrightarrow> I (snd (so_WeeklyEntryCount ops cx k t s))"
      "I s \<Longrightarrow> I (snd (so_UpsertEntries ops cx k es s))" "I s \<Longrightarrow> I (snd (so_EntryDedup ops cx k gs s))"
      "I s \<Longrightarrow> I (snd (so_GetCategory ops cx u k s))"
begin

definition same_inv :: "'s \<Rightarrow> Feed \<Rightarrow> bool" where "same_inv s f \<longleftrightarrow> I s"

lemma holds_feed_all: "(\<And>f. holds same_inv (k f)) \<Longrightarrow> holds same_inv (bindS feedS k)"
  by (rule holds_feed)

lemma kept_call:
  "(\<And>cx s. I s \<Longrightarrow> I (snd (m cx s))) \<Longrightarrow> holds same_inv (storeC E m)"
  "(\<And>s. I s \<Longrightarrow> I (snd (m' s))) \<Longrightarrow> holds same_inv (storeS m')"
  by (auto simp: same_inv_def intro!: holds_storeC holds_storeS)

lemma kept_setFeedS: "holds same_inv (setFeedS g)"
  by (rule holds_setFeedS) (simp add: same_inv_def)

lemmas kept_rules = holds_bindS holds_tryS holds_feed_all kept_setFeedS kept_call kept_ops

lemma recordErrorEmit_same: "holds same_inv (recordErrorEmit ops E cfg now msg ra res reason emit)"
  unfolding recordErrorEmit_def by (auto intro!: hoare kept_rules)

lemma recordPanic_same: "holds same_inv (recordPanic ops E cfg p)"
  unfolding recordPanic_def recordError_def by (intro holds_bindS hoare recordErrorEmit_same)

lemma nextCheck_same: "holds same_inv (nextCheck ops E oob cfg now)"
  unfolding nextCheck_def by (auto intro!: hoare kept_rules)

lemma ingest_same: "holds same_inv (ingest ops E pf base)"
  unfolding ingest_def ingest_entry_def Let_def by (auto split: prod.split intro!: hoare kept_rules)

lemma recordSuccess_same: "holds same_inv (recordSuccess ops E oob cfg now resp pf)"
  unfolding recordSuccess_def recordError_def
  by (auto split: option.split intro!: hoare kept_rules ingest_same nextCheck_same recordErrorEmit_same)

lemma resolveFeed_same: "holds same_inv (resolveFeed E url)"
  unfolding resolveFeed_def Let_def
  by (auto split: sum.split option.split list.split intro!: hoare holds_tryS holds_bindS)

lemma adopt_same: "holds same_inv (adoptPermanentRedirect ops E resp)"
  unfolding adoptPermanentRedirect_def by (auto intro!: hoare kept_rules)

lemma resolve_pipeline_same: "holds same_inv (resolve_pipeline ops E oob cfg)"
  unfolding resolve_pipeline_def Let_def recordError_def
  by (auto split: prod.split intro!: hoare kept_rules resolveFeed_same recordErrorEmit_same recordSuccess_same)

lemma resolveAndIngest_same: "holds same_inv (resolveAndIngest ops E oob cfg)"
  unfolding resolveAndIngest_def by (intro hoare resolve_pipeline_same recordPanic_same)

lemma ResolveAndIngest_same: "holds same_inv (ResolveAndIngest ops E oob cfg)"
  unfolding ResolveAndIngest_def by (intro hoare holds_bindS resolveAndIngest_same)

lemma poll_pipeline_same: "holds same_inv (poll_pipeline ops E oob cfg start)"
  unfolding poll_pipeline_def Let_def recordError_def
  by (auto split: sum.split intro!: hoare kept_rules adopt_same
      recordErrorEmit_same recordSuccess_same resolveAndIngest_same)

lemma PollFeed_same: "holds same_inv (PollFeed ops E oob cfg)"
  unfolding PollFeed_def by (auto intro!: hoare holds_bindS poll_pipeline_same recordPanic_same)

lemma Refresh_same: "holds same_inv (Refresh ops E oob cfg u k)"
  unfolding Refresh_def by (auto intro!: hoare kept_rules PollFeed_same)

lemma ensureCategoryOwned_same: "holds same_inv (ensureCategoryOwned ops E u cat)"
  unfolding ensureCategoryOwned_def by (auto split: option.split intro!: hoare kept_rules)

lemma CreateSubscription_same: "holds same_inv (CreateSubscription ops E cfg u raw cat full)"
  unfolding CreateSubscription_def Let_def
  by (auto split: option.split intro!: hoare kept_rules ensureCategoryOwned_same)

lemma EditFeed_same: "holds same_inv (EditFeed ops E u k inp)"
  unfolding EditFeed_def SetFullContent_def Let_def
  by (auto split: option.split intro!: hoare kept_rules ensureCategoryOwned_same)

lemma fs_same: "holds same_inv (fs_Get ops E u k)" "holds same_inv (fs_List ops E u)" "holds same_inv (fs_Delete ops E u k)"
  unfolding fs_Get_def fs_List_def fs_Delete_def by (auto intro!: hoare kept_rules)

text \<open>What a call keeps of the world, whatever its outcome.\<close>

lemma same_invD: "holds same_inv m \<Longrightarrow> I (w_store w) \<Longrightarrow> I (w_store (snd (m w)))"
  unfolding holds_def same_inv_def by blast

end

section \<open>The connection between two operations\<close>

text \<open>Faults are only used up.\<close>

definition shrinks :: "'a op \<Rightarrow> bool" where
  "shrinks m \<longleftrightarrow> (\<forall>c. set (cn_faults (snd (m c))) \<subseteq> set (cn_faults c))"

definition closes :: "'a op \<Rightarrow> bool" where
  "closes m \<longleftrightarrow> (\<forall>c. cn_saved c = None \<longrightarrow> cn_saved (snd (m c)) = None)"

named_theorems conn_intros \<open>operations that leave the connection in order\<close>

lemma conn_prims [conn_intros]:
  "shrinks (returnE a)" "shrinks (throwE e)" "closes (returnE a)" "closes (throwE e)"
  by (simp_all add: shrinks_def closes_def returnE_def throwE_def)

lemma conn_exec [conn_intros]: "shrinks (exec cx s)" "closes (exec cx s)"
  by (auto simp: shrinks_def closes_def exec_def Let_def split: option.split list.split prod.split)

lemma conn_mapped [conn_intros]: "shrinks m \<Longrightarrow> shrinks (mapped m)" "closes m \<Longrightarrow> closes (mapped m)"
  by (auto simp: shrinks_def closes_def mapped_def split: prod.split) (metis snd_conv subsetD, metis snd_conv)

lemma shrinks_bindE [conn_intros]: "shrinks m \<Longrightarrow> (\<And>a. shrinks (k a)) \<Longrightarrow> shrinks (bindE m k)"
  unfolding shrinks_def bindE_def by (auto split: prod.split sum.split) (metis snd_conv subsetD)+

lemma shrinks_catchE [conn_intros]:
  "shrinks m \<Longrightarrow> (\<And>e. shrinks (h e)) \<Longrightarrow> (\<And>a. shrinks (k a)) \<Longrightarrow> shrinks (catchE m h k)"
  unfolding shrinks_def catchE_def by (auto split: prod.split sum.split) (metis snd_conv subsetD)+

lemma closes_bindE [conn_intros]: "closes m \<Longrightarrow> (\<And>a. closes (k a)) \<Longrightarrow> closes (bindE m k)"
  unfolding closes_def bindE_def by (auto split: prod.split sum.split) (metis snd_conv)+

lemma closes_catchE [conn_intros]:
  "closes m \<Longrightarrow> (\<And>e. closes (h e)) \<Longrightarrow> (\<And>a. closes (k a)) \<Longrightarrow> closes (catchE m h k)"
  unfolding closes_def catchE_def by (auto split: prod.split sum.split) (metis snd_conv)+

lemma conn_foldE [conn_intros]:
  "(\<And>s x. shrinks (f s x)) \<Longrightarrow> shrinks (foldE f s xs)" "(\<And>s x. closes (f s x)) \<Longrightarrow> closes (foldE f s xs)"
  by (induction xs arbitrary: s) (simp_all add: conn_intros)

lemma conn_if [conn_intros]:
  "shrinks m \<Longrightarrow> shrinks n \<Longrightarrow> shrinks (if b then m else n)" "closes m \<Longrightarrow> closes n \<Longrightarrow> closes (if b then m else n)"
  by simp_all

lemma shrinks_Commit [conn_intros]: "shrinks Commit"
  unfolding Commit_def
  by (intro conn_intros) (auto simp: shrinks_def Rollback_def split: option.split)

lemma shrinks_in_tx [conn_intros]: "shrinks body \<Longrightarrow> shrinks (in_tx cx body)"
proof -
  assume b: "shrinks body"
  have "cn_faults (Rollback c) = cn_faults c" for c by (simp add: Rollback_def split: option.split)
  then have "shrinks (\<lambda>c. case body c of (r, c') \<Rightarrow> (r, Rollback c'))"
    using b by (simp add: shrinks_def split: prod.split) (metis snd_conv)
  moreover have "shrinks (BeginTx cx)"
    unfolding BeginTx_def by (intro conn_intros) (simp add: shrinks_def)
  ultimately show ?thesis unfolding in_tx_def by (intro conn_intros)
qed

lemma closes_in_tx [conn_intros]: "closes (in_tx cx body)"
  using in_tx_closed by (auto simp: closes_def)

lemma conn_affected [conn_intros]: "shrinks m \<Longrightarrow> shrinks (affected m)" "closes m \<Longrightarrow> closes (affected m)"
  unfolding affected_def by (intro conn_intros; simp)+

definition conn_good :: "conn \<Rightarrow> bool" where
  "conn_good c \<longleftrightarrow> store_inv (cn_db c) \<and> cn_saved c = None \<and> faults_ok c"

lemma conn_goodI:
  assumes "conn_good c" and "shrinks m" and "closes m" and "store_inv (cn_db (snd (m c)))"
  shows "conn_good (snd (m c))"
  using assms unfolding conn_good_def faults_ok_def shrinks_def closes_def by blast

lemma conn_good_op: "op_keeps store_inv m \<Longrightarrow> shrinks m \<Longrightarrow> closes m \<Longrightarrow> conn_good c \<Longrightarrow> conn_good (snd (m c))"
  by (rule conn_goodI) (auto simp: conn_good_def intro: op_keeps_closed)

lemma conn_good_of: "conn_good c \<Longrightarrow> c = conn_of (cn_faults c) (cn_db c)"
  by (simp add: conn_good_def conn_of_def)

lemma conn_good_after:
  assumes "conn_good c" and "shrinks m" and "closes m"
    and "\<And>fs d. faults_ok (conn_of fs d) \<Longrightarrow> store_inv d \<Longrightarrow> store_inv (after fs m d)"
  shows "conn_good (snd (m c))"
proof (rule conn_goodI [OF assms(1-3)])
  have c: "c = conn_of (cn_faults c) (cn_db c)" using assms(1) by (rule conn_good_of)
  then have "store_inv (after (cn_faults c) m (cn_db c))"
    using assms(1) by (intro assms(4)) (simp_all add: conn_good_def)
  then show "store_inv (cn_db (snd (m c)))" using c by (simp add: after_def)
qed

section \<open>The SQLite store\<close>

lemma feed_ops_conn:
  "shrinks (CreateFeed cx f)" "closes (CreateFeed cx f)" "shrinks (GetFeed cx u k)" "closes (GetFeed cx u k)"
  "shrinks (ListFeeds cx u)" "closes (ListFeeds cx u)" "shrinks (UpdateFeed cx f)" "closes (UpdateFeed cx f)"
  "shrinks (DeleteFeed cx u k)" "closes (DeleteFeed cx u k)"
  "shrinks (SetFeedCategory cx u k cat)" "closes (SetFeedCategory cx u k cat)"
  "shrinks (SetFeedFullContent cx u k on t)" "closes (SetFeedFullContent cx u k on t)"
  "shrinks (SetFeedUserTitle cx u k x)" "closes (SetFeedUserTitle cx u k x)"
  "shrinks (SetFeedURL cx u k x t)" "closes (SetFeedURL cx u k x t)"
  "shrinks (WeeklyEntryCount cx k t)" "closes (WeeklyEntryCount cx k t)"
  unfolding feed_op_defs category_op_defs by (intro conn_intros)+

lemma entry_ops_conn:
  "shrinks (SetStatus wall cx u is st)" "closes (SetStatus wall cx u is st)"
  "shrinks (SetStarred cx u is b)" "closes (SetStarred cx u is b)"
  "shrinks (MarkReadByFilter wall cx u fl)" "closes (MarkReadByFilter wall cx u fl)"
  "shrinks (DeleteEntry wall cx u i)" "closes (DeleteEntry wall cx u i)"
  "shrinks (GetEntry cx u i)" "closes (GetEntry cx u i)"
  unfolding entry_op_defs Let_def by (intro conn_intros)+

lemma category_ops_conn:
  "shrinks (CreateCategory cx c)" "closes (CreateCategory cx c)" "shrinks (GetCategory cx u k)" "closes (GetCategory cx u k)"
  "shrinks (UpdateCategory cx c)" "closes (UpdateCategory cx c)" "shrinks (DeleteCategory cx u k)" "closes (DeleteCategory cx u k)"
  unfolding category_op_defs by (intro conn_intros)+

lemma UpsertEntries_conn: "shrinks (UpsertEntries unesc cx k es)" "closes (UpsertEntries unesc cx k es)"
proof -
  have "shrinks (upsert_one unesc cx k ins acc e)" for ins acc e
    unfolding upsert_one_def if_no_rows_def by (intro conn_intros) (auto split: prod.split intro!: conn_intros)
  then show "shrinks (UpsertEntries unesc cx k es)"
    unfolding UpsertEntries_def if_no_rows_def by (intro conn_intros)
  show "closes (UpsertEntries unesc cx k es)" unfolding UpsertEntries_def by (intro conn_intros)
qed

lemma EntryDedup_conn: "shrinks (EntryDedup cx k gs)" "closes (EntryDedup cx k gs)"
proof -
  have "shrinks (dedup_batch cx k acc g)" for acc g
    unfolding dedup_batch_def by (auto split: prod.split intro!: conn_intros)
  moreover have "closes (dedup_batch cx k acc g)" for acc g
    unfolding dedup_batch_def by (auto split: prod.split intro!: conn_intros)
  ultimately show "shrinks (EntryDedup cx k gs)" "closes (EntryDedup cx k gs)"
    unfolding EntryDedup_def by (simp_all add: conn_foldE)
qed

lemma so_ListFeeds [simp]: "so_ListFeeds (sqlite_ops unesc) = ListFeeds"
  by (simp add: sqlite_ops_def)

lemma ListFeeds_reads: "op_keeps J (ListFeeds cx u)"
  unfolding ListFeeds_def by (intro wf_intros)

lemma UpsertEntries_good: "conn_good c \<Longrightarrow> conn_good (snd (UpsertEntries unesc cx k es c))"
  by (erule conn_good_after [OF _ UpsertEntries_conn]) (rule upsert_inv)

lemma DeleteEntry_good: "conn_good c \<Longrightarrow> conn_good (snd (DeleteEntry wall cx u i c))"
  by (erule conn_good_after [OF _ entry_ops_conn(7,8)]) (rule delete_entry_inv)

interpretation good: kept_store "sqlite_ops unesc" conn_good for unesc
  by (unfold_locales, unfold sqlite_ops_simps so_ListFeeds)
    (rule UpsertEntries_good conn_good_op; (assumption | rule op_keeps_inv GetFeed_reads ListFeeds_reads WeeklyEntryCount_reads
    EntryDedup_reads GetCategory_reads feed_ops_conn category_ops_conn EntryDedup_conn))+

end
