(* ===== verification/MemContract.thy ===== *)
theory MemContract
  imports MemStore KeptContract SqliteScrape
begin

text \<open>
  The in-memory store keeps the contracts the services rely on, the same locales that the SQLite store
  interprets: what is proved of a poll, an edit or a scrape over any store holds in the tests that run on
  it.
\<close>

section \<open>The invariant\<close>

definition keys_below :: "ID \<Rightarrow> ('r \<Rightarrow> ID) \<Rightarrow> 'r list \<Rightarrow> bool" where
  "keys_below n k xs \<longleftrightarrow> distinct (map k xs) \<and> (\<forall>x \<in> set xs. k x < n)"

definition mem_inv :: "mem \<Rightarrow> bool" where
  "mem_inv m \<longleftrightarrow> keys_below (mm_nextID m) f_ID (mm_feeds m) \<and> keys_below (mm_nextID m) e_ID (mm_entries m)
     \<and> keys_below (mm_nextID m) c_ID (mm_categories m)"

lemma mem_inv_new: "mem_inv NewMemStore"
  by (simp add: mem_inv_def keys_below_def NewMemStore_def)

lemma keys_below_upd [intro]:
  "keys_below n k xs \<Longrightarrow> (\<And>x. P x \<Longrightarrow> k (g x) = k x) \<Longrightarrow> keys_below n k (upd_where P g xs)"
  by (auto simp: keys_below_def map_upd_where set_upd_where)

lemma keys_below_filter [intro]: "keys_below n k xs \<Longrightarrow> keys_below n k (filter P xs)"
  by (auto simp: keys_below_def distinct_map_filterI)

lemma keys_below_snoc: "keys_below n k xs \<Longrightarrow> k x = n \<Longrightarrow> keys_below (n + 1) k (xs @ [x])"
  by (fastforce simp: keys_below_def)

lemma keys_below_mono: "keys_below n k xs \<Longrightarrow> keys_below (n + 1) k xs"
  by (fastforce simp: keys_below_def)

text \<open>Operations that keep the invariant on every outcome.\<close>

definition keeps_mem :: "'a mem_op \<Rightarrow> bool" where
  "keeps_mem a \<longleftrightarrow> (\<forall>m. mem_inv m \<longrightarrow> mem_inv (snd (a m)))"

lemma keeps_with [intro]:
  "(\<And>f. keeps_mem (k f)) \<Longrightarrow> keeps_mem (with_feed u i k)"
  "(\<And>e. keeps_mem (k' e)) \<Longrightarrow> keeps_mem (with_entry u i k')"
  "(\<And>c. keeps_mem (k'' c)) \<Longrightarrow> keeps_mem (with_category u i k'')"
  by (auto simp: keeps_mem_def with_feed_def with_entry_def with_category_def split: option.split)

lemma mem_inv_upd:
  "mem_inv m \<Longrightarrow> (\<And>f. P f \<Longrightarrow> f_ID (g f) = f_ID f) \<Longrightarrow> mem_inv (m\<lparr>mm_feeds := upd_where P g (mm_feeds m)\<rparr>)"
  "mem_inv m \<Longrightarrow> (\<And>e. Q e \<Longrightarrow> e_ID (h e) = e_ID e) \<Longrightarrow> mem_inv (m\<lparr>mm_entries := upd_where Q h (mm_entries m)\<rparr>)"
  "mem_inv m \<Longrightarrow> (\<And>f. f_ID (g f) = f_ID f) \<Longrightarrow> mem_inv (set_feed i g m)"
  "mem_inv m \<Longrightarrow> (\<And>e. e_ID (h e) = e_ID e) \<Longrightarrow> mem_inv (set_entry i h m)"
  by (auto simp: mem_inv_def set_feed_def set_entry_def)

lemma mem_inv_schedule [simp]:
  "mem_inv (m\<lparr>mm_nextExtract := N\<rparr>) = mem_inv m" "mem_inv (m\<lparr>mm_tombstones := T\<rparr>) = mem_inv m"
  "mem_inv (m\<lparr>mm_settings := S\<rparr>) = mem_inv m"
  by (simp_all add: mem_inv_def)

lemma mem_upsert_one_keeps: "mem_inv (fst acc) \<Longrightarrow> mem_inv (fst (mem_upsert_one fid ins acc e))"
  by (cases acc) (auto simp: mem_upsert_one_def Let_def refresh_fields_def mem_inv_upd split: option.split,
    auto simp: mem_inv_def keys_below_snoc keys_below_mono)

lemma upsert_fold_keeps: "mem_inv (fst acc) \<Longrightarrow> mem_inv (fst (foldl (mem_upsert_one fid ins) acc es))"
  by (induction es arbitrary: acc) (simp_all add: mem_upsert_one_keeps)

lemma mem_UpsertEntries_keeps: "keeps_mem (mem_UpsertEntries cx fid es)"
  unfolding keeps_mem_def mem_UpsertEntries_def
  using upsert_fold_keeps [of "(_, [])"] by (auto split: option.split prod.split) (metis fst_conv)+

lemma mem_feed_ops_keep:
  "keeps_mem (mem_CreateFeed cx f)" "keeps_mem (mem_GetFeed cx u i)" "keeps_mem (mem_ListFeeds um cx u)"
  "keeps_mem (mem_UpdateFeed cx f)" "keeps_mem (mem_DeleteFeed cx u i)" "keeps_mem (mem_SetFeedCategory cx u i cat)"
  "keeps_mem (mem_SetFeedFullContent cx u i on due)" "keeps_mem (mem_SetFeedUserTitle cx u i t)"
  "keeps_mem (mem_SetFeedURL cx u i url now)" "keeps_mem (mem_WeeklyEntryCount cx i now)"
  "keeps_mem (mem_EntryDedup cx i gs)" "keeps_mem (mem_GetCategory cx u i)"
proof -
  show "keeps_mem (mem_CreateFeed cx f)"
    by (auto simp: keeps_mem_def mem_CreateFeed_def Let_def mem_inv_def keys_below_snoc keys_below_mono)
  show "keeps_mem (mem_UpdateFeed cx f)"
    by (auto simp: keeps_mem_def mem_UpdateFeed_def poll_fields_def mem_inv_upd split: option.split)
  show "keeps_mem (mem_DeleteFeed cx u i)"
    unfolding mem_DeleteFeed_def by (rule keeps_with) (auto simp: keeps_mem_def mem_inv_def Let_def)
  show "keeps_mem (mem_SetFeedFullContent cx u i on due)"
    unfolding mem_SetFeedFullContent_def
    by (rule keeps_with) (auto simp: keeps_mem_def mem_inv_def Let_def set_feed_def queue_entry_def)
qed (auto simp: keeps_mem_def mem_inv_upd mem_ListFeeds_def mem_WeeklyEntryCount_def mem_EntryDedup_def
    mem_GetFeed_def mem_GetCategory_def mem_SetFeedCategory_def mem_SetFeedUserTitle_def mem_SetFeedURL_def
    with_feed_def with_category_def Let_def split: option.split)

lemma mem_entry_ops_keep:
  "keeps_mem (mem_SetEntryContent cx i content)" "keeps_mem (mem_UpdateExtractState cx i st n next reason)"
  "keeps_mem (mem_DeleteEntry cx u i)" "keeps_mem (mem_MarkReadByFilter wall cx u fl)"
  by (auto simp: keeps_mem_def mem_SetEntryContent_def mem_UpdateExtractState_def mem_inv_upd
      mem_DeleteEntry_def mem_MarkReadByFilter_def with_entry_def split: option.split)
    (auto simp: mem_inv_def)

lemma keeps_memD: "keeps_mem a \<Longrightarrow> mem_inv m \<Longrightarrow> mem_inv (snd (a m))"
  by (simp add: keeps_mem_def)

lemma mem_ops_simps [simp]:
  "so_CreateFeed (mem_ops um) = mem_CreateFeed" "so_GetFeed (mem_ops um) = mem_GetFeed"
  "so_ListFeeds (mem_ops um) = mem_ListFeeds um" "so_UpdateFeed (mem_ops um) = mem_UpdateFeed"
  "so_DeleteFeed (mem_ops um) = mem_DeleteFeed" "so_SetFeedCategory (mem_ops um) = mem_SetFeedCategory"
  "so_SetFeedFullContent (mem_ops um) = mem_SetFeedFullContent" "so_SetFeedUserTitle (mem_ops um) = mem_SetFeedUserTitle"
  "so_SetFeedURL (mem_ops um) = mem_SetFeedURL" "so_WeeklyEntryCount (mem_ops um) = mem_WeeklyEntryCount"
  "so_UpsertEntries (mem_ops um) = mem_UpsertEntries" "so_EntryDedup (mem_ops um) = mem_EntryDedup"
  "so_GetCategory (mem_ops um) = mem_GetCategory" "so_SetEntryContent (mem_ops um) = mem_SetEntryContent"
  "so_UpdateExtractState (mem_ops um) = mem_UpdateExtractState"
  by (simp_all add: mem_ops_def)

interpretation mem_kept: kept_store "mem_ops um" mem_inv for um
  by (unfold_locales, unfold mem_ops_simps) (rule keeps_memD, rule mem_feed_ops_keep mem_UpsertEntries_keeps, assumption)+

section \<open>The feeds as stored columns\<close>

definition stored_feed :: "Feed \<Rightarrow> FeedRow" where
  "stored_feed f = (feed_params f)\<lparr>fr_UserTitle := f_UserTitle f\<rparr>"

definition mem_row :: "mem \<Rightarrow> feed_view" where
  "mem_row m i = map_option stored_feed (find (feed_at i) (mm_feeds m))"

lemma stored_feed_simps [simp]:
  "fr_ID (stored_feed f) = f_ID f" "fr_UserID (stored_feed f) = f_UserID f" "fr_FeedUrl (stored_feed f) = f_FeedURL f"
  by (simp_all add: stored_feed_def feed_params_def)

lemma shown_stored: "shown_as (stored_feed f) f"
  by (simp add: shown_as_def stored_feed_def feed_params_def nullID_def)

lemma mem_row_keyed: "keyed (mem_row m)"
  by (auto simp: keyed_def mem_row_def dest: find_SomeD)

lemma mem_row_cong: "mm_feeds m' = mm_feeds m \<Longrightarrow> mem_row m' = mem_row m"
  by (simp add: mem_row_def fun_eq_iff)

lemma mem_row_set_feed:
  assumes "\<And>f. f_ID (g f) = f_ID f" and "\<And>f. f_ID f = i \<Longrightarrow> stored_feed (g f) = h (stored_feed f)"
  shows "mem_row (set_feed i g m) = edit (\<lambda>r. fr_ID r = i) h (mem_row m)"
proof
  fix j
  have "find (feed_at j) (upd_where (feed_at i) g (mm_feeds m))
      = map_option (\<lambda>f. if f_ID f = i then g f else f) (find (feed_at j) (mm_feeds m))"
    by (rule find_upd_where) (simp add: assms(1))
  then show "mem_row (set_feed i g m) j = edit (\<lambda>r. fr_ID r = i) h (mem_row m) j"
    by (cases "find (feed_at j) (mm_feeds m)") (simp_all add: mem_row_def set_feed_def edit_def assms(2))
qed

text \<open>An edit keyed by id and owner is one keyed by id where the owner is known.\<close>

lemma edit_owner:
  "R i = Some r \<Longrightarrow> keyed R \<Longrightarrow> Q r \<Longrightarrow> (\<And>x. Q x \<Longrightarrow> fr_ID x = i) \<Longrightarrow>
   edit (\<lambda>r. fr_ID r = i) h R = edit Q h R"
proof
  fix j
  assume r: "R i = Some r" "Q r" and k: "keyed R" and id: "\<And>x. Q x \<Longrightarrow> fr_ID x = i"
  show "edit (\<lambda>r. fr_ID r = i) h R j = edit Q h R j"
  proof (cases "R j")
    case (Some x)
    then have "fr_ID x = j" using k by (simp add: keyed_def)
    then have "Q x" if "fr_ID x = i" using that r Some by simp
    then have "fr_ID x = i \<longleftrightarrow> Q x" using id by blast
    then show ?thesis by (simp add: edit_def Some)
  qed (simp add: edit_def)
qed

lemma edit_missing: "(\<And>i r. R i = Some r \<Longrightarrow> \<not> P r) \<Longrightarrow> edit P h R = R"
proof
  fix i
  assume none: "\<And>i r. R i = Some r \<Longrightarrow> \<not> P r"
  show "edit P h R i = R i" by (cases "R i") (simp_all add: edit_def none)
qed

lemma with_feed_cases:
  assumes "with_feed u i k m = (r, m')"
  obtains (missing) "r = Inl ErrNotFound" "m' = m"
    | (own) f where "find (feed_at i) (mm_feeds m) = Some f" "f_UserID f = u" "f_ID f = i" "k f m = (r, m')"
  using assms by (auto simp: with_feed_def split: option.splits if_splits dest: find_SomeD)

text \<open>The setters of one column.\<close>

lemma setter_law:
  assumes "mem_inv m" and "with_feed u i (\<lambda>f m. (Inr (), set_feed i g m)) m = (r, m')"
    and g: "\<And>f. f_ID (g f) = f_ID f" "\<And>f. stored_feed (g f) = h (stored_feed f)"
  shows "mem_inv m' \<and> mem_row m' = on_ok r (edit (feed_is i u) h (mem_row m)) (mem_row m)"
  using assms(2)
proof (cases rule: with_feed_cases)
  case missing
  then show ?thesis using assms(1) by (simp add: on_ok_def)
next
  case (own f)
  have "mem_row (set_feed i g m) = edit (\<lambda>r. fr_ID r = i) h (mem_row m)"
    by (rule mem_row_set_feed) (simp_all add: g)
  also have "\<dots> = edit (feed_is i u) h (mem_row m)"
    by (rule edit_owner [of _ _ "stored_feed f"]) (use own mem_row_keyed in \<open>auto simp: mem_row_def feed_is_def\<close>)
  finally show ?thesis using own assms(1) mem_inv_upd(3) [of m g i] g(1) by (auto simp: on_ok_def)
qed

lemma mem_UpdateFeed_law:
  assumes "mem_inv m" and "mem_UpdateFeed cx f m = (r, m')"
  shows "mem_inv m' \<and> mem_row m' = on_ok r (edit (feed_cas (feed_params f)) (update_feed_cols (feed_params f)) (mem_row m)) (mem_row m)"
proof -
  let ?P = "feed_cas (feed_params f)" and ?h = "update_feed_cols (feed_params f)"
  have inv: "mem_inv m'" using keeps_memD [OF mem_feed_ops_keep(4) assms(1)] assms(2) by (metis snd_conv)
  have cas: "?P s \<longleftrightarrow> fr_ID s = f_ID f \<and> fr_UserID s = f_UserID f \<and> fr_FeedUrl s = f_FeedURL f" for s
    by (simp add: feed_cas_def feed_params_def)
  have stale: "edit ?P ?h (mem_row m) = mem_row m"
    if "\<And>ex. find (feed_at (f_ID f)) (mm_feeds m) = Some ex \<Longrightarrow> f_UserID ex \<noteq> f_UserID f \<or> f_FeedURL ex \<noteq> f_FeedURL f"
  proof (rule edit_missing)
    fix i s
    assume "mem_row m i = Some s"
    then obtain ex where ex: "find (feed_at i) (mm_feeds m) = Some ex" "s = stored_feed ex" by (auto simp: mem_row_def)
    then have "f_ID ex = i" by (auto dest: find_SomeD)
    with ex that [of ex] show "\<not> ?P s" by (auto simp: cas)
  qed
  show ?thesis
  proof (cases "\<exists>ex. find (feed_at (f_ID f)) (mm_feeds m) = Some ex \<and> f_UserID ex = f_UserID f \<and> f_FeedURL ex = f_FeedURL f")
    case True
    then obtain ex where ex: "find (feed_at (f_ID f)) (mm_feeds m) = Some ex" "f_UserID ex = f_UserID f" "f_FeedURL ex = f_FeedURL f"
      by blast
    have "mem_row (set_feed (f_ID f) (poll_fields f) m) = edit (\<lambda>r. fr_ID r = f_ID f) ?h (mem_row m)"
      by (rule mem_row_set_feed) (simp_all add: poll_fields_def stored_feed_def feed_params_def update_feed_cols_def)
    also have "\<dots> = edit ?P ?h (mem_row m)"
      by (rule edit_owner [of _ _ "stored_feed ex"])
        (use ex mem_row_keyed in \<open>auto simp: mem_row_def cas dest: find_SomeD\<close>)
    finally show ?thesis using inv assms(2) ex by (auto simp: mem_UpdateFeed_def on_ok_def)
  next
    case False
    then show ?thesis
      using inv assms(2) stale by (auto simp: mem_UpdateFeed_def on_ok_def split: option.splits if_splits)
  qed
qed


lemma mem_GetFeed_law:
  assumes "mem_inv m" and "mem_GetFeed cx u i m = (gf, m')"
  shows "mem_inv m' \<and> mem_row m' = mem_row m
    \<and> (\<forall>f. gf = Inr f \<longrightarrow> (\<exists>r. mem_row m i = Some r \<and> fr_UserID r = u \<and> shown_as r f))"
  using assms(2) [unfolded mem_GetFeed_def]
  by (cases rule: with_feed_cases) (use assms(1) shown_stored in \<open>auto simp: mem_row_def\<close>)

lemma mem_SetFeedURL_law:
  assumes "mem_inv m" and "mem_SetFeedURL cx u i url now m = (r, m')"
  shows "mem_inv m' \<and> mem_row m' = on_ok r (edit (feed_is i u) (repoint url now) (mem_row m)) (mem_row m)"
  using assms(2) [unfolded mem_SetFeedURL_def]
proof (cases rule: with_feed_cases)
  case (own f)
  let ?g = "\<lambda>f. f\<lparr>f_FeedURL := url, f_ETag := [], f_LastModified := [], f_NextCheckAt := now\<rparr>"
  show ?thesis
  proof (cases "list_ex (\<lambda>other. f_UserID other = u \<and> f_FeedURL other = url \<and> f_ID other \<noteq> i) (mm_feeds m)")
    case True
    then show ?thesis using own(4) assms(1) by (auto simp: on_ok_def split: if_splits)
  next
    case False
    then have r: "r = Inr ()" "m' = set_feed i ?g m" using own(4) by (simp_all split: if_splits)
    then have "with_feed u i (\<lambda>f m. (Inr (), set_feed i ?g m)) m = (r, m')"
      using own(1,2) by (simp add: with_feed_def)
    from setter_law [OF assms(1) this, where h = "repoint url now"] show ?thesis
      by (simp add: stored_feed_def feed_params_def repoint_def)
  qed
qed (use assms(1) in \<open>simp add: on_ok_def\<close>)

lemma mem_SetFeedURL_live:
  assumes "mem_inv m" and "mem_SetFeedURL cx u i url now m = (Inr (), m')"
  shows "(\<exists>r. mem_row m i = Some r \<and> fr_UserID r = u)
     \<and> (\<forall>j r. j \<noteq> i \<longrightarrow> mem_row m j = Some r \<longrightarrow> fr_UserID r = u \<longrightarrow> fr_FeedUrl r \<noteq> url)"
  using assms(2) [unfolded mem_SetFeedURL_def]
proof (cases rule: with_feed_cases)
  case (own f)
  have "f_FeedURL g \<noteq> url" if "j \<noteq> i" "find (feed_at j) (mm_feeds m) = Some g" "f_UserID g = u" for j g
  proof -
    have "g \<in> set (mm_feeds m)" "f_ID g = j" using that(2) by (auto dest: find_SomeD)
    then show ?thesis using own(4) that by (auto simp: list_ex_iff split: if_splits)
  qed
  note other = this
  have "fr_FeedUrl r \<noteq> url" if "j \<noteq> i" "mem_row m j = Some r" "fr_UserID r = u" for j r
    using that other [of j] by (cases "find (feed_at j) (mm_feeds m)") (auto simp: mem_row_def)
  then show ?thesis using own(1,2) by (simp add: mem_row_def)
qed simp

lemma find_filter_id:
  "find (\<lambda>x. k x = j) (filter (\<lambda>x. k x \<noteq> i) xs) = (if j = i then None else find (\<lambda>x. k x = j) xs)"
  by (induction xs) auto

lemma mem_DeleteFeed_law:
  assumes "mem_inv m" and "mem_DeleteFeed cx u i m = (r, m')"
  shows "mem_inv m' \<and> mem_row m' = on_ok r ((mem_row m)(i := None)) (mem_row m)"
proof -
  have "mem_inv m'" using keeps_memD [OF mem_feed_ops_keep(5) assms(1)] assms(2) by (metis snd_conv)
  moreover have "mem_row m' = on_ok r ((mem_row m)(i := None)) (mem_row m)"
    using assms(2) [unfolded mem_DeleteFeed_def]
    by (cases rule: with_feed_cases)
      (auto simp: on_ok_def Let_def mem_row_def find_filter_id [where k = f_ID] fun_eq_iff)
  ultimately show ?thesis by blast
qed

lemma mem_column_laws:
  "mem_inv m \<Longrightarrow> mem_SetFeedCategory cx u i cat m = (r, m') \<Longrightarrow>
     mem_inv m' \<and> mem_row m' = on_ok r (edit (feed_is i u) (fr_CategoryID_update (\<lambda>_. cat)) (mem_row m)) (mem_row m)"
  "mem_inv m \<Longrightarrow> mem_SetFeedUserTitle cx u i t m = (r, m') \<Longrightarrow>
     mem_inv m' \<and> mem_row m' = on_ok r (edit (feed_is i u) (fr_UserTitle_update (\<lambda>_. t)) (mem_row m)) (mem_row m)"
  unfolding mem_SetFeedCategory_def mem_SetFeedUserTitle_def
  by (erule (1) setter_law, simp, simp add: stored_feed_def feed_params_def nullID_def)+

lemma mem_SetFeedFullContent_law:
  assumes "mem_inv m" and "mem_SetFeedFullContent cx u i on due m = (r, m')"
  shows "mem_inv m' \<and> mem_row m' = on_ok r (edit (feed_is i u) (fr_FetchFullContent_update (\<lambda>_. b2i on)) (mem_row m)) (mem_row m)"
proof -
  have inv: "mem_inv m'" using keeps_memD [OF mem_feed_ops_keep(7) assms(1)] assms(2) by (metis snd_conv)
  let ?g = "f_FetchFullContent_update (\<lambda>_. on)"
  let ?law = "\<lambda>m'. mem_row m' = on_ok r (edit (feed_is i u) (fr_FetchFullContent_update (\<lambda>_. b2i on)) (mem_row m)) (mem_row m)"
  have set: "with_feed u i (\<lambda>f m. (Inr (), set_feed i ?g m)) m = (r, m'') \<Longrightarrow> ?law m''" for m''
    using setter_law [OF assms(1), of u i ?g r m'' "fr_FetchFullContent_update (\<lambda>_. b2i on)"]
    by (simp add: stored_feed_def feed_params_def)
  from assms(2) [unfolded mem_SetFeedFullContent_def] have "?law m'"
  proof (cases rule: with_feed_cases)
    case missing
    then show ?thesis by (simp add: on_ok_def)
  next
    case (own f)
    have "mem_row m' = mem_row (set_feed i ?g m)" using own(4) by (auto simp: Let_def intro!: mem_row_cong)
    moreover have "?law (set_feed i ?g m)" by (rule set) (use own in \<open>simp add: with_feed_def Let_def\<close>)
    ultimately show ?thesis by simp
  qed
  with inv show ?thesis by blast
qed

lemma mem_CreateFeed_law:
  assumes "mem_inv m" and "f_UserTitle f = []" and "mem_CreateFeed cx f m = (c, m')"
  shows "mem_inv m' \<and> (case c of Inl e \<Rightarrow> mem_row m' = mem_row m
     | Inr i \<Rightarrow> mem_row m i = None \<and> mem_row m' = (mem_row m)(i \<mapsto> (feed_params f)\<lparr>fr_ID := i, fr_UserTitle := []\<rparr>))"
proof -
  have inv: "mem_inv m'" using keeps_memD [OF mem_feed_ops_keep(1) assms(1)] assms(3) by (metis snd_conv)
  have none: "find (feed_at (mm_nextID m)) (mm_feeds m) = None"
    using assms(1) by (fastforce simp: mem_inv_def keys_below_def find_None_iff_all)
  have row: "stored_feed (f\<lparr>f_ID := i\<rparr>) = (feed_params f)\<lparr>fr_ID := i, fr_UserTitle := []\<rparr>" for i
    by (simp add: stored_feed_def feed_params_def assms(2))
  show ?thesis
    using inv assms(3) none row
    by (auto simp: mem_CreateFeed_def Let_def mem_row_def find_append fun_eq_iff split: if_splits option.split)
qed

text \<open>Operations that leave the feeds alone.\<close>

lemma mem_upsert_feeds: "mm_feeds (fst (foldl (mem_upsert_one fid ins) acc es)) = mm_feeds (fst acc)"
proof (induction es arbitrary: acc)
  case (Cons e es)
  have "mm_feeds (fst (mem_upsert_one fid ins acc e)) = mm_feeds (fst acc)"
    by (cases acc) (simp add: mem_upsert_one_def Let_def set_entry_def split: option.split)
  with Cons show ?case by simp
qed simp

lemma mem_other_rows:
  "mem_row (snd (mem_WeeklyEntryCount cx i now m)) = mem_row m" "mem_row (snd (mem_EntryDedup cx i gs m)) = mem_row m"
  "mem_row (snd (mem_UpsertEntries cx i es m)) = mem_row m" "mem_row (snd (mem_GetCategory cx u i m)) = mem_row m"
proof -
  show "mem_row (snd (mem_UpsertEntries cx i es m)) = mem_row m"
  proof (cases "find (feed_at i) (mm_feeds m)")
    case (Some f)
    then show ?thesis
      using mem_upsert_feeds [of i "if f_FetchFullContent f then ExtractPending else ExtractNone" "(m, [])" es]
      by (intro mem_row_cong) (simp add: mem_UpsertEntries_def case_prod_beta)
  qed (simp add: mem_UpsertEntries_def)
qed (auto simp: mem_WeeklyEntryCount_def mem_EntryDedup_def mem_GetCategory_def with_category_def Let_def split: option.split)

lemmas mem_keeps = keeps_memD [OF mem_feed_ops_keep(10)] keeps_memD [OF mem_feed_ops_keep(11)]
  keeps_memD [OF mem_feed_ops_keep(12)] keeps_memD [OF mem_UpsertEntries_keeps]

interpretation mem: feed_store "mem_ops um" mem_inv mem_row for um
  by (unfold_locales, unfold mem_ops_simps)
    (rule mem_row_keyed mem_GetFeed_law mem_UpdateFeed_law mem_SetFeedURL_law mem_SetFeedURL_live mem_DeleteFeed_law
      mem_column_laws mem_SetFeedFullContent_law mem_CreateFeed_law conjI [OF mem_keeps(1) mem_other_rows(1)]
      conjI [OF mem_keeps(2) mem_other_rows(2)] conjI [OF mem_keeps(4) mem_other_rows(3)]
      conjI [OF mem_keeps(3) mem_other_rows(4)]; assumption?)+


section \<open>The entries as stored columns\<close>

text \<open>With the schedule \<open>N\<close> of the extractions; the text columns, which this store computes when it searches,
  are those of \<open>plain\<close>.\<close>

definition stored_entry :: "(string \<Rightarrow> string) \<Rightarrow> (ID \<Rightarrow> time option) \<Rightarrow> Entry \<Rightarrow> EntryRow" where
  "stored_entry plain N e = \<lparr>er_ID = e_ID e, er_UserID = e_UserID e, er_FeedID = e_FeedID e,
     er_Guid = e_GUID e, er_Url = e_URL e, er_Title = e_Title e, er_Author = e_Author e,
     er_Content = e_Content e, er_Summary = e_Summary e, er_PublishedAt = toUnix (e_PublishedAt e),
     er_Status = status_str (e_Status e), er_Starred = b2i (e_Starred e), er_ReadAt = nullUnix (e_ReadAt e),
     er_CreatedAt = toUnix (e_CreatedAt e), er_Hash = e_Hash e, er_ExtractState = extract_str (e_ExtractState e),
     er_ExtractAttempts = e_ExtractAttempts e, er_NextExtractAt = nullUnix (N (e_ID e)),
     er_ExtractError = e_ExtractError e, er_ContentText = plain (e_Content e),
     er_SummaryText = plain (e_Summary e), er_CommentsUrl = e_CommentsURL e\<rparr>"

definition mem_erow :: "(string \<Rightarrow> string) \<Rightarrow> mem \<Rightarrow> entry_view" where
  "mem_erow plain m i = map_option (stored_entry plain (mm_nextExtract m)) (find (entry_id i) (mm_entries m))"

lemma mem_erow_keyed: "mem_erow plain m i = Some r \<Longrightarrow> er_ID r = i"
  by (auto simp: mem_erow_def stored_entry_def dest: find_SomeD)

text \<open>One entry and its place in the schedule change.\<close>

lemma mem_erow_set:
  assumes "\<And>e. e_ID (g e) = e_ID e"
    and "\<And>e. e_ID e = i \<Longrightarrow> stored_entry plain ((mm_nextExtract m)(i := t)) (g e) = h (stored_entry plain (mm_nextExtract m) e)"
  shows "mem_erow plain ((set_entry i g m)\<lparr>mm_nextExtract := (mm_nextExtract m)(i := t)\<rparr>)
    = edit (\<lambda>r. er_ID r = i) h (mem_erow plain m)"
proof
  fix j
  have "find (entry_id j) (upd_where (entry_id i) g (mm_entries m))
      = map_option (\<lambda>e. if e_ID e = i then g e else e) (find (entry_id j) (mm_entries m))"
    by (rule find_upd_where) (simp add: assms(1))
  moreover have "stored_entry plain ((mm_nextExtract m)(i := t)) e = stored_entry plain (mm_nextExtract m) e"
    if "e_ID e \<noteq> i" for e using that by (simp add: stored_entry_def)
  moreover have "er_ID (stored_entry plain N e) = e_ID e" for N e by (simp add: stored_entry_def)
  ultimately show "mem_erow plain ((set_entry i g m)\<lparr>mm_nextExtract := (mm_nextExtract m)(i := t)\<rparr>) j
      = edit (\<lambda>r. er_ID r = i) h (mem_erow plain m) j"
    by (cases "find (entry_id j) (mm_entries m)") (simp_all add: mem_erow_def set_entry_def edit_def assms(2))
qed

lemma mem_SetEntryContent_law:
  assumes "mem_inv m" and "mem_SetEntryContent cx i content m = (x, m')"
  shows "mem_inv m' \<and> mem_erow plain m'
     = on_ok x (edit (pending_is i) (scraped_row content (plain content)) (mem_erow plain m)) (mem_erow plain m)"
proof -
  let ?g = "\<lambda>e. e\<lparr>e_Content := content, e_ExtractState := ExtractDone, e_ExtractError := []\<rparr>"
  let ?h = "scraped_row content (plain content)"
  let ?E = "mem_erow plain m"
  have inv: "mem_inv m'" using keeps_memD [OF mem_entry_ops_keep(1) assms(1)] assms(2) by (metis snd_conv)
  have at: "?E i = map_option (stored_entry plain (mm_nextExtract m)) (find (entry_id i) (mm_entries m))"
    by (simp add: mem_erow_def)
  have key: "er_ID r = j" if "?E j = Some r" for j r using mem_erow_keyed that by blast
  have "mem_erow plain m' = on_ok x (edit (pending_is i) ?h ?E) ?E"
  proof (cases "\<exists>e. find (entry_id i) (mm_entries m) = Some e \<and> extract_str (e_ExtractState e) = ''pending''")
    case True
    then obtain e where e: "find (entry_id i) (mm_entries m) = Some e" "extract_str (e_ExtractState e) = ''pending''"
      by blast
    have "edit (pending_is i) ?h ?E j = edit (\<lambda>r. er_ID r = i) ?h ?E j" for j
      using key e at by (cases "?E j") (auto simp: edit_def pending_is_def stored_entry_def)
    then have "edit (pending_is i) ?h ?E = edit (\<lambda>r. er_ID r = i) ?h ?E" by blast
    also have "\<dots> = mem_erow plain ((set_entry i ?g m)\<lparr>mm_nextExtract := (mm_nextExtract m)(i := None)\<rparr>)"
      by (rule mem_erow_set [symmetric]) (simp_all add: stored_entry_def scraped_row_def nullUnix_def)
    finally show ?thesis using assms(2) e by (auto simp: mem_SetEntryContent_def on_ok_def)
  next
    case False
    have "\<not> pending_is i r" if "?E j = Some r" for j r
      using key [OF that] that at False by (auto simp: pending_is_def stored_entry_def)
    then have "edit (pending_is i) ?h ?E = ?E" by (rule edit_missing)
    moreover have "m' = m" using assms(2) False by (auto simp: mem_SetEntryContent_def split: option.splits if_splits)
    ultimately show ?thesis by (simp add: on_ok_def split: sum.split)
  qed
  with inv show ?thesis by blast
qed

lemma mem_UpdateExtractState_law:
  assumes "mem_inv m" and "mem_UpdateExtractState cx i st n next reason m = (x, m')"
  shows "mem_inv m' \<and> mem_erow plain m'
     = on_ok x (edit (\<lambda>r. er_ID r = i) (extract_row st n next reason) (mem_erow plain m)) (mem_erow plain m)"
proof -
  let ?g = "\<lambda>e. e\<lparr>e_ExtractState := st, e_ExtractAttempts := n, e_ExtractError := reason\<rparr>"
  have "mem_inv m'" using keeps_memD [OF mem_entry_ops_keep(2) assms(1)] assms(2) by (metis snd_conv)
  moreover have "mem_erow plain ((set_entry i ?g m)\<lparr>mm_nextExtract := (mm_nextExtract m)(i := next)\<rparr>)
      = edit (\<lambda>r. er_ID r = i) (extract_row st n next reason) (mem_erow plain m)"
    by (rule mem_erow_set) (simp_all add: stored_entry_def extract_row_def)
  ultimately show ?thesis
    using assms(2) by (auto simp: mem_UpdateExtractState_def on_ok_def split: if_splits)
qed

interpretation mem_rows: entry_rows "mem_ops um" mem_inv "mem_erow plain" plain for um plain
  by (unfold_locales, unfold mem_ops_simps)
    (rule mem_erow_keyed mem_SetEntryContent_law mem_UpdateExtractState_law; assumption)+

section \<open>The HTML texts of the entries\<close>

definition mem_bodies :: "string set \<Rightarrow> mem \<Rightarrow> bool" where
  "mem_bodies B m \<longleftrightarrow> (\<forall>e \<in> set (mm_entries m). entry_within B e)"

lemma mem_bodies_upd:
  "mem_bodies B m \<Longrightarrow> (\<And>e. entry_within B e \<Longrightarrow> entry_within B (g e)) \<Longrightarrow> mem_bodies B (set_entry i g m)"
  by (auto simp: mem_bodies_def set_entry_def set_upd_where)

lemma mem_bodies_fields [simp]:
  "mem_bodies B (m\<lparr>mm_feeds := F\<rparr>) = mem_bodies B m" "mem_bodies B (m\<lparr>mm_nextExtract := N\<rparr>) = mem_bodies B m"
  "mem_bodies B (set_feed i h m) = mem_bodies B m"
  by (simp_all add: mem_bodies_def set_feed_def)

lemma mem_upsert_bodies:
  "mem_bodies B (fst acc) \<Longrightarrow> \<forall>e \<in> set es. entry_within B e
   \<Longrightarrow> mem_bodies B (fst (foldl (mem_upsert_one fid ins) acc es))"
proof (induction es arbitrary: acc)
  case (Cons e es)
  have "mem_bodies B (fst (mem_upsert_one fid ins acc e))"
  proof (cases acc)
    case (Pair m "is")
    have "mem_bodies B (set_entry i (refresh_fields e) m)" for i
      using Cons.prems Pair by (intro mem_bodies_upd) (auto simp: refresh_fields_def entry_within_def)
    with Pair Cons.prems show ?thesis
      by (auto simp: mem_upsert_one_def Let_def split: option.split) (auto simp: mem_bodies_def entry_within_def)
  qed
  with Cons show ?case by simp
qed simp

lemma mem_body_laws:
  "mem_bodies B m \<Longrightarrow> (\<forall>e \<in> set es. entry_within B e) \<Longrightarrow> mem_bodies B (snd (mem_UpsertEntries cx i es m))"
  "mem_bodies B m \<Longrightarrow> content \<in> B \<Longrightarrow> mem_bodies B (snd (mem_SetEntryContent cx i content m))"
  "mem_bodies B m \<Longrightarrow> mem_bodies B (snd (mem_UpdateFeed cx f m))"
  "mem_bodies B m \<Longrightarrow> mem_bodies B (snd (mem_SetFeedURL cx u i url now m))"
  "mem_bodies B m \<Longrightarrow> mem_bodies B (snd (mem_DeleteFeed cx u i m))"
  "mem_bodies B m \<Longrightarrow> mem_bodies B (snd (mem_WeeklyEntryCount cx i now m))"
  "mem_bodies B m \<Longrightarrow> mem_bodies B (snd (mem_EntryDedup cx i gs m))"
  "mem_bodies B m \<Longrightarrow> mem_bodies B (snd (mem_UpdateExtractState cx i st n next reason m))"
proof -
  assume b: "mem_bodies B m"
  show "mem_bodies B (snd (mem_UpsertEntries cx i es m))" if "\<forall>e \<in> set es. entry_within B e"
    using mem_upsert_bodies [of B "(m, [])" es i] b that
    by (simp add: mem_UpsertEntries_def case_prod_beta split: option.split)
  show "mem_bodies B (snd (mem_SetEntryContent cx i content m))" if "content \<in> B"
    using b that by (auto simp: mem_SetEntryContent_def entry_within_def intro!: mem_bodies_upd split: option.split)
  show "mem_bodies B (snd (mem_UpdateExtractState cx i st n next reason m))"
    using b by (auto simp: mem_UpdateExtractState_def entry_within_def intro!: mem_bodies_upd)
  show "mem_bodies B (snd (mem_DeleteFeed cx u i m))"
    using b by (auto simp: mem_DeleteFeed_def with_feed_def mem_bodies_def Let_def split: option.split)
qed (auto simp: mem_UpdateFeed_def mem_SetFeedURL_def with_feed_def mem_WeeklyEntryCount_def mem_EntryDedup_def
    Let_def split: option.split)

interpretation mem_texts: body_store "mem_ops um" mem_bodies for um
  by (unfold_locales, unfold mem_ops_simps) (rule mem_body_laws; assumption)+

end
