(* ===== verification/MemProps.thy ===== *)
theory MemProps
  imports MemContract UpsertProps
begin

text \<open>
  The in-memory store against the SQLite store: a batch of articles leaves the same articles in both, ids
  apart; and its tombstones, which are kept under one text per feed and guid, are exact.
\<close>

section \<open>Tombstone keys\<close>

lemma FormatInt_no_bar: "CHR ''|'' \<notin> set (FormatInt x)"
  using nat_str_digits [of "CHR ''|''"] by (auto simp: FormatInt_def digit_val_def)

lemma split_bar: "b \<notin> set xs \<Longrightarrow> b \<notin> set ys \<Longrightarrow> xs @ b # us = ys @ b # vs \<longleftrightarrow> xs = ys \<and> us = vs"
proof (induction xs arbitrary: ys)
  case (Cons x xs)
  then show ?case by (cases ys) auto
qed (auto simp: Cons_eq_append_conv)

lemma FormatInt_inj: "in_i64 x \<Longrightarrow> in_i64 y \<Longrightarrow> FormatInt x = FormatInt y \<longleftrightarrow> x = y"
  using ParseInt_FormatInt by (metis option.inject)

text \<open>The prefix that \<open>DeleteFeed\<close> drops is that of the feed's own tombstones.\<close>

lemma tkey_prefix:
  assumes "in_i64 f" and "in_i64 i"
  shows "has_prefix (tkey f g) (FormatInt i @ ''|'') \<longleftrightarrow> f = i"
proof -
  have "has_prefix (tkey f g) (FormatInt i @ ''|'') \<longleftrightarrow> (\<exists>t. FormatInt f @ CHR ''|'' # g = FormatInt i @ CHR ''|'' # t)"
    by (simp add: has_prefix_iff tkey_def)
  then show ?thesis
    using split_bar [OF FormatInt_no_bar FormatInt_no_bar] FormatInt_inj [OF assms] by auto
qed

section \<open>Articles without their ids\<close>

definition mem_article :: "(string \<Rightarrow> string) \<Rightarrow> mem \<Rightarrow> ID \<Rightarrow> string \<Rightarrow> EntryRow option" where
  "mem_article unesc m fid g =
     map_option (\<lambda>e. (stored_entry (PlainText unesc) (mm_nextExtract m) e)\<lparr>er_ID := 0\<rparr>)
       (find (mem_key fid g) (mm_entries m))"

definition db_article :: "db \<Rightarrow> ID \<Rightarrow> string \<Rightarrow> EntryRow option" where
  "db_article d fid g = map_option (er_ID_update (\<lambda>_. 0)) (entry_at d fid g)"

text \<open>The effect of one entry on the articles.\<close>

definition put_article ::
  "(string \<Rightarrow> string) \<Rightarrow> ExtractState \<Rightarrow> ID \<Rightarrow> (string \<Rightarrow> bool) \<Rightarrow> Entry
     \<Rightarrow> (string \<Rightarrow> EntryRow option) \<Rightarrow> string \<Rightarrow> EntryRow option" where
  "put_article unesc ins fid dead e V g =
     (if g \<noteq> e_GUID e \<or> dead g then V g
      else case V g of None \<Rightarrow> Some (new_row unesc ins fid e 0)
        | Some r \<Rightarrow> Some (if er_Hash r = e_Hash e then r else refresh unesc ins fid e r r))"

lemma refresh_no_id:
  "(refresh unesc ins fid e (r\<lparr>er_ID := i\<rparr>) (r\<lparr>er_ID := i\<rparr>)) = (refresh unesc ins fid e r r)\<lparr>er_ID := i\<rparr>"
  by (simp add: refresh_def content_cols_def metadata_cols_def entry_params_def)

text \<open>All articles of the feed belong to the user \<open>u\<close>.\<close>

definition owned_by :: "ID \<Rightarrow> (string \<Rightarrow> EntryRow option) \<Rightarrow> bool" where
  "owned_by u V \<longleftrightarrow> (\<forall>g r. V g = Some r \<longrightarrow> er_UserID r = u)"

lemma db_put:
  assumes "keys_ok d" and "owned_by (e_UserID e) (db_article d fid)"
  shows "db_article (put_entry unesc ins fid e d) fid
    = put_article unesc ins fid (tombstoned d fid) e (db_article d fid)"
proof
  fix g
  have own: "er_UserID r = e_UserID e" if "entry_at d fid g = Some r" for r
    using assms(2) that unfolding owned_by_def db_article_def by (cases r) fastforce
  have "(new_row unesc ins fid e i)\<lparr>er_ID := 0\<rparr> = new_row unesc ins fid e 0" for i
    by (simp add: new_row_def entry_params_def)
  then show "db_article (put_entry unesc ins fid e d) fid g
      = put_article unesc ins fid (tombstoned d fid) e (db_article d fid) g"
    using own by (auto simp: db_article_def put_article_def entry_at_put [OF assms(1)] refresh_no_id split: option.split)
qed

section \<open>The loop of the in-memory store\<close>

definition unscheduled :: "mem \<Rightarrow> bool" where
  "unscheduled m \<longleftrightarrow> (\<forall>i. mm_nextID m \<le> i \<longrightarrow> mm_nextExtract m i = None)"

text \<open>An article as the poller makes it.\<close>

definition new_article :: "ID \<Rightarrow> Entry \<Rightarrow> bool" where
  "new_article u e \<longleftrightarrow> e_UserID e = u \<and> e_Status e = StatusUnread \<and> \<not> e_Starred e \<and> e_ReadAt e = None
     \<and> e_ExtractAttempts e = 0 \<and> e_ExtractError e = []"

lemma mem_put:
  assumes "mem_inv m" and "unscheduled m" and "new_article u e" and "mem_upsert_one fid ins (m, is) e = (m', is')"
    and "ins = ExtractPending \<or> ins = ExtractNone"
  shows "mem_article unesc m' fid
    = put_article unesc ins fid (\<lambda>g. tkey fid g \<in> mm_tombstones m) e (mem_article unesc m fid)"
proof
  fix g
  let ?dead = "\<lambda>g. tkey fid g \<in> mm_tombstones m" and ?N = "mm_nextExtract m"
  consider (dead) "?dead (e_GUID e)"
    | (new) "\<not> ?dead (e_GUID e)" "find (mem_key fid (e_GUID e)) (mm_entries m) = None"
    | (old) ex where "\<not> ?dead (e_GUID e)" "find (mem_key fid (e_GUID e)) (mm_entries m) = Some ex"
    by (cases "find (mem_key fid (e_GUID e)) (mm_entries m)") auto
  then show "mem_article unesc m' fid g = put_article unesc ins fid ?dead e (mem_article unesc m fid) g"
  proof cases
    case dead
    then have "m' = m" using assms(4) by (simp add: mem_upsert_one_def)
    then show ?thesis using dead by (auto simp: put_article_def)
  next
    case new
    let ?i = "mm_nextID m"
    let ?e = "e\<lparr>e_ID := ?i, e_FeedID := fid, e_ExtractState := ins\<rparr>"
    have m': "mm_entries m' = mm_entries m @ [?e]"
        "mm_nextExtract m' = (if ins = ExtractPending then ?N(?i \<mapsto> e_CreatedAt e) else ?N)"
      using assms(4) new by (auto simp: mem_upsert_one_def Let_def)
    have "?N ?i = None" using assms(2) by (simp add: unscheduled_def)
    then have row: "(stored_entry (PlainText unesc) (mm_nextExtract m') ?e)\<lparr>er_ID := 0\<rparr> = new_row unesc ins fid e 0"
      using assms(3,5) by (auto simp: m' stored_entry_def new_row_def entry_params_def new_article_def b2i_def nullUnix_def)
    have keep: "stored_entry (PlainText unesc) (mm_nextExtract m') x = stored_entry (PlainText unesc) ?N x"
      if "find (mem_key fid g) (mm_entries m) = Some x" for x
      using find_SomeD [OF that] assms(1) by (auto simp: m' stored_entry_def mem_inv_def keys_below_def)
    show ?thesis
      using new row keep
      by (auto simp: mem_article_def m'(1) put_article_def find_append mem_key_def split: option.split)
  next
    case (old ex)
    have ex: "ex \<in> set (mm_entries m)" "mem_key fid (e_GUID e) ex" using old(2) by (auto dest: find_SomeD)
    show ?thesis
    proof (cases "e_Hash ex = e_Hash e")
      case True
      then have "m' = m" using assms(4) old by (simp add: mem_upsert_one_def)
      then show ?thesis using old True by (auto simp: put_article_def mem_article_def stored_entry_def)
    next
      case False
      then have m': "m' = set_entry (e_ID ex) (refresh_fields e) m" using assms(4) old by (simp add: mem_upsert_one_def)
      have find': "find (mem_key fid g) (mm_entries m')
          = map_option (\<lambda>x. if e_ID x = e_ID ex then refresh_fields e x else x) (find (mem_key fid g) (mm_entries m))"
        unfolding m' set_entry_def by (simp add: find_upd_where mem_key_def refresh_fields_def)
      have same: "x = ex" if "find (mem_key fid g) (mm_entries m) = Some x" "e_ID x = e_ID ex" for x
        using distinct_key_unique [of e_ID "mm_entries m" x ex] assms(1) ex(1) find_SomeD [OF that(1)] that(2)
        by (simp add: mem_inv_def keys_below_def)
      have N: "mm_nextExtract m' = ?N" by (simp add: m' set_entry_def)
      have row: "(stored_entry (PlainText unesc) ?N (refresh_fields e ex))\<lparr>er_ID := 0\<rparr>
          = refresh unesc ins fid e ((stored_entry (PlainText unesc) ?N ex)\<lparr>er_ID := 0\<rparr>) ((stored_entry (PlainText unesc) ?N ex)\<lparr>er_ID := 0\<rparr>)"
        by (simp add: stored_entry_def refresh_fields_def refresh_def content_cols_def metadata_cols_def entry_params_def)
      show ?thesis
      proof (cases "g = e_GUID e")
        case True
        have "er_Hash ((stored_entry (PlainText unesc) ?N ex)\<lparr>er_ID := 0\<rparr>) = e_Hash ex" by (simp add: stored_entry_def)
        moreover have "find (mem_key fid (e_GUID e)) (mm_entries m') = Some (refresh_fields e ex)"
          using find' True old(2) by simp
        ultimately show ?thesis using True old False row by (simp add: mem_article_def N put_article_def)
      next
        case other: False
        have "e_ID x \<noteq> e_ID ex" if "find (mem_key fid g) (mm_entries m) = Some x" for x
          using same [OF that] find_SomeD [OF that] ex(2) other by (auto simp: mem_key_def)
        then show ?thesis
          using other by (cases "find (mem_key fid g) (mm_entries m)") (auto simp: mem_article_def find' N put_article_def)
      qed
    qed
  qed
qed

lemma mem_upsert_step:
  assumes "mem_upsert_one fid ins (m, is) e = (m', is')"
  shows "mm_tombstones m' = mm_tombstones m" and "unscheduled m \<Longrightarrow> unscheduled m'" and "mem_inv m \<Longrightarrow> mem_inv m'"
proof -
  show "mm_tombstones m' = mm_tombstones m" "unscheduled m \<Longrightarrow> unscheduled m'"
    using assms by (auto simp: mem_upsert_one_def Let_def set_entry_def unscheduled_def split: option.splits if_splits)
  show "mem_inv m \<Longrightarrow> mem_inv m'" using mem_upsert_one_keeps [of "(m, is)" fid ins e] assms by simp
qed


text \<open>The number of articles reported as new.\<close>

lemma mem_upsert_count:
  assumes "mem_upsert_one fid ins (m, is) e = (m', is')"
    and "mem_article unesc m fid = db_article d fid" and "\<And>g. tkey fid g \<in> mm_tombstones m \<longleftrightarrow> tombstoned d fid g"
  shows "length is' = length is + length (put_new ins fid e d)"
proof -
  have "find (mem_key fid (e_GUID e)) (mm_entries m) = None \<longleftrightarrow> entry_at d fid (e_GUID e) = None"
    using fun_cong [OF assms(2), of "e_GUID e"]
    by (cases "find (mem_key fid (e_GUID e)) (mm_entries m)"; cases "entry_at d fid (e_GUID e)")
      (simp_all add: mem_article_def db_article_def)
  then show ?thesis
    using assms(1,3) by (auto simp: mem_upsert_one_def put_new_def Let_def split: option.splits if_splits)
qed

lemma owned_article_put:
  assumes "owned_by u V" and "e_UserID e = u"
  shows "owned_by u (put_article unesc ins fid dead e V)"
  using assms by (auto simp: owned_by_def put_article_def split: option.splits if_splits)

lemma mem_fold_mirrors:
  assumes "mem_inv m" and "unscheduled m" and "keys_ok d" and "owned_by u (db_article d fid)"
    and "\<forall>e \<in> set es. new_article u e" and "mem_article unesc m fid = db_article d fid"
    and "\<And>g. tkey fid g \<in> mm_tombstones m \<longleftrightarrow> tombstoned d fid g"
    and "ins = ExtractPending \<or> ins = ExtractNone"
    and "foldl (mem_upsert_one fid ins) (m, is) es = (m', is')"
  shows "mem_article unesc m' fid = db_article (put_all unesc ins fid es d) fid \<and> mm_tombstones m' = mm_tombstones m
     \<and> tombstoned (put_all unesc ins fid es d) fid = tombstoned d fid
     \<and> owned_by u (db_article (put_all unesc ins fid es d) fid)
     \<and> length is' = length is + length (put_all_new unesc ins fid es d)"
  using assms
proof (induction es arbitrary: m "is" d)
  case (Cons e es)
  obtain m1 is1 where one: "mem_upsert_one fid ins (m, is) e = (m1, is1)" by fastforce
  let ?d = "put_entry unesc ins fid e d"
  have u: "e_UserID e = u" and ne: "new_article u e" using Cons.prems(5) by (simp_all add: new_article_def)
  have dead: "(\<lambda>g. tkey fid g \<in> mm_tombstones m) = tombstoned d fid" using Cons.prems(7) by blast
  have own: "owned_by (e_UserID e) (db_article d fid)" using Cons.prems(4) u by simp
  have art: "mem_article unesc m1 fid = db_article ?d fid"
    using mem_put [OF Cons.prems(1,2) ne one Cons.prems(8), of unesc] db_put [OF Cons.prems(3) own, of unesc ins]
      Cons.prems(6) dead by simp
  note st = mem_upsert_step [OF one]
  have d: "keys_ok ?d" "owned_by u (db_article ?d fid)"
    using keys_ok_put_entry [OF Cons.prems(3)] owned_article_put [OF Cons.prems(4) u]
    by (simp_all add: db_put [OF Cons.prems(3) own])
  have "foldl (mem_upsert_one fid ins) (m1, is1) es = (m', is')" using Cons.prems(9) one by simp
  from Cons.IH [OF st(3) [OF Cons.prems(1)] st(2) [OF Cons.prems(2)] d(1) d(2) _ art _ Cons.prems(8) this]
  show ?case
    using Cons.prems(5,7) st(1) mem_upsert_count [OF one Cons.prems(6,7)] by simp
qed simp

section \<open>The stores agree\<close>

text \<open>Both stores have the feed, with the same switch, the same articles, all of one user, and the same
  tombstones; ids may differ.\<close>

definition mirrors :: "(string \<Rightarrow> string) \<Rightarrow> ID \<Rightarrow> ID \<Rightarrow> mem \<Rightarrow> db \<Rightarrow> bool" where
  "mirrors unesc u fid m d \<longleftrightarrow>
     (\<exists>f r. find (feed_at fid) (mm_feeds m) = Some f \<and> find (\<lambda>r. fr_ID r = fid) (feeds d) = Some r
        \<and> f_FetchFullContent f = (fr_FetchFullContent r = 1))
     \<and> mem_article unesc m fid = db_article d fid \<and> owned_by u (db_article d fid)
     \<and> (\<forall>g. tkey fid g \<in> mm_tombstones m \<longleftrightarrow> tombstoned d fid g)"

lemma put_all_feeds [simp]: "feeds (put_all unesc ins fid es d) = feeds d"
  by (induction es arbitrary: d) simp_all

text \<open>One feed with full content on; a new article and then a correction of it.\<close>

definition sample_mem :: mem where
  "sample_mem = NewMemStore\<lparr>mm_feeds := [zero_feed\<lparr>f_ID := 1, f_UserID := 1, f_FetchFullContent := True\<rparr>], mm_nextID := 2\<rparr>"

definition sample_batch :: "Entry list" where
  "sample_batch = [sample_entry\<lparr>e_Status := StatusUnread\<rparr>, sample_entry\<lparr>e_Status := StatusUnread, e_Title := ''u'', e_Hash := ''i''\<rparr>]"

text \<open>C11. The in-memory store ingests exactly as the SQLite store does: where both hold the same articles
  and tombstones of a feed, a batch that the SQLite store takes, in any state of the driver, is taken by
  the in-memory store, reports as many new articles and leaves the same articles in both, column by
  column, read state, extraction state and schedule included.\<close>

theorem mem_ingest_mirrors:
  assumes "mem_inv m" and "unscheduled m" and "wf_db (cn_db c)" and "faults_ok c"
    and "mirrors unesc u fid m (cn_db c)" and "\<forall>e \<in> set es. new_article u e"
    and "UpsertEntries unesc cx fid es c = (Inr new, c')"
  shows "\<exists>new' m'. mem_UpsertEntries cx' fid es m = (Inr new', m') \<and> length new' = length new
     \<and> mirrors unesc u fid m' (cn_db c')"
proof -
  let ?d = "cn_db c"
  obtain f r where f: "find (feed_at fid) (mm_feeds m) = Some f" and r: "find (\<lambda>r. fr_ID r = fid) (feeds ?d) = Some r"
    and full: "f_FetchFullContent f = (fr_FetchFullContent r = 1)"
    using assms(5) by (auto simp: mirrors_def)
  let ?ins = "if f_FetchFullContent f then ExtractPending else ExtractNone"
  have ins: "insert_state ?d fid = ?ins" using r full by (simp add: insert_state_def)
  have "fid \<in> fr_ID ` set (feeds ?d)" using r by (auto dest: find_SomeD)
  then have db: "cn_db c' = put_all unesc ?ins fid es ?d" "new = put_all_new unesc ?ins fid es ?d"
    using upsert_refines [OF assms(4), where unesc = unesc and cx = cx and fid = fid and es = es] assms(7) by (simp_all add: ins)
  obtain m' is' where fold: "foldl (mem_upsert_one fid ?ins) (m, []) es = (m', is')" by fastforce
  have mir: "mem_article unesc m fid = db_article ?d fid" "owned_by u (db_article ?d fid)"
      "\<And>g. tkey fid g \<in> mm_tombstones m \<longleftrightarrow> tombstoned ?d fid g"
    using assms(5) by (auto simp: mirrors_def)
  have step: "mem_article unesc m' fid = db_article (cn_db c') fid \<and> mm_tombstones m' = mm_tombstones m
     \<and> tombstoned (cn_db c') fid = tombstoned ?d fid \<and> owned_by u (db_article (cn_db c') fid)
     \<and> length is' = length new"
    using mem_fold_mirrors [OF assms(1,2) wf_db_keys [OF assms(3)] mir(2) assms(6) mir(1,3) _ fold] db by simp
  moreover have "mm_feeds m' = mm_feeds m" using mem_upsert_feeds [of fid ?ins "(m, [])" es] fold by simp
  ultimately have "mirrors unesc u fid m' (cn_db c')"
    using assms(5) f r full mir(3) db(1) by (simp add: mirrors_def)
  then show ?thesis using f fold step by (simp add: mem_UpsertEntries_def)
qed


theorem mem_ingest_mirrors_witness:
  "\<exists>new' m'. mem_UpsertEntries None 1 sample_batch sample_mem = (Inr new', m') \<and> length new' = 1
     \<and> mirrors (\<lambda>s. s) 1 1 m' (cn_db (snd (UpsertEntries (\<lambda>s. s) None 1 sample_batch (fresh_conn sample_db))))"
proof -
  obtain new c' where u: "UpsertEntries (\<lambda>s. s) None 1 sample_batch (fresh_conn sample_db) = (Inr new, c')"
    and n: "length new = 1"
  proof -
    have "map_sum (\<lambda>_. ()) length (fst (UpsertEntries (\<lambda>s. s) None 1 sample_batch (fresh_conn sample_db))) = Inr 1"
      by code_simp
    with that show thesis
      by (cases "UpsertEntries (\<lambda>s. s) None 1 sample_batch (fresh_conn sample_db)";
          cases "fst (UpsertEntries (\<lambda>s. s) None 1 sample_batch (fresh_conn sample_db))") auto
  qed
  have "mem_inv sample_mem" "unscheduled sample_mem"
    by (simp_all add: sample_mem_def NewMemStore_def mem_inv_def keys_below_def unscheduled_def)
  moreover have "wf_db (cn_db (fresh_conn sample_db))" "faults_ok (fresh_conn sample_db)"
    using wf_sample_db by (simp_all add: fresh_conn_def faults_ok_def)
  moreover have "mirrors (\<lambda>s. s) 1 1 sample_mem (cn_db (fresh_conn sample_db))"
    by (simp add: mirrors_def sample_mem_def NewMemStore_def fresh_conn_def sample_db_def sample_feed_def init_db_def
        mem_article_def db_article_def entry_at_def owned_by_def tombstoned_def fun_eq_iff)
  moreover have "\<forall>e \<in> set sample_batch. new_article 1 e"
    by (simp add: sample_batch_def sample_entry_def zero_entry_def new_article_def)
  ultimately show ?thesis using mem_ingest_mirrors [OF _ _ _ _ _ _ u, of sample_mem 1 None] u n by simp
qed

end
