(* ===== verification/WebText.thy ===== *)
theory WebText
  imports SqliteEntries GoBytes Float64
begin

text \<open>
  The texts of the pages: \<open>internal/web/humanize.go\<close>, \<open>summary.go\<close> and \<open>reading_time.go\<close>, with what
  they use of \<open>time.Format\<close>. Times are in UTC, as the store returns them. \<open>html.UnescapeString\<close> is the
  argument \<open>unesc\<close>; the regular expressions are written out.
\<close>

section \<open>Dates\<close>

text \<open>Year, month and day of a day counted from 1 January 1970. The count starts over at 1 March of
  year 0, then goes by 400 years, centuries, leap cycles, years and the 153 days of five months.\<close>

definition civil :: "int \<Rightarrow> int \<times> int \<times> int" where
  "civil days =
     (let z = days + 719468; era = z div 146097; doe = z mod 146097;
          c = min 3 (doe div 36524); doc = doe - c * 36524;
          q = doc div 1461; dol = doc - q * 1461;
          y = min 3 (dol div 365); doy = dol - y * 365;
          mp = (5 * doy + 2) div 153;
          m = (if mp < 10 then mp + 3 else mp - 9)
      in (400 * era + 100 * c + 4 * q + y + (if m \<le> 2 then 1 else 0), m, doy - (153 * mp + 2) div 5 + 1))"

definition appendInt :: "int \<Rightarrow> nat \<Rightarrow> string" where
  "appendInt x width =
     (let s = nat_str (nat \<bar>x\<bar>)
      in (if x < 0 then ''-'' else []) @ replicate (width - length s) (CHR ''0'') @ s)"

definition month_name :: "int \<Rightarrow> string" where
  "month_name m = [''Jan'', ''Feb'', ''Mar'', ''Apr'', ''May'', ''Jun'', ''Jul'', ''Aug'', ''Sep'', ''Oct'', ''Nov'', ''Dec'']
     ! nat (m - 1)"

definition day_of :: "time \<Rightarrow> int" where "day_of t = time_unix t div 86400"
definition sec_of_day :: "time \<Rightarrow> int" where "sec_of_day t = time_unix t mod 86400"

text \<open>\<open>Format("2 Jan 2006")\<close>, \<open>Format("2 Jan 2006, 15:04")\<close> and \<open>Format(time.RFC3339)\<close>.\<close>

definition fmt_date :: "time \<Rightarrow> string" where
  "fmt_date t = (case civil (day_of t) of (y, m, d) \<Rightarrow>
     appendInt d 0 @ '' '' @ month_name m @ '' '' @ appendInt y 4)"

definition fmt_full :: "time \<Rightarrow> string" where
  "fmt_full t = fmt_date t @ '', '' @ appendInt (sec_of_day t div 3600) 2 @ '':'' @ appendInt (sec_of_day t mod 3600 div 60) 2"

definition fmt_RFC3339 :: "time \<Rightarrow> string" where
  "fmt_RFC3339 t = (case civil (day_of t) of (y, m, d) \<Rightarrow>
     appendInt y 4 @ ''-'' @ appendInt m 2 @ ''-'' @ appendInt d 2 @ ''T''
     @ appendInt (sec_of_day t div 3600) 2 @ '':'' @ appendInt (sec_of_day t mod 3600 div 60) 2 @ '':''
     @ appendInt (sec_of_day t mod 60) 2 @ ''Z'')"

text \<open>The date is the day: counting back from it gives the day again, in a month of the year and a day
  of at most 31.\<close>

definition days_before_month :: "int \<Rightarrow> int" where
  "days_before_month m = (let mp = (if 2 < m then m - 3 else m + 9) in (153 * mp + 2) div 5)"

definition civil_days :: "int \<times> int \<times> int \<Rightarrow> int" where
  "civil_days = (\<lambda>(y, m, d). let y = (if m \<le> 2 then y - 1 else y) in
     365 * y + y div 4 - y div 100 + y div 400 + days_before_month m + d - 1 - 719468)"

section \<open>\<open>humanize.go\<close>\<close>

text \<open>\<open>int(d.Minutes())\<close> and \<open>int(d.Hours())\<close> are below 60 and 24 here, where the float is exact enough
  for its integer part to be the quotient.\<close>

definition humanizeUntil :: "time \<Rightarrow> time \<Rightarrow> string" where
  "humanizeUntil t now =
     (let d = time_sub t now in
      if d \<le> 0 then []
      else if d < Minute then ''in <1m''
      else if d < Hour then ''in '' @ FormatInt (go_div d Minute) @ ''m''
      else if d < 24 * Hour then ''in '' @ FormatInt (go_div d Hour) @ ''h''
      else ''on '' @ fmt_date t)"

definition humanizeSince :: "time \<Rightarrow> time \<Rightarrow> string" where
  "humanizeSince t now =
     (let d = time_sub now t in
      if d < Minute then ''just now''
      else if d < Hour then FormatInt (go_div d Minute) @ ''m ago''
      else if d < 24 * Hour then FormatInt (go_div d Hour) @ ''h ago''
      else fmt_date t)"

section \<open>\<open>summary.go\<close>\<close>

definition maxSummaryScan :: nat where "maxSummaryScan = 2048"
definition maxLinkDensity :: f64 where "maxLinkDensity = round64 (2 / 5)"
definition minPreviewWords :: nat where "minPreviewWords = 5"
definition maxPreviewChars :: nat where "maxPreviewChars = 280"

text \<open>The same steps as \<open>core.PlainText\<close>.\<close>

definition htmlToText :: "(string \<Rightarrow> string) \<Rightarrow> string \<Rightarrow> string" where
  "htmlToText unesc s = join_with '' '' (Fields (unesc (strip_tags s)))"

text \<open>\<open>strings.LastIndexByte\<close>, with 0 for absent and the index plus one otherwise.\<close>

definition last_index :: "char \<Rightarrow> string \<Rightarrow> nat" where
  "last_index c s = length (dropWhile (\<lambda>x. x \<noteq> c) (rev s))"

definition ToValidUTF8 :: "string \<Rightarrow> string" where
  "ToValidUTF8 s = concat (filter (\<lambda>r. rune_len r \<noteq> 0) (runes_of s))"

definition trimScanWindow :: "string \<Rightarrow> string" where
  "trimScanWindow s =
     ToValidUTF8 (if last_index (CHR ''>'') s < last_index (CHR ''<'') s then take (last_index (CHR ''<'') s - 1) s else s)"

text \<open>\<open>urlRE\<close>: the length of its match at the start of a text, 0 for none.\<close>

definition re_space :: "char \<Rightarrow> bool" where
  "re_space c \<longleftrightarrow> c \<in> {CHR 0x09, CHR 0x0A, CHR 0x0C, CHR 0x0D, CHR 0x20}"

definition url_head :: "string \<Rightarrow> nat" where
  "url_head s = (if has_prefix s ''https://'' then 8 else if has_prefix s ''http://'' then 7
     else if has_prefix s ''www.'' then 4 else 0)"

definition url_match :: "string \<Rightarrow> nat" where
  "url_match s = (let p = url_head s; n = length (takeWhile (\<lambda>c. \<not> re_space c) (drop p s))
     in if p = 0 \<or> n = 0 then 0 else p + n)"

text \<open>\<open>FindAllString\<close> and \<open>ReplaceAllString\<close> by a blank, in one scan.\<close>

function url_scan :: "string \<Rightarrow> string list \<times> string" where
  "url_scan s =
     (if s = [] then ([], [])
      else let n = url_match s in
        if n = 0 then (case url_scan (tl s) of (us, t) \<Rightarrow> (us, hd s # t))
        else (case url_scan (drop n s) of (us, t) \<Rightarrow> (take n s # us, CHR '' '' # t)))"
  by pat_completeness auto
termination
  by (relation "measure length") auto

declare url_scan.simps [simp del]

definition goodPreview :: "string \<Rightarrow> bool" where
  "goodPreview text =
     (if text = [] then False
      else let urlChars = sum_list (map length (fst (url_scan text))) in
        if \<not> f64_le (f64_div (f64_of_int (int urlChars)) (f64_of_int (int (length text)))) maxLinkDensity then False
        else minPreviewWords \<le> length (Fields (snd (url_scan text))))"

text \<open>\<open>string([]rune)\<close>: a byte that is no rune comes back as U+FFFD.\<close>

definition rune_str :: "string \<Rightarrow> string" where
  "rune_str r = (if rune_len r = 0 then [CHR 0xEF, CHR 0xBF, CHR 0xBD] else r)"

definition ellipsis :: string where "ellipsis = [CHR 0xE2, CHR 0x80, CHR 0xA6]"

definition truncatePreview :: "string \<Rightarrow> string" where
  "truncatePreview s =
     (let r = runes_of s in
      if length r \<le> maxPreviewChars then s
      else let cut = concat (map rune_str (take maxPreviewChars r));
               i = last_index (CHR '' '') cut;
               cut = (if 1 < i then take (i - 1) cut else cut)
           in cut @ ellipsis)"

definition preview_of :: "(string \<Rightarrow> string) \<Rightarrow> string \<Rightarrow> string option" where
  "preview_of unesc src =
     (if TrimSpace src = [] then None
      else let text = htmlToText unesc (trimScanWindow (take maxSummaryScan src))
           in if goodPreview text then Some (truncatePreview text) else None)"

definition summaryText :: "(string \<Rightarrow> string) \<Rightarrow> Entry \<Rightarrow> string" where
  "summaryText unesc e =
     (case preview_of unesc (e_Summary e) of
        Some t \<Rightarrow> t
      | None \<Rightarrow> (case preview_of unesc (e_Content e) of Some t \<Rightarrow> t | None \<Rightarrow> []))"

section \<open>\<open>reading_time.go\<close>\<close>

definition readingTime :: "(string \<Rightarrow> string) \<Rightarrow> string \<Rightarrow> string" where
  "readingTime unesc s =
     (let n = int (length (Fields (htmlToText unesc s))) in
      if n = 0 then [] else FormatInt (go_div (n + 219) 220) @ '' min read'')"

section \<open>Facts\<close>

lemma civil_inverse: "civil_days (civil days) = days"
proof -
  let ?z = "days + 719468"
  define era where "era = ?z div 146097"
  define doe where "doe = ?z mod 146097"
  define c where "c = min 3 (doe div 36524)"
  define doc where "doc = doe - c * 36524"
  define q where "q = doc div 1461"
  define dol where "dol = doc - q * 1461"
  define y where "y = min 3 (dol div 365)"
  define doy where "doy = dol - y * 365"
  define mp where "mp = (5 * doy + 2) div 153"
  define m where "m = (if mp < 10 then mp + 3 else mp - 9)"
  have doe: "0 \<le> doe" "doe < 146097" "?z = 146097 * era + doe"
    unfolding doe_def era_def by auto
  have c: "0 \<le> c" "c \<le> 3" "0 \<le> doc" "doc \<le> 36524" "c < 3 \<Longrightarrow> doc < 36524"
    using doe unfolding c_def doc_def by (auto simp: min_def)
  have q: "0 \<le> q" "q \<le> 24" "0 \<le> dol" "dol < 1461" "q = 24 \<and> c < 3 \<Longrightarrow> dol < 1460" 
    using c unfolding q_def dol_def by auto
  have y: "0 \<le> y" "y \<le> 3" "0 \<le> doy" "doy \<le> 365" "y < 3 \<Longrightarrow> doy < 365"
    using q unfolding y_def doy_def by (auto simp: min_def)
  have mp: "0 \<le> mp" "mp \<le> 11" using y unfolding mp_def by auto
  let ?Y = "400 * era + 100 * c + 4 * q + y"
  have r: "0 \<le> 4 * q + y" "4 * q + y < 100" "0 \<le> 100 * c + 4 * q + y" "100 * c + 4 * q + y < 400" "y < 4"
    using c(1,2) q(1,2) y(1,2) by linarith+
  have Y4: "?Y div 4 = 100 * era + 25 * c + q"
    by (rule int_div_pos_eq [where r = y]) (simp_all add: y r)
  have Y100: "?Y div 100 = 4 * era + c"
    by (rule int_div_pos_eq [where r = "4 * q + y"]) (simp_all add: r)
  have Y400: "?Y div 400 = era"
    by (rule int_div_pos_eq [where r = "100 * c + 4 * q + y"]) (simp_all add: r)
  have d: "civil days = (?Y + (if m \<le> 2 then 1 else 0), m, doy - (153 * mp + 2) div 5 + 1)"
    unfolding civil_def Let_def
    by (simp only: era_def [symmetric] doe_def [symmetric] c_def [symmetric] doc_def [symmetric] q_def [symmetric]
        dol_def [symmetric] y_def [symmetric] doy_def [symmetric] mp_def [symmetric] m_def [symmetric])
  have mm: "(if m \<le> 2 then ?Y + (if m \<le> 2 then 1 else 0) - 1 else ?Y + (if m \<le> 2 then 1 else 0)) = ?Y" by simp
  have mb: "(if 2 < m then m - 3 else m + 9) = mp" using mp unfolding m_def by auto
  have "civil_days (civil days) = 365 * ?Y + ?Y div 4 - ?Y div 100 + ?Y div 400 + doy - 719468"
    unfolding d civil_days_def days_before_month_def prod.case Let_def mm mb by simp
  also have "\<dots> = 146097 * era + 36524 * c + 1461 * q + 365 * y + doy - 719468"
    unfolding Y4 Y100 Y400 by simp
  also have "\<dots> = days" using doe(3) unfolding doc_def dol_def doy_def by simp
  finally show ?thesis .
qed

end
