(* ===== verification/WebState.thy ===== *)
theory WebState
  imports Services SqliteContract WebText Dom Opml CursorCodec
begin

text \<open>
  What a request of the web layer runs in: \<open>internal/web/inflight.go\<close>, \<open>chrome.go\<close> and the view models
  and background operations of \<open>handlers.go\<close>.

  A handler is a function of the state to an outcome and the state after it. The state has the world
  of a service call on the SQLite store (database, metrics, the count of questions to the
  environment), the set of feeds with a background operation, the operations that have been started
  and not finished, and the response so far. A response has a status once it is written: headers set
  later are ignored, and body text written before it makes it 200. The body is a list of texts and
  executed templates, which are named by set and template and keep their view model; the environment
  decides whether an execution fails (the client has gone), in which case only a part was written.
\<close>

section \<open>View models\<close>

record chrome =
  ch_Theme :: string
  ch_Summaries :: string
  ch_Width :: string
  ch_Active :: string
  ch_PageTitle :: string

definition zero_chrome :: chrome where
  "zero_chrome = \<lparr>ch_Theme = [], ch_Summaries = [], ch_Width = [], ch_Active = [], ch_PageTitle = []\<rparr>"

record entryVM =
  ev_ID :: ID
  ev_Title :: string
  ev_URL :: string
  ev_Author :: string
  ev_Content :: string
  ev_Status :: string
  ev_Starred :: bool
  ev_FeedID :: ID
  ev_FeedTitle :: string
  ev_Published :: string
  ev_PublishedFull :: string
  ev_PublishedAttr :: string
  ev_Summary :: string
  ev_CommentsURL :: string
  ev_ExtractFailed :: bool
  ev_ExtractError :: string

record listVM =
  lv_chrome :: chrome
  lv_Title :: string
  lv_ListPath :: string
  lv_MarkReadPath :: string
  lv_Entries :: "entryVM list"
  lv_NextCursor :: string
  lv_Empty :: string
  lv_EmptySub :: string
  lv_HeaderCount :: string

record entryPageVM =
  ep_chrome :: chrome
  ep_Entry :: entryVM
  ep_ReadingTime :: string

record feedsCatVM =
  fcv_ID :: int
  fcv_Title :: string

record feedEditCatVM =
  fec_ID :: int
  fec_Title :: string
  fec_Selected :: bool

record feedRowVM =
  rw_ID :: ID
  rw_Title :: string
  rw_UserTitle :: string
  rw_FeedURL :: string
  rw_Host :: string
  rw_LastError :: string
  rw_EditError :: string
  rw_CategoryID :: int
  rw_FullContent :: bool
  rw_Unread :: int
  rw_Total :: int
  rw_Stalled :: bool
  rw_Updated :: string
  rw_Next :: string
  rw_Refreshing :: bool
  rw_Pending :: bool
  rw_Editing :: bool
  rw_ShowCounts :: bool
  rw_Cats :: "feedEditCatVM list"

record feedGroupVM =
  gv_CatID :: int
  gv_Title :: string
  gv_FeedCount :: int
  gv_Unread :: int
  gv_OOB :: bool
  gv_ShowCounts :: bool
  gv_Feeds :: "feedRowVM list"

record feedGroupHeadVM =
  gh_CatID :: int
  gh_Title :: string
  gh_FeedCount :: int
  gh_Unread :: int
  gh_OOB :: bool
  gh_ShowCounts :: bool

record feedsPageVM =
  fp_chrome :: chrome
  fp_Categories :: "feedsCatVM list"
  fp_Groups :: "feedGroupVM list"
  fp_HasFeeds :: bool
  fp_ShowCounts :: bool

record categoryVM =
  cv_ID :: ID
  cv_Title :: string
  cv_Unread :: int

record categoriesPageVM =
  cp_chrome :: chrome
  cp_Categories :: "categoryVM list"
  cp_Uncategorised :: int
  cp_Error :: string

record searchVM =
  sv_chrome :: chrome
  sv_Query :: string
  sv_Header :: string
  sv_Entries :: "entryVM list"
  sv_NextCursor :: string

type_synonym settingsOption = "string \<times> string"

record settingsPageVM =
  sp_chrome :: chrome
  sp_ThemeChoice :: string
  sp_ThemeOpts :: "settingsOption list"
  sp_SummaryOpts :: "settingsOption list"
  sp_WidthOpts :: "settingsOption list"

datatype view =
    VList listVM
  | VEntryPage entryPageVM
  | VEntry entryVM
  | VFeeds feedsPageVM
  | VFeedRow feedRowVM
  | VGroupHead feedGroupHeadVM
  | VCategories categoriesPageVM
  | VSearch searchVM
  | VSettings settingsPageVM
  | VText string

section \<open>Requests and the state\<close>

text \<open>\<open>hq_PostForm\<close> has the fields of an urlencoded body, headers are by their canonical names.\<close>

record request =
  hq_Method :: string
  hq_Path :: string
  hq_Host :: string
  hq_RawQuery :: string
  hq_PostForm :: "(string \<times> string) list"
  hq_Header :: "(string \<times> string) list"
  hq_Cookies :: "(string \<times> string) list"

definition Query :: "request \<Rightarrow> (string \<times> string) list" where "Query r = ParseQuery (hq_RawQuery r)"
definition FormValue :: "request \<Rightarrow> string \<Rightarrow> string" where "FormValue r k = Get (hq_PostForm r @ Query r) k"
definition ReqHeader :: "request \<Rightarrow> string \<Rightarrow> string" where "ReqHeader r k = Get (hq_Header r) k"

text \<open>What \<open>startBackground\<close> is given: to resolve a new feed, or to poll one.\<close>

datatype bg_op = BgResolve Feed | BgRefresh ID

fun bg_id :: "bg_op \<Rightarrow> ID" where
  "bg_id (BgResolve f) = f_ID f"
| "bg_id (BgRefresh i) = i"

datatype part = Text string | Tmpl string string view | Partial string string

text \<open>A request counted by \<open>HTTPMetrics\<close>: route, method, status, duration.\<close>

type_synonym http_metric = "string \<times> string \<times> int \<times> duration"

record web_state =
  wb_world :: "conn world"
  wb_busy :: "ID set"
  wb_jobs :: "bg_op list"
  wb_metrics :: "http_metric list"
  wb_status :: "int option"
  wb_header :: "(string \<times> string) list"
  wb_body :: "part list"

type_synonym 'a web = "web_state \<Rightarrow> 'a outcome \<times> web_state"

abbreviation wb_db :: "web_state \<Rightarrow> db" where "wb_db s \<equiv> cn_db (w_store (wb_world s))"
abbreviation wb_conn :: "web_state \<Rightarrow> conn" where "wb_conn s \<equiv> w_store (wb_world s)"

definition retW :: "'a \<Rightarrow> 'a web" where "retW a s = (Ret a, s)"

definition bindW :: "'a web \<Rightarrow> ('a \<Rightarrow> 'b web) \<Rightarrow> 'b web" where
  "bindW m k s = (case m s of (Ret a, s') \<Rightarrow> k a s' | (Panic p, s') \<Rightarrow> (Panic p, s'))"

definition tryW :: "(gerr + 'a) web \<Rightarrow> (gerr \<Rightarrow> 'b web) \<Rightarrow> ('a \<Rightarrow> 'b web) \<Rightarrow> 'b web" where
  "tryW m h k = bindW m (\<lambda>r. case r of Inl e \<Rightarrow> h e | Inr a \<Rightarrow> k a)"

definition callW :: "(conn, 'a) svc \<Rightarrow> 'a web" where
  "callW m s = (case m (wb_world s) of (r, w) \<Rightarrow> (r, s\<lparr>wb_world := w\<rparr>))"

fun mapW :: "('a \<Rightarrow> 'b web) \<Rightarrow> 'a list \<Rightarrow> 'b list web" where
  "mapW f [] = retW []"
| "mapW f (x # xs) = bindW (f x) (\<lambda>y. bindW (mapW f xs) (\<lambda>ys. retW (y # ys)))"

section \<open>The response\<close>

definition WriteHeader :: "int \<Rightarrow> unit web" where
  "WriteHeader code s = (Ret (), if wb_status s = None then s\<lparr>wb_status := Some code\<rparr> else s)"

definition write_part :: "part \<Rightarrow> unit web" where
  "write_part p s = (Ret (), s\<lparr>wb_status := (case wb_status s of None \<Rightarrow> Some 200 | Some c \<Rightarrow> Some c),
     wb_body := wb_body s @ [p]\<rparr>)"

definition setHeader :: "string \<Rightarrow> string \<Rightarrow> unit web" where
  "setHeader k v s = (Ret (), if wb_status s = None
     then s\<lparr>wb_header := filter (\<lambda>h. fst h \<noteq> k) (wb_header s) @ [(k, v)]\<rparr> else s)"

definition addHeader :: "string \<Rightarrow> string \<Rightarrow> unit web" where
  "addHeader k v s = (Ret (), if wb_status s = None then s\<lparr>wb_header := wb_header s @ [(k, v)]\<rparr> else s)"

definition newline :: string where "newline = [CHR 0x0A]"

text \<open>\<open>http.Error\<close>, \<open>http.NotFound\<close>, and \<open>http.Redirect\<close> of a request that is no \<open>GET\<close> and no \<open>HEAD\<close>.\<close>

definition http_Error :: "string \<Rightarrow> int \<Rightarrow> unit web" where
  "http_Error msg code =
     bindW (setHeader ''Content-Type'' ''text/plain; charset=utf-8'') (\<lambda>_.
     bindW (setHeader ''X-Content-Type-Options'' ''nosniff'') (\<lambda>_.
     bindW (WriteHeader code) (\<lambda>_. write_part (Text (msg @ newline)))))"

definition http_NotFound :: "unit web" where "http_NotFound = http_Error ''404 page not found'' 404"

definition http_Redirect :: "string \<Rightarrow> int \<Rightarrow> unit web" where
  "http_Redirect url code = bindW (setHeader ''Location'' url) (\<lambda>_. WriteHeader code)"

section \<open>The handler's dependencies\<close>

record handler =
  hd_env :: env
  hd_unesc :: "string \<Rightarrow> string"
  hd_oob :: "f64 \<Rightarrow> int"
  hd_cfg :: FeedServiceConfig
  hd_rewrite :: "(string \<Rightarrow> string) option"     \<comment> \<open>\<open>imgRewrite\<close>; \<open>None\<close>: nil\<close>
  hd_errorLimit :: int
  hd_html :: html_lib
  hd_marshal :: "opmlOutline list \<Rightarrow> gerr + string"
  hd_fts :: "db \<Rightarrow> string \<Rightarrow> gerr + int list"
  hd_wide :: "string \<Rightarrow> bool"
  hd_tmplErr :: "nat \<Rightarrow> bool"

abbreviation hd_ops :: "handler \<Rightarrow> conn store_ops" where "hd_ops h \<equiv> sqlite_ops (hd_unesc h)"
abbreviation hd_lib :: "handler \<Rightarrow> url_lib" where "hd_lib h \<equiv> en_lib (hd_env h)"
abbreviation uid :: ID where "uid \<equiv> DefaultUserID"

text \<open>A store call with the request's context, as it is at that moment; one that also reads the clock.\<close>

definition storeW :: "handler \<Rightarrow> (ctx \<Rightarrow> conn \<Rightarrow> 'a \<times> conn) \<Rightarrow> 'a web" where
  "storeW h m = callW (storeC (hd_env h) m)"

definition nowW :: "handler \<Rightarrow> time web" where "nowW h = callW (clk_Now (hd_env h))"

definition storeTW :: "handler \<Rightarrow> (time \<Rightarrow> ctx \<Rightarrow> conn \<Rightarrow> 'a \<times> conn) \<Rightarrow> 'a web" where
  "storeTW h m = bindW (nowW h) (\<lambda>now. storeW h (m now))"

text \<open>\<open>ExecuteTemplate\<close>; the result says whether it failed.\<close>

definition ExecuteTemplate :: "handler \<Rightarrow> string \<Rightarrow> string \<Rightarrow> view \<Rightarrow> bool web" where
  "ExecuteTemplate h tset name v =
     bindW (callW (askS (hd_tmplErr h))) (\<lambda>failed.
     bindW (write_part (if failed then Partial tset name else Tmpl tset name v)) (\<lambda>_. retW failed))"

definition execT :: "handler \<Rightarrow> string \<Rightarrow> string \<Rightarrow> view \<Rightarrow> unit web" where
  "execT h tset name v = bindW (ExecuteTemplate h tset name v) (\<lambda>_. retW ())"

section \<open>\<open>inflight.go\<close>\<close>

definition inflight_start :: "ID \<Rightarrow> bool web" where
  "inflight_start i s = (if i \<in> wb_busy s then (Ret False, s) else (Ret True, s\<lparr>wb_busy := insert i (wb_busy s)\<rparr>))"

definition inflight_done :: "ID \<Rightarrow> unit web" where
  "inflight_done i s = (Ret (), s\<lparr>wb_busy := wb_busy s - {i}\<rparr>)"

definition inflight_has :: "ID \<Rightarrow> bool web" where
  "inflight_has i s = (Ret (i \<in> wb_busy s), s)"

section \<open>Background operations\<close>

text \<open>\<open>startBackground\<close> up to the \<open>go\<close> statement, which leaves the operation to run.\<close>

definition startBackground :: "bg_op \<Rightarrow> unit web" where
  "startBackground b =
     bindW (inflight_start (bg_id b)) (\<lambda>ok.
     if \<not> ok then retW () else (\<lambda>s. (Ret (), s\<lparr>wb_jobs := wb_jobs s @ [b]\<rparr>)))"

definition startRefresh :: "ID \<Rightarrow> unit web" where "startRefresh i = startBackground (BgRefresh i)"

text \<open>The goroutine: the operation, and whatever it does, panics included, \<open>busy.done\<close> and \<open>bgOps.Done\<close>.\<close>

definition bg_call :: "handler \<Rightarrow> bg_op \<Rightarrow> (conn, gerr option) svc" where
  "bg_call h b = (case b of
     BgResolve f \<Rightarrow> bindS (setFeedS (\<lambda>_. f)) (\<lambda>_. ResolveAndIngest (hd_ops h) (hd_env h) (hd_oob h) (hd_cfg h))
   | BgRefresh i \<Rightarrow> Refresh (hd_ops h) (hd_env h) (hd_oob h) (hd_cfg h) uid i)"

definition run_background :: "handler \<Rightarrow> bg_op \<Rightarrow> web_state \<Rightarrow> web_state" where
  "run_background h b s =
     (let s = snd (callW (bg_call h b) s); s = snd (inflight_done (bg_id b) s)
      in s\<lparr>wb_jobs := remove1 b (wb_jobs s)\<rparr>)"

section \<open>\<open>chrome.go\<close>\<close>

definition prefThemes :: "string list" where "prefThemes = [''system'', ''light'', ''sepia'', ''dark'']"
definition prefSummaries :: "string list" where "prefSummaries = [''show'', ''hide'']"
definition prefWidths :: "string list" where "prefWidths = [''comfortable'', ''wide'']"

definition allowedOr :: "string \<Rightarrow> string \<Rightarrow> string list \<Rightarrow> string" where
  "allowedOr v def allowed = (if v \<in> set allowed then v else def)"

definition cookieOr :: "request \<Rightarrow> string \<Rightarrow> string \<Rightarrow> string list \<Rightarrow> string" where
  "cookieOr r name def allowed =
     (case map_of (hq_Cookies r) name of None \<Rightarrow> def | Some v \<Rightarrow> allowedOr v def allowed)"

definition chromeFor :: "request \<Rightarrow> string \<Rightarrow> chrome" where
  "chromeFor r active =
     (let theme = cookieOr r ''bfeed_theme'' ''system'' prefThemes in
      \<lparr>ch_Theme = (if theme = ''system'' then [] else theme),
       ch_Summaries = cookieOr r ''bfeed_summary'' ''show'' prefSummaries,
       ch_Width = cookieOr r ''bfeed_width'' ''comfortable'' prefWidths,
       ch_Active = active, ch_PageTitle = []\<rparr>)"

text \<open>\<open>http.SetCookie\<close> of a cookie with these attributes.\<close>

definition setPrefCookie :: "string \<Rightarrow> string \<Rightarrow> unit web" where
  "setPrefCookie name val =
     addHeader ''Set-Cookie'' (name @ ''='' @ val @ ''; Path=/; Max-Age=31536000; HttpOnly; SameSite=Lax'')"

end
