(* ===== verification/WebHandlers.thy ===== *)
theory WebHandlers
  imports WebState
begin

text \<open>
  \<open>internal/web/handlers.go\<close> and \<open>opml.go\<close>: one definition per handler and helper, in the order of
  the file. A handler of a path with an id gets the text of the id, as \<open>r.PathValue("id")\<close>. Logging is
  not modelled.
\<close>

section \<open>Shared pieces\<close>

definition middot :: string where "middot = [CHR 0xC2, CHR 0xB7]"
definition mdash :: string where "mdash = [CHR 0xE2, CHR 0x80, CHR 0x94]"

definition parseID :: "string \<Rightarrow> (ID \<Rightarrow> unit web) \<Rightarrow> unit web" where
  "parseID p k = (case ParseInt p of None \<Rightarrow> http_Error ''bad id'' 400 | Some n \<Rightarrow> k n)"

definition notFoundOr500 :: "gerr \<Rightarrow> unit web" where
  "notFoundOr500 e = (if err_is SNotFound e then http_NotFound else http_Error ''internal error'' 500)"

definition feedTitleMap :: "handler \<Rightarrow> (ID \<Rightarrow> string) web" where
  "feedTitleMap h =
     tryW (callW (fs_List (hd_ops h) (hd_env h) uid)) (\<lambda>e. retW (\<lambda>_. []))
       (\<lambda>fs. retW (\<lambda>i. case map_of (rev (map (\<lambda>f. (f_ID f, DisplayTitle f)) fs)) i of None \<Rightarrow> [] | Some t \<Rightarrow> t))"

definition singleFeedTitle :: "handler \<Rightarrow> ID \<Rightarrow> string web" where
  "singleFeedTitle h i =
     tryW (callW (fs_Get (hd_ops h) (hd_env h) uid i)) (\<lambda>e. retW []) (\<lambda>f. retW (DisplayTitle f))"

definition entry_vm :: "handler \<Rightarrow> Entry \<Rightarrow> string \<Rightarrow> time \<Rightarrow> entryVM" where
  "entry_vm h e ft now =
     (let body = (if e_Content e = [] then e_Summary e else e_Content e);
          comments = (if trim_suffix (e_CommentsURL e) ''/'' = trim_suffix (e_URL e) ''/'' then [] else e_CommentsURL e)
      in \<lparr>ev_ID = e_ID e, ev_Title = e_Title e, ev_URL = e_URL e, ev_Author = e_Author e, ev_Content = body,
          ev_Status = status_str (e_Status e), ev_Starred = e_Starred e, ev_FeedID = e_FeedID e,
          ev_FeedTitle = ft, ev_Published = humanizeSince (e_PublishedAt e) now,
          ev_PublishedFull = fmt_full (e_PublishedAt e), ev_PublishedAttr = fmt_RFC3339 (e_PublishedAt e),
          ev_Summary = summaryText (hd_unesc h) e, ev_CommentsURL = comments,
          ev_ExtractFailed = (e_ExtractState e = ExtractFailed), ev_ExtractError = e_ExtractError e\<rparr>)"

definition toEntryVM :: "handler \<Rightarrow> Entry \<Rightarrow> string \<Rightarrow> entryVM web" where
  "toEntryVM h e ft = bindW (nowW h) (\<lambda>now. retW (entry_vm h e ft now))"

definition toEntryVMs :: "handler \<Rightarrow> Entry list \<Rightarrow> (ID \<Rightarrow> string) \<Rightarrow> entryVM list web" where
  "toEntryVMs h es titles = mapW (\<lambda>e. toEntryVM h e (titles (e_FeedID e))) es"

section \<open>Lists of entries\<close>

definition listActive :: "EntryFilter \<Rightarrow> string" where
  "listActive f =
     (if fl_Starred f = Some True then ''starred''
      else if fl_Order f = OrderReadAtDesc then ''history''
      else if fl_CategoryID f \<noteq> None \<or> fl_Uncategorised f then ''categories''
      else if fl_FeedID f \<noteq> None then ''feeds''
      else ''unread'')"

definition youre :: string where "youre = ''You'' @ [CHR 0x27] @ ''re''"
definition couldnt :: string where "couldnt = ''Couldn'' @ [CHR 0x27] @ ''t''"

definition emptyFor :: "EntryFilter \<Rightarrow> string \<times> string" where
  "emptyFor f =
     (let a = listActive f in
      if a = ''starred'' then (''Nothing saved yet.'', ''Tap the star to keep things here.'')
      else if a = ''history'' then (''Nothing read yet.'', [])
      else if a = ''unread'' then (youre @ '' all caught up.'', [])
      else (''Nothing here yet.'', []))"

definition headerCount :: "handler \<Rightarrow> EntryFilter \<Rightarrow> string option web" where
  "headerCount h f =
     (if listActive f = ''unread'' then
        tryW (storeW h (\<lambda>cx. fs_UnreadCount cx uid)) (\<lambda>e. retW None)
          (\<lambda>n. retW (Some (FormatInt n @ '' unread'')))
      else case fl_FeedID f of
        Some i \<Rightarrow> tryW (storeW h (\<lambda>cx. fs_FeedStats cx uid i)) (\<lambda>e. retW None)
          (\<lambda>st. retW (Some (FormatInt (st_Unread st) @ '' unread '' @ middot @ '' '' @ FormatInt (st_Total st) @ '' total'')))
      | None \<Rightarrow> retW None)"

definition renderList :: "handler \<Rightarrow> request \<Rightarrow> string \<Rightarrow> string \<Rightarrow> EntryFilter \<Rightarrow> unit web" where
  "renderList h r title path f =
     (let c = Get (Query r) ''cursor'';
          f = (if c \<noteq> [] then f\<lparr>fl_Cursor := DecodeCursor c\<rparr> else f);
          f = f\<lparr>fl_Limit := 50\<rparr> in
      bindW (feedTitleMap h) (\<lambda>feedTitles.
      tryW (storeW h (\<lambda>cx. es_List cx uid f)) (\<lambda>e. http_Error (err_text e) 500) (\<lambda>(entries, next).
      bindW (toEntryVMs h entries feedTitles) (\<lambda>evs.
      let vm = \<lparr>lv_chrome = zero_chrome, lv_Title = title, lv_ListPath = path,
                lv_MarkReadPath = (if fl_FeedID f \<noteq> None then path @ ''/mark-read'' else []),
                lv_Entries = evs,
                lv_NextCursor = (case next of None \<Rightarrow> [] | Some n \<Rightarrow> EncodeCursor n),
                lv_Empty = [], lv_EmptySub = [], lv_HeaderCount = []\<rparr> in
      if ReqHeader r ''Hx-Request'' = ''true'' \<and> c \<noteq> []
      then execT h ''entries'' ''entrylist'' (VList vm)
      else bindW (headerCount h f) (\<lambda>hc.
        execT h ''entries'' ''layout'' (VList (vm\<lparr>lv_Empty := fst (emptyFor f), lv_EmptySub := snd (emptyFor f),
          lv_HeaderCount := (case hc of None \<Rightarrow> [] | Some t \<Rightarrow> t), lv_chrome := chromeFor r (listActive f)\<rparr>)))))))"

definition unread :: "handler \<Rightarrow> request \<Rightarrow> unit web" where
  "unread h r = renderList h r ''Unread'' ''/'' (zero_filter\<lparr>fl_Status := Some StatusUnread\<rparr>)"

definition starred :: "handler \<Rightarrow> request \<Rightarrow> unit web" where
  "starred h r = renderList h r ''Starred'' ''/starred'' (zero_filter\<lparr>fl_Starred := Some True\<rparr>)"

definition history :: "handler \<Rightarrow> request \<Rightarrow> unit web" where
  "history h r = renderList h r ''History'' ''/history'' (zero_filter\<lparr>fl_Order := OrderReadAtDesc\<rparr>)"

definition feedEntries :: "handler \<Rightarrow> request \<Rightarrow> string \<Rightarrow> unit web" where
  "feedEntries h r p = parseID p (\<lambda>i.
     tryW (callW (fs_Get (hd_ops h) (hd_env h) uid i)) notFoundOr500 (\<lambda>f.
     renderList h r (DisplayTitle f) (''/feeds/'' @ FormatInt i) (zero_filter\<lparr>fl_FeedID := Some i\<rparr>)))"

definition oob_filter :: "url_lib \<Rightarrow> string \<Rightarrow> EntryFilter option" where
  "oob_filter lib currentURL =
     (if currentURL = [] then None
      else case ul_Parse lib currentURL of
          None \<Rightarrow> None
        | Some u \<Rightarrow>
            if u_Path u = ''/'' then Some zero_filter
            else if has_prefix (u_Path u) ''/feeds/'' then
              map_option (\<lambda>i. zero_filter\<lparr>fl_FeedID := Some i\<rparr>) (ParseInt (trim_prefix (u_Path u) ''/feeds/''))
            else None)"

definition writeListCountOOB :: "handler \<Rightarrow> string \<Rightarrow> unit web" where
  "writeListCountOOB h currentURL =
     (case oob_filter (hd_lib h) currentURL of
        None \<Rightarrow> retW ()
      | Some f \<Rightarrow> bindW (headerCount h f) (\<lambda>hc.
          case hc of None \<Rightarrow> retW () | Some t \<Rightarrow> execT h ''entryrow'' ''listcountoob'' (VText t)))"

section \<open>Rows of feeds\<close>

definition feedHost :: "url_lib \<Rightarrow> string \<Rightarrow> string" where
  "feedHost lib raw = (case ul_Parse lib raw of Some u \<Rightarrow> if u_Host u \<noteq> [] then u_Host u else raw | None \<Rightarrow> raw)"

definition cat_num :: "ID option \<Rightarrow> int" where "cat_num c = (case c of None \<Rightarrow> 0 | Some i \<Rightarrow> i)"

definition zero_stats :: FeedEntryStats where "zero_stats = \<lparr>st_Total = 0, st_Unread = 0\<rparr>"

definition buildFeedRow :: "handler \<Rightarrow> Feed \<Rightarrow> FeedEntryStats \<Rightarrow> time \<Rightarrow> feedRowVM web" where
  "buildFeedRow h f st now =
     bindW (inflight_has (f_ID f)) (\<lambda>inFlight.
     retW \<lparr>rw_ID = f_ID f, rw_Title = DisplayTitle f, rw_UserTitle = f_UserTitle f, rw_FeedURL = f_FeedURL f,
       rw_Host = feedHost (hd_lib h) (f_FeedURL f), rw_LastError = f_LastError f, rw_EditError = [],
       rw_CategoryID = cat_num (f_CategoryID f), rw_FullContent = f_FetchFullContent f,
       rw_Unread = st_Unread st, rw_Total = st_Total st, rw_Stalled = (hd_errorLimit h \<le> f_ErrorCount f),
       rw_Updated = (case f_CheckedAt f of None \<Rightarrow> [] | Some t \<Rightarrow> humanizeSince t now),
       rw_Next = humanizeUntil (f_NextCheckAt f) now,
       rw_Refreshing = (inFlight \<and> f_CheckedAt f \<noteq> None), rw_Pending = (inFlight \<and> f_CheckedAt f = None),
       rw_Editing = False, rw_ShowCounts = True, rw_Cats = []\<rparr>)"

definition toCatVMs :: "Category list \<Rightarrow> feedsCatVM list" where
  "toCatVMs cats = map (\<lambda>c. \<lparr>fcv_ID = c_ID c, fcv_Title = c_Title c\<rparr>) cats"

section \<open>One entry\<close>

definition entry :: "handler \<Rightarrow> request \<Rightarrow> string \<Rightarrow> unit web" where
  "entry h r p = parseID p (\<lambda>i.
     tryW (storeW h (\<lambda>cx. es_Get cx uid i)) notFoundOr500 (\<lambda>e.
     bindW (storeTW h (\<lambda>wall cx. es_MarkRead wall cx uid [i] True)) (\<lambda>_.
     bindW (singleFeedTitle h (e_FeedID e)) (\<lambda>feedTitle.
     bindW (toEntryVM h e feedTitle) (\<lambda>ev.
     let readMin = readingTime (hd_unesc h) (ev_Content ev);
         ev = ev\<lparr>ev_Content := transformContent (hd_html h) (hd_rewrite h) (ev_Content ev)\<rparr>
     in execT h ''entry'' ''layout'' (VEntryPage \<lparr>ep_chrome = (chromeFor r [])\<lparr>ch_PageTitle := ev_Title ev\<rparr>,
          ep_Entry = ev, ep_ReadingTime = readMin\<rparr>))))))"

section \<open>The feeds page\<close>

definition stats_get :: "(ID \<Rightarrow> FeedEntryStats option) \<Rightarrow> ID \<Rightarrow> FeedEntryStats" where
  "stats_get stats i = (case stats i of None \<Rightarrow> zero_stats | Some st \<Rightarrow> st)"

definition mkGroup :: "bool \<Rightarrow> int \<Rightarrow> string \<Rightarrow> feedRowVM list \<Rightarrow> feedGroupVM" where
  "mkGroup showCounts catID title rows =
     \<lparr>gv_CatID = catID, gv_Title = title, gv_FeedCount = int (length rows), gv_Unread = sum_list (map rw_Unread rows),
      gv_OOB = False, gv_ShowCounts = showCounts, gv_Feeds = rows\<rparr>"

text \<open>The groups: the categories that have feeds, in their order, and the rest. A row whose category is
  not among \<open>cats\<close> is in no group, as in the code.\<close>

definition feed_groups :: "bool \<Rightarrow> Category list \<Rightarrow> (Feed \<times> feedRowVM) list \<Rightarrow> feedGroupVM list" where
  "feed_groups showCounts cats rows =
     (let of_cat = (\<lambda>k. map snd (filter (\<lambda>(f, _). f_CategoryID f = k) rows))
      in map (\<lambda>c. mkGroup showCounts (c_ID c) (c_Title c) (of_cat (Some (c_ID c))))
           (filter (\<lambda>c. of_cat (Some (c_ID c)) \<noteq> []) cats)
         @ (if of_cat None \<noteq> [] then [mkGroup showCounts 0 ''Uncategorised'' (of_cat None)] else []))"

definition listFeeds :: "handler \<Rightarrow> request \<Rightarrow> unit web" where
  "listFeeds h r =
     tryW (callW (fs_List (hd_ops h) (hd_env h) uid)) (\<lambda>e. http_Error (err_text e) 500) (\<lambda>feeds.
     tryW (storeW h (\<lambda>cx. cs_List cx uid)) (\<lambda>e. http_Error (err_text e) 500) (\<lambda>cats.
     bindW (storeW h (\<lambda>cx. fs_EntryStats cx uid)) (\<lambda>sr.
     let (stats, showCounts) = (case sr of Inl e \<Rightarrow> (Map.empty, False) | Inr st \<Rightarrow> (st, True)) in
     bindW (nowW h) (\<lambda>now.
     bindW (mapW (\<lambda>f. bindW (buildFeedRow h f (stats_get stats (f_ID f)) now)
                       (\<lambda>row. retW (f, row\<lparr>rw_ShowCounts := showCounts\<rparr>))) feeds) (\<lambda>rows.
     execT h ''feeds'' ''layout'' (VFeeds \<lparr>fp_chrome = chromeFor r ''feeds'', fp_Categories = toCatVMs cats,
       fp_Groups = feed_groups showCounts cats rows, fp_HasFeeds = (feeds \<noteq> []), fp_ShowCounts = showCounts\<rparr>))))))"

section \<open>Subscribing\<close>

definition parseCategoryID :: "request \<Rightarrow> ID option option" where
  "parseCategoryID r =
     (let v = TrimSpace (FormValue r ''category_id'') in
      if v = [] then Some None
      else case ParseInt v of None \<Rightarrow> None | Some n \<Rightarrow> if n \<le> 0 then None else Some (Some n))"

definition html_type :: "unit web" where
  "html_type = setHeader ''Content-Type'' ''text/html; charset=utf-8''"

definition renderSubscribeError :: "handler \<Rightarrow> string \<Rightarrow> unit web" where
  "renderSubscribeError h msg = bindW html_type (\<lambda>_. execT h ''feeds'' ''subscribeError'' (VText msg))"

definition hx_refresh :: "unit web" where
  "hx_refresh = bindW (setHeader ''HX-Refresh'' ''true'') (\<lambda>_. WriteHeader 204)"

definition subscribe :: "handler \<Rightarrow> request \<Rightarrow> unit web" where
  "subscribe h r =
     (case parseCategoryID r of
        None \<Rightarrow> renderSubscribeError h ''Invalid category.''
      | Some catID \<Rightarrow>
          tryW (callW (CreateSubscription (hd_ops h) (hd_env h) (hd_cfg h) uid (FormValue r ''url'') catID
                         (FormValue r ''full_content'' = ''on'')))
            (\<lambda>e. if err_is SConflict e then renderSubscribeError h (youre @ '' already subscribed to that feed.'')
                 else renderSubscribeError h (couldnt @ '' add feed: '' @ err_text e))
            (\<lambda>f. bindW (startBackground (BgResolve f)) (\<lambda>_. hx_refresh)))"

section \<open>Editing\<close>

definition catOptions :: "handler \<Rightarrow> ID option \<Rightarrow> feedEditCatVM list web" where
  "catOptions h sel =
     tryW (storeW h (\<lambda>cx. cs_List cx uid)) (\<lambda>e. retW []) (\<lambda>cats.
     retW (map (\<lambda>c. \<lparr>fec_ID = c_ID c, fec_Title = c_Title c, fec_Selected = (sel = Some (c_ID c))\<rparr>) cats))"

text \<open>\<open>None\<close>: an error response has been written.\<close>

definition buildEditRow :: "handler \<Rightarrow> ID \<Rightarrow> feedRowVM option web" where
  "buildEditRow h i =
     tryW (callW (fs_Get (hd_ops h) (hd_env h) uid i)) (\<lambda>e. bindW (notFoundOr500 e) (\<lambda>_. retW None)) (\<lambda>f.
     bindW (storeW h (\<lambda>cx. fs_FeedStats cx uid i)) (\<lambda>sr.
     let (st, showCounts) = (case sr of Inl e \<Rightarrow> (zero_stats, False) | Inr st \<Rightarrow> (st, True)) in
     bindW (nowW h) (\<lambda>now.
     bindW (buildFeedRow h f st now) (\<lambda>row.
     bindW (catOptions h (f_CategoryID f)) (\<lambda>cats.
     retW (Some (row\<lparr>rw_ShowCounts := showCounts, rw_Editing := True, rw_Cats := cats\<rparr>)))))))"

definition writeFeedRow :: "handler \<Rightarrow> feedRowVM \<Rightarrow> unit web" where
  "writeFeedRow h row = bindW html_type (\<lambda>_. execT h ''feedrow'' ''feedrow'' (VFeedRow row))"

definition feedEditForm :: "handler \<Rightarrow> string \<Rightarrow> unit web" where
  "feedEditForm h p = parseID p (\<lambda>i.
     bindW (buildEditRow h i) (\<lambda>row. case row of None \<Rightarrow> retW () | Some row \<Rightarrow> writeFeedRow h row))"

definition renderEditError :: "handler \<Rightarrow> ID \<Rightarrow> gerr \<Rightarrow> unit web" where
  "renderEditError h i cause =
     bindW (buildEditRow h i) (\<lambda>row. case row of
       None \<Rightarrow> retW ()
     | Some row \<Rightarrow> writeFeedRow h (row\<lparr>rw_EditError :=
         (if err_is SConflict cause then ''A feed with that URL already exists.''
          else couldnt @ '' save: '' @ err_text cause)\<rparr>))"

text \<open>The group head sums over every feed of the category, with its title if it can be had.\<close>

definition writeGroupHeadOOB :: "handler \<Rightarrow> Feed \<Rightarrow> (ID \<Rightarrow> FeedEntryStats option) \<Rightarrow> bool \<Rightarrow> unit web" where
  "writeGroupHeadOOB h f stats showCounts =
     tryW (callW (fs_List (hd_ops h) (hd_env h) uid)) (\<lambda>e. retW ()) (\<lambda>feeds.
     let catID = cat_num (f_CategoryID f) in
     bindW (if catID \<noteq> 0
            then tryW (storeW h (\<lambda>cx. cs_Get cx uid catID)) (\<lambda>e. retW ''Uncategorised'') (\<lambda>c. retW (c_Title c))
            else retW ''Uncategorised'') (\<lambda>title.
     let own = filter (\<lambda>ff. cat_num (f_CategoryID ff) = catID) feeds in
     execT h ''feedrow'' ''feedgrouphead'' (VGroupHead \<lparr>gh_CatID = catID, gh_Title = title,
       gh_FeedCount = int (length own), gh_Unread = sum_list (map (\<lambda>ff. st_Unread (stats_get stats (f_ID ff))) own),
       gh_OOB = True, gh_ShowCounts = showCounts\<rparr>)))"

definition renderFeedRow :: "handler \<Rightarrow> ID \<Rightarrow> unit web" where
  "renderFeedRow h i =
     tryW (callW (fs_Get (hd_ops h) (hd_env h) uid i)) (\<lambda>e. html_type) (\<lambda>f.
     bindW (storeW h (\<lambda>cx. fs_FeedStats cx uid i)) (\<lambda>sr.
     let (st, showCounts) = (case sr of Inl e \<Rightarrow> (zero_stats, False) | Inr st \<Rightarrow> (st, True)) in
     bindW (nowW h) (\<lambda>now.
     bindW (buildFeedRow h f st now) (\<lambda>row.
     let row = row\<lparr>rw_ShowCounts := showCounts\<rparr> in
     bindW html_type (\<lambda>_.
     bindW (ExecuteTemplate h ''feedrow'' ''feedrow'' (VFeedRow row)) (\<lambda>failed.
     if failed \<or> rw_Refreshing row \<or> rw_Pending row then retW ()
     else tryW (storeW h (\<lambda>cx. fs_EntryStats cx uid)) (\<lambda>e. retW ()) (\<lambda>stats.
       writeGroupHeadOOB h f stats True)))))))"

definition editFeed :: "handler \<Rightarrow> request \<Rightarrow> string \<Rightarrow> unit web" where
  "editFeed h r p = parseID p (\<lambda>i.
     case parseCategoryID r of
       None \<Rightarrow> http_Error ''bad category id'' 400
     | Some catID \<Rightarrow>
         bindW (callW (EditFeed (hd_ops h) (hd_env h) uid i
             \<lparr>ei_Title = FormValue r ''title'', ei_URL = FormValue r ''url'', ei_CategoryID = catID,
              ei_FullContent = (FormValue r ''full_content'' = ''on'')\<rparr>)) (\<lambda>(res, err).
         case err of
           Some e \<Rightarrow> renderEditError h i e
         | None \<Rightarrow>
             bindW (if er_URLChanged res then startRefresh i else retW ()) (\<lambda>_.
             if er_CategoryChanged res then hx_refresh else renderFeedRow h i)))"

definition refresh :: "handler \<Rightarrow> string \<Rightarrow> unit web" where
  "refresh h p = parseID p (\<lambda>i. bindW (startRefresh i) (\<lambda>_. renderFeedRow h i))"

definition feedRow :: "handler \<Rightarrow> string \<Rightarrow> unit web" where
  "feedRow h p = parseID p (renderFeedRow h)"

section \<open>Marking and deleting\<close>

definition markFeedRead :: "handler \<Rightarrow> string \<Rightarrow> unit web" where
  "markFeedRead h p = parseID p (\<lambda>i.
     tryW (storeTW h (\<lambda>wall cx. es_MarkAllRead wall cx uid (zero_filter\<lparr>fl_FeedID := Some i\<rparr>)))
       (\<lambda>e. http_Error (err_text e) 500) (\<lambda>n. hx_refresh))"

definition deleteFeed :: "handler \<Rightarrow> string \<Rightarrow> unit web" where
  "deleteFeed h p = parseID p (\<lambda>i.
     tryW (callW (fs_Delete (hd_ops h) (hd_env h) uid i)) (\<lambda>e. http_Error (err_text e) 500) (\<lambda>_. hx_refresh))"

definition toggleEntry :: "handler \<Rightarrow> request \<Rightarrow> string \<Rightarrow> bool \<Rightarrow> (ID \<Rightarrow> Entry \<Rightarrow> (gerr + unit) web) \<Rightarrow> unit web" where
  "toggleEntry h r p countOOB mutate = parseID p (\<lambda>i.
     tryW (storeW h (\<lambda>cx. es_Get cx uid i)) notFoundOr500 (\<lambda>e.
     bindW (mutate i e) (\<lambda>_.
     bindW (storeW h (\<lambda>cx. es_Get cx uid i)) (\<lambda>ur.
     let e = (case ur of Inl _ \<Rightarrow> e | Inr updated \<Rightarrow> updated) in
     bindW (singleFeedTitle h (e_FeedID e)) (\<lambda>feedTitle.
     bindW (toEntryVM h e feedTitle) (\<lambda>ev.
     bindW (ExecuteTemplate h ''entryrow'' ''entryrow'' (VEntry ev)) (\<lambda>failed.
     if failed \<or> \<not> countOOB then retW () else writeListCountOOB h (ReqHeader r ''Hx-Current-Url'')))))))) "

definition hx_home :: "unit web" where
  "hx_home = bindW (setHeader ''HX-Redirect'' ''/'') (\<lambda>_. WriteHeader 204)"

definition readerMarkUnread :: "handler \<Rightarrow> string \<Rightarrow> unit web" where
  "readerMarkUnread h p = parseID p (\<lambda>i.
     tryW (storeTW h (\<lambda>wall cx. es_MarkRead wall cx uid [i] False))
       (\<lambda>e. http_Error ''internal error'' 500) (\<lambda>_. hx_home))"

definition toggleRead :: "handler \<Rightarrow> request \<Rightarrow> string \<Rightarrow> unit web" where
  "toggleRead h r p =
     (if FormValue r ''from'' = ''reader'' then readerMarkUnread h p
      else toggleEntry h r p True (\<lambda>i cur.
        storeTW h (\<lambda>wall cx. es_MarkRead wall cx uid [i] (e_Status cur \<noteq> StatusRead))))"

definition readerToggleStar :: "handler \<Rightarrow> string \<Rightarrow> unit web" where
  "readerToggleStar h p = parseID p (\<lambda>i.
     tryW (storeW h (\<lambda>cx. es_Get cx uid i)) notFoundOr500 (\<lambda>e.
     bindW (storeW h (\<lambda>cx. es_Star cx uid [i] (\<not> e_Starred e))) (\<lambda>sr.
     let starred = (case sr of Inl _ \<Rightarrow> e_Starred e | Inr _ \<Rightarrow> \<not> e_Starred e) in
     bindW (toEntryVM h (e\<lparr>e_Starred := starred\<rparr>) []) (\<lambda>ev.
     execT h ''entry'' ''readerstar'' (VEntry ev)))))"

definition toggleStar :: "handler \<Rightarrow> request \<Rightarrow> string \<Rightarrow> unit web" where
  "toggleStar h r p =
     (if FormValue r ''from'' = ''reader'' then readerToggleStar h p
      else toggleEntry h r p False (\<lambda>i cur. storeW h (\<lambda>cx. es_Star cx uid [i] (\<not> e_Starred cur))))"

text \<open>An error other than \<open>ErrNotFound\<close>.\<close>

definition genuine :: "gerr + 'a \<Rightarrow> gerr option" where
  "genuine x = (case x of Inl e \<Rightarrow> if err_is SNotFound e then None else Some e | Inr _ \<Rightarrow> None)"

definition deleteEntry :: "handler \<Rightarrow> request \<Rightarrow> string \<Rightarrow> unit web" where
  "deleteEntry h r p = parseID p (\<lambda>i.
     bindW (storeTW h (\<lambda>wall cx. es_Delete wall cx uid i)) (\<lambda>dr.
     if genuine dr \<noteq> None then http_Error ''internal error'' 500
     else if FormValue r ''from'' = ''reader'' then hx_home
     else bindW html_type (\<lambda>_. writeListCountOOB h (ReqHeader r ''Hx-Current-Url''))))"

section \<open>Categories\<close>

definition renderCategoriesPage :: "handler \<Rightarrow> request \<Rightarrow> string \<Rightarrow> unit web" where
  "renderCategoriesPage h r errMsg =
     tryW (storeW h (\<lambda>cx. cs_List cx uid)) (\<lambda>e. http_Error (err_text e) 500) (\<lambda>cats.
     tryW (storeW h (\<lambda>cx. cs_UnreadCounts cx uid)) (\<lambda>e. http_Error (err_text e) 500) (\<lambda>(counts, uncat).
     execT h ''categories'' ''layout'' (VCategories \<lparr>cp_chrome = chromeFor r ''categories'',
       cp_Categories = map (\<lambda>c. \<lparr>cv_ID = c_ID c, cv_Title = c_Title c,
         cv_Unread = (case counts (c_ID c) of None \<Rightarrow> 0 | Some n \<Rightarrow> n)\<rparr>) cats,
       cp_Uncategorised = uncat, cp_Error = errMsg\<rparr>)))"

definition categoriesIndex :: "handler \<Rightarrow> request \<Rightarrow> unit web" where
  "categoriesIndex h r = renderCategoriesPage h r []"

definition categoryErrorMessage :: "gerr \<Rightarrow> string option" where
  "categoryErrorMessage e =
     (if err_is SConflict e then Some ''A category with that name already exists.''
      else if err_is SValidation e then Some (''Category name can'' @ [CHR 0x27] @ ''t be blank.'')
      else None)"

definition categoryEntries :: "handler \<Rightarrow> request \<Rightarrow> string \<Rightarrow> unit web" where
  "categoryEntries h r p = parseID p (\<lambda>i.
     tryW (storeW h (\<lambda>cx. cs_Get cx uid i)) notFoundOr500 (\<lambda>c.
     renderList h r (c_Title c) (''/categories/'' @ FormatInt i) (zero_filter\<lparr>fl_CategoryID := Some i\<rparr>)))"

definition uncategorisedEntries :: "handler \<Rightarrow> request \<Rightarrow> unit web" where
  "uncategorisedEntries h r =
     renderList h r ''Uncategorised'' ''/categories/none'' (zero_filter\<lparr>fl_Uncategorised := True\<rparr>)"

definition category_failed :: "handler \<Rightarrow> request \<Rightarrow> string \<Rightarrow> gerr \<Rightarrow> unit web" where
  "category_failed h r what e =
     (case categoryErrorMessage e of
        Some msg \<Rightarrow> renderCategoriesPage h r msg
      | None \<Rightarrow> http_Error (what @ err_text e) 500)"

definition createCategory :: "handler \<Rightarrow> request \<Rightarrow> unit web" where
  "createCategory h r =
     tryW (storeW h (\<lambda>cx. cs_Create cx uid (FormValue r ''title'')))
       (category_failed h r ''create category failed: '') (\<lambda>_. http_Redirect ''/categories'' 303)"

definition renameCategory :: "handler \<Rightarrow> request \<Rightarrow> string \<Rightarrow> unit web" where
  "renameCategory h r p = parseID p (\<lambda>i.
     tryW (storeW h (\<lambda>cx. cs_Rename cx uid i (FormValue r ''title'')))
       (category_failed h r ''rename failed: '') (\<lambda>_. http_Redirect ''/categories'' 303))"

definition deleteCategory :: "handler \<Rightarrow> string \<Rightarrow> unit web" where
  "deleteCategory h p = parseID p (\<lambda>i.
     bindW (storeW h (\<lambda>cx. cs_Delete cx uid i)) (\<lambda>dr.
     case genuine dr of Some e \<Rightarrow> http_Error (err_text e) 500 | None \<Rightarrow> hx_refresh))"

section \<open>Search and settings\<close>

definition search_header :: "string \<Rightarrow> int \<Rightarrow> string" where
  "search_header q n =
     (if 50 \<le> n then ''Search: '' @ q @ '' '' @ mdash @ '' top 50 matches (refine to narrow)''
      else if n = 1 then ''Search: '' @ q @ '' '' @ mdash @ '' 1 match''
      else ''Search: '' @ q @ '' '' @ mdash @ '' '' @ FormatInt n @ '' matches'')"

definition searchHandler :: "handler \<Rightarrow> request \<Rightarrow> unit web" where
  "searchHandler h r =
     (let q = TrimSpace (Get (Query r) ''q'');
          render = (\<lambda>hdr evs. execT h ''search'' ''layout'' (VSearch \<lparr>sv_chrome = chromeFor r ''search'', sv_Query = q,
            sv_Header = hdr, sv_Entries = evs, sv_NextCursor = []\<rparr>)) in
      if q = [] then render [] []
      else tryW (storeW h (\<lambda>cx. ss_Search (hd_wide h) (hd_fts h) cx uid q)) (\<lambda>e. http_Error (err_text e) 500) (\<lambda>entries.
        bindW (if entries \<noteq> [] then bindW (feedTitleMap h) (toEntryVMs h entries) else retW []) (\<lambda>evs.
        render (search_header q (int (length entries))) evs)))"

definition settings :: "handler \<Rightarrow> request \<Rightarrow> unit web" where
  "settings h r =
     (let c = chromeFor r ''settings'' in
      execT h ''settings'' ''layout'' (VSettings \<lparr>sp_chrome = c,
        sp_ThemeChoice = (if ch_Theme c = [] then ''system'' else ch_Theme c),
        sp_ThemeOpts = [(''system'', ''System''), (''light'', ''Light''), (''sepia'', ''Sepia''), (''dark'', ''Dark'')],
        sp_SummaryOpts = [(''show'', ''Show''), (''hide'', ''Hide'')],
        sp_WidthOpts = [(''comfortable'', ''Comfortable''), (''wide'', ''Wide'')]\<rparr>))"

definition saveSettings :: "request \<Rightarrow> unit web" where
  "saveSettings r =
     bindW (setPrefCookie ''bfeed_theme'' (allowedOr (FormValue r ''theme'') ''system'' prefThemes)) (\<lambda>_.
     bindW (setPrefCookie ''bfeed_summary'' (allowedOr (FormValue r ''summary'') ''show'' prefSummaries)) (\<lambda>_.
     bindW (setPrefCookie ''bfeed_width'' (allowedOr (FormValue r ''width'') ''comfortable'' prefWidths)) (\<lambda>_.
     http_Redirect ''/settings'' 303)))"

section \<open>\<open>opml.go\<close>\<close>

definition exportOPML :: "handler \<Rightarrow> unit web" where
  "exportOPML h =
     tryW (callW (fs_List (hd_ops h) (hd_env h) uid)) (\<lambda>e. http_Error ''internal error'' 500) (\<lambda>feeds.
     tryW (storeW h (\<lambda>cx. cs_List cx uid)) (\<lambda>e. http_Error ''internal error'' 500) (\<lambda>cats.
     case MarshalOPML (hd_marshal h) (hd_lib h) feeds cats of
       Inl e \<Rightarrow> http_Error ''internal error'' 500
     | Inr data \<Rightarrow>
         bindW (setHeader ''Content-Type'' ''text/x-opml; charset=utf-8'') (\<lambda>_.
         bindW (setHeader ''Content-Disposition''
           (''attachment; filename='' @ [CHR 0x22] @ ''bfeed-feeds.opml'' @ [CHR 0x22])) (\<lambda>_.
         write_part (Text data)))))"

end
