(* ===== verification/WebRoutes.thy ===== *)
theory WebRoutes
  imports WebHandlers ImgProxy
begin

text \<open>
  \<open>internal/web/web.go\<close> and \<open>assets.go\<close>: the routes, the middleware around them, static assets and
  readiness. The table of routes is the code's; matching a path against it is \<open>http.ServeMux\<close>, written
  out for the patterns of the table (a request whose path is not in clean form never gets this far:
  the mux redirects it). Compression and logging are not modelled.
\<close>

section \<open>The router's dependencies\<close>

text \<open>The image handler answers by the query of a request (\<open>ServeHTTP\<close> of \<open>ImgProxy\<close> is one); the file
  server gives status and body.\<close>

record router =
  rt_h :: handler
  rt_host :: string
  rt_img :: "(nat \<Rightarrow> string \<Rightarrow> img_reply) option"
  rt_static :: "string \<Rightarrow> int \<times> string"
  rt_ready :: "(nat \<Rightarrow> gerr option) option"
  rt_metrics :: bool

section \<open>Handlers of \<open>web.go\<close>\<close>

definition healthz :: "unit web" where "healthz = write_part (Text ''ok'')"

definition readyzHandler :: "(nat \<Rightarrow> gerr option) option \<Rightarrow> unit web" where
  "readyzHandler ready =
     (case ready of
        None \<Rightarrow> write_part (Text ''ok'')
      | Some probe \<Rightarrow> bindW (callW (askS probe)) (\<lambda>e.
          if e \<noteq> None then http_Error ''unready'' 503 else write_part (Text ''ok'')))"

definition cacheStatic :: "request \<Rightarrow> unit web \<Rightarrow> unit web" where
  "cacheStatic r next =
     bindW (setHeader ''Cache-Control''
       (if has_suffix (hq_Path r) ''.woff2'' then ''public, max-age=31536000, immutable''
        else if map_of (Query r) ''v'' \<noteq> None then ''public, max-age=31536000, immutable''
        else ''public, max-age=3600'')) (\<lambda>_. next)"

definition serve_static :: "router \<Rightarrow> request \<Rightarrow> unit web" where
  "serve_static rt r = cacheStatic r
     (case rt_static rt (hq_Path r) of (code, body) \<Rightarrow> bindW (WriteHeader code) (\<lambda>_. write_part (Text body)))"

definition panicW :: "string \<Rightarrow> 'a web" where "panicW p s = (Panic p, s)"

definition serve_img :: "(nat \<Rightarrow> string \<Rightarrow> img_reply) \<Rightarrow> request \<Rightarrow> unit web" where
  "serve_img img r =
     bindW (callW (askS (\<lambda>n. img n (hq_RawQuery r)))) (\<lambda>a.
     case a of
       ImgError code msg \<Rightarrow> http_Error msg code
     | Image hs body aborted \<Rightarrow>
         bindW (mapW (\<lambda>(k, v). setHeader k v) hs) (\<lambda>_.
         bindW (write_part (Text body)) (\<lambda>_.
         if aborted then panicW ''net/http: abort Handler'' else retW ())))"

section \<open>\<open>assets.go\<close>\<close>

definition computeAssetHashes :: "(string \<Rightarrow> string) \<Rightarrow> (string \<times> string) list \<Rightarrow> string \<Rightarrow> string option" where
  "computeAssetHashes sha256 files =
     map_of (map (\<lambda>(p, b). (trim_prefix p ''static/'', take 12 (hex_encode (sha256 b)))) files)"

definition assetURL :: "(string \<Rightarrow> string option) \<Rightarrow> string \<Rightarrow> string" where
  "assetURL hashes name =
     (case hashes name of Some hs \<Rightarrow> ''/static/'' @ name @ ''?v='' @ hs | None \<Rightarrow> ''/static/'' @ name)"

section \<open>The routes\<close>

record route =
  ro_Method :: string
  ro_Path :: string
  ro_Run :: "request \<Rightarrow> string \<Rightarrow> unit web"

definition GET :: "string \<Rightarrow> (request \<Rightarrow> string \<Rightarrow> unit web) \<Rightarrow> route" where
  "GET p f = \<lparr>ro_Method = ''GET'', ro_Path = p, ro_Run = f\<rparr>"
definition POST :: "string \<Rightarrow> (request \<Rightarrow> string \<Rightarrow> unit web) \<Rightarrow> route" where
  "POST p f = \<lparr>ro_Method = ''POST'', ro_Path = p, ro_Run = f\<rparr>"

definition read_routes :: "router \<Rightarrow> route list" where
  "read_routes rt = (let h = rt_h rt in
     [GET ''/static/'' (\<lambda>r i. serve_static rt r)]
     @ (case rt_img rt of None \<Rightarrow> [] | Some img \<Rightarrow> [GET ''/img'' (\<lambda>r i. serve_img img r)])
     @ [GET ''/healthz'' (\<lambda>r i. healthz),
        GET ''/readyz'' (\<lambda>r i. readyzHandler (rt_ready rt)),
        GET ''/{$}'' (\<lambda>r i. unread h r),
        GET ''/feeds'' (\<lambda>r i. listFeeds h r),
        GET ''/feeds/export'' (\<lambda>r i. exportOPML h),
        GET ''/feeds/{id}'' (\<lambda>r i. feedEntries h r i),
        GET ''/feeds/{id}/row'' (\<lambda>r i. feedRow h i),
        GET ''/starred'' (\<lambda>r i. starred h r),
        GET ''/history'' (\<lambda>r i. history h r),
        GET ''/categories'' (\<lambda>r i. categoriesIndex h r),
        GET ''/categories/none'' (\<lambda>r i. uncategorisedEntries h r),
        GET ''/categories/{id}'' (\<lambda>r i. categoryEntries h r i),
        GET ''/feeds/{id}/edit'' (\<lambda>r i. feedEditForm h i),
        GET ''/search'' (\<lambda>r i. searchHandler h r),
        GET ''/settings'' (\<lambda>r i. settings h r)])"

definition entry_route :: "router \<Rightarrow> route" where
  "entry_route rt = GET ''/entries/{id}'' (\<lambda>r i. entry (rt_h rt) r i)"

definition write_routes :: "router \<Rightarrow> route list" where
  "write_routes rt = (let h = rt_h rt in
     [POST ''/feeds'' (\<lambda>r i. subscribe h r),
      POST ''/feeds/{id}/refresh'' (\<lambda>r i. refresh h i),
      POST ''/feeds/{id}/mark-read'' (\<lambda>r i. markFeedRead h i),
      POST ''/feeds/{id}/delete'' (\<lambda>r i. deleteFeed h i),
      POST ''/feeds/{id}'' (\<lambda>r i. editFeed h r i),
      POST ''/categories'' (\<lambda>r i. createCategory h r),
      POST ''/categories/{id}/rename'' (\<lambda>r i. renameCategory h r i),
      POST ''/categories/{id}/delete'' (\<lambda>r i. deleteCategory h i),
      POST ''/entries/{id}/read'' (\<lambda>r i. toggleRead h r i),
      POST ''/entries/{id}/star'' (\<lambda>r i. toggleStar h r i),
      POST ''/entries/{id}/delete'' (\<lambda>r i. deleteEntry h r i),
      POST ''/settings'' (\<lambda>r i. saveSettings r)])"

definition routes :: "router \<Rightarrow> route list" where
  "routes rt = read_routes rt @ [entry_route rt] @ write_routes rt"

section \<open>\<open>http.ServeMux\<close> on these patterns\<close>

fun split_slash :: "string \<Rightarrow> string list" where
  "split_slash [] = [[]]"
| "split_slash (c # s) =
     (if c = CHR ''/'' then [] # split_slash s
      else case split_slash s of t # ts \<Rightarrow> (c # t) # ts | [] \<Rightarrow> [[c]])"

definition segments :: "string \<Rightarrow> string list" where "segments p = split_slash (tl p)"

text \<open>A final empty segment of a pattern matches the rest of a path, \<open>{$}\<close> its end, \<open>{id}\<close> one segment,
  which is the result.\<close>

fun path_match :: "string list \<Rightarrow> string list \<Rightarrow> string option" where
  "path_match [] [] = Some []"
| "path_match (p # ps) (s # ss) =
     (if p = [] \<and> ps = [] then Some []
      else if p = ''{$}'' then (if s = [] \<and> ss = [] then Some [] else None)
      else if p = ''{id}'' then (if s = [] then None else map_option (\<lambda>_. s) (path_match ps ss))
      else if p = s then path_match ps ss else None)"
| "path_match _ _ = None"

definition route_match :: "string \<Rightarrow> route \<Rightarrow> string option" where
  "route_match path ro = path_match (segments (ro_Path ro)) (segments path)"

definition method_ok :: "string \<Rightarrow> route \<Rightarrow> bool" where
  "method_ok m ro \<longleftrightarrow> m = ro_Method ro \<or> m = ''HEAD'' \<and> ro_Method ro = ''GET''"

text \<open>In the table a pattern stands before the less specific ones, so the first match is the mux's.\<close>

definition find_route :: "router \<Rightarrow> request \<Rightarrow> route option" where
  "find_route rt r = find (\<lambda>ro. method_ok (hq_Method r) ro \<and> route_match (hq_Path r) ro \<noteq> None) (routes rt)"

definition allowed_methods :: "router \<Rightarrow> request \<Rightarrow> string list" where
  "allowed_methods rt r =
     (let ms = map ro_Method (filter (\<lambda>ro. route_match (hq_Path r) ro \<noteq> None) (routes rt))
      in filter (\<lambda>m. m \<in> set ms \<or> m = ''HEAD'' \<and> ''GET'' \<in> set ms) [''GET'', ''HEAD'', ''POST''])"

definition mux :: "router \<Rightarrow> request \<Rightarrow> unit web" where
  "mux rt r =
     (case find_route rt r of
        Some ro \<Rightarrow> ro_Run ro r (case route_match (hq_Path r) ro of Some i \<Rightarrow> i | None \<Rightarrow> [])
      | None \<Rightarrow>
          (let ms = allowed_methods rt r in
           if ms \<noteq> [] then bindW (setHeader ''Allow'' (join_with '', '' ms)) (\<lambda>_. http_Error ''Method Not Allowed'' 405)
           else http_NotFound))"

definition pattern_of :: "router \<Rightarrow> request \<Rightarrow> string" where
  "pattern_of rt r = (case find_route rt r of None \<Rightarrow> [] | Some ro \<Rightarrow> ro_Method ro @ '' '' @ ro_Path ro)"

section \<open>Middleware\<close>

definition httpMethods :: "string list" where
  "httpMethods = [''GET'', ''POST'', ''HEAD'', ''PUT'', ''DELETE'', ''OPTIONS'', ''PATCH'']"

definition methodLabel :: "string \<Rightarrow> string" where
  "methodLabel m = (if m \<in> set httpMethods then m else ''other'')"

text \<open>What \<open>statusRecorder\<close> has at the end.\<close>

definition recorded_status :: "web_state \<Rightarrow> int" where
  "recorded_status s = (case wb_status s of None \<Rightarrow> 200 | Some c \<Rightarrow> c)"

definition instrument :: "router \<Rightarrow> request \<Rightarrow> unit web \<Rightarrow> unit web" where
  "instrument rt r next =
     bindW (nowW (rt_h rt)) (\<lambda>start.
     bindW next (\<lambda>_.
     let route = (if pattern_of rt r = [] then ''unmatched'' else pattern_of rt r) in
     bindW (\<lambda>s. (Ret (recorded_status s), s)) (\<lambda>status.
     bindW (nowW (rt_h rt)) (\<lambda>fin.
     (\<lambda>s. (Ret (), s\<lparr>wb_metrics := wb_metrics s @ [(route, methodLabel (hq_Method r), status, time_sub fin start)]\<rparr>))))))"

definition noStore :: "unit web \<Rightarrow> unit web" where
  "noStore next = bindW (setHeader ''Cache-Control'' ''no-store'') (\<lambda>_. next)"

definition contentSecurityPolicy :: string where
  "contentSecurityPolicy = ''default-src 'self'; img-src 'self' http: https: data:; script-src 'self'; '' @
     ''style-src 'self'; object-src 'none'; base-uri 'none'; frame-ancestors 'none'; form-action 'self'' @ [CHR 0x27]"

definition securityHeaders :: "unit web \<Rightarrow> unit web" where
  "securityHeaders next =
     bindW (setHeader ''Content-Security-Policy'' contentSecurityPolicy) (\<lambda>_.
     bindW (setHeader ''X-Content-Type-Options'' ''nosniff'') (\<lambda>_.
     bindW (setHeader ''X-Frame-Options'' ''DENY'') (\<lambda>_.
     bindW (setHeader ''Referrer-Policy'' ''no-referrer'') (\<lambda>_. next))))"

text \<open>\<open>net.SplitHostPort\<close>; \<open>None\<close>: an error.\<close>

definition net_SplitHostPort :: "string \<Rightarrow> (string \<times> string) option" where
  "net_SplitHostPort hp =
     (case cut_last_colon hp of
        None \<Rightarrow> None
      | Some (h, p) \<Rightarrow>
          if has_prefix hp ''['' then
            (if has_suffix h '']'' \<and> CHR '']'' \<notin> set (butlast h) \<and> CHR ''['' \<notin> set (tl hp) \<and> CHR '']'' \<notin> set p
             then Some (tl (butlast h), tl p) else None)
          else if CHR '':'' \<in> set h \<or> CHR ''['' \<in> set hp \<or> CHR '']'' \<in> set hp then None
          else Some (h, tl p))"

definition net_JoinHostPort :: "string \<Rightarrow> string \<Rightarrow> string" where
  "net_JoinHostPort host port =
     (if CHR '':'' \<in> set host then ''['' @ host @ '']:'' @ port else host @ '':'' @ port)"

definition normalizeAuthority :: "url_lib \<Rightarrow> string \<Rightarrow> string" where
  "normalizeAuthority lib hostport =
     (let hostport = ToLower (ul_lower lib) hostport in
      case net_SplitHostPort hostport of
        None \<Rightarrow> hostport
      | Some (host, port) \<Rightarrow> if port = ''80'' \<or> port = ''443'' then host else net_JoinHostPort host port)"

definition hostGuard :: "router \<Rightarrow> request \<Rightarrow> unit web \<Rightarrow> unit web" where
  "hostGuard rt r next =
     (let lib = hd_lib (rt_h rt) in
      if rt_host rt \<noteq> [] \<and> hq_Path r \<noteq> ''/healthz'' \<and> hq_Path r \<noteq> ''/readyz''
         \<and> normalizeAuthority lib (hq_Host r) \<noteq> normalizeAuthority lib (rt_host rt)
      then http_Error ''misdirected request'' 421 else next)"

text \<open>The chain of \<open>New\<close>, and a request served with a fresh response.\<close>

definition handle :: "router \<Rightarrow> request \<Rightarrow> unit web" where
  "handle rt r =
     hostGuard rt r (securityHeaders (noStore (if rt_metrics rt then instrument rt r (mux rt r) else mux rt r)))"

definition fresh_response :: "web_state \<Rightarrow> web_state" where
  "fresh_response s = s\<lparr>wb_status := None, wb_header := [], wb_body := []\<rparr>"

definition serve :: "router \<Rightarrow> request \<Rightarrow> web_state \<Rightarrow> web_state" where
  "serve rt r s = snd (handle rt r (fresh_response s))"

section \<open>The running server\<close>

text \<open>Requests, background operations and, once \<open>bgOps\<close> is down to zero, the return of \<open>Drain\<close>.
  A background operation runs at any time after its start.\<close>

datatype sys_event = Request request | Background bg_op | Drained

inductive sys_step :: "router \<Rightarrow> web_state \<Rightarrow> sys_event \<Rightarrow> web_state \<Rightarrow> bool" for rt where
  request: "sys_step rt s (Request r) (serve rt r s)"
| background: "b \<in> set (wb_jobs s) \<Longrightarrow> sys_step rt s (Background b) (run_background (rt_h rt) b s)"
| drained: "wb_jobs s = [] \<Longrightarrow> sys_step rt s Drained s"

inductive_cases sys_stepE: "sys_step rt s e t"

inductive sys_run :: "router \<Rightarrow> web_state \<Rightarrow> web_state \<Rightarrow> bool" for rt where
  start: "sys_run rt s s"
| step: "sys_run rt s t \<Longrightarrow> sys_step rt t e u \<Longrightarrow> sys_run rt s u"

end
