(* ===== verification/WebFrame.thy ===== *)
theory WebFrame
  imports WebRoutes KeptContract
begin

text \<open>
  What a handler leaves alone. A frame is a preorder on states of the server that contains every change
  of the response, of the clock and of faults used up; the handlers that only read stay in every frame
  (proved once in the locale), the others in those that allow what they write.
\<close>

section \<open>Operations of the store that only read\<close>

definition read_op :: "'a op \<Rightarrow> bool" where
  "read_op m \<longleftrightarrow> (\<forall>c. cn_db (snd (m c)) = cn_db c \<and> cn_saved (snd (m c)) = cn_saved c) \<and> shrinks m"

named_theorems read_intros \<open>operations that only read\<close>

lemma read_prims [read_intros]: "read_op (returnE a)" "read_op (throwE e)"
  by (auto simp: read_op_def returnE_def throwE_def shrinks_def)

lemma read_exec [read_intros]: "reads s \<Longrightarrow> read_op (exec cx s)"
  using conn_exec(1) [of cx s]
  by (auto simp: read_op_def exec_def Let_def reads_def split: option.split list.split prod.split) (metis snd_conv)+

lemma read_mapped [read_intros]: "read_op m \<Longrightarrow> read_op (mapped m)"
  using conn_mapped(1) [of m] by (auto simp: read_op_def mapped_def split: prod.split) (metis snd_conv)+

lemma read_bindE [read_intros]: "read_op m \<Longrightarrow> (\<And>a. read_op (k a)) \<Longrightarrow> read_op (bindE m k)"
  using shrinks_bindE [of m k] unfolding read_op_def bindE_def
  by (auto split: prod.split sum.split) (metis snd_conv)+

lemma reads_list_entries [simp]: "reads (sql_list_entries u f)"
  by (simp add: reads_def sql_list_entries_def)

lemma reads_search [simp]: "reads (sql_search fts u mt)"
  by (simp add: reads_def sql_search_def split: sum.split)

lemma read_ops [read_intros]:
  "read_op (GetFeed cx u k)" "read_op (ListFeeds cx u)" "read_op (fs_EntryStats cx u)" "read_op (fs_UnreadCount cx u)"
  "read_op (fs_FeedStats cx u k)" "read_op (cs_List cx u)" "read_op (cs_Get cx u k)" "read_op (cs_UnreadCounts cx u)"
  unfolding GetFeed_def ListFeeds_def fs_EntryStats_def EntryStatsByFeed_def fs_UnreadCount_def UnreadCount_def
    fs_FeedStats_def FeedEntryStatsByID_def cs_List_def ListCategories_def cs_Get_def GetCategory_def
    cs_UnreadCounts_def UnreadCountsByCategory_def
  by (intro read_intros sql_reads; simp split: prod.split add: read_intros)+

lemma read_entry_ops [read_intros]:
  "read_op (es_List cx u f)" "read_op (es_Get cx u i)" "read_op (ss_Search wide fts cx u q)"
  unfolding es_List_def ListEntries_def es_Get_def GetEntry_def ss_Search_def Search_def Let_def
  by (auto intro!: read_intros sql_reads)

section \<open>Frames\<close>

definition same_core :: "web_state \<Rightarrow> web_state \<Rightarrow> bool" where
  "same_core s t \<longleftrightarrow> wb_db t = wb_db s \<and> cn_saved (wb_conn t) = cn_saved (wb_conn s)
     \<and> set (cn_faults (wb_conn t)) \<subseteq> set (cn_faults (wb_conn s)) \<and> wb_busy t = wb_busy s \<and> wb_jobs t = wb_jobs s"

named_theorems web \<open>handlers that stay in a frame\<close>

locale web_frame =
  fixes R :: "web_state \<Rightarrow> web_state \<Rightarrow> bool"
  assumes core: "same_core s t \<Longrightarrow> R s t"
    and R_trans: "R s t \<Longrightarrow> R t u \<Longrightarrow> R s u"
begin

definition framed :: "'a web \<Rightarrow> bool" where "framed m \<longleftrightarrow> (\<forall>s. R s (snd (m s)))"

lemma framedI: "(\<And>s. same_core s (snd (m s))) \<Longrightarrow> framed m"
  by (simp add: framed_def core)

lemma framed_bindW [web]: "framed m \<Longrightarrow> (\<And>a. framed (k a)) \<Longrightarrow> framed (bindW m k)"
  unfolding framed_def bindW_def
  by (auto split: prod.split outcome.split) (metis R_trans snd_conv)+

lemma framed_prims [web]:
  "framed (retW a)" "framed (WriteHeader c)" "framed (write_part p)" "framed (setHeader k v)" "framed (addHeader k v)"
  "framed (inflight_has i)" "framed (panicW x)" "framed (\<lambda>s. (Ret (recorded_status s), s))"
  "framed (\<lambda>s. (Ret (), s\<lparr>wb_metrics := ms s\<rparr>))"
  by (rule framedI; simp add: same_core_def retW_def WriteHeader_def write_part_def setHeader_def addHeader_def
      inflight_has_def panicW_def)+

lemma framed_tryW [web]: "framed m \<Longrightarrow> (\<And>e. framed (h e)) \<Longrightarrow> (\<And>a. framed (k a)) \<Longrightarrow> framed (tryW m h k)"
  unfolding tryW_def by (intro framed_bindW) (auto split: sum.split)

lemma framed_if [web]: "(b \<Longrightarrow> framed m) \<Longrightarrow> (\<not> b \<Longrightarrow> framed n) \<Longrightarrow> framed (if b then m else n)"
  by simp

lemma framed_option [web]: "framed n \<Longrightarrow> (\<And>x. framed (f x)) \<Longrightarrow> framed (case v of None \<Rightarrow> n | Some x \<Rightarrow> f x)"
  by (simp split: option.split)

lemma framed_sum [web]: "(\<And>x. framed (f x)) \<Longrightarrow> (\<And>x. framed (g x)) \<Longrightarrow> framed (case v of Inl x \<Rightarrow> f x | Inr x \<Rightarrow> g x)"
  by (simp split: sum.split)

lemma framed_pair [web]: "(\<And>a b. framed (f a b)) \<Longrightarrow> framed (case v of (a, b) \<Rightarrow> f a b)"
  by (simp split: prod.split)

lemma framed_mapW [web]: "(\<And>x. framed (f x)) \<Longrightarrow> framed (mapW f xs)"
  by (induction xs) (auto intro: web)

lemma framed_ask [web]: "framed (callW (askS q))"
  by (rule framedI) (simp add: same_core_def callW_def askS_def)

lemma framed_now [web]: "framed (nowW h)"
  unfolding nowW_def clk_Now_def by (rule framed_ask)

lemma storeW_run: "storeW h m s = (case m (en_ctx (hd_env h) (w_step (wb_world s))) (wb_conn s) of
    (r, c) \<Rightarrow> (Ret r, s\<lparr>wb_world := (wb_world s)\<lparr>w_step := Suc (w_step (wb_world s)), w_store := c\<rparr>\<rparr>))"
  by (simp add: storeW_def callW_def storeC_def ctx_Err_def askS_def bindS_def storeS_def split: prod.split)

lemma framed_storeW [web]: "(\<And>cx. read_op (m cx)) \<Longrightarrow> framed (storeW h m)"
proof (rule framedI)
  fix s :: web_state
  assume m: "\<And>cx. read_op (m cx)"
  let ?cx = "en_ctx (hd_env h) (w_step (wb_world s))"
  obtain r c where r: "m ?cx (wb_conn s) = (r, c)" by fastforce
  from m [of ?cx] have "cn_db (snd (m ?cx (wb_conn s))) = wb_db s"
    "cn_saved (snd (m ?cx (wb_conn s))) = cn_saved (wb_conn s)"
    "set (cn_faults (snd (m ?cx (wb_conn s)))) \<subseteq> set (cn_faults (wb_conn s))"
    unfolding read_op_def shrinks_def by blast+
  then show "same_core s (snd (storeW h m s))" by (simp add: storeW_run r same_core_def)
qed

lemma framed_feeds [web]:
  "framed (callW (fs_Get (hd_ops h) (hd_env h) u i))" "framed (callW (fs_List (hd_ops h) (hd_env h) u))"
  unfolding fs_Get_def fs_List_def storeW_def [symmetric] sqlite_ops_simps so_ListFeeds
  by (intro web read_intros)+

section \<open>Shared pieces\<close>

lemma framed_shared [web]:
  "framed (http_Error msg code)" "framed http_NotFound" "framed (http_Redirect url code)" "framed html_type"
  "framed hx_refresh" "framed hx_home" "framed (notFoundOr500 e)" "framed (ExecuteTemplate h t n v)" "framed (execT h t n v)"
  unfolding http_Error_def http_NotFound_def http_Redirect_def html_type_def hx_refresh_def hx_home_def notFoundOr500_def
    execT_def ExecuteTemplate_def
  by (intro web)+

lemma framed_parseID [web]: "(\<And>i. framed (k i)) \<Longrightarrow> framed (parseID p k)"
  unfolding parseID_def by (intro web)

lemma framed_parts [web]:
  "framed (feedTitleMap h)" "framed (singleFeedTitle h i)" "framed (toEntryVM h e x)" "framed (toEntryVMs h es titles)"
  "framed (headerCount h f)" "framed (writeListCountOOB h cu)" "framed (buildFeedRow h fd st now)" "framed (catOptions h sel)"
  unfolding feedTitleMap_def singleFeedTitle_def toEntryVMs_def toEntryVM_def headerCount_def writeListCountOOB_def
    buildFeedRow_def catOptions_def
  by (intro web read_intros)+

lemma framed_rows [web]:
  "framed (buildEditRow h i)" "framed (writeFeedRow h row)" "framed (writeGroupHeadOOB h f stats b)" "framed (renderFeedRow h i)"
  unfolding buildEditRow_def writeFeedRow_def writeGroupHeadOOB_def renderFeedRow_def Let_def
  by (intro web read_intros)+

lemma framed_renderList [web]: "framed (renderList h r title path f)"
  unfolding renderList_def Let_def by (intro web read_intros)

lemma framed_renderCategoriesPage [web]: "framed (renderCategoriesPage h r msg)"
  unfolding renderCategoriesPage_def by (intro web read_intros)

lemma framed_errors [web]:
  "framed (renderSubscribeError h msg)" "framed (renderEditError h i e)" "framed (category_failed h r what e)"
  unfolding renderSubscribeError_def renderEditError_def category_failed_def by (intro web)+

lemma framed_serve_img [web]: "framed (serve_img img r)"
  unfolding serve_img_def by (intro web) (auto split: img_reply.split intro!: web)

section \<open>The routes that read\<close>

lemma read_route_framed: "ro \<in> set (read_routes rt) \<Longrightarrow> framed (ro_Run ro r i)"
  unfolding read_routes_def Let_def
  by (auto simp: GET_def serve_static_def cacheStatic_def healthz_def readyzHandler_def unread_def listFeeds_def
      exportOPML_def feedEntries_def feedRow_def starred_def history_def categoriesIndex_def uncategorisedEntries_def
      categoryEntries_def feedEditForm_def searchHandler_def settings_def Let_def
      split: option.splits intro!: web read_intros)

lemma framed_middleware:
  "framed (mux rt r) \<Longrightarrow> framed (handle rt r)"
  unfolding handle_def hostGuard_def securityHeaders_def noStore_def instrument_def Let_def
  by (intro web)

lemma framed_mux:
  assumes "\<And>ro i. find_route rt r = Some ro \<Longrightarrow> framed (ro_Run ro r i)"
  shows "framed (mux rt r)"
  unfolding mux_def Let_def using assms by (cases "find_route rt r") (auto intro!: web)

lemma fresh_core: "same_core s (fresh_response s)"
  by (simp add: same_core_def fresh_response_def)

lemma serve_framed: "framed (mux rt r) \<Longrightarrow> R s (serve rt r s)"
  unfolding serve_def by (metis R_trans core fresh_core framed_def framed_middleware)

end

end
