(* ===== verification/WebProps.thy ===== *)
theory WebProps
  imports WebFrame
begin

text \<open>
  Properties of the web layer on the SQLite store: which requests change nothing, the invariant of the
  running server, the host check, and what the answers to mutations promise.
\<close>

section \<open>Requests that read\<close>

definition same_data :: "web_state \<Rightarrow> web_state \<Rightarrow> bool" where
  "same_data s t \<longleftrightarrow> wb_db t = wb_db s \<and> wb_busy t = wb_busy s \<and> wb_jobs t = wb_jobs s"

interpretation quiet: web_frame same_data
  by unfold_locales (auto simp: same_core_def same_data_def)

lemma find_route_in: "find_route rt r = Some ro \<Longrightarrow> ro \<in> set (routes rt) \<and> method_ok (hq_Method r) ro \<and> route_match (hq_Path r) ro \<noteq> None"
  unfolding find_route_def by (auto dest: find_SomeD)

lemma write_routes_POST: "ro \<in> set (write_routes rt) \<Longrightarrow> ro_Method ro = ''POST''"
  by (auto simp: write_routes_def Let_def POST_def)

lemma path_match_two: "path_match [a, b] ss \<noteq> None \<Longrightarrow> a \<noteq> [] \<Longrightarrow> a \<noteq> ''{$}'' \<Longrightarrow> a \<noteq> ''{id}'' \<Longrightarrow> b \<noteq> [] \<Longrightarrow> \<exists>i. ss = [a, i]"
  by (cases ss; cases "tl ss"; cases "tl (tl ss)") (auto split: if_splits)

lemma entry_route_path: "route_match path (entry_route rt) \<noteq> None \<Longrightarrow> \<exists>i. segments path = [''entries'', i]"
  unfolding route_match_def entry_route_def GET_def
  using path_match_two [of "''entries''" "''{id}''" "segments path"] by (simp add: segments_def)

text \<open>C27. A request with \<open>GET\<close> or \<open>HEAD\<close> changes nothing unless it opens an entry: whatever the path, the
  query, the headers and the environment, the database, the set of feeds in flight and the started
  background operations are as before. So a crawler, a prefetch or a reload is harmless.\<close>

theorem get_changes_nothing:
  assumes "hq_Method r \<in> {''GET'', ''HEAD''}" and "\<And>i. segments (hq_Path r) \<noteq> [''entries'', i]"
  shows "same_data s (serve rt r s)"
proof (rule quiet.serve_framed, rule quiet.framed_mux)
  fix ro i
  assume "find_route rt r = Some ro"
  note ro = find_route_in [OF this]
  then have "ro \<in> set (read_routes rt)"
    using assms write_routes_POST [of ro rt] entry_route_path [of "hq_Path r" rt] by (auto simp: routes_def method_ok_def)
  then show "quiet.framed (ro_Run ro r i)" by (rule quiet.read_route_framed)
qed

section \<open>The running server\<close>

definition sys_inv :: "web_state \<Rightarrow> bool" where
  "sys_inv s \<longleftrightarrow> conn_good (wb_conn s) \<and> wb_busy s = bg_id ` set (wb_jobs s) \<and> distinct (map bg_id (wb_jobs s))"

definition keeps_sys :: "web_state \<Rightarrow> web_state \<Rightarrow> bool" where
  "keeps_sys s t \<longleftrightarrow> (sys_inv s \<longrightarrow> sys_inv t)"

lemma same_core_good: "same_core s t \<Longrightarrow> conn_good (wb_conn s) \<Longrightarrow> conn_good (wb_conn t)"
  by (auto simp: same_core_def conn_good_def faults_ok_def)

interpretation sys: web_frame keeps_sys
  by unfold_locales (auto simp: keeps_sys_def sys_inv_def same_core_good, simp_all add: same_core_def)

lemma sys_callW: "holds good.same_inv m \<Longrightarrow> sys.framed (callW m)"
proof -
  assume m: "holds good.same_inv m"
  show ?thesis
    unfolding sys.framed_def keeps_sys_def
  proof (intro allI impI)
    fix s
    assume s: "sys_inv s"
    obtain x w where x: "m (wb_world s) = (x, w)" by (cases "m (wb_world s)")
    have "conn_good (w_store w)" using good.same_invD [OF m, of "wb_world s"] s x by (simp add: sys_inv_def)
    then show "sys_inv (snd (callW m s))" using s x by (simp add: callW_def sys_inv_def)
  qed
qed

lemma sys_storeW: "(\<And>cx c. conn_good c \<Longrightarrow> conn_good (snd (m cx c))) \<Longrightarrow> sys.framed (storeW h m)"
  unfolding storeW_def by (intro sys_callW good.kept_call)

lemma sys_storeTW: "(\<And>wall cx c. conn_good c \<Longrightarrow> conn_good (snd (m wall cx c))) \<Longrightarrow> sys.framed (storeTW h m)"
  unfolding storeTW_def by (intro sys.framed_bindW sys.framed_now sys_storeW)

lemma sys_startBackground: "sys.framed (startBackground b)"
  by (auto simp: sys.framed_def keeps_sys_def sys_inv_def startBackground_def bindW_def inflight_start_def retW_def)

lemma services_good:
  "conn_good c \<Longrightarrow> conn_good (snd (es_MarkRead wall cx u is b c))" "conn_good c \<Longrightarrow> conn_good (snd (es_Star cx u is b c))"
  "conn_good c \<Longrightarrow> conn_good (snd (es_MarkAllRead wall cx u f c))" "conn_good c \<Longrightarrow> conn_good (snd (es_Delete wall cx u i c))"
  "conn_good c \<Longrightarrow> conn_good (snd (cs_Create cx u t c))" "conn_good c \<Longrightarrow> conn_good (snd (cs_Rename cx u i t c))"
  "conn_good c \<Longrightarrow> conn_good (snd (cs_Delete cx u i c))"
  unfolding es_MarkRead_def es_Star_def es_MarkAllRead_def es_Delete_def cs_Create_def cs_Rename_def cs_Delete_def Let_def
  by (rule conn_good_op DeleteEntry_good; (assumption | rule op_keeps_inv entry_ops_conn category_ops_conn | auto intro!: wf_intros
      conn_intros op_keeps_inv category_ops_conn)+)+

lemma write_calls:
  "sys.framed (storeTW h (\<lambda>wall cx. es_MarkRead wall cx uid is b))" "sys.framed (storeTW h (\<lambda>wall cx. es_MarkAllRead wall cx uid f))"
  "sys.framed (storeTW h (\<lambda>wall cx. es_Delete wall cx uid i))" "sys.framed (storeW h (\<lambda>cx. es_Star cx uid is b))"
  "sys.framed (storeW h (\<lambda>cx. cs_Create cx uid t))" "sys.framed (storeW h (\<lambda>cx. cs_Rename cx uid i t))"
  "sys.framed (storeW h (\<lambda>cx. cs_Delete cx uid i))"
  "sys.framed (callW (CreateSubscription (hd_ops h) (hd_env h) (hd_cfg h) uid u cat full))"
  "sys.framed (callW (EditFeed (hd_ops h) (hd_env h) uid i inp))" "sys.framed (callW (fs_Delete (hd_ops h) (hd_env h) uid i))"
  by (rule sys_storeTW sys_storeW sys_callW; rule services_good good.CreateSubscription_same good.EditFeed_same good.fs_same; assumption?)+

lemma toggle_framed:
  "(\<And>i e. sys.framed (m i e)) \<Longrightarrow> sys.framed (toggleEntry h r p b m)"
  unfolding toggleEntry_def Let_def by (intro web read_intros)

lemmas sys_intros = write_calls sys_startBackground toggle_framed

lemma write_route_framed: "ro \<in> set (write_routes rt) \<Longrightarrow> sys.framed (ro_Run ro r i)"
  unfolding write_routes_def Let_def
  by (auto simp: POST_def subscribe_def refresh_def startRefresh_def markFeedRead_def deleteFeed_def editFeed_def
      createCategory_def renameCategory_def deleteCategory_def toggleRead_def toggleStar_def readerMarkUnread_def
      readerToggleStar_def deleteEntry_def saveSettings_def setPrefCookie_def Let_def
      intro!: web read_intros sys_intros)

lemma entry_route_framed: "sys.framed (ro_Run (entry_route rt) r i)"
  unfolding entry_route_def GET_def route.select_convs entry_def Let_def by (intro web read_intros sys_intros)

lemma serve_sys: "sys_inv s \<Longrightarrow> sys_inv (serve rt r s)"
proof -
  have "keeps_sys s (serve rt r s)"
  proof (rule sys.serve_framed, rule sys.framed_mux)
    fix ro i
    assume "find_route rt r = Some ro"
    from find_route_in [OF this] show "sys.framed (ro_Run ro r i)"
      by (auto simp: routes_def intro: sys.read_route_framed write_route_framed entry_route_framed)
  qed
  then show "sys_inv s \<Longrightarrow> sys_inv (serve rt r s)" by (simp add: keeps_sys_def)
qed

lemma bg_call_same: "holds good.same_inv (bg_call h b)"
  unfolding bg_call_def
  by (cases b) (auto intro!: holds_bindS good.kept_setFeedS good.ResolveAndIngest_same good.Refresh_same)

lemma remove1_keys: "distinct (map f xs) \<Longrightarrow> x \<in> set xs \<Longrightarrow> f ` set (remove1 x xs) = f ` set xs - {f x}"
  by (induction xs) (auto simp: image_iff)

lemma remove1_distinct: "distinct (map f xs) \<Longrightarrow> distinct (map f (remove1 x xs))"
  by (induction xs) (auto dest: subsetD [OF set_remove1_subset])

lemma background_sys:
  assumes "sys_inv s" and "b \<in> set (wb_jobs s)"
  shows "sys_inv (run_background h b s)"
proof -
  obtain x w where x: "bg_call h b (wb_world s) = (x, w)" by (cases "bg_call h b (wb_world s)")
  have "conn_good (w_store w)"
    using good.same_invD [OF bg_call_same, of "wb_world s" h b] assms(1) x by (simp add: sys_inv_def)
  then show ?thesis
    using assms x remove1_keys [of bg_id "wb_jobs s" b]
    by (simp add: run_background_def callW_def inflight_done_def sys_inv_def remove1_distinct)
qed

lemma sys_run_inv: "sys_run rt s t \<Longrightarrow> sys_inv s \<Longrightarrow> sys_inv t"
proof (induction rule: sys_run.induct)
  case (step s t e u)
  from step.hyps(2) show ?case
    using step.IH [OF step.prems] by (cases rule: sys_stepE) (auto intro: serve_sys background_sys)
qed

text \<open>C9. The server as a whole keeps its invariant: from a state in order without background operations, any
  sequence of requests and background operations, with any environment, any network and any faults of
  the driver, leads to a database that satisfies the store's invariant and has no open transaction, and
  the feeds shown as in flight are exactly those with a background operation, of which no feed has two.
  So \<open>Drain\<close> returns only when no feed is in flight.\<close>

theorem server_invariant:
  assumes "sys_run rt s t" and "conn_good (wb_conn s)" and "wb_busy s = {}" and "wb_jobs s = []"
  shows "store_inv (wb_db t) \<and> cn_saved (wb_conn t) = None
    \<and> wb_busy t = bg_id ` set (wb_jobs t) \<and> distinct (map bg_id (wb_jobs t))"
  using sys_run_inv [OF assms(1)] assms(2-4) by (simp add: sys_inv_def conn_good_def)

section \<open>The host check\<close>

text \<open>A plain host name, lower case.\<close>

definition host_name :: "url_lib \<Rightarrow> string \<Rightarrow> bool" where
  "host_name lib h \<longleftrightarrow> h \<noteq> [] \<and> CHR '':'' \<notin> set h \<and> CHR ''['' \<notin> set h \<and> CHR '']'' \<notin> set h \<and> ToLower (ul_lower lib) h = h"

definition own_hosts :: "string \<Rightarrow> string list" where
  "own_hosts h = [h, h @ '':80'', h @ '':443'', ''['' @ h @ '']:80'', ''['' @ h @ '']:443'']"

lemma cut_last_colon_None: "CHR '':'' \<notin> set s \<Longrightarrow> cut_last_colon s = None"
  by (simp add: cut_last_colon_def)

lemma cut_last_colon_join: "cut_last_colon s = Some (h, p) \<Longrightarrow> s = h @ p \<and> (\<exists>q. p = CHR '':'' # q)"
proof -
  assume c: "cut_last_colon s = Some (h, p)"
  define t where "t = takeWhile (\<lambda>c. c \<noteq> CHR '':'') (rev s)"
  have "CHR '':'' \<in> set s" and hp: "h = take (length s - Suc (length t)) s" "p = drop (length s - Suc (length t)) s"
    using c by (auto simp: cut_last_colon_def t_def Let_def split: if_splits)
  then obtain y q where "dropWhile (\<lambda>c. c \<noteq> CHR '':'') (rev s) = y # q"
    by (cases "dropWhile (\<lambda>c. c \<noteq> CHR '':'') (rev s)") auto
  then have "rev s = t @ CHR '':'' # q" unfolding t_def dropWhile_eq_Cons_conv by blast
  then have "s = rev q @ CHR '':'' # rev t" by (metis rev_append rev_rev_ident rev.simps(2) append.assoc append_Cons append_Nil)
  then show ?thesis using hp by simp
qed

lemma normalize_own:
  assumes "host_name lib h"
  shows "normalizeAuthority lib h = h"
  using assms by (simp add: normalizeAuthority_def host_name_def net_SplitHostPort_def cut_last_colon_None Let_def)

lemma normalize_is_own:
  assumes "host_name lib h" and "normalizeAuthority lib x = h"
  shows "ToLower (ul_lower lib) x \<in> set (own_hosts h)"
proof -
  let ?x = "ToLower (ul_lower lib) x"
  have nocolon: "CHR '':'' \<notin> set h" using assms(1) by (simp add: host_name_def)
  show ?thesis
  proof (cases "net_SplitHostPort ?x")
    case None
    then show ?thesis using assms(2) by (simp add: normalizeAuthority_def own_hosts_def)
  next
    case (Some hp)
    obtain host port where hp: "hp = (host, port)" by (cases hp)
    have "CHR '':'' \<in> set (net_JoinHostPort host port)" by (simp add: net_JoinHostPort_def)
    then have p: "port = ''80'' \<or> port = ''443''" and h: "host = h"
      using assms(2) Some hp nocolon by (auto simp: normalizeAuthority_def Let_def split: if_splits)
    from Some hp obtain a b where ab: "cut_last_colon ?x = Some (a, b)" "port = tl b"
      and c: "host = a \<or> host = tl (butlast a) \<and> has_prefix ?x ''['' \<and> has_suffix a '']''"
      by (auto simp: net_SplitHostPort_def split: option.splits if_splits)
    from cut_last_colon_join [OF ab(1)] have x: "?x = a @ CHR '':'' # port" using ab(2) by auto
    from c show ?thesis
    proof
      assume "host = a"
      then show ?thesis using x p h by (auto simp: own_hosts_def)
    next
      assume br: "host = tl (butlast a) \<and> has_prefix ?x ''['' \<and> has_suffix a '']''"
      then obtain t y where "rev a = '']'' @ t" and y: "?x = ''['' @ y" unfolding has_suffix_def has_prefix_iff by auto
      then have a: "a = rev t @ '']''" by (metis rev_append rev_rev_ident rev_singleton_conv)
      then obtain a1 where "rev t = CHR ''['' # a1" using x y by (cases "rev t") auto
      then have "a = ''['' @ h @ '']''" using a br h by simp
      then show ?thesis using x p by (auto simp: own_hosts_def)
    qed
  qed
qed

text \<open>A page of another origin cannot reach the program by rebinding its name: with a plain host name
  configured, a request whose \<open>Host\<close> is, up to case, not that name (alone or with the default ports)
  gets 421 and nothing else happens: no handler runs, nothing is read or written, no operation
  starts. Only the two probes are exempt.\<close>

lemma foreign_host_refused:
  assumes "host_name (hd_lib (rt_h rt)) (rt_host rt)" and "hq_Path r \<notin> {''/healthz'', ''/readyz''}"
    and "ToLower (ul_lower (hd_lib (rt_h rt))) (hq_Host r) \<notin> set (own_hosts (rt_host rt))"
  shows "wb_status (serve rt r s) = Some 421 \<and> wb_body (serve rt r s) = [Text (''misdirected request'' @ newline)]
    \<and> wb_world (serve rt r s) = wb_world s \<and> wb_busy (serve rt r s) = wb_busy s \<and> wb_jobs (serve rt r s) = wb_jobs s"
proof -
  have "normalizeAuthority (hd_lib (rt_h rt)) (hq_Host r) \<noteq> normalizeAuthority (hd_lib (rt_h rt)) (rt_host rt)"
    using normalize_is_own [OF assms(1)] normalize_own [OF assms(1)] assms(3) by metis
  then have "hostGuard rt r next = http_Error ''misdirected request'' 421" for "next"
    using assms(1,2) by (simp add: hostGuard_def Let_def host_name_def)
  then show ?thesis
    by (simp add: serve_def handle_def http_Error_def bindW_def setHeader_def WriteHeader_def write_part_def fresh_response_def)
qed

end
