(* ===== verification/WebAnswers.thy ===== *)
theory WebAnswers
  imports WebProps
begin

text \<open>
  What the answers of the web layer promise about the database: deletions, opening an entry, saved
  preferences.
\<close>

section \<open>Errors that mean a missing row\<close>

text \<open>An error of the driver or of the context is neither \<open>core.ErrNotFound\<close> nor \<open>sql.ErrNoRows\<close>.\<close>

definition plain_err :: "gerr \<Rightarrow> bool" where
  "plain_err e \<longleftrightarrow> \<not> err_is SNoRows e \<and> \<not> err_is SNotFound e"

definition plain_conn :: "conn \<Rightarrow> bool" where
  "plain_conn c \<longleftrightarrow> (\<forall>e. Some e \<in> set (cn_faults c) \<longrightarrow> plain_err e)"

definition plain_ctx :: "ctx \<Rightarrow> bool" where
  "plain_ctx cx \<longleftrightarrow> (\<forall>e. cx = Some e \<longrightarrow> plain_err e)"

lemma plain_mapErr: "plain_err e \<Longrightarrow> plain_err (mapErr e)"
  by (simp add: plain_err_def mapErr_def)

lemma exec_plain:
  assumes "exec cx s c = (x, c')" and "plain_ctx cx" and "plain_conn c"
  shows "plain_conn c' \<and> (case x of Inl e \<Rightarrow> plain_err e \<or> (\<exists>d. s (cn_db c) = (Inl e, d)) | Inr a \<Rightarrow> s (cn_db c) = (Inr a, cn_db c'))"
  using assms
  by (auto simp: exec_def Let_def plain_conn_def plain_ctx_def split: option.splits list.splits prod.splits sum.splits)

text \<open>The statement run on this database has no error that could be taken for a missing row.\<close>

lemma mapped_plain:
  assumes "mapped (exec cx s) c = (x, c')" and "plain_ctx cx" and "plain_conn c"
    and "\<And>e d. s (cn_db c) = (Inl e, d) \<Longrightarrow> plain_err (mapErr e)"
  shows "plain_conn c' \<and> (case x of Inl e \<Rightarrow> plain_err e | Inr a \<Rightarrow> s (cn_db c) = (Inr a, cn_db c'))"
proof -
  obtain y c1 where y: "exec cx s c = (y, c1)" by (cases "exec cx s c")
  from exec_plain [OF y assms(2,3)] show ?thesis
    using assms(1,4) y plain_mapErr by (cases y) (auto simp: mapped_def)
qed

lemma BeginTx_plain:
  assumes "mapped (BeginTx cx) c = (x, c')" and "plain_ctx cx" and "plain_conn c"
  shows "plain_conn c' \<and> cn_db c' = cn_db c \<and> (case x of Inl e \<Rightarrow> plain_err e | Inr a \<Rightarrow> True)"
  using assms
  by (auto simp: mapped_def BeginTx_def bindE_def exec_def Let_def plain_conn_def plain_ctx_def plain_mapErr
      split: option.splits list.splits prod.splits sum.splits)

lemma Commit_plain: "mapped Commit c = (Inl e, c') \<Longrightarrow> plain_conn c \<Longrightarrow> plain_err e"
  by (auto simp: mapped_def Commit_def catchE_def exec_def Let_def plain_conn_def plain_mapErr
      split: option.splits list.splits prod.splits sum.splits)

lemma plain_sentinels [simp]: "plain_err ErrConflict" "\<not> plain_err ErrNotFound"
  by (simp_all add: plain_err_def)

lemma InsertTombstone_entries: "sql_InsertTombstone k g now d = (Inr v, d') \<Longrightarrow> entries d' = entries d"
  by (auto simp: sql_InsertTombstone_def split: if_splits)

lemma DeleteEntry_missing:
  assumes "DeleteEntry wall cx u i c = (Inl e, c')" and "plain_ctx cx" and "plain_conn c"
    and row: "x \<in> set (entries (cn_db c))" "entry_is i u x"
  shows "plain_err e"
proof -
  define tail where "tail n = (if n = (0 :: int) then throwE ErrNotFound else bindE (mapped Commit) (\<lambda>_. returnE ()))" for n
  obtain y c1 where y: "mapped (exec cx (sql_GetEntry i u)) c = (y, c1)" by fastforce
  have "find (entry_is i u) (entries (cn_db c)) \<noteq> None" using row by (auto simp: find_None_iff)
  then have "plain_conn c1 \<and> (case y of Inl e \<Rightarrow> plain_err e | Inr a \<Rightarrow> sql_GetEntry i u (cn_db c) = (Inr a, cn_db c1))"
    by (intro mapped_plain [OF y assms(2,3)]) (auto simp: sql_GetEntry_def query_row_def)
  then have c1: "plain_conn c1" "y = Inl e' \<Longrightarrow> plain_err e'" "y = Inr a \<Longrightarrow> cn_db c1 = cn_db c" for e' a
    by (auto simp: sql_GetEntry_def split: sum.splits)
  show ?thesis
  proof (cases y)
    case (Inl e')
    then show ?thesis using assms(1) y c1 by (simp add: DeleteEntry_def GetEntry_def bindE_def)
  next
    case (Inr r)
    let ?ins = "sql_InsertTombstone (e_FeedID (entryFromRow r)) (e_GUID (entryFromRow r)) (toUnix wall)"
    define body where "body = bindE (mapped (exec cx ?ins)) (\<lambda>_. bindE (mapped (exec cx (sql_DeleteEntry i u))) tail)"
    have t: "in_tx cx body c1 = (Inl e, c')"
      using assms(1) y Inr by (simp add: DeleteEntry_def GetEntry_def bindE_def returnE_def body_def tail_def [abs_def])
    obtain z c2 where z: "mapped (BeginTx cx) c1 = (z, c2)" by fastforce
    note c2 = BeginTx_plain [OF z assms(2) c1(1)]
    obtain v c3 where v: "mapped (exec cx ?ins) c2 = (v, c3)" by fastforce
    have "plain_conn c3 \<and> (case v of Inl e \<Rightarrow> plain_err e | Inr a \<Rightarrow> ?ins (cn_db c2) = (Inr a, cn_db c3))"
      using c2 by (intro mapped_plain [OF v assms(2)]) (auto simp: sql_InsertTombstone_def split: if_splits)
    then have c3: "plain_conn c3" "v = Inl e' \<Longrightarrow> plain_err e'" "v = Inr () \<Longrightarrow> entries (cn_db c3) = entries (cn_db c)" for e'
      using c2 c1(3) [OF Inr] InsertTombstone_entries by (auto split: sum.splits)
    obtain n c4 where n: "mapped (exec cx (sql_DeleteEntry i u)) c3 = (n, c4)" by fastforce
    have c4: "plain_conn c4 \<and> (case n of Inl e \<Rightarrow> plain_err e | Inr a \<Rightarrow> sql_DeleteEntry i u (cn_db c3) = (Inr a, cn_db c4))"
      using c3 by (intro mapped_plain [OF n assms(2)]) (auto simp: sql_DeleteEntry_def)
    obtain w c5 where w: "mapped Commit c4 = (w, c5)" by fastforce
    have "count_where (entry_is i u) (entries (cn_db c)) \<noteq> 0" using row by (auto simp: count_where_zero)
    then show ?thesis
      using t z v n w c2 c3 c4 Commit_plain [of c4 _ c5]
      by (cases z; cases v; cases n; cases w)
        (auto simp: in_tx_def bindE_def body_def tail_def sql_DeleteEntry_def throwE_def returnE_def)
  qed
qed

section \<open>Deletions\<close>

lemma storeW_call:
  "\<exists>n s'. storeW h m s = (Ret (fst (m (en_ctx (hd_env h) n) (wb_conn s))), s') \<and> wb_conn s' = snd (m (en_ctx (hd_env h) n) (wb_conn s))
     \<and> wb_status s' = wb_status s"
  by (rule exI [of _ "w_step (wb_world s)"]) (simp add: quiet.storeW_run split: prod.split)

lemma storeTW_call:
  "\<exists>wall n s'. storeTW h m s = (Ret (fst (m wall (en_ctx (hd_env h) n) (wb_conn s))), s')
     \<and> wb_conn s' = snd (m wall (en_ctx (hd_env h) n) (wb_conn s)) \<and> wb_status s' = wb_status s"
proof -
  define now where "now = en_clock (hd_env h) (w_step (wb_world s))"
  define s0 where "s0 = s\<lparr>wb_world := (wb_world s)\<lparr>w_step := Suc (w_step (wb_world s))\<rparr>\<rparr>"
  have "storeTW h m s = storeW h (m now) s0"
    by (simp add: storeTW_def bindW_def nowW_def clk_Now_def callW_def askS_def now_def s0_def)
  then show ?thesis using storeW_call [of h "m now" s0] by (auto simp: s0_def intro!: exI [of _ now])
qed

lemma quiet_db: "quiet.framed m \<Longrightarrow> wb_db (snd (m s)) = wb_db s"
  by (simp add: quiet.framed_def same_data_def)

lemma http_Error_status: "wb_status s = None \<Longrightarrow> wb_status (snd (http_Error msg code s)) = Some code"
  by (simp add: http_Error_def bindW_def setHeader_def WriteHeader_def write_part_def)

lemma fresh_simps [simp]: "wb_status (fresh_response s) = None" "wb_world (fresh_response s) = wb_world s"
  by (simp_all add: fresh_response_def)

lemma genuine_None: "genuine x = None \<longleftrightarrow> (\<forall>e. x = Inl e \<longrightarrow> err_is SNotFound e)"
  by (auto simp: genuine_def split: sum.splits)

lemma deleteEntry_answer:
  assumes "plain_conn (wb_conn s)" and "\<And>n. plain_ctx (en_ctx (hd_env h) n)" and "ParseInt p = Some i"
    and ok: "wb_status (snd (deleteEntry h r p (fresh_response s))) \<noteq> Some 500"
    and x: "x \<in> set (entries (wb_db (snd (deleteEntry h r p (fresh_response s)))))"
  shows "\<not> entry_is i uid x"
proof -
  let ?K = "\<lambda>dr. if genuine dr \<noteq> None then http_Error ''internal error'' 500
     else if FormValue r ''from'' = ''reader'' then hx_home
     else bindW html_type (\<lambda>_. writeListCountOOB h (ReqHeader r ''Hx-Current-Url''))"
  obtain wall n s' where call: "storeTW h (\<lambda>wall cx. es_Delete wall cx uid i) (fresh_response s)
        = (Ret (fst (DeleteEntry wall (en_ctx (hd_env h) n) uid i (wb_conn s))), s')"
      "wb_conn s' = snd (DeleteEntry wall (en_ctx (hd_env h) n) uid i (wb_conn s))" "wb_status s' = None"
    using storeTW_call [of h "\<lambda>wall cx. es_Delete wall cx uid i" "fresh_response s"] by (auto simp: es_Delete_def)
  obtain y c' where y: "DeleteEntry wall (en_ctx (hd_env h) n) uid i (wb_conn s) = (y, c')" by fastforce
  have D: "deleteEntry h r p (fresh_response s) = ?K y s'"
    using call y assms(3) by (simp add: deleteEntry_def parseID_def bindW_def)
  have g: "genuine y = None" using ok http_Error_status [OF call(3)] unfolding D by (auto split: if_splits)
  have "quiet.framed (?K y)" by (intro web)
  then have db: "wb_db (snd (deleteEntry h r p (fresh_response s))) = cn_db c'"
    unfolding D using quiet_db [where s = s'] call(2) y by (metis snd_conv)
  from y show ?thesis
  proof (cases rule: delete_entry_cases)
    case (error e)
    then have "\<not> plain_err e" using g by (simp add: genuine_None plain_err_def)
    then show ?thesis
      using DeleteEntry_missing [OF y [unfolded error(1)] assms(2) assms(1)] x error(2) unfolding db by auto
  next
    case (deleted row)
    then show ?thesis using x unfolding db by simp
  qed
qed

lemma deleteFeed_answer:
  assumes "conn_good (wb_conn s)" and "ParseInt p = Some i"
    and ok: "wb_status (snd (deleteFeed h p (fresh_response s))) \<noteq> Some 500"
    and f: "f \<in> set (feeds (wb_db (snd (deleteFeed h p (fresh_response s)))))"
  shows "\<not> feed_is i uid f"
proof -
  obtain n s' where call: "callW (fs_Delete (hd_ops h) (hd_env h) uid i) (fresh_response s)
        = (Ret (fst (DeleteFeed (en_ctx (hd_env h) n) uid i (wb_conn s))), s')"
      "wb_conn s' = snd (DeleteFeed (en_ctx (hd_env h) n) uid i (wb_conn s))" "wb_status s' = None"
    using storeW_call [of h "\<lambda>cx. DeleteFeed cx uid i" "fresh_response s"]
    unfolding fs_Delete_def storeW_def [symmetric] by auto
  obtain y c' where y: "DeleteFeed (en_ctx (hd_env h) n) uid i (wb_conn s) = (y, c')" by fastforce
  let ?K = "\<lambda>y. case y of Inl e \<Rightarrow> http_Error (err_text e) 500 | Inr _ \<Rightarrow> hx_refresh"
  have D: "deleteFeed h p (fresh_response s) = ?K y s'"
    using call y assms(2) by (simp add: deleteFeed_def parseID_def tryW_def bindW_def)
  have "y = Inr ()" using ok http_Error_status [OF call(3)] unfolding D by (cases y) auto
  moreover have ok': "conn_ok (wb_conn s)" using assms(1) by (simp add: conn_good_def conn_ok_def store_inv_def)
  ultimately have row: "feed_row c' = (feed_row (wb_conn s))(i := None)" and wf: "conn_ok c'"
    using DeleteFeed_sqlite [OF ok' y] by (auto simp: on_ok_def)
  have "quiet.framed (?K y)" by (intro web)
  then have "wb_db (snd (deleteFeed h p (fresh_response s))) = cn_db c'"
    unfolding D using quiet_db [where s = s'] call(2) y by (metis snd_conv)
  then have "feed_row c' (fr_ID f) = Some f" using f wf feed_row_mem [of c' f] by (simp add: conn_ok_def)
  then show ?thesis using row by (auto simp: feed_is_def)
qed

lemma deleteCategory_answer:
  assumes "plain_conn (wb_conn s)" and "\<And>n. plain_ctx (en_ctx (hd_env h) n)" and "ParseInt p = Some i"
    and ok: "wb_status (snd (deleteCategory h p (fresh_response s))) \<noteq> Some 500"
    and k: "k \<in> set (categories (wb_db (snd (deleteCategory h p (fresh_response s)))))"
  shows "\<not> category_is i uid k"
proof -
  obtain n s' where call: "storeW h (\<lambda>cx. cs_Delete cx uid i) (fresh_response s)
        = (Ret (fst (DeleteCategory (en_ctx (hd_env h) n) uid i (wb_conn s))), s')"
      "wb_conn s' = snd (DeleteCategory (en_ctx (hd_env h) n) uid i (wb_conn s))" "wb_status s' = None"
    using storeW_call [of h "\<lambda>cx. cs_Delete cx uid i" "fresh_response s"] by (auto simp: cs_Delete_def)
  let ?s = "sql_DeleteCategory i uid"
  obtain z c1 where z: "mapped (exec (en_ctx (hd_env h) n) ?s) (wb_conn s) = (z, c1)" by fastforce
  have zp: "case z of Inl e \<Rightarrow> plain_err e | Inr a \<Rightarrow> ?s (wb_db s) = (Inr a, cn_db c1)"
    using mapped_plain [OF z assms(2,1)] by (simp add: sql_DeleteCategory_def Let_def)
  let ?r = "case z of Inl e \<Rightarrow> Inl e | Inr n \<Rightarrow> if n = 0 then Inl ErrNotFound else Inr ()"
  have del: "DeleteCategory (en_ctx (hd_env h) n) uid i (wb_conn s) = (?r, c1)"
    using z by (cases z) (auto simp: DeleteCategory_def affected_def bindE_def throwE_def returnE_def)
  let ?K = "\<lambda>dr. case genuine dr of Some e \<Rightarrow> http_Error (err_text e) 500 | None \<Rightarrow> hx_refresh"
  have D: "deleteCategory h p (fresh_response s) = ?K ?r s'"
    using call del assms(3) by (simp add: deleteCategory_def parseID_def bindW_def)
  have g: "genuine ?r = None" using ok http_Error_status [OF call(3)] unfolding D by (auto split: option.splits)
  have "quiet.framed (?K ?r)" by (intro web)
  then have db: "wb_db (snd (deleteCategory h p (fresh_response s))) = cn_db c1"
    unfolding D using quiet_db [where s = s'] call(2) del by (metis snd_conv)
  from g zp obtain m where m: "?s (wb_db s) = (Inr m, cn_db c1)"
    using plain_mapErr by (cases z) (auto simp: genuine_None plain_err_def)
  then show ?thesis using k unfolding db by (auto simp: sql_DeleteCategory_def Let_def dest: sym)
qed

text \<open>C28. A deletion that is not answered with an error has happened: with any faults of the driver and a
  context that may end at any statement, when deleting an entry, a feed or a category gives anything but
  500, no such row of the user is in the database, so what vanishes on the page does not come back with
  the next reload. Deleting what is already gone counts as done.\<close>

theorem deletes_answer_truly:
  assumes "conn_good (wb_conn s)" and "plain_conn (wb_conn s)" and "\<And>n. plain_ctx (en_ctx (hd_env h) n)"
    and "ParseInt p = Some i"
  shows "(wb_status (snd (deleteEntry h r p (fresh_response s))) = Some 500
      \<or> list_all (\<lambda>x. \<not> entry_is i uid x) (entries (wb_db (snd (deleteEntry h r p (fresh_response s))))))
   \<and> (wb_status (snd (deleteFeed h p (fresh_response s))) = Some 500
      \<or> list_all (\<lambda>f. \<not> feed_is i uid f) (feeds (wb_db (snd (deleteFeed h p (fresh_response s))))))
   \<and> (wb_status (snd (deleteCategory h p (fresh_response s))) = Some 500
      \<or> list_all (\<lambda>k. \<not> category_is i uid k) (categories (wb_db (snd (deleteCategory h p (fresh_response s))))))"
  unfolding list_all_iff
  using deleteEntry_answer [OF assms(2-4)] deleteFeed_answer [OF assms(1,4)] deleteCategory_answer [OF assms(2-4)] by blast

section \<open>Opening an entry\<close>

text \<open>Steps that return, write nothing of the response and leave the database alone.\<close>

definition silent :: "'a web \<Rightarrow> bool" where
  "silent m \<longleftrightarrow> (\<forall>s. \<exists>a s'. m s = (Ret a, s') \<and> wb_db s' = wb_db s \<and> wb_status s' = wb_status s \<and> wb_body s' = wb_body s)"

lemma silent_ret: "silent (retW a)"
  by (simp add: silent_def retW_def)

lemma silent_bind: "silent m \<Longrightarrow> (\<And>a. silent (k a)) \<Longrightarrow> silent (bindW m k)"
  unfolding silent_def bindW_def by (metis (mono_tags, lifting) case_prod_conv outcome.simps(5))

lemma silent_now: "silent (nowW h)"
  by (simp add: silent_def nowW_def clk_Now_def callW_def askS_def)

lemma silent_storeW: "(\<And>cx. read_op (m cx)) \<Longrightarrow> silent (storeW h m)"
  unfolding silent_def
proof
  fix s :: web_state
  assume m: "\<And>cx. read_op (m cx)"
  let ?cx = "en_ctx (hd_env h) (w_step (wb_world s))"
  have "cn_db (snd (m ?cx (wb_conn s))) = wb_db s" using m [of ?cx] unfolding read_op_def by blast
  then show "\<exists>a s'. storeW h m s = (Ret a, s') \<and> wb_db s' = wb_db s \<and> wb_status s' = wb_status s \<and> wb_body s' = wb_body s"
    by (cases "m ?cx (wb_conn s)") (simp add: quiet.storeW_run)
qed

lemma silent_title: "silent (singleFeedTitle h i)"
  unfolding singleFeedTitle_def tryW_def fs_Get_def storeW_def [symmetric] sqlite_ops_simps
  by (intro silent_bind silent_storeW read_intros) (auto split: sum.split intro: silent_ret)

text \<open>With a live context and no fault to come.\<close>

lemma GetEntry_live:
  "cn_faults c = [] \<Longrightarrow> find (entry_is i u) (entries (cn_db c)) = Some row \<Longrightarrow> GetEntry None u i c = (Inr (entryFromRow row), c)"
  by (simp add: GetEntry_def bindE_def mapped_def exec_def sql_GetEntry_def query_row_def returnE_def)

definition read_at :: "int \<Rightarrow> EntryRow \<Rightarrow> EntryRow" where
  "read_at now r = r\<lparr>er_Status := ''read'', er_ReadAt := Some now\<rparr>"

lemma MarkRead_live:
  assumes "cn_faults c = []" and "wf_db (cn_db c)"
  shows "es_MarkRead wall None u [i] True c
    = (Inr (), c\<lparr>cn_db := (cn_db c)\<lparr>entries := upd_where (entry_is i u) (read_at (toUnix wall)) (entries (cn_db c))\<rparr>\<rparr>)"
proof -
  have e: "(\<lambda>r. er_UserID r = u \<and> er_ID r \<in> set [i]) = entry_is i u" by (auto simp: entry_is_def)
  have "entry_checks (read_at n r) = None" if "r \<in> set (entries (cn_db c))" for r n
    using wf_entriesD(1) [OF assms(2) that] by (auto simp: entry_checks_def read_at_def split: if_splits)
  then have "find (\<lambda>r. entry_is i u r \<and> entry_checks (read_at (toUnix wall) r) \<noteq> None) (entries (cn_db c)) = None"
    by (auto simp: find_None_iff_all)
  then show ?thesis
    unfolding es_MarkRead_def SetStatus_def e using assms(1)
    by (simp add: mapped_def exec_def exec_only_def update_entries_def read_at_def [abs_def])
qed

text \<open>C29. Opening an entry marks it read and changes nothing else: with a live context and a database that
  works, \<open>GET /entries/{id}\<close> of an entry of the user answers 200 with its page, and afterwards exactly this
  entry is read, now, and every other row of every table is as it was.\<close>

theorem opening_marks_read:
  assumes "conn_good (wb_conn s)" and "cn_faults (wb_conn s) = []" and "\<And>n. en_ctx (hd_env h) n = None"
    and "ParseInt p = Some i" and "find (entry_is i uid) (entries (wb_db s)) = Some row"
  shows "\<exists>now v. let t = snd (entry h r p (fresh_response s)) in
     wb_db t = (wb_db s)\<lparr>entries := upd_where (entry_is i uid) (read_at now) (entries (wb_db s))\<rparr>
     \<and> wb_status t = Some 200 \<and> ev_ID (ep_Entry v) = er_ID row \<and> ev_Title (ep_Entry v) = er_Title row
     \<and> wb_body t \<in> {[Tmpl ''entry'' ''layout'' (VEntryPage v)], [Partial ''entry'' ''layout'']}"
proof -
  let ?e = "entryFromRow row"
  obtain s1 where s1: "storeW h (\<lambda>cx. es_Get cx uid i) (fresh_response s) = (Ret (Inr ?e), s1)" "wb_conn s1 = wb_conn s"
      "wb_status s1 = None" "wb_body s1 = []"
    using assms(2-5) GetEntry_live [of "wb_conn s"] by (simp add: quiet.storeW_run es_Get_def fresh_response_def)
  obtain wall s2 where s2: "storeTW h (\<lambda>wall cx. es_MarkRead wall cx uid [i] True) s1 = (Ret (Inr ()), s2)"
      "wb_db s2 = (wb_db s)\<lparr>entries := upd_where (entry_is i uid) (read_at (toUnix wall)) (entries (wb_db s))\<rparr>"
      "wb_status s2 = None" "wb_body s2 = []"
    using assms(1-3) s1(2-4) MarkRead_live [of "wb_conn s"]
    by (auto simp: storeTW_def bindW_def nowW_def clk_Now_def callW_def askS_def quiet.storeW_run conn_good_def store_inv_def)
  obtain ft s3 where s3: "singleFeedTitle h (e_FeedID ?e) s2 = (Ret ft, s3)" "wb_db s3 = wb_db s2" "wb_status s3 = None" "wb_body s3 = []"
    using silent_title [of h "e_FeedID ?e", unfolded silent_def, rule_format, of s2] s2(3,4) by auto
  obtain now s4 where s4: "nowW h s3 = (Ret now, s4)" "wb_db s4 = wb_db s3" "wb_status s4 = None" "wb_body s4 = []"
    using silent_now [of h, unfolded silent_def, rule_format, of s3] s3(3,4) by auto
  define ev where "ev = entry_vm h ?e ft now"
  define v where "v = \<lparr>ep_chrome = (chromeFor r [])\<lparr>ch_PageTitle := ev_Title ev\<rparr>,
      ep_Entry = ev\<lparr>ev_Content := transformContent (hd_html h) (hd_rewrite h) (ev_Content ev)\<rparr>,
      ep_ReadingTime = readingTime (hd_unesc h) (ev_Content ev)\<rparr>"
  have run: "entry h r p (fresh_response s) = execT h ''entry'' ''layout'' (VEntryPage v) s4"
    using assms(4) s1(1) s2(1) s3(1) s4(1)
    by (simp add: entry_def parseID_def tryW_def bindW_def toEntryVM_def retW_def Let_def ev_def v_def)
  have "ev_ID (ep_Entry v) = er_ID row" "ev_Title (ep_Entry v) = er_Title row"
    by (simp_all add: v_def ev_def entry_vm_def Let_def entryFromRow_def)
  then show ?thesis
    using s2(2) s3(2) s4(2-4)
    by (intro exI [of _ "toUnix wall"] exI [of _ v])
      (simp add: run execT_def ExecuteTemplate_def bindW_def callW_def askS_def write_part_def retW_def Let_def)
qed

section \<open>Preferences\<close>

text \<open>What a browser keeps of the response's cookies.\<close>

definition cookie_pair :: "string \<Rightarrow> string \<times> string" where
  "cookie_pair v = (takeWhile (\<lambda>c. c \<noteq> CHR ''='') v,
     takeWhile (\<lambda>c. c \<noteq> CHR '';'') (tl (dropWhile (\<lambda>c. c \<noteq> CHR ''='') v)))"

definition browser_cookies :: "web_state \<Rightarrow> (string \<times> string) list" where
  "browser_cookies t = map (cookie_pair \<circ> snd) (filter (\<lambda>h. fst h = ''Set-Cookie'') (wb_header t))"

lemma cookie_pair_pref:
  "CHR ''='' \<notin> set name \<Longrightarrow> CHR '';'' \<notin> set v \<Longrightarrow> cookie_pair (name @ ''='' @ v @ CHR '';'' # rest) = (name, v)"
  by (simp add: cookie_pair_def takeWhile_append dropWhile_append)

lemma allowedOr_in: "def \<in> set allowed \<Longrightarrow> allowedOr v def allowed \<in> set allowed"
  by (simp add: allowedOr_def)

lemma allowedOr_plain:
  "\<forall>x \<in> set allowed. CHR '';'' \<notin> set x \<Longrightarrow> def \<in> set allowed \<Longrightarrow> CHR '';'' \<notin> set (allowedOr v def allowed)"
  using allowedOr_in by blast

text \<open>C40. Preferences are of their closed enumerations wherever they come from, and saving them works: any
  cookies give a theme, summary setting and width of the lists, and with the cookies a browser keeps of
  the answer to a posted form every later page has the form's choice, or the default for a value that is
  not one of the list.\<close>

theorem preferences_closed:
  "ch_Theme (chromeFor q a) \<in> {[], ''light'', ''sepia'', ''dark''} \<and> ch_Summaries (chromeFor q a) \<in> set prefSummaries
   \<and> ch_Width (chromeFor q a) \<in> set prefWidths
   \<and> chromeFor (q\<lparr>hq_Cookies := browser_cookies (snd (saveSettings r (fresh_response s)))\<rparr>) a
     = \<lparr>ch_Theme = (if FormValue r ''theme'' \<in> {''light'', ''sepia'', ''dark''} then FormValue r ''theme'' else []),
        ch_Summaries = (if FormValue r ''summary'' = ''hide'' then ''hide'' else ''show''),
        ch_Width = (if FormValue r ''width'' = ''wide'' then ''wide'' else ''comfortable''),
        ch_Active = a, ch_PageTitle = []\<rparr>"
proof -
  have cl: "cookieOr q n d al \<in> set al" if "d \<in> set al" for n d al
    using that allowedOr_in by (simp add: cookieOr_def split: option.split)
  let ?th = "allowedOr (FormValue r ''theme'') ''system'' prefThemes"
  let ?su = "allowedOr (FormValue r ''summary'') ''show'' prefSummaries"
  let ?wi = "allowedOr (FormValue r ''width'') ''comfortable'' prefWidths"
  have "browser_cookies (snd (saveSettings r (fresh_response s)))
      = [(''bfeed_theme'', ?th), (''bfeed_summary'', ?su), (''bfeed_width'', ?wi)]"
    using cookie_pair_pref [of "''bfeed_theme''" ?th] cookie_pair_pref [of "''bfeed_summary''" ?su] cookie_pair_pref [of "''bfeed_width''" ?wi]
      allowedOr_plain [of prefThemes "''system''"] allowedOr_plain [of prefSummaries "''show''"] allowedOr_plain [of prefWidths "''comfortable''"]
    by (simp add: saveSettings_def setPrefCookie_def http_Redirect_def bindW_def addHeader_def setHeader_def WriteHeader_def
        fresh_response_def browser_cookies_def prefThemes_def prefSummaries_def prefWidths_def)
  then have "chromeFor (q\<lparr>hq_Cookies := browser_cookies (snd (saveSettings r (fresh_response s)))\<rparr>) a
     = \<lparr>ch_Theme = (if ?th = ''system'' then [] else ?th), ch_Summaries = ?su, ch_Width = ?wi, ch_Active = a, ch_PageTitle = []\<rparr>"
    by (simp add: chromeFor_def cookieOr_def allowedOr_def prefThemes_def prefSummaries_def prefWidths_def Let_def)
  then show ?thesis
    using cl [of "''system''" prefThemes "''bfeed_theme''"] cl [of "''show''" prefSummaries "''bfeed_summary''"]
      cl [of "''comfortable''" prefWidths "''bfeed_width''"]
    by (auto simp: chromeFor_def Let_def allowedOr_def prefThemes_def prefSummaries_def prefWidths_def)
qed

section \<open>A sample server\<close>

definition web_lib :: url_lib where
  "web_lib = \<lparr>ul_Parse = (\<lambda>_. None), ul_String = u_Path, ul_lower = (\<lambda>s. s), ul_quote = (\<lambda>s. s)\<rparr>"

definition web_env :: env where
  "web_env = \<lparr>en_clock = (\<lambda>n. 1000 * Second + int n), en_ctx = (\<lambda>n. None),
     en_fetch = (\<lambda>n req. Panic ''fetch''), en_parse = (\<lambda>b c u. Panic ''parse''), en_discover = (\<lambda>b u. Panic ''discover''),
     en_sanitize = (\<lambda>h u. Ret h), en_extract = (\<lambda>u b c. Panic ''extract''), en_lib = web_lib\<rparr>"

definition web_html :: html_lib where
  "web_html = \<lparr>ht_fragment = (\<lambda>_. None), ht_document = (\<lambda>_. None), ht_render = (\<lambda>d. ([], False)), ht_policy = (\<lambda>s. s)\<rparr>"

definition sample_handler :: handler where
  "sample_handler = \<lparr>hd_env = web_env, hd_unesc = (\<lambda>s. s), hd_oob = (\<lambda>_. 0),
     hd_cfg = \<lparr>fc_Schedule = \<lparr>sc_MinInterval = Hour, sc_MaxInterval = 24 * Hour, sc_Factor = Fin 1\<rparr>,
       fc_Reschedule = \<lparr>rc_Interval = Hour, rc_MaxBackoff = 24 * Hour\<rparr>, fc_Jitter = None\<rparr>,
     hd_rewrite = None, hd_errorLimit = 3, hd_html = web_html, hd_marshal = (\<lambda>_. Inr []), hd_fts = (\<lambda>d m. Inr []),
     hd_wide = (\<lambda>_. False), hd_tmplErr = (\<lambda>_. False)\<rparr>"

definition sample_router :: router where
  "sample_router = \<lparr>rt_h = sample_handler, rt_host = ''feeds'', rt_img = None, rt_static = (\<lambda>_. (404, [])), rt_ready = None,
     rt_metrics = True\<rparr>"

definition sample_request :: "string \<Rightarrow> string \<Rightarrow> request" where
  "sample_request m p = \<lparr>hq_Method = m, hq_Path = p, hq_Host = ''FEEDS:80'', hq_RawQuery = [], hq_PostForm = [], hq_Header = [],
     hq_Cookies = []\<rparr>"

definition sample_server :: web_state where
  "sample_server = \<lparr>wb_world = \<lparr>w_store = fresh_conn sample_db1, w_feed = zero_feed, w_trace = [], w_step = 0\<rparr>,
     wb_busy = {}, wb_jobs = [], wb_metrics = [], wb_status = None, wb_header = [], wb_body = []\<rparr>"

lemma sample_server_simps [simp]:
  "wb_conn sample_server = fresh_conn sample_db1" "wb_busy sample_server = {}" "wb_jobs sample_server = []"
  by (simp_all add: sample_server_def)

lemma fresh_conn_simps [simp]: "cn_db (fresh_conn d) = d" "cn_faults (fresh_conn d) = []" "cn_saved (fresh_conn d) = None"
  by (simp_all add: fresh_conn_def)

lemma sample_server_good: "conn_good (wb_conn sample_server)" "plain_conn (wb_conn sample_server)"
  using sample_db1_inv by (simp_all add: conn_good_def faults_ok_def plain_conn_def)

lemma sample_handler_live: "en_ctx (hd_env sample_handler) n = None"
  by (simp add: sample_handler_def web_env_def)

theorem get_changes_nothing_witness:
  "same_data sample_server (serve sample_router (sample_request ''GET'' ''/feeds'') sample_server)"
  by (rule get_changes_nothing) (simp add: sample_request_def, simp add: sample_request_def segments_def)

theorem server_invariant_witness:
  "let t = serve sample_router (sample_request ''POST'' ''/feeds/1/refresh'') sample_server
   in wb_busy t = bg_id ` set (wb_jobs t)"
  unfolding Let_def
  using server_invariant [OF sys_run.step [OF sys_run.start sys_step.request], of sample_server sample_router] sample_server_good(1)
  by simp

theorem deletes_answer_truly_witness:
  "let t = snd (deleteEntry sample_handler (sample_request ''POST'' ''/entries/1/delete'') ''1'' (fresh_response sample_server))
   in wb_status t = None \<and> list_all (\<lambda>x. \<not> entry_is 1 uid x) (entries (wb_db t))"
proof -
  have "wb_status (snd (deleteEntry sample_handler (sample_request ''POST'' ''/entries/1/delete'') ''1'' (fresh_response sample_server))) = None"
    by code_simp
  moreover have "ParseInt ''1'' = Some 1" by code_simp
  moreover have "plain_ctx (en_ctx (hd_env sample_handler) n)" for n by (simp add: sample_handler_live plain_ctx_def)
  ultimately show ?thesis
    using deletes_answer_truly [OF sample_server_good, of sample_handler "''1''" 1 "sample_request ''POST'' ''/entries/1/delete''"]
    by (simp add: Let_def)
qed

theorem opening_marks_read_witness:
  "wb_status (snd (entry sample_handler (sample_request ''GET'' ''/entries/1'') ''1'' (fresh_response sample_server))) = Some 200"
proof -
  have "find (entry_is 1 uid) (entries (wb_db sample_server)) = Some (new_row (\<lambda>s. s) ExtractPending 1 sample_entry 1)"
    by (simp, code_simp)
  from opening_marks_read [OF sample_server_good(1) _ sample_handler_live _ this, of "''1''" "sample_request ''GET'' ''/entries/1''"]
  show ?thesis by (auto simp: Let_def ParseInt_def parse_digits.simps digit_val_def)
qed

end
