(* ===== verification/Backfill.thy ===== *)
theory Backfill
  imports StoreSteps
begin

text \<open>
  \<open>internal/store/sqlite/db.go\<close>: opening the database, the migrations (goose, an argument) and
  \<open>backfillSearchText\<close>, which fills the plain-text search columns once. The rebuild of the FTS index and
  the creation of its trigger are statements that change none of the modelled tables. A crash between two
  statements leaves what an error of the driver at that statement leaves: the committed transactions.
\<close>

section \<open>\<open>backfillSearchText\<close>\<close>

definition backfill_flag :: string where "backfill_flag = ''fts_backfill_0013''"

definition backfill_size :: nat where "backfill_size = 500"

definition sql_backfill_done :: "string stmt" where
  "sql_backfill_done d = (query_row (settings d backfill_flag), d)"

definition sql_backfill_batch :: "int \<Rightarrow> (int \<times> string \<times> string) list stmt" where
  "sql_backfill_batch lid d =
     (Inr (map (\<lambda>r. (er_ID r, er_Content r, er_Summary r))
        (take backfill_size (sort_key er_ID (filter (\<lambda>r. lid < er_ID r) (entries d))))), d)"

definition text_cols :: "(string \<Rightarrow> string) \<Rightarrow> string \<Rightarrow> string \<Rightarrow> EntryRow \<Rightarrow> EntryRow" where
  "text_cols unesc content summary r =
     r\<lparr>er_ContentText := PlainText unesc content, er_SummaryText := PlainText unesc summary\<rparr>"

definition sql_backfill_row :: "(string \<Rightarrow> string) \<Rightarrow> int \<times> string \<times> string \<Rightarrow> unit stmt" where
  "sql_backfill_row unesc row = (case row of (i, content, summary) \<Rightarrow>
     exec_only (update_entries (\<lambda>r. er_ID r = i) (text_cols unesc content summary)))"

text \<open>A plain \<open>INSERT\<close>: the key is the primary key.\<close>

definition sql_set_flag :: "unit stmt" where
  "sql_set_flag d =
     (if settings d backfill_flag \<noteq> None then (Inl (unique_failed ''app_settings.key''), d)
      else (Inr (), d\<lparr>settings := (settings d)(backfill_flag \<mapsto> ''1'')\<rparr>))"

text \<open>One transaction: \<open>db.Begin\<close>, an update for each row of the batch, \<open>Commit\<close>.\<close>

definition backfill_tx :: "(string \<Rightarrow> string) \<Rightarrow> (int \<times> string \<times> string) list \<Rightarrow> unit op" where
  "backfill_tx unesc rows = bindE (BeginTx None) (\<lambda>_ c.
     case foldE (\<lambda>_ row. exec None (sql_backfill_row unesc row)) () rows c of
       (Inl e, c') \<Rightarrow> (Inl e, Rollback c')
     | (Inr _, c') \<Rightarrow> Commit c')"

text \<open>No statement of the loop changes the ids, so the rows beyond \<open>lastID\<close> become fewer.\<close>

definition beyond :: "int \<Rightarrow> db \<Rightarrow> nat" where
  "beyond lid d = length (filter (\<lambda>i. lid < i) (map er_ID (entries d)))"

lemma beyond_cong: "map er_ID (entries d) = map er_ID (entries d') \<Longrightarrow> beyond i d = beyond i d'"
  by (simp only: beyond_def)

definition same_ids :: "'a op \<Rightarrow> bool" where
  "same_ids m \<longleftrightarrow> (\<forall>c. map er_ID (entries (cn_db (snd (m c)))) = map er_ID (entries (cn_db c)) \<and> cn_saved (snd (m c)) = cn_saved c)"

lemma same_ids_row: "same_ids (exec None (sql_backfill_row unesc row))"
  by (cases row) (auto simp: same_ids_def exec_def Let_def sql_backfill_row_def exec_only_def update_entries_def
      text_cols_def map_upd_where split: option.split list.split)

lemma same_ids_fold: "(\<And>x. same_ids (f () x)) \<Longrightarrow> same_ids (foldE f () xs)"
proof (induction xs)
  case (Cons x xs)
  from Cons.prems [of x] Cons.IH [OF Cons.prems] show ?case
    unfolding same_ids_def foldE.simps bindE_def by (auto split: prod.split sum.split) (metis snd_conv)+
qed (simp add: same_ids_def returnE_def)

lemma backfill_tx_ids: "map er_ID (entries (cn_db (snd (backfill_tx unesc rows c)))) = map er_ID (entries (cn_db c))"
proof -
  have bt: "BeginTx None c = (x, c1) \<Longrightarrow> cn_db c1 = cn_db c \<and> (\<forall>u. x = Inr u \<longrightarrow> cn_saved c1 = Some (cn_db c))" for x c1
    by (auto simp: BeginTx_def bindE_def exec_def Let_def split: list.splits option.splits)
  have rb: "cn_saved c2 = Some (cn_db c) \<Longrightarrow> cn_db (Rollback c2) = cn_db c" for c2 by (simp add: Rollback_def)
  have cm: "cn_db (snd (Commit c2)) \<in> {cn_db c2, cn_db c}" if "cn_saved c2 = Some (cn_db c)" for c2
    using that by (auto simp: Commit_def catchE_def exec_def Let_def Rollback_def split: list.split option.split)
  obtain x c1 where b: "BeginTx None c = (x, c1)" by fastforce
  show ?thesis
  proof (cases x)
    case (Inl e)
    then show ?thesis using bt [OF b] b by (simp add: backfill_tx_def bindE_def)
  next
    case (Inr u)
    obtain y c2 where f: "foldE (\<lambda>_ row. exec None (sql_backfill_row unesc row)) () rows c1 = (y, c2)" by fastforce
    have "map er_ID (entries (cn_db c2)) = map er_ID (entries (cn_db c)) \<and> cn_saved c2 = Some (cn_db c)"
      using same_ids_fold [of "\<lambda>_ row. exec None (sql_backfill_row unesc row)" rows] same_ids_row bt [OF b] f Inr
      by (simp add: same_ids_def) (metis snd_conv)
    then show ?thesis
      using b f Inr rb [of c2] cm [of c2] by (cases y) (auto simp: backfill_tx_def bindE_def)
  qed
qed

lemma backfill_batch_ids:
  assumes "exec None (sql_backfill_batch lid) c = (Inr rows, c1)" and "rows \<noteq> []"
  shows "cn_db c1 = cn_db c" and "beyond (fst (last rows)) (cn_db c) < beyond lid (cn_db c)"
proof -
  show db: "cn_db c1 = cn_db c"
    using assms(1) by (auto simp: exec_def Let_def sql_backfill_batch_def split: list.splits option.splits)
  let ?rs = "filter (\<lambda>r. lid < er_ID r) (entries (cn_db c))"
  have rows: "rows = map (\<lambda>r. (er_ID r, er_Content r, er_Summary r)) (take backfill_size (sort_key er_ID ?rs))"
    using assms(1) by (auto simp: exec_def Let_def sql_backfill_batch_def split: list.splits option.splits)
  let ?bs = "take backfill_size (sort_key er_ID ?rs)"
  define r where "r = last ?bs"
  have "?bs \<noteq> []" using rows assms(2) by auto
  then have "r \<in> set (sort_key er_ID ?rs)" and top: "fst (last rows) = er_ID r"
    using in_set_takeD [OF last_in_set [of ?bs, folded r_def]] by (simp, simp add: rows r_def last_map)
  then have r: "r \<in> set ?rs" by simp
  have "length (filter (\<lambda>i. er_ID r < i) (map er_ID (entries (cn_db c)))) < length (filter (\<lambda>i. lid < i) (map er_ID (entries (cn_db c))))"
  proof -
    have "filter (\<lambda>i. er_ID r < i) (filter (\<lambda>i. lid < i) (map er_ID (entries (cn_db c)))) = filter (\<lambda>i. er_ID r < i) (map er_ID (entries (cn_db c)))"
      using r by (auto simp: filter_filter intro: filter_cong)
    moreover have "er_ID r \<in> set (filter (\<lambda>i. lid < i) (map er_ID (entries (cn_db c))))" using r by auto
    ultimately show ?thesis by (metis length_filter_less less_irrefl)
  qed
  then show "beyond (fst (last rows)) (cn_db c) < beyond lid (cn_db c)" by (simp add: beyond_def top)
qed

text \<open>The loop, which ends whatever the driver does.\<close>

function backfill_loop :: "(string \<Rightarrow> string) \<Rightarrow> int \<Rightarrow> unit op" where
  "backfill_loop unesc lid c =
     (case exec None (sql_backfill_batch lid) c of
        (Inl e, c1) \<Rightarrow> (Inl e, c1)
      | (Inr rows, c1) \<Rightarrow>
          if rows = [] then (Inr (), c1)
          else (case backfill_tx unesc rows c1 of
              (Inl e, c2) \<Rightarrow> (Inl e, c2)
            | (Inr _, c2) \<Rightarrow> backfill_loop unesc (fst (last rows)) c2))"
  by pat_completeness auto
termination
proof (relation "measure (\<lambda>(unesc, lid, c). beyond lid (cn_db c))")
  fix unesc :: "string \<Rightarrow> string" and lid c x c1 rows y c2 and u :: unit
  assume 1: "(x, c1) = exec None (sql_backfill_batch lid) c" "x = Inr rows" "rows \<noteq> []"
    and 2: "(y, c2) = backfill_tx unesc rows c1" "y = Inr u"
  then have b: "exec None (sql_backfill_batch lid) c = (Inr rows, c1)" by simp
  have "map er_ID (entries (cn_db c2)) = map er_ID (entries (cn_db c))"
    using backfill_tx_ids [of unesc rows c1] backfill_batch_ids(1) [OF b 1(3)] 2 by (metis snd_conv)
  note beyond_cong [OF this]
  then show "((unesc, fst (last rows), c2), (unesc, lid, c)) \<in> measure (\<lambda>(unesc, lid, c). beyond lid (cn_db c))"
    using backfill_batch_ids(2) [OF b 1(3)] by simp
qed simp

declare backfill_loop.simps [simp del]


definition nop :: "unit stmt" where "nop d = (Inr (), d)"

definition backfillSearchText :: "(string \<Rightarrow> string) \<Rightarrow> unit op" where
  "backfillSearchText unesc =
     catchE (exec None sql_backfill_done)
       (\<lambda>e. if \<not> err_is SNoRows e then throwE e
          else bindE (backfill_loop unesc 0) (\<lambda>_.
               bindE (exec None nop) (\<lambda>_.
               bindE (exec None nop) (\<lambda>_.
               exec None sql_set_flag))))
       (\<lambda>_. returnE ())"

text \<open>\<open>migrate\<close> after goose, which is the argument \<open>up\<close>, and \<open>Open\<close>.\<close>

definition wrap_err :: "string \<Rightarrow> 'a op \<Rightarrow> 'a op" where
  "wrap_err what m = catchE m (\<lambda>e. throwE (Errorf (what @ '': '' @ err_text e) [e])) returnE"

definition migrate :: "(string \<Rightarrow> string) \<Rightarrow> unit op \<Rightarrow> unit op" where
  "migrate unesc up = bindE (wrap_err ''goose up'' up) (\<lambda>_. wrap_err ''fts backfill'' (backfillSearchText unesc))"

definition Open :: "(string \<Rightarrow> string) \<Rightarrow> unit op \<Rightarrow> ctx \<Rightarrow> unit op" where
  "Open unesc up cx = bindE (wrap_err ''ping'' (exec cx nop)) (\<lambda>_. migrate unesc up)"

section \<open>What it does to the rows\<close>

definition current :: "(string \<Rightarrow> string) \<Rightarrow> EntryRow \<Rightarrow> EntryRow" where
  "current unesc r = text_cols unesc (er_Content r) (er_Summary r) r"

definition catch_up :: "(string \<Rightarrow> string) \<Rightarrow> int set \<Rightarrow> db \<Rightarrow> db" where
  "catch_up unesc I d = d\<lparr>entries := map (\<lambda>r. if er_ID r \<in> I then current unesc r else r) (entries d)\<rparr>"

lemma current_simps [simp]:
  "er_ID (current unesc r) = er_ID r" "er_Content (current unesc r) = er_Content r"
  "er_Summary (current unesc r) = er_Summary r" "current unesc (current unesc r) = current unesc r"
  by (simp_all add: current_def text_cols_def)

lemma catch_up_simps [simp]:
  "map er_ID (entries (catch_up unesc I d)) = map er_ID (entries d)" "settings (catch_up unesc I d) = settings d"
  "catch_up unesc {} d = d"
  by (auto simp: catch_up_def)

lemma catch_up_twice [simp]: "catch_up unesc I (catch_up unesc J d) = catch_up unesc (I \<union> J) d"
  by (auto simp: catch_up_def)

definition triple :: "EntryRow \<Rightarrow> int \<times> string \<times> string" where
  "triple r = (er_ID r, er_Content r, er_Summary r)"

lemma triples_catch_up [simp]: "map triple (entries (catch_up unesc I d)) = map triple (entries d)"
  by (auto simp: catch_up_def triple_def)

lemma backfill_row_Inr:
  assumes "exec None (sql_backfill_row unesc row) c = (Inr u, c')"
    and "row \<in> set (map triple (entries (cn_db c)))" and "distinct (map er_ID (entries (cn_db c)))"
  shows "cn_db c' = catch_up unesc {fst row} (cn_db c)"
proof -
  obtain r0 where r0: "r0 \<in> set (entries (cn_db c))" "row = triple r0" using assms(2) by auto
  have "text_cols unesc (er_Content r0) (er_Summary r0) r = current unesc r"
    if "r \<in> set (entries (cn_db c))" "er_ID r = er_ID r0" for r
    using distinct_key_unique [OF assms(3) that(1) r0(1) that(2)] by (simp add: current_def)
  then have "upd_where (\<lambda>r. er_ID r = er_ID r0) (text_cols unesc (er_Content r0) (er_Summary r0)) (entries (cn_db c))
      = map (\<lambda>r. if er_ID r \<in> {er_ID r0} then current unesc r else r) (entries (cn_db c))"
    by (simp add: upd_where_def)
  then show ?thesis
    using exec_Inr(1) [OF assms(1)] r0(2)
    by (auto simp: sql_backfill_row_def triple_def exec_only_Inr catch_up_def dest!: update_entries_Inr)
qed

lemma backfill_fold_Inr:
  assumes "foldE (\<lambda>_ row. exec None (sql_backfill_row unesc row)) () rows c = (Inr u, c')"
    and "set rows \<subseteq> set (map triple (entries (cn_db c)))" and "distinct (map er_ID (entries (cn_db c)))"
  shows "cn_db c' = catch_up unesc (fst ` set rows) (cn_db c)"
  using assms
proof (induction rows arbitrary: c)
  case (Cons row rows)
  from Cons.prems(1) obtain c1 where 1: "exec None (sql_backfill_row unesc row) c = (Inr (), c1)"
    and 2: "foldE (\<lambda>_ row. exec None (sql_backfill_row unesc row)) () rows c1 = (Inr u, c')"
    by (auto simp: bindE_Inr)
  have c1: "cn_db c1 = catch_up unesc {fst row} (cn_db c)"
    using backfill_row_Inr [OF 1] Cons.prems(2,3) by simp
  then have "cn_db c' = catch_up unesc (fst ` set rows) (cn_db c1)"
    using Cons.prems(2,3) by (intro Cons.IH [OF 2]) (simp_all del: set_map)
  then show ?case using c1 by (simp add: Un_commute)
qed (simp add: returnE_Inr)

lemma backfill_tx_cases:
  assumes "backfill_tx unesc rows c = (r, c')" and "cn_saved c = None"
    and "set rows \<subseteq> set (map triple (entries (cn_db c)))" and "distinct (map er_ID (entries (cn_db c)))"
  shows "cn_saved c' = None \<and> (case r of Inl e \<Rightarrow> cn_db c' = cn_db c
     | Inr _ \<Rightarrow> cn_db c' = catch_up unesc (fst ` set rows) (cn_db c))"
proof -
  let ?fold = "foldE (\<lambda>_ row. exec None (sql_backfill_row unesc row)) () rows"
  obtain x c1 where b: "BeginTx None c = (x, c1)" by fastforce
  show ?thesis
  proof (cases x)
    case (Inl e)
    have "cn_db c1 = cn_db c \<and> cn_saved c1 = None"
      using b Inl assms(2) by (auto simp: BeginTx_def bindE_def exec_def Let_def split: list.splits option.splits)
    then show ?thesis using assms(1) b Inl by (auto simp: backfill_tx_def bindE_def)
  next
    case (Inr u)
    note bt = BeginTx_Inr [OF b [unfolded Inr]]
    obtain y c2 where f: "?fold c1 = (y, c2)" by fastforce
    have st: "cn_saved c2 = Some (cn_db c)"
      using stays_foldE [of "\<lambda>_ row. exec None (sql_backfill_row unesc row)" "()" rows] stays_exec f bt
      by (metis snd_conv stays_def)
    show ?thesis
    proof (cases y)
      case (Inl e)
      then show ?thesis using assms(1) b Inr f st by (auto simp: backfill_tx_def bindE_def Rollback_def)
    next
      case y: (Inr v)
      have "cn_db c2 = catch_up unesc (fst ` set rows) (cn_db c)"
        using backfill_fold_Inr [OF f [unfolded y]] bt assms(3,4) by simp
      then show ?thesis
        using assms(1) b Inr f y st Commit_cases [of c2] by (auto simp: backfill_tx_def bindE_def Rollback_def)
    qed
  qed
qed

text \<open>A batch has every row up to its last one.\<close>

lemma backfill_batch_rows:
  assumes "exec None (sql_backfill_batch lid) c = (Inr rows, c1)" and "distinct (map er_ID (entries (cn_db c)))"
  shows "set rows \<subseteq> set (map triple (entries (cn_db c)))"
    and "r \<in> set (entries (cn_db c)) \<Longrightarrow> lid < er_ID r \<Longrightarrow> rows = [] \<or> er_ID r \<le> fst (last rows) \<Longrightarrow> er_ID r \<in> fst ` set rows"
proof -
  let ?s = "sort_key er_ID (filter (\<lambda>r. lid < er_ID r) (entries (cn_db c)))"
  have rows: "rows = map triple (take backfill_size ?s)"
    using assms(1)
    by (auto simp: exec_def Let_def sql_backfill_batch_def triple_def [abs_def] split: list.splits option.splits)
  show "set rows \<subseteq> set (map triple (entries (cn_db c)))" by (auto simp: rows dest: in_set_takeD)
  assume r: "r \<in> set (entries (cn_db c))" "lid < er_ID r" and le: "rows = [] \<or> er_ID r \<le> fst (last rows)"
  have rs: "r \<in> set ?s" using r by simp
  show "er_ID r \<in> fst ` set rows"
  proof (rule ccontr)
    assume out: "er_ID r \<notin> fst ` set rows"
    then have "r \<notin> set (take backfill_size ?s)" by (force simp: rows triple_def)
    then have d: "r \<in> set (drop backfill_size ?s)"
    proof -
      have "set (take backfill_size ?s @ drop backfill_size ?s) = set ?s" by (simp only: append_take_drop_id)
      with rs \<open>r \<notin> set (take backfill_size ?s)\<close> show ?thesis unfolding set_append by blast
    qed
    then have ne: "take backfill_size ?s \<noteq> []" by (auto simp: backfill_size_def)
    then have top: "last (take backfill_size ?s) \<in> set (take backfill_size ?s)" by (rule last_in_set)
    have "sorted_wrt (\<lambda>x y. er_ID x \<le> er_ID y) ?s" using sorted_sort_key [of er_ID] by (simp add: sorted_map)
    then have "er_ID (last (take backfill_size ?s)) \<le> er_ID r" by (rule sorted_wrt_take_drop [OF _ top d])
    moreover have "fst (last rows) = er_ID (last (take backfill_size ?s))" using ne by (simp add: rows last_map triple_def)
    ultimately have "er_ID r = fst (last rows)" using le ne by (simp add: rows)
    then show False using out ne last_in_set [of rows] by (simp add: rows)
  qed
qed

lemma backfill_loop_rows:
  assumes "backfill_loop unesc lid c = (r, c')" and "cn_saved c = None" and "distinct (map er_ID (entries (cn_db c)))"
  shows "\<exists>I. cn_db c' = catch_up unesc I (cn_db c) \<and> cn_saved c' = None
     \<and> (\<not> isl r \<longrightarrow> (\<forall>x \<in> set (entries (cn_db c)). lid < er_ID x \<longrightarrow> er_ID x \<in> I))"
  using assms
proof (induction unesc lid c arbitrary: r c' rule: backfill_loop.induct)
  case (1 unesc lid c)
  obtain q c1 where b: "exec None (sql_backfill_batch lid) c = (q, c1)" by fastforce
  have st: "cn_saved c1 = None" using b 1(3) stays_exec [of None "sql_backfill_batch lid"] by (metis snd_conv stays_def)
  have db: "cn_db c1 = cn_db c"
    using b by (auto simp: exec_def Let_def sql_backfill_batch_def split: list.splits option.splits)
  show ?case
  proof (cases q)
    case (Inl e)
    then have "r = Inl e" "c' = c1" using 1(2) b by (simp_all add: backfill_loop.simps [of unesc lid])
    then show ?thesis using st db by (intro exI [of _ "{}"]) simp
  next
    case (Inr rows)
    note rows = backfill_batch_rows [OF b [unfolded Inr] 1(4)]
    show ?thesis
    proof (cases "rows = []")
      case True
      then have "r = Inr ()" "c' = c1" using 1(2) b Inr by (simp_all add: backfill_loop.simps [of unesc lid])
      then show ?thesis using st db rows(2) True by (intro exI [of _ "{}"]) auto
    next
      case False
      obtain y c2 where t: "backfill_tx unesc rows c1 = (y, c2)" by fastforce
      have tx: "cn_saved c2 = None \<and> (case y of Inl e \<Rightarrow> cn_db c2 = cn_db c
          | Inr _ \<Rightarrow> cn_db c2 = catch_up unesc (fst ` set rows) (cn_db c))"
        using backfill_tx_cases [OF t st] rows(1) 1(4) unfolding db by blast
      show ?thesis
      proof (cases y)
        case (Inl e)
        then have "r = Inl e" "c' = c2" using 1(2) b Inr False t by (simp_all add: backfill_loop.simps [of unesc lid])
        then show ?thesis using tx Inl by (intro exI [of _ "{}"]) simp
      next
        case y: (Inr u)
        have rest: "backfill_loop unesc (fst (last rows)) c2 = (r, c')"
          using 1(2) b Inr False t y by (simp add: backfill_loop.simps [of unesc lid])
        have c2: "cn_db c2 = catch_up unesc (fst ` set rows) (cn_db c)" "cn_saved c2 = None" using tx y by simp_all
        have "distinct (map er_ID (entries (cn_db c2)))" using c2 1(4) by (simp del: distinct_map)
        from 1(1) [OF b [symmetric] Inr False t [symmetric] y rest c2(2) this]
        obtain I where I: "cn_db c' = catch_up unesc I (cn_db c2)" "cn_saved c' = None"
            "\<not> isl r \<longrightarrow> (\<forall>x \<in> set (entries (cn_db c2)). fst (last rows) < er_ID x \<longrightarrow> er_ID x \<in> I)"
          by blast
        have "er_ID x \<in> I \<union> fst ` set rows" if "\<not> isl r" "x \<in> set (entries (cn_db c))" "lid < er_ID x" for x
        proof (cases "er_ID x \<le> fst (last rows)")
          case True
          then show ?thesis using rows(2) [OF that(2,3)] by simp
        next
          case False
          have "er_ID x \<in> set (map er_ID (entries (cn_db c2)))" using c2 that(2) by (simp del: set_map) simp
          then show ?thesis using I(3) that(1) False by auto
        qed
        then show ?thesis using I(1,2) c2(1) by (intro exI [of _ "I \<union> fst ` set rows"]) simp
      qed
    qed
  qed
qed

end
