(* ===== verification/SearchText.thy ===== *)
theory SearchText
  imports Backfill
begin

text \<open>
  The plain-text columns that the search index is made of: the start-up back-fill ends, is safe against a
  crash at any statement and brings every row up to date, and every operation of the store keeps them so.
\<close>

definition text_row :: "(string \<Rightarrow> string) \<Rightarrow> EntryRow \<Rightarrow> bool" where
  "text_row unesc r \<longleftrightarrow> er_ContentText r = PlainText unesc (er_Content r)
     \<and> er_SummaryText r = PlainText unesc (er_Summary r)"

definition text_ok :: "(string \<Rightarrow> string) \<Rightarrow> db \<Rightarrow> bool" where
  "text_ok unesc d \<longleftrightarrow> (\<forall>r \<in> set (entries d). text_row unesc r)"

section \<open>The back-fill\<close>

lemma text_row_current [simp]: "text_row unesc (current unesc r)"
  by (simp add: text_row_def current_def text_cols_def)

lemma text_ok_catch_up:
  "(\<forall>r \<in> set (entries d). er_ID r \<in> I \<or> text_row unesc r) \<Longrightarrow> text_ok unesc (catch_up unesc I d)"
  by (auto simp: text_ok_def catch_up_def)

text \<open>The rows without their plain-text columns.\<close>

definition no_text :: "db \<Rightarrow> EntryRow list" where
  "no_text d = map (er_ContentText_update (\<lambda>_. []) \<circ> er_SummaryText_update (\<lambda>_. [])) (entries d)"

lemma no_text_catch_up: "no_text (catch_up unesc I d) = no_text d"
  by (simp add: no_text_def catch_up_def current_def text_cols_def)

lemma catch_up_others:
  "users (catch_up unesc I d) = users d" "feeds (catch_up unesc I d) = feeds d" "feed_seq (catch_up unesc I d) = feed_seq d"
  "categories (catch_up unesc I d) = categories d" "tombstones (catch_up unesc I d) = tombstones d"
  by (simp_all add: catch_up_def)

text \<open>What a run may do to the database besides the flag.\<close>

definition backfilled :: "(string \<Rightarrow> string) \<Rightarrow> db \<Rightarrow> db \<Rightarrow> bool" where
  "backfilled unesc d d' \<longleftrightarrow> no_text d' = no_text d \<and> users d' = users d \<and> feeds d' = feeds d \<and> feed_seq d' = feed_seq d
     \<and> categories d' = categories d \<and> tombstones d' = tombstones d \<and> (text_ok unesc d \<longrightarrow> text_ok unesc d')"

lemma backfilled_catch_up: "backfilled unesc d (catch_up unesc I d)"
  by (auto simp: backfilled_def no_text_catch_up catch_up_others text_ok_def intro!: text_ok_catch_up [unfolded text_ok_def])

lemma backfilled_settings [simp]: "backfilled unesc d (d'\<lparr>settings := S\<rparr>) = backfilled unesc d d'"
  by (simp add: backfilled_def no_text_def text_ok_def)

lemma sql_set_flag_cases:
  "sql_set_flag d = (x, d') \<Longrightarrow> (case x of Inl e \<Rightarrow> d' = d
     | Inr _ \<Rightarrow> d' = d\<lparr>settings := (settings d)(backfill_flag \<mapsto> ''1'')\<rparr>)"
  by (auto simp: sql_set_flag_def split: if_splits)

lemma exec_cases:
  assumes "exec cx s c = (x, c')"
  obtains (fault) e where "x = Inl e" "cn_db c' = cn_db c" "cn_saved c' = cn_saved c"
  | (run) "s (cn_db c) = (x, cn_db c')" "cn_saved c' = cn_saved c"
  using assms by (auto simp: exec_def Let_def split: option.splits list.splits prod.splits)

text \<open>The statements after the loop.\<close>

lemma backfill_end:
  assumes "bindE (exec None nop) (\<lambda>_. bindE (exec None nop) (\<lambda>_. exec None sql_set_flag)) c = (r, c')"
  shows "cn_saved c' = cn_saved c \<and> (case r of Inl e \<Rightarrow> cn_db c' = cn_db c
     | Inr _ \<Rightarrow> cn_db c' = (cn_db c)\<lparr>settings := (settings (cn_db c))(backfill_flag \<mapsto> ''1'')\<rparr>)"
proof -
  have nop: "cn_db c2 = cn_db c1 \<and> cn_saved c2 = cn_saved c1" if "exec None nop c1 = (x, c2)" for x c1 c2
    using that by (auto simp: nop_def exec_def Let_def split: list.splits option.splits)
  have flag: "cn_saved c2 = cn_saved c1 \<and> (case x of Inl e \<Rightarrow> cn_db c2 = cn_db c1
     | Inr _ \<Rightarrow> cn_db c2 = (cn_db c1)\<lparr>settings := (settings (cn_db c1))(backfill_flag \<mapsto> ''1'')\<rparr>)"
    if "exec None sql_set_flag c1 = (x, c2)" for x c1 c2
    using that by (cases rule: exec_cases) (auto dest: sql_set_flag_cases)
  obtain x1 c1 where 1: "exec None nop c = (x1, c1)" by fastforce
  obtain x2 c2 where 2: "exec None nop c1 = (x2, c2)" by fastforce
  show ?thesis
  proof (cases "isl x1 \<or> isl x2")
    case True
    then have "isl r" "c' = c1 \<or> c' = c2" using assms 1 2 by (cases x1; cases x2; auto simp: bindE_def)+
    then show ?thesis using nop [OF 1] nop [OF 2] by (cases r) auto
  next
    case False
    then have "exec None sql_set_flag c2 = (r, c')" using assms 1 2 by (cases x1; cases x2) (auto simp: bindE_def)
    from flag [OF this] show ?thesis using nop [OF 1] nop [OF 2] by (cases r) simp_all
  qed
qed

lemma backfill_outcome:
  assumes "backfillSearchText unesc c = (r, c')" and "wf_db (cn_db c)" and "cn_saved c = None" and "faults_ok c"
  shows "cn_saved c' = None \<and> backfilled unesc (cn_db c) (cn_db c')
    \<and> (case r of
        Inl e \<Rightarrow> settings (cn_db c') = settings (cn_db c)
      | Inr _ \<Rightarrow> if settings (cn_db c) backfill_flag \<noteq> None then cn_db c' = cn_db c
          else settings (cn_db c') = (settings (cn_db c))(backfill_flag \<mapsto> ''1'') \<and> text_ok unesc (cn_db c'))"
proof -
  have same: "backfilled unesc d d" for d by (simp add: backfilled_def)
  have ids: "distinct (map er_ID (entries (cn_db c)))" and pos: "\<forall>r \<in> set (entries (cn_db c)). 0 < er_ID r"
    using assms(2) by (auto simp: wf_db_def wf_entries_def ids_ok_distinct ids_ok_def)
  obtain x c1 where x: "exec None sql_backfill_done c = (x, c1)" by fastforce
  have c1: "cn_db c1 = cn_db c" "cn_saved c1 = None"
    using x assms(3) by (auto simp: exec_def Let_def sql_backfill_done_def split: list.splits option.splits)
  show ?thesis
  proof (cases x)
    case (Inr v)
    then have "settings (cn_db c) backfill_flag \<noteq> None"
      using exec_Inr(1) [OF x [unfolded Inr]] by (auto simp: sql_backfill_done_def)
    moreover have "r = Inr ()" "c' = c1" using assms(1) x Inr by (simp_all add: backfillSearchText_def catchE_def returnE_def)
    ultimately show ?thesis using c1 same by simp
  next
    case (Inl e)
    show ?thesis
    proof (cases "err_is SNoRows e")
      case False
      then have "r = Inl e" "c' = c1" using assms(1) x Inl by (simp_all add: backfillSearchText_def catchE_def throwE_def)
      then show ?thesis using c1 same by simp
    next
      case True
      have unset: "settings (cn_db c) backfill_flag = None"
        using exec_Inl(1) [OF x [unfolded Inl] assms(4) True] by (auto simp: sql_backfill_done_def)
      obtain y c2 where y: "backfill_loop unesc 0 c1 = (y, c2)" by fastforce
      obtain I where I: "cn_db c2 = catch_up unesc I (cn_db c)" "cn_saved c2 = None"
          "\<not> isl y \<longrightarrow> (\<forall>x \<in> set (entries (cn_db c)). 0 < er_ID x \<longrightarrow> er_ID x \<in> I)"
        using backfill_loop_rows [OF y c1(2)] ids c1 by auto
      have bf: "backfilled unesc (cn_db c) (cn_db c2)" using I(1) backfilled_catch_up by simp
      show ?thesis
      proof (cases y)
        case y': (Inl e')
        then have "r = Inl e'" "c' = c2"
          using assms(1) x Inl True y by (simp_all add: backfillSearchText_def catchE_def bindE_def)
        then show ?thesis using I bf by simp
      next
        case y': (Inr u)
        then have rest: "bindE (exec None nop) (\<lambda>_. bindE (exec None nop) (\<lambda>_. exec None sql_set_flag)) c2 = (r, c')"
          using assms(1) x Inl True y
          by (simp add: backfillSearchText_def catchE_def bindE_def [of "backfill_loop unesc 0"])
        have "text_ok unesc (cn_db c2)"
          unfolding I(1) using I(3) pos y' by (intro text_ok_catch_up) auto
        then show ?thesis
          using backfill_end [OF rest] I bf unset by (cases r) (simp_all add: text_ok_def)
      qed
    qed
  qed
qed

section \<open>The operations of the store\<close>

lemma update_entries_text:
  "(\<And>r. P r \<Longrightarrow> text_row unesc r \<Longrightarrow> text_row unesc (f r)) \<Longrightarrow> keeps (text_ok unesc) (update_entries P f)"
  by (auto simp: keeps_def update_entries_def text_ok_def set_upd_where split: option.split)

lemma keeps_entries_text: "keeps_entries s \<Longrightarrow> keeps (text_ok unesc) s"
  by (simp add: keeps_entries_def keeps_def text_ok_def)

lemma sql_text [wf_intros]:
  "keeps (text_ok unesc) (sql_CreateFeed a)" "keeps (text_ok unesc) (sql_UpdateFeed a)"
  "keeps (text_ok unesc) (sql_SetFeedCategory cat i uid)" "keeps (text_ok unesc) (sql_SetFeedFullContent v i uid)"
  "keeps (text_ok unesc) (sql_SetFeedUserTitle t i uid)" "keeps (text_ok unesc) (sql_SetFeedURL url nx i uid)"
  "keeps (text_ok unesc) (sql_CreateCategory uid t)" "keeps (text_ok unesc) (sql_UpdateCategory t i uid)"
  "keeps (text_ok unesc) (sql_DeleteCategory i uid)" "keeps (text_ok unesc) (sql_PutAppSetting k w)"
  by (intro keeps_entries_text sql_keeps_entries)+

lemma sql_removals_text [wf_intros]:
  "keeps (text_ok unesc) (sql_DeleteFeed i uid)" "keeps (text_ok unesc) (sql_DeleteEntry i uid)"
  "keeps (text_ok unesc) (sql_InsertTombstone i g n)"
  by (auto simp: keeps_def text_ok_def sql_DeleteFeed_def sql_DeleteEntry_def sql_InsertTombstone_def Let_def)

lemma sql_entry_text [wf_intros]:
  "keeps (text_ok unesc) (sql_CancelFeedExtractions fid)" "keeps (text_ok unesc) (sql_MarkFeedEntriesPending n fid)"
  "keeps (text_ok unesc) (sql_SetEntryContent x (PlainText unesc x) i)"
  "keeps (text_ok unesc) (sql_UpdateExtractState st k nx er i)"
  "keeps (text_ok unesc) (sql_UpdateEntryContent (entry_params unesc i fid ins e))"
  "keeps (text_ok unesc) (sql_UpdateEntryMetadata (entry_params unesc i fid ins e))"
  by (auto simp: sql_CancelFeedExtractions_def sql_MarkFeedEntriesPending_def sql_SetEntryContent_def
      sql_UpdateExtractState_def sql_UpdateEntryContent_def sql_UpdateEntryMetadata_def text_row_def
      content_cols_def metadata_cols_def entry_params_def intro!: exec_only_keeps update_entries_text)

lemma sql_mark_read_text [wf_intros]: "keeps (text_ok unesc) (sql_mark_read now u fl)"
  unfolding keeps_def sql_mark_read_def
  using update_entries_text [of _ unesc "\<lambda>r. r\<lparr>er_Status := ''read'', er_ReadAt := Some now\<rparr>"]
  by (simp add: keeps_def text_row_def)

lemma sql_InsertEntry_text [wf_intros]: "keeps (text_ok unesc) (sql_InsertEntry (entry_params unesc i fid ins e))"
  by (auto simp: keeps_def sql_InsertEntry_def Let_def text_ok_def text_row_def entry_params_def split: option.split)


lemma op_keeps_text:
  "op_keeps (text_ok unesc) (CreateFeed cx f)" "op_keeps (text_ok unesc) (UpdateFeed cx f)"
  "op_keeps (text_ok unesc) (DeleteFeed cx u k)" "op_keeps (text_ok unesc) (SetFeedCategory cx u k cat)"
  "op_keeps (text_ok unesc) (SetFeedFullContent cx u k on t)" "op_keeps (text_ok unesc) (SetFeedUserTitle cx u k s)"
  "op_keeps (text_ok unesc) (SetFeedURL cx u k s t)" "op_keeps (text_ok unesc) (SetStatus wall cx u is st)"
  "op_keeps (text_ok unesc) (SetStarred cx u is b)" "op_keeps (text_ok unesc) (MarkReadByFilter wall cx u fl)"
  "op_keeps (text_ok unesc) (DeleteEntry wall cx u i)" "op_keeps (text_ok unesc) (SetEntryContent unesc cx i s)"
  "op_keeps (text_ok unesc) (UpdateExtractState cx i es n nx s)" "op_keeps (text_ok unesc) (CreateCategory cx c)"
  "op_keeps (text_ok unesc) (UpdateCategory cx c)" "op_keeps (text_ok unesc) (DeleteCategory cx u i)"
  "op_keeps (text_ok unesc) (PutSetting cx s v)"
  unfolding feed_op_defs category_op_defs other_op_defs entry_op_defs Let_def
  by (auto intro!: wf_intros update_entries_text simp: text_row_def)

lemma UpsertEntries_text: "op_keeps (text_ok unesc) (UpsertEntries unesc cx k es)"
  unfolding UpsertEntries_def upsert_one_def if_no_rows_def
  by (intro wf_intros) (auto split: prod.split intro!: wf_intros)

lemma store_step_text: "store_step unesc d d' \<Longrightarrow> text_ok unesc d \<Longrightarrow> text_ok unesc d'"
  by (induction rule: store_step.induct) (rule after_keeps [OF op_keeps_text(1)] after_keeps [OF op_keeps_text(2)]
    after_keeps [OF op_keeps_text(3)] after_keeps [OF op_keeps_text(4)] after_keeps [OF op_keeps_text(5)]
    after_keeps [OF op_keeps_text(6)] after_keeps [OF op_keeps_text(7)] after_keeps [OF op_keeps_text(8)]
    after_keeps [OF op_keeps_text(9)] after_keeps [OF op_keeps_text(10)] after_keeps [OF op_keeps_text(11)]
    after_keeps [OF op_keeps_text(12)] after_keeps [OF op_keeps_text(13)] after_keeps [OF op_keeps_text(14)]
    after_keeps [OF op_keeps_text(15)] after_keeps [OF op_keeps_text(16)] after_keeps [OF op_keeps_text(17)]
    after_keeps [OF UpsertEntries_text]; assumption)+

text \<open>A database from before the migration: an entry without plain text.\<close>

definition stale_db :: db where
  "stale_db = sample_db\<lparr>entries := [(new_row (\<lambda>s. s) ExtractNone 1 (sample_entry\<lparr>e_Content := ''<p>hi''\<rparr>) 1)\<lparr>er_ContentText := []\<rparr>]\<rparr>"

text \<open>C12. The columns the search index is made of are the plain text of the stored HTML. The start-up
  back-fill returns on every behaviour of the driver; it changes nothing else but its flag, which it sets
  only when it succeeds; when it succeeds on a database that was not marked done, or was done properly,
  every entry's columns are up to date, and they stay so in every state reachable from there by polls,
  scrapes, deletions and all other operations of the store.\<close>

theorem search_text_current:
  assumes "wf_db (cn_db c)" and "cn_saved c = None" and "faults_ok c"
    and "settings (cn_db c) backfill_flag \<noteq> None \<longrightarrow> text_ok unesc (cn_db c)"
  shows "\<exists>r c'. backfillSearchText unesc c = (r, c') \<and> cn_saved c' = None \<and> backfilled unesc (cn_db c) (cn_db c')
    \<and> (isl r \<longrightarrow> settings (cn_db c') = settings (cn_db c))
    \<and> (\<not> isl r \<longrightarrow> settings (cn_db c') backfill_flag \<noteq> None
        \<and> (\<forall>d. (store_step unesc)\<^sup>*\<^sup>* (cn_db c') d \<longrightarrow> text_ok unesc d))"
proof -
  obtain r c' where run: "backfillSearchText unesc c = (r, c')" by fastforce
  note o = backfill_outcome [OF run assms(1-3)]
  have steps: "text_ok unesc d" if "(store_step unesc)\<^sup>*\<^sup>* (cn_db c') d" "text_ok unesc (cn_db c')" for d
    using that by (induction rule: rtranclp_induct) (auto intro: store_step_text)
  show ?thesis
  proof (cases r)
    case (Inl e)
    then show ?thesis using run o by simp
  next
    case (Inr u)
    then have "text_ok unesc (cn_db c')" "settings (cn_db c') backfill_flag \<noteq> None"
      using o assms(4) by (auto split: if_splits)
    then show ?thesis using run o Inr steps by simp
  qed
qed


theorem search_text_current_witness:
  "\<exists>c'. backfillSearchText (\<lambda>s. s) (fresh_conn stale_db) = (Inr (), c') \<and> text_ok (\<lambda>s. s) (cn_db c')
     \<and> \<not> text_ok (\<lambda>s. s) stale_db"
proof -
  have "wf_db stale_db"
    by (simp add: stale_db_def wf_db_def sample_db_def sample_feed_def init_db_def wf_users_def wf_feeds_def
        wf_categories_def wf_entries_def wf_tombstones_def ids_ok_def feed_params_def zero_feed_def
        feed_checks_def feed_fk_def b2i_def nullID_def entry_checks_def entry_fk_def new_row_def entry_params_def
        sample_entry_def)
  moreover have "settings stale_db backfill_flag = None" by (simp add: stale_db_def sample_db_def init_db_def)
  ultimately obtain r c' where run: "backfillSearchText (\<lambda>s. s) (fresh_conn stale_db) = (r, c')"
    and ok: "\<not> isl r \<longrightarrow> (\<forall>d. (store_step (\<lambda>s. s))\<^sup>*\<^sup>* (cn_db c') d \<longrightarrow> text_ok (\<lambda>s. s) d)"
    using search_text_current [of "fresh_conn stale_db" "\<lambda>s. s"] by (auto simp: fresh_conn_def faults_ok_def)
  have "\<not> isl (fst (backfillSearchText (\<lambda>s. s) (fresh_conn stale_db)))" by code_simp
  then have "r = Inr ()" using run by (cases r) auto
  moreover have "\<not> text_ok (\<lambda>s. s) stale_db" by code_simp
  ultimately show ?thesis using run ok by auto
qed

end
