(* ===== verification/MetricSinks.thy ===== *)
theory MetricSinks
  imports PollMetrics SqliteStore
begin

text \<open>
  The two implementations of the metrics port: \<open>internal/observability/metrics.go\<close> on the Prometheus client,
  which is the argument \<open>lib\<close> (its vectors, by metric name and label values, in a registry of any type
  \<open>'r\<close>), and \<open>RecordingMetrics\<close> of \<open>internal/core/coretest/doubles.go\<close>; and the stubs of that file as an
  environment. What a sink shows after a sequence of events is the locale \<open>poll_sink\<close>.
\<close>

section \<open>Label values\<close>

fun poll_label :: "PollResult \<Rightarrow> string" where
  "poll_label PollSuccess = ''success''" | "poll_label PollNotModified = ''not_modified''"
| "poll_label PollFetchError = ''fetch_error''" | "poll_label PollHTTPError = ''http_error''"
| "poll_label PollParseError = ''parse_error''" | "poll_label PollStoreError = ''store_error''"
| "poll_label PollPanic = ''panic''"

fun scrape_label :: "ScrapeResult \<Rightarrow> string" where
  "scrape_label ScrapeSuccess = ''success''" | "scrape_label ScrapeFetchError = ''fetch_error''"
| "scrape_label ScrapeHTTPError = ''http_error''" | "scrape_label ScrapeExtractError = ''extract_error''"
| "scrape_label ScrapeRetried = ''retried''" | "scrape_label ScrapeFailed = ''failed''"

fun component_label :: "ErrorComponent \<Rightarrow> string" where
  "component_label CompFeedPoll = ''feed_poll''" | "component_label CompArticleScrape = ''article_scrape''"
| "component_label CompDB = ''db''" | "component_label CompHTTPServer = ''http_server''"
| "component_label CompImageProxy = ''image_proxy''"

fun reason_label :: "ErrorReason \<Rightarrow> string" where
  "reason_label ReasonTimeout = ''timeout''" | "reason_label ReasonDNS = ''dns''" | "reason_label ReasonTLS = ''tls''"
| "reason_label ReasonHTTP4xx = ''http_4xx''" | "reason_label ReasonHTTP5xx = ''http_5xx''"
| "reason_label ReasonRateLimited = ''rate_limited''" | "reason_label ReasonParse = ''parse''"
| "reason_label ReasonInternal = ''internal''"

lemma label_inj [simp]:
  "poll_label a = poll_label b \<longleftrightarrow> a = b" "reason_label r = reason_label s \<longleftrightarrow> r = s"
  "component_label c = component_label d \<longleftrightarrow> c = d"
proof -
  show "poll_label a = poll_label b \<longleftrightarrow> a = b" by (cases a; cases b; simp)
  show "reason_label r = reason_label s \<longleftrightarrow> r = s" by (cases r; cases s; simp)
  show "component_label c = component_label d \<longleftrightarrow> c = d" by (cases c; cases d; simp)
qed

definition AllReasons :: "ErrorReason list" where
  "AllReasons = [ReasonTimeout, ReasonDNS, ReasonTLS, ReasonHTTP4xx, ReasonHTTP5xx, ReasonRateLimited, ReasonParse, ReasonInternal]"

lemma set_AllReasons: "set AllReasons = UNIV" "distinct AllReasons"
  by (auto simp: AllReasons_def) (case_tac x; simp)

section \<open>The Prometheus adapter\<close>

record 'r prom =
  pm_touch :: "string \<Rightarrow> string list \<Rightarrow> 'r \<Rightarrow> 'r"           \<comment> \<open>\<open>WithLabelValues\<close> alone\<close>
  pm_inc :: "string \<Rightarrow> string list \<Rightarrow> 'r \<Rightarrow> 'r"
  pm_observe :: "string \<Rightarrow> string list \<Rightarrow> f64 \<Rightarrow> 'r \<Rightarrow> 'r"
  pm_add :: "string \<Rightarrow> string list \<Rightarrow> f64 \<Rightarrow> 'r \<Rightarrow> 'r"
  pm_set :: "string \<Rightarrow> string list \<Rightarrow> f64 \<Rightarrow> 'r \<Rightarrow> 'r"
  pm_total :: "'r \<Rightarrow> string \<Rightarrow> string list \<Rightarrow> nat option"      \<comment> \<open>the value of a counter, the count of a histogram\<close>

text \<open>\<open>Duration.Seconds\<close>: whole seconds plus the rest, as floats.\<close>

fun f64_plus :: "f64 \<Rightarrow> f64 \<Rightarrow> f64" where
  "f64_plus (Fin a) (Fin b) = round64 (a + b)"
| "f64_plus NaN y = NaN"
| "f64_plus x NaN = NaN"
| "f64_plus PInf NInf = NaN"
| "f64_plus NInf PInf = NaN"
| "f64_plus PInf y = PInf"
| "f64_plus NInf y = NInf"
| "f64_plus x PInf = PInf"
| "f64_plus x NInf = NInf"

definition dur_Seconds :: "duration \<Rightarrow> f64" where
  "dur_Seconds d = (let sec = go_div d Second; nsec = d - sec * Second in
     f64_plus (f64_of_int sec) (f64_div (f64_of_int nsec) (Fin 1000000000)))"

definition NewMetrics :: "'r prom \<Rightarrow> string \<Rightarrow> 'r \<Rightarrow> 'r" where
  "NewMetrics lib version r =
     (let r = foldl (\<lambda>r x. pm_touch lib ''bfeed_feed_polls_total'' [poll_label x] r) r AllPollResults;
          r = foldl (\<lambda>r x. pm_touch lib ''bfeed_article_scrapes_total'' [scrape_label x] r) r AllScrapeResults
      in pm_set lib ''bfeed_build_info'' [version] (f64_of_int 1) r)"

fun prom_call :: "'r prom \<Rightarrow> metric \<Rightarrow> 'r \<Rightarrow> 'r" where
  "prom_call lib (FeedPollDone x) = pm_inc lib ''bfeed_feed_polls_total'' [poll_label x]"
| "prom_call lib (ObserveFeedPoll d) = pm_observe lib ''bfeed_feed_poll_duration_seconds'' [] (dur_Seconds d)"
| "prom_call lib (ScrapeDone x) = pm_inc lib ''bfeed_article_scrapes_total'' [scrape_label x]"
| "prom_call lib (ObserveArticleScrape d) = pm_observe lib ''bfeed_article_scrape_duration_seconds'' [] (dur_Seconds d)"
| "prom_call lib (ErrorObserved c x) = pm_inc lib ''bfeed_errors_total'' [component_label c, reason_label x]"
| "prom_call lib (AddPollInflight n) = pm_add lib ''bfeed_poll_inflight'' [] (f64_of_int n)"
| "prom_call lib (AddScrapeInflight n) = pm_add lib ''bfeed_scrape_inflight'' [] (f64_of_int n)"
| "prom_call lib (PollerTicked t) = pm_set lib ''bfeed_poller_last_tick_timestamp_seconds'' [] (f64_of_int (time_unix t))"
| "prom_call lib (ScraperTicked t) = pm_set lib ''bfeed_scraper_last_tick_timestamp_seconds'' [] (f64_of_int (time_unix t))"

definition HTTPRequest :: "'r prom \<Rightarrow> string \<Rightarrow> string \<Rightarrow> int \<Rightarrow> duration \<Rightarrow> 'r \<Rightarrow> 'r" where
  "HTTPRequest lib route method status d r =
     pm_inc lib ''bfeed_http_requests_total'' [route, method, FormatInt status]
       (pm_observe lib ''bfeed_http_request_duration_seconds'' [route] (dur_Seconds d) r)"

text \<open>\<open>statsCollector\<close>: every gauge has its own count, and one that fails is left out.\<close>

definition stat_gauges :: "(string \<times> (ctx \<Rightarrow> time \<Rightarrow> int op)) list" where
  "stat_gauges = [(''bfeed_users'', \<lambda>cx _. CountUsers cx), (''bfeed_feeds'', \<lambda>cx _. CountFeeds cx),
     (''bfeed_entries'', \<lambda>cx _. CountEntries cx), (''bfeed_poll_backlog'', CountDueFeeds),
     (''bfeed_scrape_backlog'', CountDueExtractions)]"

text \<open>The deadline of three seconds may pass before any of the counts: the \<open>n\<close>-th finds the context as
  \<open>cxs n\<close> says.\<close>

fun collect_from :: "(nat \<Rightarrow> ctx) \<Rightarrow> time \<Rightarrow> (string \<times> (ctx \<Rightarrow> time \<Rightarrow> int op)) list \<Rightarrow> nat \<Rightarrow> conn \<Rightarrow> (string \<times> f64) list \<times> conn" where
  "collect_from cxs now [] n c = ([], c)"
| "collect_from cxs now ((name, count) # gs) n c =
     (case count (cxs n) now c of (r, c1) \<Rightarrow>
        (case collect_from cxs now gs (Suc n) c1 of (ms, c2) \<Rightarrow>
           ((case r of Inl _ \<Rightarrow> ms | Inr k \<Rightarrow> (name, f64_of_int k) # ms), c2)))"

definition Collect :: "(nat \<Rightarrow> ctx) \<Rightarrow> time \<Rightarrow> conn \<Rightarrow> (string \<times> f64) list \<times> conn" where
  "Collect cxs now = collect_from cxs now stat_gauges 0"

section \<open>\<open>RecordingMetrics\<close>\<close>

record recorder =
  rm_pollResults :: "PollResult list"
  rm_scrapeResults :: "ScrapeResult list"
  rm_errors :: "(ErrorComponent \<times> ErrorReason) list"
  rm_pollDurations :: "duration list"
  rm_scrapeDurations :: "duration list"
  rm_pollInflight :: int
  rm_scrapeInflight :: int
  rm_pollerTicks :: "time list"
  rm_scraperTicks :: "time list"

definition new_recorder :: recorder where
  "new_recorder = \<lparr>rm_pollResults = [], rm_scrapeResults = [], rm_errors = [], rm_pollDurations = [],
     rm_scrapeDurations = [], rm_pollInflight = 0, rm_scrapeInflight = 0, rm_pollerTicks = [], rm_scraperTicks = []\<rparr>"

fun rec_call :: "metric \<Rightarrow> recorder \<Rightarrow> recorder" where
  "rec_call (FeedPollDone x) m = m\<lparr>rm_pollResults := rm_pollResults m @ [x]\<rparr>"
| "rec_call (ObserveFeedPoll d) m = m\<lparr>rm_pollDurations := rm_pollDurations m @ [d]\<rparr>"
| "rec_call (ScrapeDone x) m = m\<lparr>rm_scrapeResults := rm_scrapeResults m @ [x]\<rparr>"
| "rec_call (ObserveArticleScrape d) m = m\<lparr>rm_scrapeDurations := rm_scrapeDurations m @ [d]\<rparr>"
| "rec_call (ErrorObserved c x) m = m\<lparr>rm_errors := rm_errors m @ [(c, x)]\<rparr>"
| "rec_call (AddPollInflight n) m = m\<lparr>rm_pollInflight := rm_pollInflight m + n\<rparr>"
| "rec_call (AddScrapeInflight n) m = m\<lparr>rm_scrapeInflight := rm_scrapeInflight m + n\<rparr>"
| "rec_call (PollerTicked t) m = m\<lparr>rm_pollerTicks := rm_pollerTicks m @ [t]\<rparr>"
| "rec_call (ScraperTicked t) m = m\<lparr>rm_scraperTicks := rm_scraperTicks m @ [t]\<rparr>"

section \<open>The stubs\<close>

text \<open>\<open>StubFetcher\<close> returns both its fields; a caller that sees an error ignores the response.\<close>

record stubs =
  sb_Resp :: FetchResponse
  sb_Err :: "gerr option"
  sb_PF :: "ParsedFeed option"
  sb_T :: time
  sb_HTML :: string
  sb_ExtractErr :: "gerr option"

definition stub_env :: "stubs \<Rightarrow> url_lib \<Rightarrow> (nat \<Rightarrow> ctx) \<Rightarrow> env" where
  "stub_env sb lib cxs = \<lparr>en_clock = (\<lambda>_. sb_T sb), en_ctx = cxs,
     en_fetch = (\<lambda>_ _. Ret (case sb_Err sb of Some e \<Rightarrow> Inl e | None \<Rightarrow> Inr (sb_Resp sb))),
     en_parse = (\<lambda>_ _ _. Ret (Inr (sb_PF sb))), en_discover = (\<lambda>_ _. Ret (Inr [])),
     en_sanitize = (\<lambda>h _. Ret h),
     en_extract = (\<lambda>_ _ _. Ret (case sb_ExtractErr sb of Some e \<Rightarrow> Inl e | None \<Rightarrow> Inr (sb_HTML sb))),
     en_lib = lib\<rparr>"

text \<open>\<open>StubStreamFetcher\<close>: status, type, length and body of the response; \<open>Close\<close> of its body counts.\<close>

record stream_stub =
  st_Status :: int
  st_ContentType :: string
  st_ContentLength :: int
  st_Body :: string
  st_Err :: "gerr option"
  st_Closes :: "nat option"

definition stub_FetchStream :: "stream_stub \<Rightarrow> gerr + int \<times> string \<times> int \<times> string" where
  "stub_FetchStream f =
     (case st_Err f of Some e \<Rightarrow> Inl e | None \<Rightarrow> Inr (st_Status f, st_ContentType f, st_ContentLength f, st_Body f))"

definition counting_Close :: "stream_stub \<Rightarrow> stream_stub" where
  "counting_Close f = f\<lparr>st_Closes := map_option Suc (st_Closes f)\<rparr>"

text \<open>\<open>BlockingFetcher\<close> closes \<open>started\<close> at the first call (the state: whether it is closed), waits, and
  returns its error once released or once the context is done.\<close>

definition blocking_Fetch :: "FetchRequest \<Rightarrow> bool \<Rightarrow> (gerr + FetchResponse) \<times> bool" where
  "blocking_Fetch req started = (Inl (errors_New ''released''), True)"

definition blocking_env :: "env \<Rightarrow> env" where
  "blocking_env E = E\<lparr>en_fetch := (\<lambda>_ req. Ret (fst (blocking_Fetch req False)))\<rparr>"

section \<open>Sinks of poll events\<close>

definition poll_events :: "PollResult \<Rightarrow> metric list \<Rightarrow> nat" where
  "poll_events x ms = length (filter (\<lambda>e. e = FeedPollDone x) ms)"

definition duration_events :: "metric list \<Rightarrow> nat" where
  "duration_events ms = length (filter (\<lambda>e. case e of ObserveFeedPoll _ \<Rightarrow> True | _ \<Rightarrow> False) ms)"

definition error_events :: "ErrorReason \<Rightarrow> metric list \<Rightarrow> nat" where
  "error_events x ms = length (filter (\<lambda>e. e = ErrorObserved CompFeedPoll x) ms)"

lemma events_append [simp]:
  "poll_events x (ms @ ns) = poll_events x ms + poll_events x ns"
  "duration_events (ms @ ns) = duration_events ms + duration_events ns"
  "error_events y (ms @ ns) = error_events y ms + error_events y ns"
  by (simp_all add: poll_events_def duration_events_def error_events_def)

text \<open>What a sequence of polls has emitted when every completed one emits one attempt and its duration.\<close>

inductive poll_trace :: "nat \<Rightarrow> metric list \<Rightarrow> bool" where
  no_poll: "poll_trace 0 []"
| poll: "poll_trace n ms \<Longrightarrow> attempt as \<Longrightarrow> poll_trace (Suc n) (ms @ as @ [ObserveFeedPoll d])"


lemma attempt_events:
  assumes "attempt as"
  shows "(\<Sum>x\<leftarrow>AllPollResults. poll_events x as) = 1" and "duration_events as = 0"
    and "(\<Sum>y\<leftarrow>AllReasons. error_events y as) + poll_events PollSuccess as + poll_events PollNotModified as = 1"
proof -
  from assms consider (good) r where "r \<in> {PollSuccess, PollNotModified}" "as = [FeedPollDone r]"
    | (bad) r reason where "r \<notin> {PollSuccess, PollNotModified}" "as = [FeedPollDone r, ErrorObserved CompFeedPoll reason]"
    unfolding attempt_def by blast
  note cases = this
  show "(\<Sum>x\<leftarrow>AllPollResults. poll_events x as) = 1"
    using cases by cases (case_tac r; simp add: poll_events_def AllPollResults_def)+
  show "duration_events as = 0" using cases by cases (simp_all add: duration_events_def)
  show "(\<Sum>y\<leftarrow>AllReasons. error_events y as) + poll_events PollSuccess as + poll_events PollNotModified as = 1"
    using cases
  proof cases
    case good
    then show ?thesis by (auto simp: poll_events_def error_events_def AllReasons_def)
  next
    case bad
    have "(\<Sum>y\<leftarrow>AllReasons. error_events y as) = 1"
      using bad by (cases reason) (simp_all add: error_events_def AllReasons_def)
    then show ?thesis using bad by (simp add: poll_events_def)
  qed
qed

lemma poll_trace_events:
  assumes "poll_trace n ms"
  shows "(\<Sum>x\<leftarrow>AllPollResults. poll_events x ms) = n" and "duration_events ms = n"
    and "(\<Sum>y\<leftarrow>AllReasons. error_events y ms) + poll_events PollSuccess ms + poll_events PollNotModified ms = n"
  using assms
proof (induction rule: poll_trace.induct)
  case (poll n ms as d)
  have d: "poll_events x [ObserveFeedPoll d] = 0" "error_events y [ObserveFeedPoll d] = 0" "duration_events [ObserveFeedPoll d] = 1"
    for x y by (simp_all add: poll_events_def error_events_def duration_events_def)
  { case 1 show ?case using poll attempt_events [OF poll(2)] d by (simp add: sum_list_addf) }
  { case 2 show ?case using poll attempt_events [OF poll(2)] d by simp }
  { case 3 show ?case using poll attempt_events [OF poll(2)] d by (simp add: sum_list_addf) }
qed (simp_all add: poll_events_def error_events_def duration_events_def sum_list_0)

locale poll_sink =
  fixes call :: "metric \<Rightarrow> 's \<Rightarrow> 's" and polls :: "'s \<Rightarrow> PollResult \<Rightarrow> nat"
    and samples :: "'s \<Rightarrow> nat" and errs :: "'s \<Rightarrow> ErrorReason \<Rightarrow> nat"
  assumes polls_call: "polls (call e s) x = polls s x + poll_events x [e]"
    and samples_call: "samples (call e s) = samples s + duration_events [e]"
    and errs_call: "errs (call e s) y = errs s y + error_events y [e]"
begin

lemma polls_fold: "polls (fold call ms s) x = polls s x + poll_events x ms"
  by (induction ms arbitrary: s) (simp_all add: polls_call poll_events_def)

lemma samples_fold: "samples (fold call ms s) = samples s + duration_events ms"
  by (induction ms arbitrary: s) (simp_all add: samples_call duration_events_def)

lemma errs_fold: "errs (fold call ms s) y = errs s y + error_events y ms"
  by (induction ms arbitrary: s) (simp_all add: errs_call error_events_def)

text \<open>The three vectors agree after any polls.\<close>

lemma polls_agree:
  assumes "poll_trace n ms" and "\<And>x. polls s x = 0" and "samples s = 0" and "\<And>y. errs s y = 0"
  shows "(\<Sum>x\<leftarrow>AllPollResults. polls (fold call ms s) x) = n" and "samples (fold call ms s) = n"
    and "(\<Sum>y\<leftarrow>AllReasons. errs (fold call ms s) y) + polls (fold call ms s) PollSuccess
      + polls (fold call ms s) PollNotModified = n"
  using poll_trace_events [OF assms(1)] assms(2-4) by (simp_all add: polls_fold samples_fold errs_fold)

end

interpretation recorder: poll_sink rec_call "\<lambda>m x. count_list (rm_pollResults m) x" "\<lambda>m. length (rm_pollDurations m)"
    "\<lambda>m y. count_list (rm_errors m) (CompFeedPoll, y)"
proof
  show "count_list (rm_pollResults (rec_call e m)) x = count_list (rm_pollResults m) x + poll_events x [e]" for e m x
    by (cases e) (simp_all add: poll_events_def)
  show "length (rm_pollDurations (rec_call e m)) = length (rm_pollDurations m) + duration_events [e]" for e m
    by (cases e) (simp_all add: duration_events_def)
  show "count_list (rm_errors (rec_call e m)) (CompFeedPoll, y)
      = count_list (rm_errors m) (CompFeedPoll, y) + error_events y [e]" for e m y
    by (cases e) (auto simp: error_events_def)
qed

text \<open>A recording is the trace, sorted by method.\<close>

lemma recorder_snapshots:
  "rm_pollResults (fold rec_call ms m) = rm_pollResults m @ [x. FeedPollDone x \<leftarrow> ms]"
  "rm_pollDurations (fold rec_call ms m) = rm_pollDurations m @ [d. ObserveFeedPoll d \<leftarrow> ms]"
  "rm_errors (fold rec_call ms m) = rm_errors m @ [(c, y). ErrorObserved c y \<leftarrow> ms]"
  "rm_pollInflight (fold rec_call ms m) = rm_pollInflight m + sum_list [n. AddPollInflight n \<leftarrow> ms]"
proof (induction ms arbitrary: m)
  case (Cons e ms)
  { case 1 show ?case using Cons(1) by (cases e) simp_all }
  { case 2 show ?case using Cons(2) by (cases e) simp_all }
  { case 3 show ?case using Cons(3) by (cases e) simp_all }
  { case 4 show ?case using Cons(4) by (cases e) simp_all }
qed simp_all

section \<open>What Prometheus is asked for\<close>

text \<open>The documented behaviour of the client: a counter or histogram starts to be exposed when its labels are
  first asked for, and goes up by one with each increment or observation; gauges are other names.\<close>

definition prom_ok :: "'r prom \<Rightarrow> bool" where
  "prom_ok lib \<longleftrightarrow>
     (\<forall>n ls r n' ls'. pm_total lib (pm_touch lib n ls r) n' ls'
        = (if n' = n \<and> ls' = ls \<and> pm_total lib r n ls = None then Some 0 else pm_total lib r n' ls'))
   \<and> (\<forall>n ls r n' ls'. pm_total lib (pm_inc lib n ls r) n' ls'
        = (if n' = n \<and> ls' = ls then Some (Suc (case pm_total lib r n ls of None \<Rightarrow> 0 | Some k \<Rightarrow> k)) else pm_total lib r n' ls'))
   \<and> (\<forall>n ls v r n' ls'. pm_total lib (pm_observe lib n ls v r) n' ls'
        = (if n' = n \<and> ls' = ls then Some (Suc (case pm_total lib r n ls of None \<Rightarrow> 0 | Some k \<Rightarrow> k)) else pm_total lib r n' ls'))
   \<and> (\<forall>n ls v r n' ls'. n' \<noteq> n \<longrightarrow> pm_total lib (pm_add lib n ls v r) n' ls' = pm_total lib r n' ls'
        \<and> pm_total lib (pm_set lib n ls v r) n' ls' = pm_total lib r n' ls')"

definition shown :: "'r prom \<Rightarrow> 'r \<Rightarrow> string \<Rightarrow> string list \<Rightarrow> nat" where
  "shown lib r n ls = (case pm_total lib r n ls of None \<Rightarrow> 0 | Some k \<Rightarrow> k)"

definition polls_shown :: "'r prom \<Rightarrow> 'r \<Rightarrow> PollResult \<Rightarrow> nat" where
  "polls_shown lib r x = shown lib r ''bfeed_feed_polls_total'' [poll_label x]"

definition samples_shown :: "'r prom \<Rightarrow> 'r \<Rightarrow> nat" where
  "samples_shown lib r = shown lib r ''bfeed_feed_poll_duration_seconds'' []"

definition errors_shown :: "'r prom \<Rightarrow> 'r \<Rightarrow> ErrorReason \<Rightarrow> nat" where
  "errors_shown lib r y = shown lib r ''bfeed_errors_total'' [component_label CompFeedPoll, reason_label y]"

lemma prom_shown:
  assumes "prom_ok lib"
  shows "shown lib (pm_touch lib n ls r) n' ls' = shown lib r n' ls'"
    and "shown lib (pm_inc lib n ls r) n' ls' = shown lib r n' ls' + (if n' = n \<and> ls' = ls then 1 else 0)"
    and "shown lib (pm_observe lib n ls v r) n' ls' = shown lib r n' ls' + (if n' = n \<and> ls' = ls then 1 else 0)"
    and "n' \<noteq> n \<Longrightarrow> shown lib (pm_add lib n ls v r) n' ls' = shown lib r n' ls'"
    and "n' \<noteq> n \<Longrightarrow> shown lib (pm_set lib n ls v r) n' ls' = shown lib r n' ls'"
  using assms by (auto simp: prom_ok_def shown_def)

lemma prom_sink: "prom_ok lib \<Longrightarrow> poll_sink (prom_call lib) (polls_shown lib) (samples_shown lib) (errors_shown lib)"
proof
  assume ok: "prom_ok lib"
  note sh = prom_shown [OF ok]
  show "polls_shown lib (prom_call lib e r) x = polls_shown lib r x + poll_events x [e]" for e r x
    by (cases e) (auto simp: polls_shown_def poll_events_def sh)
  show "samples_shown lib (prom_call lib e r) = samples_shown lib r + duration_events [e]" for e r
    by (cases e) (auto simp: samples_shown_def duration_events_def sh)
  show "errors_shown lib (prom_call lib e r) y = errors_shown lib r y + error_events y [e]" for e r y
    by (cases e) (auto simp: errors_shown_def error_events_def sh simp del: component_label.simps)
qed

lemma prom_touch: "prom_ok lib \<Longrightarrow> pm_total lib (pm_touch lib n ls r) n' ls'
    = (if n' = n \<and> ls' = ls \<and> pm_total lib r n ls = None then Some 0 else pm_total lib r n' ls')"
  by (simp add: prom_ok_def)

lemma prom_set_other: "prom_ok lib \<Longrightarrow> n' \<noteq> n \<Longrightarrow> pm_total lib (pm_set lib n ls v r) n' ls' = pm_total lib r n' ls'"
  by (simp add: prom_ok_def)

lemma touches_other:
  "prom_ok lib \<Longrightarrow> n' \<noteq> n \<Longrightarrow> pm_total lib (foldl (\<lambda>r x. pm_touch lib n (ls x) r) r xs) n' ls' = pm_total lib r n' ls'"
  by (induction xs arbitrary: r) (simp_all add: prom_touch)

lemma touches_exposed:
  "prom_ok lib \<Longrightarrow> pm_total lib (foldl (\<lambda>r x. pm_touch lib n [poll_label x] r) r xs) n [poll_label x]
    = (if x \<in> set xs \<and> pm_total lib r n [poll_label x] = None then Some 0 else pm_total lib r n [poll_label x])"
  by (induction xs arbitrary: r) (auto simp: prom_touch)

lemma all_polls: "x \<in> set AllPollResults"
  by (cases x) (simp_all add: AllPollResults_def)

lemma NewMetrics_shown:
  assumes "prom_ok lib" and "\<And>n ls. pm_total lib r0 n ls = None"
  shows "polls_shown lib (NewMetrics lib v r0) x = 0" "samples_shown lib (NewMetrics lib v r0) = 0"
    "errors_shown lib (NewMetrics lib v r0) y = 0" "pm_total lib (NewMetrics lib v r0) ''bfeed_feed_polls_total'' [poll_label x] = Some 0"
proof -
  note sh = prom_shown [OF assms(1)]
  have "shown lib r0 n ls = 0" for n ls by (simp add: shown_def assms(2))
  then have "shown lib (NewMetrics lib v r0) n ls = 0" if "n \<noteq> ''bfeed_build_info''" for n ls
    using that by (simp add: NewMetrics_def sh AllPollResults_def AllScrapeResults_def)
  then show "polls_shown lib (NewMetrics lib v r0) x = 0" "samples_shown lib (NewMetrics lib v r0) = 0"
    "errors_shown lib (NewMetrics lib v r0) y = 0"
    by (simp_all add: polls_shown_def samples_shown_def errors_shown_def)
  let ?r = "foldl (\<lambda>r x. pm_touch lib ''bfeed_feed_polls_total'' [poll_label x] r) r0 AllPollResults"
  have "pm_total lib ?r ''bfeed_feed_polls_total'' [poll_label x] = Some 0"
    using touches_exposed [OF assms(1), of "''bfeed_feed_polls_total''" r0 AllPollResults x] assms(2) all_polls [of x] by simp
  then show "pm_total lib (NewMetrics lib v r0) ''bfeed_feed_polls_total'' [poll_label x] = Some 0"
    by (simp add: NewMetrics_def prom_set_other [OF assms(1)] touches_other [OF assms(1)])
qed

lemma prom_call_exposed:
  "prom_ok lib \<Longrightarrow> pm_total lib r ''bfeed_feed_polls_total'' ls \<noteq> None
   \<Longrightarrow> pm_total lib (prom_call lib e r) ''bfeed_feed_polls_total'' ls \<noteq> None"
  by (cases e) (simp_all add: prom_ok_def)

lemma prom_calls_exposed:
  "prom_ok lib \<Longrightarrow> pm_total lib r ''bfeed_feed_polls_total'' ls \<noteq> None
   \<Longrightarrow> pm_total lib (fold (prom_call lib) ms r) ''bfeed_feed_polls_total'' ls \<noteq> None"
proof (induction ms arbitrary: r)
  case (Cons e ms)
  from Cons.IH [OF Cons.prems(1) prom_call_exposed [OF Cons.prems, of e]] show ?case by (simp del: not_None_eq)
qed simp

text \<open>Polls of the feeds of a list, one after the other.\<close>

definition poll_each ::
  "'s store_ops \<Rightarrow> env \<Rightarrow> (f64 \<Rightarrow> int) \<Rightarrow> FeedServiceConfig \<Rightarrow> Feed list \<Rightarrow> 's world \<Rightarrow> 's world" where
  "poll_each ops E oob cfg fs w = fold (\<lambda>f w. snd (PollFeed ops E oob cfg (w\<lparr>w_feed := f\<rparr>))) fs w"

lemma poll_each_trace:
  "\<exists>n ms. n \<le> length fs \<and> poll_trace n ms \<and> w_trace (poll_each ops E oob cfg fs w) = w_trace w @ ms"
proof (induction fs rule: rev_induct)
  case (snoc f fs)
  then obtain n ms where n: "n \<le> length fs" "poll_trace n ms" "w_trace (poll_each ops E oob cfg fs w) = w_trace w @ ms"
    by blast
  let ?v = "(poll_each ops E oob cfg fs w)\<lparr>w_feed := f\<rparr>"
  have last: "poll_each ops E oob cfg (fs @ [f]) w = snd (PollFeed ops E oob cfg ?v)" by (simp add: poll_each_def)
  obtain err w' where p: "PollFeed ops E oob cfg ?v = (Ret err, w')"
    "if poll_cancelled E ?v then w_trace w' = w_trace ?v
     else \<exists>as d. attempt as \<and> w_trace w' = w_trace ?v @ as @ [ObserveFeedPoll d]"
    using PollFeed_trace [of ops E oob cfg ?v] by blast
  show ?case
  proof (cases "poll_cancelled E ?v")
    case True
    then show ?thesis using n p last by (intro exI [of _ n] exI [of _ ms]) simp
  next
    case False
    then obtain as d where "attempt as" "w_trace w' = w_trace ?v @ as @ [ObserveFeedPoll d]" using p by auto
    then show ?thesis
      using n p last poll_trace.poll [OF n(2), of as d]
      by (intro exI [of _ "Suc n"] exI [of _ "ms @ as @ [ObserveFeedPoll d]"]) simp
  qed
qed (simp add: poll_each_def poll_trace.no_poll)

section \<open>The gauges of the store\<close>

text \<open>A gauge that is shown has the count of the database at the scrape, whatever became of the others.\<close>

definition gauge_count :: "db \<Rightarrow> time \<Rightarrow> string \<Rightarrow> int" where
  "gauge_count d now name =
     (if name = ''bfeed_users'' then int (length (users d))
      else if name = ''bfeed_feeds'' then int (length (feeds d))
      else if name = ''bfeed_entries'' then int (length (entries d))
      else if name = ''bfeed_poll_backlog'' then count_where (feed_due (toUnix now)) (feeds d)
      else count_where (extraction_due (Some (toUnix now))) (entries d))"

lemma stat_gauge_count:
  assumes "(name, count) \<in> set stat_gauges" and "count cx now c = (r, c')"
  shows "cn_db c' = cn_db c \<and> (\<forall>k. r = Inr k \<longrightarrow> k = gauge_count (cn_db c) now name)"
proof -
  have count: "(\<And>d. s d = (Inr (g d), d)) \<Longrightarrow> mapped (exec cx s) c = (r, c')
      \<Longrightarrow> cn_db c' = cn_db c \<and> (\<forall>k. r = Inr k \<longrightarrow> k = g (cn_db c))"
    for cx and s :: "int stmt" and c r c' g
    by (auto simp: mapped_def exec_def Let_def split: option.splits list.splits)
  note sql = sql_CountUsers_def sql_CountFeeds_def sql_CountEntries_def sql_CountDueFeeds_def sql_CountDueExtractions_def
  from assms(1) consider "name = ''bfeed_users''" "count = (\<lambda>cx _. CountUsers cx)"
    | "name = ''bfeed_feeds''" "count = (\<lambda>cx _. CountFeeds cx)"
    | "name = ''bfeed_entries''" "count = (\<lambda>cx _. CountEntries cx)"
    | "name = ''bfeed_poll_backlog''" "count = (CountDueFeeds)"
    | "name = ''bfeed_scrape_backlog''" "count = (CountDueExtractions)"
    unfolding stat_gauges_def list.set insert_iff empty_iff prod.inject by argo
  then show ?thesis
  proof cases
    case 1
    with assms(2) show ?thesis
      using count [of "sql_CountUsers" "\<lambda>d. int (length (users d))" cx c r c']
      by (simp add: CountUsers_def sql gauge_count_def)
  next
    case 2
    with assms(2) show ?thesis
      using count [of "sql_CountFeeds" "\<lambda>d. int (length (feeds d))" cx c r c']
      by (simp add: CountFeeds_def sql gauge_count_def)
  next
    case 3
    with assms(2) show ?thesis
      using count [of "sql_CountEntries" "\<lambda>d. int (length (entries d))" cx c r c']
      by (simp add: CountEntries_def sql gauge_count_def)
  next
    case 4
    with assms(2) show ?thesis
      using count [of "sql_CountDueFeeds (toUnix now)" "\<lambda>d. count_where (feed_due (toUnix now)) (feeds d)" cx c r c']
      by (simp add: CountDueFeeds_def sql gauge_count_def)
  next
    case 5
    with assms(2) show ?thesis
      using count [of "sql_CountDueExtractions (nullUnix (Some now))" "\<lambda>d. count_where (extraction_due (Some (toUnix now))) (entries d)" cx c r c']
      by (simp add: CountDueExtractions_def sql gauge_count_def nullUnix_def toUnix_def)
  qed
qed

lemma collect_truthful:
  "set gs \<subseteq> set stat_gauges \<Longrightarrow> collect_from cxs now gs n c = (ms, c') \<Longrightarrow>
   cn_db c' = cn_db c \<and> (\<forall>(name, v) \<in> set ms. v = f64_of_int (gauge_count (cn_db c) now name))"
proof (induction gs arbitrary: n c ms c')
  case (Cons g gs)
  obtain name count where g: "g = (name, count)" by fastforce
  obtain r c1 where r: "count (cxs n) now c = (r, c1)" by fastforce
  obtain ms1 c2 where rest: "collect_from cxs now gs (Suc n) c1 = (ms1, c2)" by fastforce
  have "(name, count) \<in> set stat_gauges" using Cons.prems(1) g by simp
  from stat_gauge_count [OF this r] Cons.IH [OF _ rest] Cons.prems
  show ?case by (cases r) (auto simp: g r rest)
qed simp

end
