(* ===== verification/SinkProps.thy ===== *)
theory SinkProps
  imports MetricSinks PollProps
begin

text \<open>What Prometheus shows of the polls, whatever store, network and clock do.\<close>

text \<open>A client that keeps its totals in a function.\<close>

type_synonym totals = "string \<Rightarrow> string list \<Rightarrow> nat option"

definition bump :: "string \<Rightarrow> string list \<Rightarrow> totals \<Rightarrow> totals" where
  "bump n ls r = r(n := (r n)(ls \<mapsto> Suc (case r n ls of None \<Rightarrow> 0 | Some k \<Rightarrow> k)))"

definition plain_client :: "totals prom" where
  "plain_client = \<lparr>pm_touch = (\<lambda>n ls r. if r n ls = None then r(n := (r n)(ls \<mapsto> 0)) else r), pm_inc = bump,
     pm_observe = (\<lambda>n ls v. bump n ls), pm_add = (\<lambda>n ls v r. r), pm_set = (\<lambda>n ls v r. r), pm_total = (\<lambda>r. r)\<rparr>"


text \<open>C26. The exported metrics are consistent: after any polls, on any store, the outcome counters are all
  exposed, zeros included, they add up to the number of samples of the duration histogram, which is at
  most the number of polls (those cut off by shutdown are left out), and the error counters of the poller
  add up to the polls that neither succeeded nor were told that nothing changed.\<close>

theorem exported_totals:
  assumes "prom_ok lib" and "\<forall>n ls. pm_total lib r0 n ls = None" and "w_trace w = []"
    and "r = fold (prom_call lib) (w_trace (poll_each ops E oob cfg fs w)) (NewMetrics lib v r0)"
  shows "(\<forall>x. pm_total lib r ''bfeed_feed_polls_total'' [poll_label x] \<noteq> None)
     \<and> (\<Sum>x\<leftarrow>AllPollResults. polls_shown lib r x) = samples_shown lib r \<and> samples_shown lib r \<le> length fs
     \<and> (\<Sum>y\<leftarrow>AllReasons. errors_shown lib r y) + polls_shown lib r PollSuccess + polls_shown lib r PollNotModified
        = samples_shown lib r"
proof -
  obtain n ms where n: "n \<le> length fs" "poll_trace n ms" "w_trace (poll_each ops E oob cfg fs w) = ms"
    using poll_each_trace [of fs ops E oob cfg w] assms(3) by auto
  note new = NewMetrics_shown [OF assms(1), of r0] assms(2)
  note agree = poll_sink.polls_agree [OF prom_sink [OF assms(1)] n(2), of "NewMetrics lib v r0"]
  have "pm_total lib r ''bfeed_feed_polls_total'' [poll_label x] \<noteq> None" for x
    unfolding assms(4) using new by (intro prom_calls_exposed [OF assms(1)]) simp
  then show ?thesis using agree new n by (simp add: assms(4))
qed

lemma plain_client_ok: "prom_ok plain_client"
  by (simp add: prom_ok_def plain_client_def bump_def)

theorem exported_totals_witness:
  "let r = fold (prom_call plain_client)
       (w_trace (poll_each (sqlite_ops (\<lambda>s. s)) sample_env (\<lambda>_. 0) sample_cfg [w_feed sample_world] sample_world))
       (NewMetrics plain_client ''1.0'' (\<lambda>_ _. None))
   in (\<Sum>x\<leftarrow>AllPollResults. polls_shown plain_client r x) = samples_shown plain_client r
     \<and> samples_shown plain_client r = 1"
proof -
  let ?w = "poll_each (sqlite_ops (\<lambda>s. s)) sample_env (\<lambda>_. 0) sample_cfg [w_feed sample_world] sample_world"
  let ?r = "fold (prom_call plain_client) (w_trace ?w) (NewMetrics plain_client ''1.0'' (\<lambda>_ _. None))"
  have "\<forall>n ls. pm_total plain_client (\<lambda>_ _. None) n ls = None" "w_trace sample_world = []"
    by (simp_all add: plain_client_def sample_world_def)
  note all = exported_totals [OF plain_client_ok this refl, where ops = "sqlite_ops (\<lambda>s. s)" and E = sample_env
      and oob = "\<lambda>_. 0" and cfg = sample_cfg and fs = "[w_feed sample_world]" and v = "''1.0''"]
  have "duration_events (w_trace ?w) = 1" by code_simp
  then have "samples_shown plain_client ?r = 1"
    using poll_sink.samples_fold [OF prom_sink [OF plain_client_ok]] NewMetrics_shown(2) [OF plain_client_ok]
    by (simp add: plain_client_def)
  then show ?thesis using all by (simp add: Let_def)
qed

end
