(* ===== verification/Export.thy ===== *)
theory Export
  imports Opml Config Backfill WebRoutes
begin

text \<open>
  \<open>cmd/bfeed/export.go\<close>: the command that writes the subscriptions as OPML, with \<open>flag\<close> and the file
  operations of \<open>os\<close> it uses. The state is the database connection, the other files and the two output
  streams; the operating system may fail any call.
\<close>

section \<open>\<open>path/filepath\<close>\<close>

text \<open>\<open>filepath.Clean\<close> and \<open>filepath.Dir\<close> of Unix.\<close>

definition clean_part :: "bool \<Rightarrow> string \<Rightarrow> string list \<Rightarrow> string list" where
  "clean_part rooted c acc =
     (if c = [] \<or> c = ''.'' then acc
      else if c = ''..'' then
        (case acc of
           [] \<Rightarrow> (if rooted then [] else [c])
         | x # xs \<Rightarrow> if x = ''..'' then c # acc else xs)
      else c # acc)"

fun join_slash :: "string list \<Rightarrow> string" where
  "join_slash [] = []"
| "join_slash [p] = p"
| "join_slash (p # ps) = p @ ''/'' @ join_slash ps"

definition Clean :: "string \<Rightarrow> string" where
  "Clean path =
     (let rooted = has_prefix path ''/'';
          parts = rev (fold (clean_part rooted) (split_slash path) []);
          out = (if rooted then ''/'' else []) @ join_slash parts
      in if out = [] then ''.'' else out)"

definition Dir :: "string \<Rightarrow> string" where
  "Dir path = Clean (rev (dropWhile (\<lambda>c. c \<noteq> CHR ''/'') (rev path)))"

section \<open>\<open>flag\<close>\<close>

text \<open>\<open>FlagSet.Parse\<close> with the one string flag \<open>-o\<close>: its value and the arguments that are left.\<close>

datatype flags = Parsed string "string list" | FlagHelp | FlagError string

fun cut_eq :: "string \<Rightarrow> string \<times> string option" where
  "cut_eq [] = ([], None)"
| "cut_eq (c # s) = (if c = CHR ''='' then ([], Some s) else (case cut_eq s of (n, v) \<Rightarrow> (c # n, v)))"

fun flag_Parse :: "string \<Rightarrow> string list \<Rightarrow> flags" where
  "flag_Parse path [] = Parsed path []"
| "flag_Parse path (s # args) =
     (if length s < 2 \<or> hd s \<noteq> CHR ''-'' then Parsed path (s # args)
      else if s = ''--'' then Parsed path args
      else let name = (if s ! 1 = CHR ''-'' then drop 2 s else drop 1 s) in
        if name = [] \<or> hd name = CHR ''-'' \<or> hd name = CHR ''='' then FlagError (''bad flag syntax: '' @ s)
        else case cut_eq name of (n, v) \<Rightarrow>
          if n = ''help'' \<or> n = ''h'' then FlagHelp
          else if n \<noteq> ''o'' then FlagError (''flag provided but not defined: -'' @ n)
          else (case v of
              Some v \<Rightarrow> flag_Parse v args
            | None \<Rightarrow> (case args of [] \<Rightarrow> FlagError ''flag needs an argument: -o'' | v # rest \<Rightarrow> flag_Parse v rest)))"

definition export_usage :: string where
  "export_usage = ''Usage of export:'' @ [CHR 0x0A] @ ''  -o string'' @ [CHR 0x0A, CHR 0x09]
     @ ''write OPML to file (default: stdout)'' @ [CHR 0x0A]"

section \<open>Files\<close>

text \<open>The files beside the database's own: a directory of entries that lead to inodes (a symbolic link leads
  where it points to), what is in each inode, and the next fresh one.\<close>

record cmd_state =
  xs_db :: conn
  xs_dir :: "string \<Rightarrow> nat option"
  xs_data :: "nat \<Rightarrow> string"
  xs_next :: nat
  xs_stdout :: string
  xs_stderr :: "string list"

text \<open>The operating system: which entry a path names, which calls fail, how much of a failed write is
  written, the random numbers of \<open>CreateTemp\<close>; and the libraries.\<close>

record cmd_lib =
  cl_entry :: "string \<Rightarrow> string"
  cl_fail :: "string \<Rightarrow> string \<Rightarrow> gerr option"
  cl_short :: "string \<Rightarrow> nat"
  cl_random :: "nat \<Rightarrow> string"
  cl_sys :: sys_lib
  cl_unescape :: "string \<Rightarrow> string"
  cl_goose :: "unit op"
  cl_xml :: "opmlOutline list \<Rightarrow> gerr + string"

definition os_Stat :: "cmd_lib \<Rightarrow> string \<Rightarrow> cmd_state \<Rightarrow> gerr + nat" where
  "os_Stat lib path st =
     (case cl_fail lib ''stat'' path of
        Some e \<Rightarrow> Inl e
      | None \<Rightarrow> (case xs_dir st (cl_entry lib path) of
            None \<Rightarrow> Inl (errors_New (''stat '' @ path @ '': no such file or directory''))
          | Some i \<Rightarrow> Inr i))"

definition temp_path :: "string \<Rightarrow> string \<Rightarrow> string" where
  "temp_path dir rnd = (if rev dir \<noteq> [] \<and> hd (rev dir) = CHR ''/'' then dir else dir @ ''/'') @ ''.bfeed-export-'' @ rnd"

text \<open>\<open>os.CreateTemp\<close>: the first of ten thousand random names that does not exist; the file opened is its
  name and its inode.\<close>

function CreateTemp :: "cmd_lib \<Rightarrow> string \<Rightarrow> nat \<Rightarrow> cmd_state \<Rightarrow> (gerr + string \<times> nat) \<times> cmd_state" where
  "CreateTemp lib dir i st =
     (let name = temp_path dir (cl_random lib i) in
      case cl_fail lib ''open'' name of
        Some e \<Rightarrow> (Inl e, st)
      | None \<Rightarrow>
          if xs_dir st (cl_entry lib name) = None then
            (Inr (name, xs_next st), st\<lparr>xs_dir := (xs_dir st)(cl_entry lib name \<mapsto> xs_next st),
               xs_data := (xs_data st)(xs_next st := []), xs_next := Suc (xs_next st)\<rparr>)
          else if Suc i < 10000 then CreateTemp lib dir (Suc i) st
          else (Inl (errors_New (''createtemp '' @ dir @ '': file exists'')), st))"
  by pat_completeness auto
termination by (relation "measure (\<lambda>(lib, dir, i, st). 10000 - i)") auto

declare CreateTemp.simps [simp del]

definition file_Write :: "cmd_lib \<Rightarrow> string \<times> nat \<Rightarrow> string \<Rightarrow> cmd_state \<Rightarrow> gerr option \<times> cmd_state" where
  "file_Write lib f data st =
     (let failed = cl_fail lib ''write'' (fst f);
          n = (if failed = None then length data else cl_short lib (fst f))
      in (failed, st\<lparr>xs_data := (xs_data st)(snd f := xs_data st (snd f) @ take n data)\<rparr>))"

definition stdout_Write :: "cmd_lib \<Rightarrow> string \<Rightarrow> cmd_state \<Rightarrow> gerr option \<times> cmd_state" where
  "stdout_Write lib data st =
     (let failed = cl_fail lib ''write'' ''/dev/stdout'';
          n = (if failed = None then length data else cl_short lib ''/dev/stdout'')
      in (failed, st\<lparr>xs_stdout := xs_stdout st @ take n data\<rparr>))"

definition os_Rename :: "cmd_lib \<Rightarrow> string \<Rightarrow> string \<Rightarrow> cmd_state \<Rightarrow> gerr option \<times> cmd_state" where
  "os_Rename lib old new st =
     (case cl_fail lib ''rename'' old of
        Some e \<Rightarrow> (Some e, st)
      | None \<Rightarrow> (case xs_dir st (cl_entry lib old) of
            None \<Rightarrow> (Some (errors_New (''rename '' @ old @ '': no such file or directory'')), st)
          | Some i \<Rightarrow> (None, st\<lparr>xs_dir := ((xs_dir st)(cl_entry lib old := None))(cl_entry lib new \<mapsto> i)\<rparr>)))"

definition os_Remove :: "cmd_lib \<Rightarrow> string \<Rightarrow> cmd_state \<Rightarrow> cmd_state" where
  "os_Remove lib path st =
     (if cl_fail lib ''remove'' path \<noteq> None then st else st\<lparr>xs_dir := (xs_dir st)(cl_entry lib path := None)\<rparr>)"

section \<open>\<open>runExport\<close>\<close>

definition writeExportFile :: "cmd_lib \<Rightarrow> string \<Rightarrow> string \<Rightarrow> cmd_state \<Rightarrow> gerr option \<times> cmd_state" where
  "writeExportFile lib path data st =
     (case CreateTemp lib (Dir path) 0 st of
        (Inl e, st) \<Rightarrow> (Some e, st)
      | (Inr file, st) \<Rightarrow>
          (let (r, st) = (case file_Write lib file data st of
                  (Some e, st) \<Rightarrow> (Some e, st)
                | (None, st) \<Rightarrow>
                    (case cl_fail lib ''close'' (fst file) of
                       Some e \<Rightarrow> (Some e, st)
                     | None \<Rightarrow> os_Rename lib (fst file) path st))
           in (r, os_Remove lib (fst file) st)))"

text \<open>\<open>fmt.Fprintln(stderr, what, err)\<close> and the exit code.\<close>

definition complain :: "string \<Rightarrow> int \<Rightarrow> cmd_state \<Rightarrow> int \<times> cmd_state" where
  "complain line code st = (code, st\<lparr>xs_stderr := xs_stderr st @ [line]\<rparr>)"

definition db_call :: "'a op \<Rightarrow> string \<Rightarrow> ('a \<Rightarrow> cmd_state \<Rightarrow> int \<times> cmd_state) \<Rightarrow> cmd_state \<Rightarrow> int \<times> cmd_state" where
  "db_call m what k st =
     (case m (xs_db st) of
        (Inl e, c) \<Rightarrow> complain (what @ '' '' @ err_text e) 1 (st\<lparr>xs_db := c\<rparr>)
      | (Inr a, c) \<Rightarrow> k a (st\<lparr>xs_db := c\<rparr>))"

definition DatabasePath :: "cmd_lib \<Rightarrow> string" where
  "DatabasePath lib = fst (snd (LoadMinimal (cl_sys lib)))"

definition export_to :: "cmd_lib \<Rightarrow> string \<Rightarrow> cmd_state \<Rightarrow> int \<times> cmd_state" where
  "export_to lib path =
     db_call (Open (cl_unescape lib) (cl_goose lib) None) ''export:'' (\<lambda>_.
     db_call (ListFeeds None DefaultUserID) ''export feeds:'' (\<lambda>fs.
     db_call (ListCategories None DefaultUserID) ''export categories:'' (\<lambda>cats st.
     case MarshalOPML (cl_xml lib) (sy_url (cl_sys lib)) fs cats of
       Inl e \<Rightarrow> complain (''export OPML: '' @ err_text e) 1 st
     | Inr data \<Rightarrow>
         (case (if path \<noteq> [] then writeExportFile lib path data st else stdout_Write lib data st) of
            (Some e, st) \<Rightarrow> complain (''write OPML: '' @ err_text e) 1 st
          | (None, st) \<Rightarrow> (0, st)))))"

definition runExport :: "cmd_lib \<Rightarrow> string list \<Rightarrow> cmd_state \<Rightarrow> int \<times> cmd_state" where
  "runExport lib args st =
     (case flag_Parse [] args of
        FlagHelp \<Rightarrow> complain export_usage 0 st
      | FlagError msg \<Rightarrow> complain (msg @ [CHR 0x0A] @ export_usage) 2 st
      | Parsed path rest \<Rightarrow>
          if rest \<noteq> [] then complain ''usage: bfeed export [-o file.opml]'' 2 st
          else case os_Stat lib (DatabasePath lib) st of
              Inl e \<Rightarrow> complain (''export: '' @ err_text e) 1 st
            | Inr dbInfo \<Rightarrow>
                if path \<noteq> [] \<and> os_Stat lib path st = Inr dbInfo
                then complain ''export: output path is the database'' 1 st
                else export_to lib path st)"

end
