(* ===== verification/Extract.thy ===== *)
theory Extract
  imports Parse
begin

text \<open>
  \<open>internal/extract/extract.go\<close>: the article of a fetched page. The HTML parser, Readability, the charset
  sniffer and the Unicode normal forms are the argument \<open>lib\<close>; parser and Readability may panic.
\<close>

record ('doc, 'art) extract_lib =
  xl_url :: url_lib
  xl_charset :: "string \<Rightarrow> string \<Rightarrow> (reader \<Rightarrow> reader) \<times> string \<times> bool"  \<comment> \<open>\<open>DetermineEncoding\<close>: decoder, name, certain\<close>
  xl_NFD :: "reader \<Rightarrow> reader"
  xl_Remove :: "(nat \<Rightarrow> bool) \<Rightarrow> reader \<Rightarrow> reader"           \<comment> \<open>\<open>runes.Remove\<close> of a predicate on code points\<close>
  xl_NFC :: "reader \<Rightarrow> reader"
  xl_html :: "reader \<Rightarrow> (gerr + 'doc) outcome"
  xl_readability :: "'doc \<Rightarrow> URL \<Rightarrow> (gerr + 'art) outcome"  \<comment> \<open>\<open>ParseAndMutate\<close>\<close>
  xl_render :: "'art \<Rightarrow> (gerr + string) outcome"              \<comment> \<open>\<open>RenderHTML\<close>\<close>

definition recompose :: "('d, 'a) extract_lib \<Rightarrow> reader \<Rightarrow> reader" where
  "recompose lib r = xl_NFC lib (xl_Remove lib (\<lambda>c. c = 0xAD) (xl_NFD lib r))"

definition x_decodeReader :: "('d, 'a) extract_lib \<Rightarrow> string \<Rightarrow> string \<Rightarrow> reader" where
  "x_decodeReader lib page contentType =
     (let (dec, name, certain) = xl_charset lib page contentType;
          r = (page, None);
          r = (if certain \<or> name \<noteq> ''windows-1252'' \<or> \<not> utf8_valid page then dec r else r)
      in recompose lib r)"

text \<open>A call with an error that is wrapped, and the rest when there is none.\<close>

definition step_out :: "string \<Rightarrow> (gerr + 'a) outcome \<Rightarrow> ('a \<Rightarrow> (gerr + 'b) outcome) \<Rightarrow> (gerr + 'b) outcome" where
  "step_out what m k =
     (case m of
        Panic p \<Rightarrow> Panic p
      | Ret (Inl e) \<Rightarrow> Ret (Inl (Errorf (what @ '': '' @ err_text e) [e]))
      | Ret (Inr a) \<Rightarrow> k a)"

definition Extract :: "('d, 'a) extract_lib \<Rightarrow> string \<Rightarrow> string \<Rightarrow> string \<Rightarrow> (gerr + string) outcome" where
  "Extract lib pageURL page contentType =
     step_out ''bad page url''
       (Ret (case ul_Parse (xl_url lib) pageURL of None \<Rightarrow> Inl (errors_New ''bad url'') | Some u \<Rightarrow> Inr u)) (\<lambda>u.
     step_out ''parse html'' (xl_html lib (x_decodeReader lib page contentType)) (\<lambda>doc.
     step_out ''readability'' (xl_readability lib doc u) (\<lambda>article.
     step_out ''readability render'' (xl_render lib article) (\<lambda>out.
     if TrimSpace out = [] then Ret (Inl (errors_New ''readability: no main content extracted''))
     else Ret (Inr out)))))"

text \<open>A page that is valid UTF-8 is not decoded as windows-1252 unless the sniffer is certain, and a page in
  another character set always is.\<close>

lemma x_decodeReader_mislabelled:
  assumes "xl_charset lib page ct = (dec, name, certain)"
  shows "x_decodeReader lib page ct =
    recompose lib (if \<not> certain \<and> name = ''windows-1252'' \<and> utf8_valid page then (page, None) else dec (page, None))"
  using assms by (simp add: x_decodeReader_def)

lemma step_out_article:
  "step_out what m k = Ret (Inr b) \<longleftrightarrow> (\<exists>a. m = Ret (Inr a) \<and> k a = Ret (Inr b))"
  by (auto simp: step_out_def split: outcome.splits sum.splits)

text \<open>An article that is returned is the rendering of what Readability found in the page, and never blank.\<close>

lemma Extract_article:
  "Extract lib pageURL page ct = Ret (Inr out) \<longleftrightarrow>
   (\<exists>u doc art. ul_Parse (xl_url lib) pageURL = Some u \<and> xl_html lib (x_decodeReader lib page ct) = Ret (Inr doc)
      \<and> xl_readability lib doc u = Ret (Inr art) \<and> xl_render lib art = Ret (Inr out) \<and> TrimSpace out \<noteq> [])"
  by (auto simp: Extract_def step_out_article split: option.splits if_splits)

end
