(* ===== verification/Serve.thy ===== *)
theory Serve
  imports Export Extract ImgProxy FetchClient FetchGuard WorkerPool ScrapeService FeedService Dom
begin

text \<open>
  \<open>cmd/bfeed\<close>: what \<open>serve.go\<close> makes of a loaded configuration (the configurations of fetch client,
  services, worker pools and web server, and the environment the services run in), its start and its shutdown, and the
  dispatch of the commands in \<open>main.go\<close>; and \<open>NewLogger\<close> of \<open>internal/observability/log.go\<close>. Log lines are
  left out, as everywhere.
\<close>

section \<open>\<open>NewLogger\<close>\<close>

datatype log_level = LevelDebug | LevelInfo | LevelWarn | LevelError

text \<open>The numbers of \<open>log/slog\<close>, by which a record is kept or dropped.\<close>

fun level_number :: "log_level \<Rightarrow> int" where
  "level_number LevelDebug = - 4" | "level_number LevelInfo = 0" | "level_number LevelWarn = 4" | "level_number LevelError = 8"

lemma level_number_inj [simp]: "level_number a = level_number b \<longleftrightarrow> a = b"
  by (cases a; cases b; simp)

instantiation log_level :: linorder
begin

definition less_eq_log_level :: "log_level \<Rightarrow> log_level \<Rightarrow> bool" where
  "less_eq_log_level a b \<longleftrightarrow> level_number a \<le> level_number b"

definition less_log_level :: "log_level \<Rightarrow> log_level \<Rightarrow> bool" where
  "less_log_level a b \<longleftrightarrow> level_number a < level_number b"

instance
  by standard (auto simp: less_eq_log_level_def less_log_level_def simp flip: level_number_inj)

end

datatype log_format = TextHandler | JSONHandler

definition NewLogger :: "url_lib \<Rightarrow> string \<Rightarrow> string \<Rightarrow> log_level \<times> log_format" where
  "NewLogger lib level format =
     (let l = ToLower (ul_lower lib) level in
      (if l = ''debug'' then LevelDebug else if l = ''warn'' then LevelWarn
       else if l = ''error'' then LevelError else LevelInfo,
       if ToLower (ul_lower lib) format = ''text'' then TextHandler else JSONHandler))"

text \<open>No setting, known or not, hides an error.\<close>

lemma errors_logged: "fst (NewLogger lib level format) \<le> LevelError"
  by (simp add: NewLogger_def less_eq_log_level_def Let_def)

section \<open>The configurations of the parts\<close>

text \<open>\<open>rand\<close> is \<open>rand.Int63n\<close>.\<close>

definition serve_fetch :: "string \<Rightarrow> Config \<Rightarrow> FetchConfig" where
  "serve_fetch version c =
     \<lparr>ft_UserAgent = ''bfeed/'' @ version @ '' (+'' @ cf_BaseURL c @ '')'', ft_HostConcurrency = cf_HostConcurrency c,
      ft_Timeout = 30 * Second, ft_MaxBytes = 10 * 2 ^ 20\<rparr>"

definition serve_guard :: "net_lib \<Rightarrow> Config \<Rightarrow> string \<Rightarrow> gerr option" where
  "serve_guard lib c address =
     (if cf_BlockPrivateNetworks c then guardDial lib (cf_AllowPrivateCIDRs c) address else None)"

definition serve_feed :: "(int \<Rightarrow> int) \<Rightarrow> Config \<Rightarrow> FeedServiceConfig" where
  "serve_feed rand c = normalize_cfg
     \<lparr>fc_Schedule = \<lparr>sc_MinInterval = cf_SchedMinInterval c, sc_MaxInterval = cf_SchedMaxInterval c, sc_Factor = cf_SchedFactor c\<rparr>,
      fc_Reschedule = \<lparr>rc_Interval = cf_SchedMinInterval c, rc_MaxBackoff = cf_MaxBackoff c\<rparr>,
      fc_Jitter = Some (serve_jitter rand)\<rparr>"

definition serve_scrape :: "(int \<Rightarrow> int) \<Rightarrow> Config \<Rightarrow> ScrapeServiceConfig" where
  "serve_scrape rand c = normalize_scrape
     \<lparr>ss_cfg = \<lparr>sg_MaxAttempts = cf_ScrapeMaxAttempts c, sg_BaseBackoff = 0, sg_MaxBackoff = 0\<rparr>,
      ss_Jitter = Some (serve_jitter rand)\<rparr>"

definition serve_poller :: "Config \<Rightarrow> PoolConfig" where
  "serve_poller c = normalize_poller \<lparr>pc_Tick = cf_PollTick c, pc_Batch = cf_BatchSize c, pc_Workers = cf_FeedWorkers c\<rparr>"

definition serve_scraper :: "Config \<Rightarrow> PoolConfig" where
  "serve_scraper c = normalize_scraper \<lparr>pc_Tick = cf_ScrapeTick c, pc_Batch = cf_ScrapeBatch c, pc_Workers = cf_ScrapeWorkers c\<rparr>"

section \<open>The environment of the services\<close>

text \<open>The outside: the clock, the context, the network and the answer of the host limiter at each question,
  and the libraries.\<close>

record ('d, 'a) outside =
  od_clock :: "nat \<Rightarrow> time"
  od_ctx :: "nat \<Rightarrow> ctx"
  od_http :: "nat \<Rightarrow> http_lib"
  od_acquire :: "nat \<Rightarrow> gerr option"
  od_parse :: parse_lib
  od_san :: san_lib
  od_extract :: "('d, 'a) extract_lib"

definition serve_env :: "('d, 'a) outside \<Rightarrow> string \<Rightarrow> Config \<Rightarrow> env" where
  "serve_env W version c =
     \<lparr>en_clock = od_clock W, en_ctx = od_ctx W,
      en_fetch = (\<lambda>n req. Ret (fst (Fetch (od_http W n) (normalize_fetch (serve_fetch version c)) (od_acquire W n) req))),
      en_parse = (\<lambda>data ct url. Ret (map_sum id Some (Parse (od_parse W) data ct url))),
      en_discover = (\<lambda>data url. Ret (Discover (od_parse W) data url)),
      en_sanitize = (\<lambda>h base. Ret (Sanitize (od_san W) h base)),
      en_extract = Extract (od_extract W), en_lib = pl_url (od_parse W)\<rparr>"

section \<open>The web server\<close>

text \<open>What else the pages need: HMAC, the text functions, XML, full-text search, character widths, which
  templates fail, the static files, the database's ping.\<close>

record web_side =
  ws_hmac :: "string \<Rightarrow> string \<Rightarrow> string"
  ws_unesc :: "string \<Rightarrow> string"
  ws_oob :: "f64 \<Rightarrow> int"
  ws_xml :: "opmlOutline list \<Rightarrow> gerr + string"
  ws_fts :: "db \<Rightarrow> string \<Rightarrow> gerr + int list"
  ws_wide :: "string \<Rightarrow> bool"
  ws_tmplErr :: "nat \<Rightarrow> bool"
  ws_static :: "string \<Rightarrow> int \<times> string"
  ws_ping :: "nat \<Rightarrow> gerr option"

definition serve_signer :: "web_side \<Rightarrow> string \<Rightarrow> Signer" where
  "serve_signer S secret = \<lparr>sg_hmac = ws_hmac S, sg_secret = secret\<rparr>"

definition expectedHost :: "url_lib \<Rightarrow> Config \<Rightarrow> string" where
  "expectedHost lib c = (case ul_Parse lib (cf_BaseURL c) of None \<Rightarrow> [] | Some u \<Rightarrow> u_Host u)"

definition serve_router ::
  "('d, 'a) outside \<Rightarrow> web_side \<Rightarrow> (int \<Rightarrow> int) \<Rightarrow> string \<Rightarrow> string \<Rightarrow> Config \<Rightarrow> router" where
  "serve_router W S rand version secret c =
     (let signer = serve_signer S secret in
      \<lparr>rt_h = \<lparr>hd_env = serve_env W version c, hd_unesc = ws_unesc S, hd_oob = ws_oob S, hd_cfg = serve_feed rand c,
         hd_rewrite = (if cf_ImageProxy c then Some (ProxyURL signer) else None), hd_errorLimit = cf_FeedErrorLimit c,
         hd_html = sn_html (od_san W), hd_marshal = ws_xml S, hd_fts = ws_fts S, hd_wide = ws_wide S,
         hd_tmplErr = ws_tmplErr S\<rparr>,
       rt_host = expectedHost (pl_url (od_parse W)) c,
       rt_img = (if cf_ImageProxy c
         then Some (\<lambda>n q. fst (ServeHTTP (od_http W n) (normalize_fetch (serve_fetch version c)) (od_acquire W n) signer q))
         else None),
       rt_static = ws_static S, rt_ready = Some (ws_ping S), rt_metrics = cf_MetricsAddr c \<noteq> []\<rparr>)"

section \<open>\<open>runServe\<close>\<close>

text \<open>What the daemon does, in order, with the configurations the pools and services get and the address and
  handler of the server; a wait is marked by whether it ended before its deadline.\<close>

datatype serve_act =
  StartPoller PoolConfig FeedServiceConfig | StartScraper PoolConfig ScrapeServiceConfig
| ListenWeb string router | ListenMetrics string | AwaitStop | ShutdownWeb | ShutdownMetrics
| PollerDone bool | ScraperDone bool | WebDrained bool | Optimize | CloseDB | StopSignals

text \<open>What it meets: the context (done once a signal has come) at the opening of the database and at the
  resolution of the key, the random key, the errors the two servers end with (other than \<open>ErrServerClosed\<close>), and
  whether poller, scraper and background operations are done in time.\<close>

record serve_run =
  sr_sys :: sys_lib
  sr_goose :: "unit op"
  sr_open_ctx :: ctx
  sr_key_ctx :: ctx
  sr_key :: "gerr + string"
  sr_web_error :: "gerr option"
  sr_metrics_error :: "gerr option"
  sr_poller_done :: bool
  sr_scraper_done :: bool
  sr_web_drained :: bool

definition serve_until_stopped :: "serve_run \<Rightarrow> router \<Rightarrow> Config \<Rightarrow> int \<times> serve_act list" where
  "serve_until_stopped R rt c =
     (let metrics = cf_MetricsAddr c \<noteq> [] in
      (if sr_web_error R \<noteq> None \<or> metrics \<and> sr_metrics_error R \<noteq> None then 1 else 0,
       [ListenWeb (cf_ListenAddr c) rt] @ (if metrics then [ListenMetrics (cf_MetricsAddr c)] else []) @ [AwaitStop, ShutdownWeb]
       @ (if metrics then [ShutdownMetrics] else [])
       @ [PollerDone (sr_poller_done R), ScraperDone (sr_scraper_done R), WebDrained (sr_web_drained R), Optimize]))"

definition runServe ::
  "('d, 'a) outside \<Rightarrow> web_side \<Rightarrow> (int \<Rightarrow> int) \<Rightarrow> string \<Rightarrow> serve_run \<Rightarrow> conn \<Rightarrow> (int \<times> serve_act list) \<times> conn" where
  "runServe W S rand version R k =
     (case Load (sr_sys R) of
        Inl e \<Rightarrow> ((1, []), k)
      | Inr c \<Rightarrow>
          (case Open (ws_unesc S) (sr_goose R) (sr_open_ctx R) k of
             (Inl e, k) \<Rightarrow> ((1, [StopSignals]), k)
           | (Inr _, k) \<Rightarrow>
               (let pools = [StartPoller (serve_poller c) (serve_feed rand c), StartScraper (serve_scraper c) (serve_scrape rand c)] in
                case (if cf_ImageProxy c then ResolveSecret (sr_key_ctx R) (sr_key R) (cf_ImageProxySecret c) k else (Inr [], k)) of
                  (Inl e, k) \<Rightarrow> ((1, pools @ [CloseDB, StopSignals]), k)
                | (Inr secret, k) \<Rightarrow>
                    (case serve_until_stopped R (serve_router W S rand version secret c) c of
                       (code, acts) \<Rightarrow> ((code, pools @ acts @ [CloseDB, StopSignals]), k)))))"

section \<open>\<open>main.go\<close>\<close>

definition runMigrate :: "cmd_lib \<Rightarrow> cmd_state \<Rightarrow> int \<times> cmd_state" where
  "runMigrate lib st =
     (case Open (cl_unescape lib) (cl_goose lib) None (xs_db st) of
        (Inl e, c) \<Rightarrow> complain (err_text e) 1 (st\<lparr>xs_db := c\<rparr>)
      | (Inr _, c) \<Rightarrow> (0, st\<lparr>xs_db := c, xs_stdout := xs_stdout st @ ''migrations applied'' @ [CHR 0x0A]\<rparr>))"

text \<open>\<open>get\<close> is \<open>http.Get\<close>: the status or an error.\<close>

definition healthcheck_url :: "sys_lib \<Rightarrow> string" where
  "healthcheck_url sys =
     (let addr = fst (LoadMinimal sys);
          port = (case net_SplitHostPort addr of None \<Rightarrow> addr | Some (h, p) \<Rightarrow> p)
      in ''http://127.0.0.1:'' @ port @ ''/healthz'')"

definition runHealthcheck :: "sys_lib \<Rightarrow> (string \<Rightarrow> gerr + int) \<Rightarrow> int" where
  "runHealthcheck sys get =
     (case get (healthcheck_url sys) of Inl e \<Rightarrow> 1 | Inr status \<Rightarrow> if status \<noteq> 200 then 1 else 0)"

text \<open>\<open>main\<close>: the command of the arguments after the program's name.\<close>

datatype command = CmdServe | CmdMigrate | CmdExport "string list" | CmdHealthcheck | CmdVersion | CmdUnknown string

definition main_command :: "string list \<Rightarrow> command" where
  "main_command args =
     (let cmd = (case args of [] \<Rightarrow> ''serve'' | a # _ \<Rightarrow> a) in
      if cmd = ''serve'' then CmdServe
      else if cmd = ''migrate'' then CmdMigrate
      else if cmd = ''export'' then CmdExport (tl args)
      else if cmd = ''healthcheck'' then CmdHealthcheck
      else if cmd = ''version'' then CmdVersion
      else CmdUnknown cmd)"

definition run_main ::
  "('d, 'a) outside \<Rightarrow> web_side \<Rightarrow> (int \<Rightarrow> int) \<Rightarrow> string \<Rightarrow> serve_run \<Rightarrow> cmd_lib \<Rightarrow> (string \<Rightarrow> gerr + int) \<Rightarrow> string list \<Rightarrow> cmd_state \<Rightarrow> int \<times> cmd_state" where
  "run_main W S rand version R lib get args st =
     (case main_command args of
        CmdServe \<Rightarrow> (case runServe W S rand version R (xs_db st) of ((code, _), c) \<Rightarrow> (code, st\<lparr>xs_db := c\<rparr>))
      | CmdMigrate \<Rightarrow> runMigrate lib st
      | CmdExport rest \<Rightarrow> runExport lib rest st
      | CmdHealthcheck \<Rightarrow> (runHealthcheck (cl_sys lib) get, st)
      | CmdVersion \<Rightarrow> (0, st\<lparr>xs_stdout := xs_stdout st @ ''bfeed '' @ version @ [CHR 0x0A]\<rparr>)
      | CmdUnknown cmd \<Rightarrow>
          complain (''unknown command '' @ Quote (sy_url (cl_sys lib)) cmd @ '' (serve|migrate|export|healthcheck|version)'') 2 st)"

end
