(* ===== verification/ServeProps.thy ===== *)
theory ServeProps
  imports Serve ScrapeProps
begin

text \<open>
  The daemon as it is wired: its schedule is the one the operator set, what it stores went through its
  sanitizer, and how it ends.
\<close>

section \<open>The configuration that runs\<close>

text \<open>Where a setting passes the checks of \<open>Load\<close>, no default of a constructor replaces it.\<close>

lemma loaded_bounds:
  assumes "Load sys = Inr c"
  shows "1 \<le> cf_FeedWorkers c" "1 \<le> cf_HostConcurrency c" "0 < cf_SchedMinInterval c"
    "cf_SchedMinInterval c < cf_SchedMaxInterval c" "\<exists>q. cf_SchedFactor c = Fin q \<and> 0 < q"
proof -
  have "f64_pos f \<Longrightarrow> f \<noteq> PInf \<Longrightarrow> \<exists>q. f = Fin q \<and> 0 < q" for f by (cases f) auto
  then show "1 \<le> cf_FeedWorkers c" "1 \<le> cf_HostConcurrency c" "0 < cf_SchedMinInterval c"
    "cf_SchedMinInterval c < cf_SchedMaxInterval c" "\<exists>q. cf_SchedFactor c = Fin q \<and> 0 < q"
    using assms by (auto simp: Load_def Let_def not_le not_less split: prod.splits option.splits if_splits sum.splits)
qed

lemma serve_feed_simps:
  assumes "Load sys = Inr c"
  shows "fc_Schedule (serve_feed rand c) =
      \<lparr>sc_MinInterval = cf_SchedMinInterval c, sc_MaxInterval = cf_SchedMaxInterval c, sc_Factor = cf_SchedFactor c\<rparr>"
    "fc_Reschedule (serve_feed rand c) = \<lparr>rc_Interval = cf_SchedMinInterval c,
       rc_MaxBackoff = (if cf_MaxBackoff c \<le> 0 then cf_SchedMaxInterval c else cf_MaxBackoff c)\<rparr>"
    "fc_Jitter (serve_feed rand c) = Some (serve_jitter rand)"
  using loaded_bounds [OF assms] by (auto simp: serve_feed_def normalize_cfg_def Let_def)

lemma serve_pools:
  assumes "Load sys = Inr c"
  shows "pc_Workers (serve_poller c) = cf_FeedWorkers c" "1 \<le> pc_Workers (serve_scraper c)"
    "1 \<le> pc_Batch (serve_poller c)" "1 \<le> pc_Batch (serve_scraper c)" "0 < pc_Tick (serve_poller c)" "0 < pc_Tick (serve_scraper c)"
    "ft_HostConcurrency (normalize_fetch (serve_fetch v c)) = cf_HostConcurrency c"
  using loaded_bounds [OF assms]
  by (auto simp: serve_poller_def serve_scraper_def normalize_poller_def normalize_scraper_def serve_fetch_def
      normalize_fetch_def Let_def Minute_def Second_def)

lemma random_jitter: "(\<And>n. 0 < n \<Longrightarrow> 0 \<le> rand n \<and> rand n < n) \<Longrightarrow> jitter_ok (fc_Jitter (serve_feed rand c))"
  using serve_jitter_ok [of rand] by (simp add: serve_feed_def normalize_cfg_def Let_def)

section \<open>What the daemon stores\<close>

lemma serve_env_clean: "clean_html (serve_env W v c) \<subseteq> range (\<lambda>(h, base). Sanitize (od_san W) h base)"
  by (auto simp: clean_html_def serve_env_def)

text \<open>A text that the parser accepts is stored as the policy's output on a tree without tracking pixels.\<close>

lemma Sanitize_tree:
  assumes "ht_document (sn_html lib) h = Some doc"
  shows "\<exists>t. Sanitize lib h base = ht_policy (sn_html lib) (fst (ht_render (sn_html lib) t)) \<and> list_all keep (below t)"
  using assms below_clean_root [of lib] by (auto simp: Sanitize_def preprocess_def)

text \<open>So the bodies the daemon's services store are outputs of its sanitizer, whatever the network answers and
  whenever clock and context change.\<close>

lemma daemon_bodies:
  assumes "range (\<lambda>(h, base). Sanitize (od_san W) h base) \<subseteq> B" and "conn_inv (bodies_in B) (w_store w)"
  shows "conn_inv (bodies_in B) (w_store (snd (PollFeed (sqlite_ops unesc) (serve_env W v c) oob (serve_feed rand c) w)))"
    and "conn_inv (bodies_in B) (w_store (snd (ResolveAndIngest (sqlite_ops unesc) (serve_env W v c) oob (serve_feed rand c) w)))"
    and "conn_inv (bodies_in B) (w_store (snd (ScrapeEntry (sqlite_ops unesc) (serve_env W v c) (serve_scrape rand c) e w)))"
proof -
  have i: "bodies.inside B (w_store w) (w_feed w)" using assms(2) by (simp add: bodies.inside_def)
  have s: "clean_html (serve_env W v c) \<subseteq> B" using serve_env_clean assms(1) by (rule subset_trans)
  show "conn_inv (bodies_in B) (w_store (snd (PollFeed (sqlite_ops unesc) (serve_env W v c) oob (serve_feed rand c) w)))"
    using holdsD [OF bodies.PollFeed_inside [OF s] i surjective_pairing] by (simp add: bodies.inside_def)
  show "conn_inv (bodies_in B) (w_store (snd (ResolveAndIngest (sqlite_ops unesc) (serve_env W v c) oob (serve_feed rand c) w)))"
    using holdsD [OF bodies.ResolveAndIngest_inside [OF s] i surjective_pairing] by (simp add: bodies.inside_def)
  show "conn_inv (bodies_in B) (w_store (snd (ScrapeEntry (sqlite_ops unesc) (serve_env W v c) (serve_scrape rand c) e w)))"
    using holdsD [OF bodies.ScrapeEntry_inside [OF s] i surjective_pairing] by (simp add: bodies.inside_def)
qed

section \<open>How it ends\<close>

text \<open>Exit code 0 means that nothing failed. A run that opened the database closes it once, as the last thing
  but the signals, and a run that came to serve requests waited for both pools and the background operations
  before that.\<close>

lemma serve_exit:
  assumes "runServe W S rand version R k = ((code, acts), k')"
  shows "code = 0 \<longleftrightarrow> (\<exists>c k1 s. Load (sr_sys R) = Inr c \<and> Open (ws_unesc S) (sr_goose R) (sr_open_ctx R) k = (Inr (), k1)
      \<and> (cf_ImageProxy c \<longrightarrow> fst (ResolveSecret (sr_key_ctx R) (sr_key R) (cf_ImageProxySecret c) k1) = Inr s)
      \<and> sr_web_error R = None \<and> (cf_MetricsAddr c \<noteq> [] \<longrightarrow> sr_metrics_error R = None))"
    and "count_list acts CloseDB \<le> 1"
    and "ListenWeb a rt \<in> set acts \<Longrightarrow> \<exists>as. acts = as @ [PollerDone (sr_poller_done R), ScraperDone (sr_scraper_done R),
      WebDrained (sr_web_drained R), Optimize, CloseDB, StopSignals] \<and> CloseDB \<notin> set as"
  using assms
  by (auto simp: runServe_def serve_until_stopped_def Let_def split: sum.splits prod.splits if_splits)

lemma serve_listens:
  assumes "runServe W S rand version R k = ((code, acts), k')" and "ListenWeb a rt \<in> set acts"
  obtains c secret where "Load (sr_sys R) = Inr c" "a = cf_ListenAddr c" "rt = serve_router W S rand version secret c"
  using assms by (auto simp: runServe_def serve_until_stopped_def Let_def split: sum.splits prod.splits if_splits)

section \<open>The schedule that runs\<close>



end
