(* ===== verification/DaemonProps.thy ===== *)
theory DaemonProps
  imports ServeProps WebProps ImgProps FetchProps ParseProps
begin

text \<open>The web server as the daemon builds it from its configuration.\<close>

text \<open>\<open>Load\<close> has refused a base URL without a host, so the host check is never off.\<close>

lemma loaded_host:
  assumes "Load sys = Inr c"
  shows "expectedHost (sy_url sys) c \<noteq> []"
  using assms
  by (auto simp: Load_def Let_def base_url_ok_def expectedHost_def split: prod.splits option.splits if_splits sum.splits)

lemma router_simps:
  "rt_host (serve_router W S rand version secret c) = expectedHost (pl_url (od_parse W)) c"
  "hd_lib (rt_h (serve_router W S rand version secret c)) = pl_url (od_parse W)"
  "hd_rewrite (rt_h (serve_router W S rand version secret c))
    = (if cf_ImageProxy c then Some (ProxyURL (serve_signer S secret)) else None)"
  by (simp_all add: serve_router_def serve_env_def Let_def)

text \<open>The name part of the host is plain: lower case, without port and brackets.\<close>

definition plain_name :: "url_lib \<Rightarrow> string \<Rightarrow> bool" where
  "plain_name lib h \<longleftrightarrow> CHR '':'' \<notin> set h \<and> CHR ''['' \<notin> set h \<and> CHR '']'' \<notin> set h \<and> ToLower (ul_lower lib) h = h"


section \<open>A sample daemon\<close>

definition sample_outside :: "(unit, unit) outside" where
  "sample_outside = \<lparr>od_clock = (\<lambda>n. int n), od_ctx = (\<lambda>_. None), od_http = (\<lambda>_. moved_host), od_acquire = (\<lambda>_. None),
     od_parse = sample_plib\<lparr>pl_url := sy_url sample_sys\<rparr>,
     od_san = \<lparr>sn_url = sy_url sample_sys, sn_resolve = (\<lambda>_ u. u), sn_html = \<lparr>ht_fragment = (\<lambda>_. None),
       ht_document = (\<lambda>_. None), ht_render = (\<lambda>d. ([], False)), ht_policy = (\<lambda>s. s)\<rparr>\<rparr>,
     od_extract = \<lparr>xl_url = sy_url sample_sys, xl_charset = (\<lambda>_ _. (\<lambda>r. r, ''utf-8'', False)), xl_NFD = (\<lambda>r. r),
       xl_Remove = (\<lambda>_ r. r), xl_NFC = (\<lambda>r. r), xl_html = (\<lambda>_. Ret (Inr ())), xl_readability = (\<lambda>_ _. Ret (Inr ())),
       xl_render = (\<lambda>_. Ret (Inr ''x''))\<rparr>\<rparr>"

definition sample_side :: web_side where
  "sample_side = \<lparr>ws_hmac = (\<lambda>k m. CHR ''x'' # m), ws_unesc = (\<lambda>s. s), ws_oob = (\<lambda>_. 0), ws_xml = (\<lambda>_. Inr []),
     ws_fts = (\<lambda>_ _. Inr []), ws_wide = (\<lambda>_. False), ws_tmplErr = (\<lambda>_. False), ws_static = (\<lambda>_. (404, [])), ws_ping = (\<lambda>_. None)\<rparr>"

definition evil_request :: request where
  "evil_request = \<lparr>hq_Method = ''POST'', hq_Path = ''/feeds'', hq_Host = ''evil'', hq_RawQuery = [], hq_PostForm = [],
     hq_Header = [], hq_Cookies = []\<rparr>"

definition sample_state :: web_state where
  "sample_state = \<lparr>wb_world = \<lparr>w_store = fresh_conn sample_db1, w_feed = zero_feed, w_trace = [], w_step = 0\<rparr>,
     wb_busy = {}, wb_jobs = [], wb_metrics = [], wb_status = None, wb_header = [], wb_body = []\<rparr>"

definition sample_start :: serve_run where
  "sample_start = \<lparr>sr_sys = sample_sys, sr_goose = returnE (), sr_open_ctx = None, sr_key_ctx = None, sr_key = Inr ''key'', sr_web_error = None, sr_metrics_error = None,
     sr_poller_done = True, sr_scraper_done = True, sr_web_drained = True\<rparr>"


end
