(* ===== verification/ExportProps.thy ===== *)
theory ExportProps
  imports Export
begin

text \<open>What the export leaves behind, whatever the driver and the operating system do.\<close>

section \<open>\<open>writeExportFile\<close>\<close>

text \<open>The contents of a directory entry.\<close>

definition file_at :: "cmd_state \<Rightarrow> string \<Rightarrow> string option" where
  "file_at st p = map_option (xs_data st) (xs_dir st p)"

definition files_ok :: "cmd_state \<Rightarrow> bool" where
  "files_ok st \<longleftrightarrow> (\<forall>p i. xs_dir st p = Some i \<longrightarrow> i < xs_next st)"

lemma CreateTemp_result:
  "CreateTemp lib dir i st = (r, st') \<Longrightarrow>
   (case r of
      Inl e \<Rightarrow> st' = st
    | Inr (name, n) \<Rightarrow> n = xs_next st \<and> (\<exists>j. name = temp_path dir (cl_random lib j)) \<and> xs_dir st (cl_entry lib name) = None
        \<and> st' = st\<lparr>xs_dir := (xs_dir st)(cl_entry lib name \<mapsto> n), xs_data := (xs_data st)(n := []), xs_next := Suc n\<rparr>)"
proof (induction lib dir i st rule: CreateTemp.induct)
  case (1 lib dir i st)
  let ?name = "temp_path dir (cl_random lib i)"
  show ?case
  proof (cases "cl_fail lib ''open'' ?name = None \<and> xs_dir st (cl_entry lib ?name) \<noteq> None \<and> Suc i < 10000")
    case True
    then have "CreateTemp lib dir (Suc i) st = (r, st')" using 1(2) by (auto simp: CreateTemp.simps [of lib dir i st] Let_def)
    with 1(1) True show ?thesis by auto
  next
    case False
    then show ?thesis
      using 1(2) by (auto simp: CreateTemp.simps [of lib dir i st] Let_def split: option.splits if_splits)
  qed
qed

text \<open>The target is replaced in one step by the whole document or not touched, no other file changes, and no
  temporary file is left unless removing it fails.\<close>

definition replaced ::
  "cmd_lib \<Rightarrow> string \<Rightarrow> string \<Rightarrow> bool \<Rightarrow> cmd_state \<Rightarrow> cmd_state \<Rightarrow> bool" where
  "replaced lib target data ok st st' \<longleftrightarrow>
     (ok \<longrightarrow> file_at st' target = Some data)
   \<and> (\<forall>p. p \<noteq> target \<or> \<not> ok \<longrightarrow> file_at st p \<noteq> None \<longrightarrow> file_at st' p = file_at st p)
   \<and> (\<forall>p. p \<noteq> target \<or> \<not> ok \<longrightarrow> file_at st p = None \<longrightarrow> file_at st' p \<noteq> None
        \<longrightarrow> (\<exists>name. cl_entry lib name = p \<and> cl_fail lib ''remove'' name \<noteq> None))"

definition same_output :: "cmd_state \<Rightarrow> cmd_state \<Rightarrow> bool" where
  "same_output st st' \<longleftrightarrow> xs_db st' = xs_db st \<and> xs_stdout st' = xs_stdout st \<and> xs_stderr st' = xs_stderr st"

lemma writeExportFile_effect:
  assumes "writeExportFile lib path data st = (r, st')" and "files_ok st"
    and "\<forall>j. cl_entry lib (temp_path (Dir path) (cl_random lib j)) \<noteq> cl_entry lib path"
  shows "replaced lib (cl_entry lib path) data (r = None) st st' \<and> same_output st st'"
proof (cases "CreateTemp lib (Dir path) 0 st")
  case (Pair t st1)
  show ?thesis
  proof (cases t)
    case (Inl e)
    then show ?thesis
      using assms(1) CreateTemp_result [OF Pair] Pair by (auto simp: writeExportFile_def replaced_def same_output_def)
  next
    case (Inr f)
    obtain name n where f: "f = (name, n)" by fastforce
    from CreateTemp_result [OF Pair] obtain j where t: "n = xs_next st" "name = temp_path (Dir path) (cl_random lib j)"
      "xs_dir st (cl_entry lib name) = None"
      "st1 = st\<lparr>xs_dir := (xs_dir st)(cl_entry lib name \<mapsto> n), xs_data := (xs_data st)(n := []), xs_next := Suc n\<rparr>"
      unfolding Inr f by auto
    have ne: "cl_entry lib name \<noteq> cl_entry lib path" using assms(3) t(2) by simp
    have fresh: "xs_dir st p \<noteq> Some n" for p using assms(2) t(1) by (auto simp: files_ok_def)
    show ?thesis
      using assms(1) ne
      by (auto simp: writeExportFile_def Pair Inr f t(3,4) fresh file_Write_def os_Rename_def os_Remove_def Let_def
          replaced_def same_output_def file_at_def split: option.splits if_splits)
  qed
qed

section \<open>The command\<close>

text \<open>The document of a database.\<close>

definition exported :: "cmd_lib \<Rightarrow> db \<Rightarrow> string \<Rightarrow> bool" where
  "exported lib d doc \<longleftrightarrow>
     (\<exists>fs cats. fst (ListFeeds None DefaultUserID (fresh_conn d)) = Inr fs
        \<and> fst (ListCategories None DefaultUserID (fresh_conn d)) = Inr cats
        \<and> MarshalOPML (cl_xml lib) (sy_url (cl_sys lib)) fs cats = Inr doc)"

definition opened :: "cmd_lib \<Rightarrow> conn \<Rightarrow> db" where
  "opened lib c = cn_db (snd (Open (cl_unescape lib) (cl_goose lib) None c))"

lemma query_reads:
  assumes "reads s" and "bindE (mapped (exec None s)) (\<lambda>rs. returnE (f rs)) c = (r, c')"
  shows "cn_db c' = cn_db c \<and> (\<forall>x. r = Inr x \<longrightarrow> fst (bindE (mapped (exec None s)) (\<lambda>rs. returnE (f rs)) (fresh_conn (cn_db c))) = Inr x)"
  using assms
  by (auto simp: bindE_def mapped_def exec_def Let_def returnE_def fresh_conn_def reads_def
      split: list.splits option.splits prod.splits sum.splits dest: spec [where x = "cn_db c"])

lemma export_lists:
  "ListFeeds None u c = (r, c') \<Longrightarrow> cn_db c' = cn_db c \<and> (\<forall>x. r = Inr x \<longrightarrow> fst (ListFeeds None u (fresh_conn (cn_db c))) = Inr x)"
  "ListCategories None u c = (q, c') \<Longrightarrow> cn_db c' = cn_db c \<and> (\<forall>x. q = Inr x \<longrightarrow> fst (ListCategories None u (fresh_conn (cn_db c))) = Inr x)"
  unfolding ListFeeds_def ListCategories_def by (rule query_reads; simp add: sql_reads)+

text \<open>What the caller sees: one line on standard error and exit code 1, or the document and 0.\<close>

definition export_seen :: "cmd_lib \<Rightarrow> string \<Rightarrow> cmd_state \<Rightarrow> int \<Rightarrow> cmd_state \<Rightarrow> bool" where
  "export_seen lib path st code st' \<longleftrightarrow>
     (if code = 0 then xs_stderr st' = xs_stderr st
        \<and> (\<exists>doc. exported lib (cn_db (xs_db st')) doc
             \<and> (if path = [] then xs_stdout st' = xs_stdout st @ doc \<and> file_at st' = file_at st
                else xs_stdout st' = xs_stdout st \<and> replaced lib (cl_entry lib path) doc True st st'))
      else code = 1 \<and> (\<exists>line. xs_stderr st' = xs_stderr st @ [line]) \<and> replaced lib (cl_entry lib path) [] False st st'
        \<and> (path \<noteq> [] \<longrightarrow> xs_stdout st' = xs_stdout st))"

lemma replaced_same: "xs_dir st' = xs_dir st \<Longrightarrow> xs_data st' = xs_data st \<Longrightarrow> replaced lib p data False st st'"
  by (simp add: replaced_def file_at_def)

lemma replaced_upd [simp]:
  "replaced lib p data ok (st\<lparr>xs_db := c\<rparr>) st' \<longleftrightarrow> replaced lib p data ok st st'"
  "replaced lib p data ok st (st'\<lparr>xs_stderr := l\<rparr>) \<longleftrightarrow> replaced lib p data ok st st'"
  by (simp_all add: replaced_def file_at_def)

lemma replaced_failed: "replaced lib p data False st st' \<longleftrightarrow> replaced lib p [] False st st'"
  by (simp add: replaced_def)

lemma export_to_seen:
  assumes "export_to lib path st = (code, st')" and "files_ok st"
    and "\<forall>j. cl_entry lib (temp_path (Dir path) (cl_random lib j)) \<noteq> cl_entry lib path"
  shows "export_seen lib path st code st' \<and> cn_db (xs_db st') = opened lib (xs_db st)"
proof -
  let ?open = "Open (cl_unescape lib) (cl_goose lib) None"
  obtain r1 c1 where o: "?open (xs_db st) = (r1, c1)" by fastforce
  then have d1: "cn_db c1 = opened lib (xs_db st)" by (simp add: opened_def)
  obtain r2 c2 where f: "ListFeeds None DefaultUserID c1 = (r2, c2)" by fastforce
  obtain r3 c3 where g: "ListCategories None DefaultUserID c2 = (r3, c3)" by fastforce
  note l = export_lists(1) [OF f] export_lists(2) [OF g]
  let ?st = "st\<lparr>xs_db := c3\<rparr>"
  have ok: "files_ok ?st" using assms(2) by (simp add: files_ok_def)
  show ?thesis
  proof (cases "\<exists>fs cats doc. r1 = Inr () \<and> r2 = Inr fs \<and> r3 = Inr cats
      \<and> MarshalOPML (cl_xml lib) (sy_url (cl_sys lib)) fs cats = Inr doc")
    case False
    then show ?thesis
      using assms(1) l d1 o f g
      by (auto simp: export_to_def db_call_def complain_def export_seen_def replaced_same split: sum.splits)
  next
    case True
    then obtain fs cats doc where r: "r1 = Inr ()" "r2 = Inr fs" "r3 = Inr cats"
      and m: "MarshalOPML (cl_xml lib) (sy_url (cl_sys lib)) fs cats = Inr doc" by blast
    obtain w st2 where w: "(if path \<noteq> [] then writeExportFile lib path doc ?st else stdout_Write lib doc ?st) = (w, st2)"
      by fastforce
    have ex: "exported lib (opened lib (xs_db st)) doc" using l d1 r m by (auto simp: exported_def)
    have run: "(code, st') = (case w of None \<Rightarrow> (0, st2) | Some e \<Rightarrow> complain (''write OPML: '' @ err_text e) 1 st2)"
      using assms(1) w o f g r m by (simp add: export_to_def db_call_def cong: if_cong split: option.splits)
    show ?thesis
    proof (cases "path = []")
      case True
      then show ?thesis
        using run w ex l d1 by (cases w) (auto simp: stdout_Write_def Let_def complain_def export_seen_def replaced_same file_at_def fun_eq_iff)
    next
      case False
      then have "replaced lib (cl_entry lib path) doc (w = None) ?st st2 \<and> same_output ?st st2"
        using writeExportFile_effect [OF _ ok assms(3)] w by simp
      then show ?thesis
        using run ex l d1 False replaced_failed [of lib "cl_entry lib path" doc]
        by (cases w) (auto simp: complain_def export_seen_def same_output_def)
    qed
  qed
qed

text \<open>C15. The export is all or nothing. Whatever the database driver and the operating system do: exit code 0
  means that the complete document of the database went to standard output, or that the target file holds
  exactly it, and nothing else was written. Exit code 1 comes with one line on standard error, and then every
  file that was there, the target included, is what it was, and with \<open>-o\<close> standard output is untouched. No
  temporary file is left behind unless the system refuses to remove it. The database is only migrated, at most.\<close>

theorem export_atomic:
  assumes "runExport lib args st = (code, st')" and "flag_Parse [] args = Parsed path []" and "files_ok st"
    and "\<forall>j. cl_entry lib (temp_path (Dir path) (cl_random lib j)) \<noteq> cl_entry lib path"
  shows "export_seen lib path st code st' \<and> cn_db (xs_db st') \<in> {cn_db (xs_db st), opened lib (xs_db st)}"
proof (cases "\<exists>i. os_Stat lib (DatabasePath lib) st = Inr i \<and> \<not> (path \<noteq> [] \<and> os_Stat lib path st = Inr i)")
  case True
  then have "export_to lib path st = (code, st')" using assms(1,2) by (auto simp: runExport_def)
  from export_to_seen [OF this assms(3,4)] show ?thesis by simp
next
  case False
  then show ?thesis
    using assms(1,2)
    by (auto simp: runExport_def complain_def export_seen_def replaced_same split: sum.splits if_splits)
qed

definition sample_cmd :: cmd_lib where
  "sample_cmd = \<lparr>cl_entry = (\<lambda>p. p), cl_fail = (\<lambda>_ _. None), cl_short = (\<lambda>_. 0), cl_random = (\<lambda>_. ''1''), cl_sys = sample_sys,
     cl_unescape = (\<lambda>s. s), cl_goose = returnE (), cl_xml = (\<lambda>_. Inr ''<opml/>'')\<rparr>"

definition sample_files :: cmd_state where
  "sample_files = \<lparr>xs_db = fresh_conn sample_db, xs_dir = [''./bfeed.db'' \<mapsto> 0, ''out.opml'' \<mapsto> 1], xs_data = (\<lambda>_. ''old''),
     xs_next = 2, xs_stdout = [], xs_stderr = []\<rparr>"

theorem export_atomic_witness:
  "\<exists>st' doc. runExport sample_cmd [''-o'', ''out.opml''] sample_files = (0, st') \<and> file_at sample_files ''out.opml'' = Some ''old''
     \<and> exported sample_cmd (cn_db (xs_db st')) doc \<and> file_at st' ''out.opml'' = Some doc"
proof -
  have "fst (runExport sample_cmd [''-o'', ''out.opml''] sample_files) = 0" by code_simp
  then obtain st' where run: "runExport sample_cmd [''-o'', ''out.opml''] sample_files = (0, st')"
    by (metis prod.collapse)
  have "flag_Parse [] [''-o'', ''out.opml''] = Parsed ''out.opml'' []" by code_simp
  moreover have "files_ok sample_files" by (auto simp: files_ok_def sample_files_def split: if_splits)
  moreover have "\<forall>j. cl_entry sample_cmd (temp_path (Dir ''out.opml'') (cl_random sample_cmd j)) \<noteq> cl_entry sample_cmd ''out.opml''"
  proof
    have "temp_path (Dir ''out.opml'') ''1'' \<noteq> ''out.opml''" by code_simp
    then show "cl_entry sample_cmd (temp_path (Dir ''out.opml'') (cl_random sample_cmd j)) \<noteq> cl_entry sample_cmd ''out.opml''" for j
      by (simp add: sample_cmd_def)
  qed
  ultimately have "export_seen sample_cmd ''out.opml'' sample_files 0 st'" using export_atomic [OF run] by blast
  then show ?thesis
    using run by (auto simp: export_seen_def replaced_def) (auto simp: sample_cmd_def file_at_def sample_files_def)
qed

end
