(* ===== verification/Spec2Isabelle.thy ===== *)
theory Spec2Isabelle
  imports ScrapeProps EditProps PageProps FetchProps FetchGuard HostLimiter WorkerPool
    ParseProps ImgProps Services Opml Config Dom MemProps WebAnswers SearchText SinkProps DaemonProps ExportProps
begin

text \<open>
  bfeed, a feed reader in Go: a model of its program code and the theorems that make it correct.

  \<^bold>\<open>The program.\<close> One process with a SQLite database. Two worker pools (\<open>internal/core/poller.go\<close>,
  \<open>scraper.go\<close>) take what is due from the store and call the feed service (\<open>feed.go\<close>: fetch, parse, sanitise,
  upsert, reschedule) and the scrape service (\<open>scrape.go\<close>: fetch, extract, sanitise, store). Both fetch through
  one client (\<open>internal/fetch\<close>) with a limiter per host and a guard against dialling private addresses. The
  web layer (\<open>internal/web\<close>) serves the pages, calls the services and starts their slow operations in the
  background; images go through a signing proxy (\<open>internal/imgproxy\<close>). All of them share the store
  (\<open>internal/store/sqlite\<close>), a clock and a metrics port. \<open>cmd/bfeed\<close> wires this from the environment
  (\<open>internal/config\<close>) and has the export command.

  \<^bold>\<open>How code becomes definitions.\<close> A definition has the name of the function it models, with a prefix where
  two types have a method of one name (\<open>fs_\<close> feed service, \<open>cs_\<close> category service, \<open>es_\<close> entry service, \<open>ss_\<close>
  search service, \<open>mem_\<close> in-memory store, \<open>sql_\<close> query, \<open>x_\<close> extractor). A Go string is a list of bytes
  (\<open>string\<close>); an \<open>int64\<close> that may wrap goes through \<open>i64\<close>; a \<open>float64\<close> is an IEEE double (\<open>f64\<close>); a time is
  nanoseconds since the epoch; a nil pointer is \<open>None\<close>; an error is a tree (\<open>gerr\<close>) that \<open>errors.Is\<close> walks; a
  panic is a value of \<open>outcome\<close>. State is passed explicitly:

  \<^item> a store operation is a function of the connection \<open>conn\<close> (tables, saved copy of an open transaction,
    script of driver faults) to an error or value and the connection after it; the context of a call may be
    done, and any statement may fail (\<open>Conn\<close>);
  \<^item> a service call is a function of the \<open>world\<close> (store of any type, feed of the call, trace of metrics,
    counter of questions) to an outcome and the world after it; the environment \<open>env\<close> answers the \<open>n\<close>-th
    question for clock, context and network arbitrarily (\<open>Service\<close>);
  \<^item> a handler is a function of \<open>web_state\<close> (world, feeds in flight, jobs started, response so far)
    (\<open>WebState\<close>);
  \<^item> concurrency is a step relation whose steps are the critical sections: \<open>lim_step\<close> (\<open>HostLimiter\<close>),
    \<open>pool_step\<close> (\<open>WorkerPool\<close>), \<open>store_step\<close> (\<open>StoreSteps\<close>), \<open>sys_step\<close> (\<open>WebRoutes\<close>).

  \<^bold>\<open>Theories and code.\<close>

  \<^item> Go itself: \<open>Prelude\<close> (shared lemmas, collections), \<open>GoInt\<close>, \<open>GoStrings\<close>, \<open>GoBytes\<close>, \<open>GoQuery\<close> (\<open>net/url\<close>
    queries), \<open>GoErrors\<close>, \<open>Float64\<close>.
  \<^item> \<open>internal/core\<close>: \<open>CoreTypes\<close> (types, errors, ports), \<open>CursorCodec\<close>, \<open>Schedule\<close> (with \<open>reschedule.go\<close>),
    \<open>Metrics\<close>, \<open>FeedUrl\<close> (pure helpers), \<open>Service\<close>, \<open>FeedService\<close>, \<open>ScrapeService\<close>, \<open>Services\<close> (categories,
    entries), \<open>Search\<close>, \<open>Opml\<close>, \<open>WorkerPool\<close>; \<open>text.go\<close> is in \<open>SqliteEntries\<close>.
  \<^item> \<open>internal/store/sqlite\<close>: \<open>SqlModel\<close> (tables and constraints after all migrations), \<open>SqlFeeds\<close>,
    \<open>SqlEntries\<close> (one definition per query of \<open>sqlc\<close>), \<open>SqlInv\<close> (they keep \<open>wf_db\<close>), \<open>Conn\<close>,
    \<open>SqliteStore\<close>, \<open>SqliteEntries\<close>, \<open>Search\<close>, \<open>Backfill\<close> (\<open>db.go\<close>).
  \<^item> \<open>internal/core/coretest\<close>: \<open>MemStore\<close>; recording metrics and stubs in \<open>MetricSinks\<close>.
  \<^item> Adapters: \<open>FetchClient\<close>, \<open>FetchGuard\<close>, \<open>HostLimiter\<close> (\<open>internal/fetch\<close>), \<open>Parse\<close>, \<open>Extract\<close>, \<open>Dom\<close>
    (\<open>sanitize.go\<close> and the reader's \<open>transform.go\<close>, on HTML trees), \<open>ImgProxy\<close>, \<open>MetricSinks\<close>
    (\<open>internal/observability\<close>).
  \<^item> \<open>internal/web\<close>: \<open>WebText\<close> (previews, relative times), \<open>WebState\<close> (preferences, in-flight set, view
    models), \<open>WebHandlers\<close>, \<open>WebRoutes\<close> (routes, middleware, matching of \<open>http.ServeMux\<close>, background steps).
  \<^item> \<open>cmd/bfeed\<close> and \<open>internal/config\<close>: \<open>Config\<close>, \<open>Export\<close>, \<open>Serve\<close> (which builds the environment of the
    services, the pools and the server from a loaded configuration, so it is where the parts meet).

  \<^bold>\<open>Interfaces.\<close> What the services rely on in a store is stated as locales, and every fact about them is proved
  once, over any store: \<open>feed_store\<close> (\<open>FeedContract\<close>; its consequences in \<open>PollContract\<close>, \<open>PollDue\<close>,
  \<open>EditContract\<close>), \<open>entry_rows\<close> (\<open>ScrapeContract\<close>), \<open>body_store\<close> (\<open>BodyContract\<close>), \<open>kept_store\<close>
  (\<open>KeptContract\<close>). Both stores of the program interpret all four: SQLite in \<open>SqliteContract\<close>, \<open>SqliteScrape\<close>
  and \<open>KeptContract\<close> (\<open>sqlite\<close>, \<open>rows\<close>, \<open>bodies\<close>, \<open>good\<close>), the in-memory one in \<open>MemContract\<close> (\<open>mem\<close>,
  \<open>mem_rows\<close>, \<open>mem_texts\<close>, \<open>mem_kept\<close>). \<open>web_frame\<close> (\<open>WebFrame\<close>) is a relation that the handlers stay in,
  interpreted for reading (\<open>quiet\<close>) and for the server's invariant (\<open>sys\<close>). \<open>poll_sink\<close> (\<open>MetricSinks\<close>) is
  what a sink of metrics shows; the recorder and Prometheus are instances.

  \<^bold>\<open>What the theorems show.\<close> The numbered ones are the properties.

  \<^item> Feeds: a poll keeps the database invariant and the user's columns in every environment
    (\<open>PollProps\<close>), emits exactly one outcome, respects the compare-and-swap on the URL and leaves the feed
    scheduled; editing and subscribing return and do exactly what they report (\<open>EditProps\<close>).
  \<^item> Articles: what a scrape may change, and that only the sanitizer's output is stored (\<open>ScrapeProps\<close>); a
    batch is all or nothing, equal to a specification by entry, and keeps the user's state (\<open>UpsertSpec\<close>,
    \<open>UpsertProps\<close>); deleted entries never return (\<open>StoreSteps\<close>); the search text is current
    (\<open>SearchText\<close>); pages visit every entry once (\<open>PageProps\<close>); the in-memory store ingests as SQLite does
    (\<open>MemProps\<close>).
  \<^item> Network: the guard (\<open>FetchGuard\<close>), the limiter (\<open>HostLimiter\<close>), redirects, caps and tokens
    (\<open>FetchProps\<close>), served images (\<open>ImgProps\<close>).
  \<^item> Content: identity keys (\<open>ParseProps\<close>), tracking and remote images removed (\<open>Dom\<close>), the match expression
    (\<open>Search\<close>), the exported document (\<open>Opml\<close>).
  \<^item> Running: the pools are safe and stop (\<open>WorkerPool\<close>), the server's invariant and its answers
    (\<open>WebProps\<close>, \<open>WebAnswers\<close>), consistent metrics (\<open>SinkProps\<close>), sound configuration (\<open>Config\<close>), the daemon's
    schedule (\<open>ServeProps\<close>) and server (\<open>DaemonProps\<close>), the atomic export (\<open>ExportProps\<close>).

  \<^bold>\<open>Arguments.\<close> Code that is not in the repository is an argument of the definitions that use it, and nothing is
  assumed of it but what a theorem states: \<open>url.Parse\<close> and \<open>URL.String\<close>, the Unicode tables, HTML parsing and
  rendering, \<open>bluemonday\<close>, Readability, \<open>gofeed\<close>, the charset sniffer, SHA-256 and HMAC, the transport below
  \<open>net/http\<close>, FTS5, goose, the XML printer, the Prometheus client (\<open>prom_ok\<close> is its documented counting), the
  operating system's files, \<open>html.UnescapeString\<close>, random numbers.

  \<^bold>\<open>Loops.\<close> There is no fuel except in the redirect loop, whose bound of five requests is the code's. Every other
  loop is a total function: by structure, or with a measure (such as the rows beyond the last id for the back-fill,
  the names not yet tried of ten thousand for \<open>CreateTemp\<close>). That the pools' \<open>Run\<close> ends is proved of the step
  relation.

  \<^bold>\<open>Not modelled.\<close> Log lines; templates (executing one is an entry of the response with its view model) and
  their scripts and styles; compression and the exposition handlers; registration and help texts of the
  metrics; the SQL text of the migrations (the model is the schema after them) and what a crash does inside one
  statement; \<open>sqlc/db.go\<close> (generated plumbing) and the system clock. The table for HTML entities and the FTS5
  ranking are library data. Text of a feed that the code passes on unread (XML, HTML) has no structure here.
\<close>

end
